(* ===== verification/Prelude.thy ===== *)
theory Prelude
  imports Main "HOL-Library.Word"
begin

text \<open>
  Shared vocabulary of the development: Rust's fixed-width unsigned integers with their checked,
  saturating and wrapping operations, the outcome of a dispatchable (success, error or panic)
  paired with the storage it leaves behind, the combinators that mirror \<open>ensure!\<close>,
  \<open>ok_or(..)?\<close>, \<open>unwrap()\<close> and the \<open>?\<close> operator, and generic facts about sums and lists that
  the component theories use.
\<close>

section \<open>Fixed-width integers\<close>

type_synonym u8 = "8 word"
type_synonym u16 = "16 word"
type_synonym u32 = "32 word"
type_synonym u64 = "64 word"
type_synonym u128 = "128 word"
type_synonym u512 = "512 word"

text \<open>
  \<open>+\<close>, \<open>-\<close> and \<open>*\<close> on words wrap, as the release build of the runtime does.
\<close>

definition checked_add :: "'a::len word \<Rightarrow> 'a word \<Rightarrow> 'a word option" where
  "checked_add a b = (if unat a + unat b < 2 ^ LENGTH('a) then Some (a + b) else None)"

definition checked_sub :: "'a::len word \<Rightarrow> 'a word \<Rightarrow> 'a word option" where
  "checked_sub a b = (if b \<le> a then Some (a - b) else None)"

definition checked_div :: "'a::len word \<Rightarrow> 'a word \<Rightarrow> 'a word option" where
  "checked_div a b = (if b = 0 then None else Some (a div b))"

definition saturating_add :: "'a::len word \<Rightarrow> 'a word \<Rightarrow> 'a word" where
  "saturating_add a b = (if unat a + unat b < 2 ^ LENGTH('a) then a + b else - 1)"

definition saturating_sub :: "'a::len word \<Rightarrow> 'a word \<Rightarrow> 'a word" where
  "saturating_sub a b = (if b \<le> a then a - b else 0)"

definition saturating_mul :: "'a::len word \<Rightarrow> 'a word \<Rightarrow> 'a word" where
  "saturating_mul a b = (if unat a * unat b < 2 ^ LENGTH('a) then a * b else - 1)"

definition unwrap_or :: "'b option \<Rightarrow> 'b \<Rightarrow> 'b" where
  "unwrap_or x d = (case x of Some v \<Rightarrow> v | None \<Rightarrow> d)"

named_theorems word_nat "translation of machine arithmetic to natural numbers"

lemma unwrap_or_simps [simp]:
  "unwrap_or (Some v) d = v"
  "unwrap_or None d = d"
  by (simp_all add: unwrap_or_def)

lemma unat_less_pow: "unat (a :: 'a::len word) < 2 ^ LENGTH('a)"
  by (rule unsigned_less)

lemma unat_plus_exact [word_nat]:
  fixes a b :: "'a::len word"
  assumes "unat a + unat b < 2 ^ LENGTH('a)"
  shows "unat (a + b) = unat a + unat b"
  using assms by (simp add: unat_word_ariths)

lemma unat_minus_exact [word_nat]:
  fixes a b :: "'a::len word"
  assumes "b \<le> a"
  shows "unat (a - b) = unat a - unat b"
  using assms by (rule unat_sub)

lemma unat_times_exact [word_nat]:
  fixes a b :: "'a::len word"
  assumes "unat a * unat b < 2 ^ LENGTH('a)"
  shows "unat (a * b) = unat a * unat b"
  using assms by (simp add: unat_word_ariths)

lemma unat_max: "unat (- 1 :: 'a::len word) = 2 ^ LENGTH('a) - 1"
  by (simp add: unsigned_minus_1_eq_mask mask_eq_exp_minus_1)

lemma unat_saturating_add [word_nat]:
  fixes a b :: "'a::len word"
  shows "unat (saturating_add a b) = min (2 ^ LENGTH('a) - 1) (unat a + unat b)"
  by (auto simp: saturating_add_def unat_plus_exact unat_max)

lemma unat_saturating_sub [word_nat]:
  fixes a b :: "'a::len word"
  shows "unat (saturating_sub a b) = unat a - unat b"
  by (auto simp: saturating_sub_def unat_minus_exact word_le_nat_alt)

lemma unat_saturating_mul [word_nat]:
  fixes a b :: "'a::len word"
  shows "unat (saturating_mul a b) = min (2 ^ LENGTH('a) - 1) (unat a * unat b)"
  by (auto simp: saturating_mul_def unat_times_exact unat_max)

lemma checked_add_Some_iff [simp]:
  fixes a b c :: "'a::len word"
  shows "checked_add a b = Some c \<longleftrightarrow> unat a + unat b < 2 ^ LENGTH('a) \<and> c = a + b"
  by (auto simp: checked_add_def)

lemma checked_add_None_iff [simp]:
  fixes a b :: "'a::len word"
  shows "checked_add a b = None \<longleftrightarrow> 2 ^ LENGTH('a) \<le> unat a + unat b"
  by (auto simp: checked_add_def not_less)

lemma checked_sub_Some_iff [simp]: "checked_sub a b = Some c \<longleftrightarrow> b \<le> a \<and> c = a - b"
  by (auto simp: checked_sub_def)

lemma checked_sub_None_iff [simp]: "checked_sub a b = None \<longleftrightarrow> a < b"
  by (auto simp: checked_sub_def not_le)

lemma checked_div_Some_iff [simp]: "checked_div a b = Some c \<longleftrightarrow> b \<noteq> 0 \<and> c = a div b"
  by (auto simp: checked_div_def)

lemma checked_div_None_iff [simp]: "checked_div a b = None \<longleftrightarrow> b = 0"
  by (auto simp: checked_div_def)

lemma unat_widen:
  fixes x :: "'a::len word"
  assumes "LENGTH('a) \<le> LENGTH('b::len)"
  shows "unat (ucast x :: 'b word) = unat x"
proof -
  have "unat x < 2 ^ LENGTH('a)" by (rule unat_less_pow)
  also have "(2::nat) ^ LENGTH('a) \<le> 2 ^ LENGTH('b)" using assms by simp
  finally have "unat x < 2 ^ LENGTH('b)" .
  then show ?thesis by (simp add: unsigned_ucast_eq take_bit_nat_eq_self)
qed

lemma unat_checked_div_or_0 [word_nat]:
  "unat (unwrap_or (checked_div a b) 0) = unat a div unat b"
  by (cases "b = 0") (simp_all add: checked_div_def unat_div)

lemma saturating_0 [simp]:
  "saturating_add a 0 = a"
  "saturating_add 0 a = a"
  "saturating_sub a 0 = a"
  "saturating_mul 0 a = 0"
  by (simp_all add: saturating_add_def saturating_sub_def saturating_mul_def unat_less_pow)

section \<open>Outcomes\<close>

text \<open>
  A dispatchable ends with a value, with an error, or with a panic. Storage is not rolled back
  on an error: FRAME of this vintage runs a dispatchable without a storage layer unless it is
  marked \<open>#[transactional]\<close>, and no pallet of this repository is. So an outcome always comes
  with the state reached.
\<close>

datatype ('e, 'a) outcome = Ok 'a | Err 'e | Panic

type_synonym ('e, 'a, 's) run = "('e, 'a) outcome \<times> 's"

text \<open>\<open>ensure!(b, e)\<close>, then the rest of the body.\<close>

definition ensure :: "bool \<Rightarrow> 'e \<Rightarrow> 's \<Rightarrow> ('e, 'a, 's) run \<Rightarrow> ('e, 'a, 's) run" where
  "ensure b e s k = (if b then k else (Err e, s))"

text \<open>\<open>let v = x.ok_or(e)?\<close>, then the rest of the body.\<close>

definition ok_or :: "'b option \<Rightarrow> 'e \<Rightarrow> 's \<Rightarrow> ('b \<Rightarrow> ('e, 'a, 's) run) \<Rightarrow> ('e, 'a, 's) run" where
  "ok_or x e s k = (case x of Some v \<Rightarrow> k v | None \<Rightarrow> (Err e, s))"

text \<open>\<open>let v = x.unwrap()\<close>, then the rest of the body.\<close>

definition unwrap :: "'b option \<Rightarrow> 's \<Rightarrow> ('b \<Rightarrow> ('e, 'a, 's) run) \<Rightarrow> ('e, 'a, 's) run" where
  "unwrap x s k = (case x of Some v \<Rightarrow> k v | None \<Rightarrow> (Panic, s))"

text \<open>\<open>let v = call?\<close>, then the rest of the body in the state the call left.\<close>

definition and_then :: "('e, 'b, 's) run \<Rightarrow> ('b \<Rightarrow> 's \<Rightarrow> ('e, 'a, 's) run) \<Rightarrow> ('e, 'a, 's) run" where
  "and_then r k = (case r of (Ok v, s) \<Rightarrow> k v s | (Err e, s) \<Rightarrow> (Err e, s) | (Panic, s) \<Rightarrow> (Panic, s))"

text \<open>\<open>if b { call?; }\<close> as a statement.\<close>

definition run_if :: "bool \<Rightarrow> ('s \<Rightarrow> ('e, unit, 's) run) \<Rightarrow> 's \<Rightarrow> ('e, unit, 's) run" where
  "run_if b f s = (if b then f s else (Ok (), s))"

named_theorems run_ok "when a guarded computation succeeds"

lemma ensure_Ok [run_ok]: "ensure b e s k = (Ok x, s') \<longleftrightarrow> b \<and> k = (Ok x, s')"
  by (simp add: ensure_def)

lemma ok_or_Ok [run_ok]: "ok_or v e s k = (Ok x, s') \<longleftrightarrow> (\<exists>y. v = Some y \<and> k y = (Ok x, s'))"
  by (cases v) (simp_all add: ok_or_def)

lemma unwrap_Ok [run_ok]: "unwrap v s k = (Ok x, s') \<longleftrightarrow> (\<exists>y. v = Some y \<and> k y = (Ok x, s'))"
  by (cases v) (simp_all add: unwrap_def)

lemma and_then_Ok [run_ok]:
  "and_then r k = (Ok x, s') \<longleftrightarrow> (\<exists>y t. r = (Ok y, t) \<and> k y t = (Ok x, s'))"
  by (cases r; cases "fst r") (auto simp: and_then_def)

lemma run_if_Ok [run_ok]:
  "run_if b f s = (Ok x, s') \<longleftrightarrow> (if b then f s = (Ok x, s') else s' = s)"
  by (auto simp: run_if_def)

lemma ensure_simps [simp]:
  "ensure True e s k = k"
  "ensure False e s k = (Err e, s)"
  by (simp_all add: ensure_def)

lemma ok_or_simps [simp]:
  "ok_or (Some v) e s k = k v"
  "ok_or None e s k = (Err e, s)"
  by (simp_all add: ok_or_def)

lemma unwrap_simps [simp]:
  "unwrap (Some v) s k = k v"
  "unwrap None s k = (Panic, s)"
  by (simp_all add: unwrap_def)

lemma and_then_simps [simp]:
  "and_then (Ok v, s) k = k v s"
  "and_then (Err e, s) k = (Err e, s)"
  "and_then (Panic, s) k = (Panic, s)"
  by (simp_all add: and_then_def)

lemma run_if_simps [simp]:
  "run_if True f s = f s"
  "run_if False f s = (Ok (), s)"
  by (simp_all add: run_if_def)

text \<open>
  A predicate on states that holds before a guarded computation holds after it, whatever the
  outcome, when the continuation keeps it.
\<close>

definition keeps :: "('s \<Rightarrow> bool) \<Rightarrow> ('e, 'a, 's) run \<Rightarrow> bool" where
  "keeps P r \<longleftrightarrow> P (snd r)"

named_theorems run_keeps "invariants of states through the combinators"

lemma return_keeps [run_keeps]: "P s \<Longrightarrow> keeps P (r, s)"
  by (simp add: keeps_def)

lemma ensure_keeps [run_keeps]:
  "P s \<Longrightarrow> (b \<Longrightarrow> keeps P k) \<Longrightarrow> keeps P (ensure b e s k)"
  by (simp add: keeps_def ensure_def)

lemma ok_or_keeps [run_keeps]:
  "P s \<Longrightarrow> (\<And>y. v = Some y \<Longrightarrow> keeps P (k y)) \<Longrightarrow> keeps P (ok_or v e s k)"
  by (cases v) (simp_all add: keeps_def)

lemma unwrap_keeps [run_keeps]:
  "P s \<Longrightarrow> (\<And>y. v = Some y \<Longrightarrow> keeps P (k y)) \<Longrightarrow> keeps P (unwrap v s k)"
  by (cases v) (simp_all add: keeps_def)

lemma and_then_keeps [run_keeps]:
  "keeps P r \<Longrightarrow> (\<And>y t. r = (Ok y, t) \<Longrightarrow> P t \<Longrightarrow> keeps P (k y t)) \<Longrightarrow> keeps P (and_then r k)"
  by (cases r; cases "fst r") (auto simp: keeps_def)

lemma run_if_keeps [run_keeps]:
  "P s \<Longrightarrow> (b \<Longrightarrow> keeps P (f s)) \<Longrightarrow> keeps P (run_if b f s)"
  by (simp add: keeps_def run_if_def)

lemma if_keeps [run_keeps]:
  "(b \<Longrightarrow> keeps P x) \<Longrightarrow> (\<not> b \<Longrightarrow> keeps P y) \<Longrightarrow> keeps P (if b then x else y)"
  by simp

lemma option_keeps [run_keeps]:
  "(v = None \<Longrightarrow> keeps P x) \<Longrightarrow> (\<And>y. v = Some y \<Longrightarrow> keeps P (k y)) \<Longrightarrow> keeps P (case v of None \<Rightarrow> x | Some y \<Rightarrow> k y)"
  by (cases v) simp_all

lemma keepsD: "keeps P r \<Longrightarrow> r = (x, s) \<Longrightarrow> P s"
  by (simp add: keeps_def)

text \<open>A computation that cannot panic.\<close>

definition no_panic :: "('e, 'a, 's) run \<Rightarrow> bool" where
  "no_panic r \<longleftrightarrow> fst r \<noteq> Panic"

named_theorems run_total "computations that cannot panic"

lemma return_total [run_total]: "no_panic (Ok x, s)" "no_panic (Err e, s)"
  by (simp_all add: no_panic_def)

lemma ensure_total [run_total]: "(b \<Longrightarrow> no_panic k) \<Longrightarrow> no_panic (ensure b e s k)"
  by (simp add: no_panic_def ensure_def)

lemma ok_or_total [run_total]: "(\<And>y. v = Some y \<Longrightarrow> no_panic (k y)) \<Longrightarrow> no_panic (ok_or v e s k)"
  by (cases v) (simp_all add: no_panic_def)

lemma unwrap_total [run_total]: "v \<noteq> None \<Longrightarrow> (\<And>y. v = Some y \<Longrightarrow> no_panic (k y)) \<Longrightarrow> no_panic (unwrap v s k)"
  by (cases v) simp_all

lemma and_then_total [run_total]:
  "no_panic r \<Longrightarrow> (\<And>y t. r = (Ok y, t) \<Longrightarrow> no_panic (k y t)) \<Longrightarrow> no_panic (and_then r k)"
  by (cases r; cases "fst r") (auto simp: no_panic_def)

lemma run_if_total [run_total]: "(b \<Longrightarrow> no_panic (f s)) \<Longrightarrow> no_panic (run_if b f s)"
  by (simp add: no_panic_def run_if_def)

lemma if_total [run_total]: "(b \<Longrightarrow> no_panic x) \<Longrightarrow> (\<not> b \<Longrightarrow> no_panic y) \<Longrightarrow> no_panic (if b then x else y)"
  by simp

section \<open>Vectors\<close>

text \<open>\<open>iter().position(p)\<close> and \<open>Vec::remove(i)\<close>.\<close>

fun position :: "('a \<Rightarrow> bool) \<Rightarrow> 'a list \<Rightarrow> nat option" where
  "position p [] = None"
| "position p (x # xs) = (if p x then Some 0 else map_option Suc (position p xs))"

definition remove_nth :: "nat \<Rightarrow> 'a list \<Rightarrow> 'a list" where
  "remove_nth i xs = take i xs @ drop (Suc i) xs"

lemma position_None: "position (\<lambda>y. y = x) xs = None \<longleftrightarrow> x \<notin> set xs"
  by (induction xs) auto

lemma position_Some:
  "position (\<lambda>y. y = x) xs = Some i \<Longrightarrow> x \<in> set xs \<and> remove_nth i xs = remove1 x xs"
  by (induction xs arbitrary: i) (auto simp: remove_nth_def split: if_splits)

lemma position_SomeD:
  "position p xs = Some i \<Longrightarrow> i < length xs \<and> p (xs ! i)"
  by (induction xs arbitrary: i) (auto split: if_splits)

lemma length_remove_nth: "i < length xs \<Longrightarrow> length (remove_nth i xs) = length xs - 1"
  by (auto simp: remove_nth_def)

section \<open>Sums over a finite type\<close>

lemma sum_change:
  fixes f h :: "'a::finite \<Rightarrow> nat"
  assumes "\<And>x. x \<noteq> a \<Longrightarrow> f x = h x"
  shows "(\<Sum>x\<in>UNIV. f x) + h a = (\<Sum>x\<in>UNIV. h x) + f a"
proof -
  have "(\<Sum>x\<in>UNIV - {a}. f x) = (\<Sum>x\<in>UNIV - {a}. h x)" using assms by (intro sum.cong) auto
  then show ?thesis
    using sum.remove [of UNIV a f] sum.remove [of UNIV a h] by simp
qed

end
