(* ===== verification/Runtime_Types.thy ===== *)
theory Runtime_Types
  imports Prelude
begin

text \<open>
  The types every pallet shares: the node primitives (accounts, balances, token symbols, chain
  ids), the error and event enumerations declared by each pallet's \<open>decl_error!\<close> and
  \<open>decl_event!\<close> with the outer enumerations that \<open>construct_runtime!\<close> builds from them, the
  dispatch origins, the part of the system pallet the others read (block number, event log), and
  the record of external code the pallets call (the native currency, address lookup, module
  accounts, rational multiplication, per-billion arithmetic).
\<close>

section \<open>Primitives\<close>

type_synonym AccountId = "256 word"
type_synonym Hash = "256 word"
type_synonym bytes = "u8 list"
type_synonym Balance = u128
type_synonym BlockNumber = u32
type_synonym EraIndex = u32
type_synonym ChainId = u8
type_synonym DepositNonce = u64
type_synonym ResourceId = bytes
type_synonym RateType = u64
type_synonym Perbill = u32
type_synonym U256 = "256 word"

datatype (plugins only: code) RSymbol = RFIS | RDOT | RKSM | RATOM | RSOL | RMATIC | RBNB | RETH

datatype (plugins only: code) XSymbol = WRA

datatype (plugins only: code) ChainType = Substrate | Tendermint | Solana | Ethereum

fun chain_type :: "RSymbol \<Rightarrow> ChainType" where
  "chain_type RFIS = Substrate"
| "chain_type RDOT = Substrate"
| "chain_type RKSM = Substrate"
| "chain_type RATOM = Tendermint"
| "chain_type RSOL = Solana"
| "chain_type RMATIC = Ethereum"
| "chain_type RBNB = Ethereum"
| "chain_type RETH = Ethereum"

definition ETH_CHAIN_ID :: ChainId where "ETH_CHAIN_ID = 2"

definition BSC_CHAIN_ID :: ChainId where "BSC_CHAIN_ID = 3"

datatype (plugins only: code) BondReason = Pass | BlockhashUnmatch | TxhashUnmatch | PubkeyUnmatch | PoolUnmatch | AmountUnmatch

datatype (plugins only: code) OriginalTxType = TxTransfer | TxBond | TxUnbond | TxWithdrawUnbond | TxClaimRewards

section \<open>Errors\<close>

datatype (plugins only: code) rfis_error =
    ModuleIDLengthNotEight | ModuleIDRepeated | PoolNotFound | Overflow | PoolUnbond | PoolLimitReached
  | LiquidityBondZero | LiquidityUnbondZero | InsufficientBalance | ValidatorLimitReached
  | NoAssociatedValidatorId | AlreadyOnboard | NotOnboard | NoSessionKey | NoCurrentEra | NotCurrentEra
  | TotalBondedBeforeNotSubmitted | HasNoUnbonding | NominateSwitchClosed | PoolAlreadyUnlocked
  | EraRateNotUpdated | ValidatorAlreadyPaidout | PoolAlreadyNominated | UnlockChunkEraTooSmall
  | UnlockChunkValueTooBig | NoChunkToWithdraw

text \<open>The errors of \<open>pallet_staking\<close> that \<open>rtoken/rfis\<close> returns.\<close>

datatype (plugins only: code) staking_error = AlreadyBonded | AlreadyPaired | NotController | CallNotAllowed | NoMoreChunks

datatype (plugins only: code) balances_error = LiquidityRestrictions | Overflow | InsufficientBalance

datatype (plugins only: code) relayers_error = InvalidThreshold | RelayerAlreadyExists | RelayerInvalid | MustBeRelayer

datatype (plugins only: code) payers_error = InvalidThreshold | PayerAlreadyExists | PayerInvalid | MustBePayer

datatype (plugins only: code) bridge_error =
    ThresholdNotSet | InvalidThreshold | InvalidChainId | ChainNotWhitelisted
  | ChainAlreadyWhitelisted | InvalidProxyAccount | ResourceDoesNotExist | RelayerAlreadyExists
  | RelayerInvalid | MustBeRelayer | RelayerAlreadyVoted | ProposalAlreadyExists
  | ProposalDoesNotExist | ProposalNotPassed | ProposalAlreadyCompleted | ProposalExpired
  | ServicePaused | InvalidChainFee | InvalidEthereumAddress | InvalidFeesRecipientAccount
  | RsymbolNotMapped

datatype (plugins only: code) bridge_swap_error =
    InsufficientRbalance | InsufficientXbalance | RsymbolNotMapped | XsymbolNotMapped
  | ResourceNotMapped

datatype (plugins only: code) ledger_error =
    OverFlow | PoolAlreadyAdded | PoolNotFound | PoolNotBonded | RepeatInitBond | NoReceiver
  | NewBondingDurationZero | EraSkipped | LastVoterNobody | SnapShotNotFound
  | ShotIdAlreadyProcessed | ActiveAlreadySet | BondReported | TransferReported
  | StateNotEraUpdated | StateNotBondReported | StateNotActiveReported
  | StateNotWithdrawReported | LastEraNotContinuable | RateIsNone | ActionNotSupported

datatype (plugins only: code) votes_error = ProposalDoesNotExist | ProposalExpired

datatype (plugins only: code) series_error =
    BondSwitchClosed | InvalidProxyAccount | PoolNotFound | NoRelayFeesReceiver
  | LiquidityBondZero | TxhashUnavailable | TxhashUnexecutable | BondRepeated | InvalidRSymbol
  | InvalidPubkey | InvalidSignature | OverFlow | PoolLimitReached | BondNotFound
  | BondProcessing | LiquidityUnbondZero | NoMoreUnbondingChunks | NoCurrentEra | InvalidEra
  | EraRateNotUpdated | EraRateAlreadyUpdated | Insufficient | BondingDurationNotSet
  | SignatureRepeated | NominationsInitialized | ExpireNotSet | SwapNotExist

datatype (plugins only: code) rclaim_error =
    HasNoClaimInfo | HasNoAct | ValueZero | InvalidREthRewarder | InsufficientFis
  | NoFundAddress | InvalidPubkey | EthSigsFailed | PubkeyAndValueNumberErr

datatype (plugins only: code) xclaim_error =
    HasNoClaim | PotUnderflow | ValueZero | InvalidProxyAccount | OverFlow | InsufficientXbalance

datatype (plugins only: code) rdex_swap_error =
    AmountZero | AmountAllZero | PoolAlreadyExist | PoolNotExist | UserRTokenAmountNotEnough
  | UserFisAmountNotEnough | PoolFisBalanceNotEnough | PoolRTokenBalanceNotEnough
  | UnitAmountImproper | NoGuardPool | SwapAmountTooFew | LessThanMinOutAmount
  | AddLpUnitIsZero | PoolOneSideZero | AddLpNotAllowed

datatype (plugins only: code) mining_error =
    AmountZero | StakePoolNotExist | SwapPoolNotExist | StakeUserNotExist | NoGuardAddress
  | EmergencySwitchIsOpen | EmergencySwitchIsClose | LpBalanceNotEnough | StakeLpNotEnough
  | CalPoolDuBlockErr | UnLockWillAfterEndErr | LpStillLocked | GradeIndexOverflow
  | LpBalanceNotEmpty | DepositNotAllowed

datatype (plugins only: code) rdexn_signatures_error = SignatureRepeated | InvalidRSymbol

datatype (plugins only: code) rdexn_swap_error =
    PriceZero | ParamsErr | ReceiverInvalid | SwapTotalClosed | SwapRtokenClosed | NoFundAddress
  | NoNativePoolAddress | RTokenAmountNotEnough | RTokenRateFailed | SwapRateFailed
  | OverSwapLimitPerBlock | NativeTokenReserveNotEnough | LessThanMinOutAmount | OverFlow
  | VoterRepeat | GetTransInfoFailed

text \<open>
  \<open>DispatchError\<close>: \<open>Other\<close> carries the string literals some guards use; \<open>Foreign\<close> stands for
  the errors of pallets outside this repository (for instance the native currency).
\<close>

datatype (plugins only: code) dispatch_error =
    Other string
  | CannotLookup
  | BadOrigin
  | Foreign nat
  | RBalancesErr balances_error
  | XBalancesErr balances_error
  | LpBalancesErr balances_error
  | BridgeRelayersErr relayers_error
  | RTokenRelayersErr relayers_error
  | RDexnPayersErr payers_error
  | BridgeErr bridge_error
  | BridgeSwapErr bridge_swap_error
  | LedgerErr ledger_error
  | VotesErr votes_error
  | SeriesErr series_error
  | RClaimErr rclaim_error
  | XClaimErr xclaim_error
  | RDexSwapErr rdex_swap_error
  | RDexMiningErr mining_error
  | RDexnSignaturesErr rdexn_signatures_error
  | RDexnSwapErr rdexn_swap_error
  | RFisErr rfis_error
  | StakingErr staking_error

section \<open>Events\<close>

datatype (plugins only: code) rfis_event =
    NewPool bytes AccountId
  | CommissionUpdated Perbill Perbill
  | MaxValidatorCommissionUpdated Perbill Perbill
  | PoolBalanceLimitUpdated Balance Balance
  | LiquidityBond AccountId AccountId Balance u128
  | LiquidityUnBond AccountId AccountId u128 u128 Balance
  | LiquidityWithdrawUnBond AccountId AccountId Balance
  | ValidatorOnboard AccountId AccountId
  | ValidatorOffboard AccountId AccountId
  | TotalBondedBeforePayout EraIndex Balance
  | ValidatorPaidout EraIndex AccountId AccountId bool
  | TotalBondedAfterPayout EraIndex Balance
  | NominateSwitchToggle bool
  | MinNominationNumSet u8
  | MaxNominationNumSet u8
  | NominationUpdated EraIndex "AccountId list" AccountId

datatype (plugins only: code) 'sym balances_event =
    Transfer AccountId AccountId 'sym u128
  | Minted AccountId 'sym u128
  | Burned AccountId 'sym u128

datatype (plugins only: code) 'k relayers_event =
    RelayerThresholdChanged 'k u32
  | RelayerAdded 'k AccountId
  | RelayerRemoved 'k AccountId

datatype (plugins only: code) payers_event =
    PayerThresholdChanged RSymbol u32
  | PayerAdded RSymbol AccountId
  | PayerRemoved RSymbol AccountId

datatype (plugins only: code) rate_event = RateSet RSymbol RateType

datatype (plugins only: code) bridge_event =
    RelayerThresholdChanged u32
  | RelayerAdded AccountId
  | RelayerRemoved AccountId
  | ChainWhitelisted ChainId
  | ChainRemoved ChainId
  | FungibleTransfer AccountId ChainId DepositNonce ResourceId U256 bytes
  | ChainFeesSet ChainId Balance
  | VoteFor ChainId DepositNonce AccountId
  | VoteAgainst ChainId DepositNonce AccountId
  | ProposalPassed ChainId DepositNonce
  | ProposalCancelled ChainId DepositNonce
  | ProposalExecuted ChainId DepositNonce

datatype (plugins only: code) ledger_event =
    EraUpdated RSymbol u32 u32
  | EraPoolUpdated RSymbol u32 Hash AccountId
  | BondingDurationUpdated RSymbol u32 u32
  | CommissionUpdated Perbill Perbill
  | PoolAdded RSymbol bytes
  | PoolSubAccountAdded RSymbol bytes bytes
  | BondReported RSymbol Hash AccountId
  | ActiveReported RSymbol Hash AccountId
  | WithdrawReported RSymbol Hash AccountId
  | TransferReported RSymbol Hash

datatype (plugins only: code) votes_event =
    VoteFor AccountId RSymbol Hash
  | VoteAgainst AccountId RSymbol Hash

datatype (plugins only: code) series_event =
    LiquidityBond AccountId RSymbol Hash
  | LiquidityUnBond AccountId RSymbol bytes u128 u128 u128 bytes
  | LiquidityWithdrawUnBond AccountId RSymbol bytes bytes u128
  | UnbondCommissionUpdated Perbill Perbill
  | BondFeesSet RSymbol Balance
  | UnbondFeesSet RSymbol Balance
  | PoolBalanceLimitUpdated RSymbol u128 u128
  | SubmitSignatures AccountId RSymbol u32 bytes OriginalTxType bytes bytes
  | SignaturesEnough RSymbol u32 bytes OriginalTxType bytes
  | NominationUpdated RSymbol bytes "bytes list" u32 AccountId
  | ValidatorUpdated RSymbol bytes bytes bytes u32
  | SwapFeeRefunded RSymbol Hash

datatype (plugins only: code) rclaim_event =
    RTokenClaimed AccountId RSymbol u128
  | REthClaimed AccountId u128

datatype (plugins only: code) xclaim_event = Claimed AccountId XSymbol u128

datatype (plugins only: code) rdex_swap_event =
    Swap AccountId RSymbol u128 u128 u128 bool u128 u128
  | CreatePool AccountId RSymbol u128 u128 u128 u128
  | AddLiquidity AccountId RSymbol u128 u128 u128 u128 u128 u128
  | RemoveLiquidity AccountId RSymbol u128 u128 u128 u128 bool u128 u128

datatype (plugins only: code) mining_event =
    Deposit AccountId RSymbol u32 u32 u32 u128
  | Withdraw AccountId RSymbol u32 u32 u32 u128 u128 u128
  | ClaimReward AccountId RSymbol u32 u32 u32 u128
  | EmergencyWithdraw AccountId RSymbol u32 u32 u32 u128
  | AddPool RSymbol u32 u32 u32 u32 u128 u128 bool
  | RmPool RSymbol u32 u32

datatype (plugins only: code) rdexn_signatures_event = SubmitSignatures AccountId RSymbol u64 bytes bytes

datatype (plugins only: code) rdexn_swap_event =
    SwapRTokenToNative AccountId bytes RSymbol u64 Balance u128 u128 u64 u128
  | SwapRFisToFis AccountId AccountId u128 u128 u64 u128
  | ReportTransResultWithBlock AccountId RSymbol u64
  | ReportTransResultWithIndex AccountId RSymbol u64 u32
  | ReportTransResultWithIndexBlockEnd AccountId RSymbol u64

datatype (plugins only: code) event =
    RBalancesEv "RSymbol balances_event"
  | XBalancesEv "XSymbol balances_event"
  | LpBalancesEv "RSymbol balances_event"
  | BridgeRelayersEv "ChainId relayers_event"
  | RTokenRelayersEv "RSymbol relayers_event"
  | RDexnPayersEv payers_event
  | RTokenRateEv rate_event
  | BridgeEv bridge_event
  | LedgerEv ledger_event
  | VotesEv votes_event
  | SeriesEv series_event
  | RClaimEv rclaim_event
  | XClaimEv xclaim_event
  | RDexSwapEv rdex_swap_event
  | RDexMiningEv mining_event
  | RDexnSignaturesEv rdexn_signatures_event
  | RDexnSwapEv rdexn_swap_event
  | RFisEv rfis_event

section \<open>Origins\<close>

datatype (plugins only: code) origin = Root | Signed AccountId | Unsigned

definition ensure_root :: "origin \<Rightarrow> 's \<Rightarrow> (dispatch_error, 'a, 's) run \<Rightarrow> (dispatch_error, 'a, 's) run" where
  "ensure_root o' s k = (case o' of Root \<Rightarrow> k | _ \<Rightarrow> (Err BadOrigin, s))"

definition ensure_signed ::
    "origin \<Rightarrow> 's \<Rightarrow> (AccountId \<Rightarrow> (dispatch_error, 'a, 's) run) \<Rightarrow> (dispatch_error, 'a, 's) run" where
  "ensure_signed o' s k = (case o' of Signed who \<Rightarrow> k who | _ \<Rightarrow> (Err BadOrigin, s))"

lemma ensure_root_Ok [run_ok]: "ensure_root o' s k = (Ok x, s') \<longleftrightarrow> o' = Root \<and> k = (Ok x, s')"
  by (cases o') (auto simp: ensure_root_def)

lemma ensure_signed_Ok [run_ok]:
  "ensure_signed o' s k = (Ok x, s') \<longleftrightarrow> (\<exists>who. o' = Signed who \<and> k who = (Ok x, s'))"
  by (cases o') (auto simp: ensure_signed_def)

lemma ensure_root_simps [simp]:
  "ensure_root Root s k = k"
  "ensure_root (Signed w) s k = (Err BadOrigin, s)"
  "ensure_root Unsigned s k = (Err BadOrigin, s)"
  by (simp_all add: ensure_root_def)

lemma ensure_signed_simps [simp]:
  "ensure_signed Root s j = (Err BadOrigin, s)"
  "ensure_signed (Signed w) s j = j w"
  "ensure_signed Unsigned s j = (Err BadOrigin, s)"
  by (simp_all add: ensure_signed_def)

lemma ensure_root_keeps [run_keeps]:
  "P s \<Longrightarrow> (o' = Root \<Longrightarrow> keeps P k) \<Longrightarrow> keeps P (ensure_root o' s k)"
  by (cases o') (simp_all add: keeps_def)

lemma ensure_signed_keeps [run_keeps]:
  "P s \<Longrightarrow> (\<And>who. o' = Signed who \<Longrightarrow> keeps P (k who)) \<Longrightarrow> keeps P (ensure_signed o' s k)"
  by (cases o') (simp_all add: keeps_def)

lemma ensure_root_total [run_total]: "(o' = Root \<Longrightarrow> no_panic k) \<Longrightarrow> no_panic (ensure_root o' s k)"
  by (cases o') (simp_all add: no_panic_def)

lemma ensure_signed_total [run_total]:
  "(\<And>who. o' = Signed who \<Longrightarrow> no_panic (k who)) \<Longrightarrow> no_panic (ensure_signed o' s k)"
  by (cases o') (simp_all add: no_panic_def)

section \<open>System state and external code\<close>

text \<open>
  The slice of the system pallet that the others read and write, and the state of the native
  currency, which is kept abstract: it belongs to \<open>pallet_balances\<close>. Each component theory
  extends this record with the storage of its own pallet, so an operation of one pallet runs
  unchanged on the state of the whole runtime.
\<close>

record 'c system =
  block_number :: BlockNumber
  events :: "event list"
  native :: 'c

definition deposit_event :: "event \<Rightarrow> ('c, 'z) system_scheme \<Rightarrow> ('c, 'z) system_scheme" where
  "deposit_event e s = s\<lparr>events := events s @ [e]\<rparr>"

text \<open>
  Code outside the repository and constants of the pallets' configuration traits. The native
  currency's \<open>transfer\<close> is only called with \<open>KeepAlive\<close>. A lookup source is passed encoded.
\<close>

record 'c config =
  currency_free_balance :: "'c \<Rightarrow> AccountId \<Rightarrow> u128"
  currency_transfer :: "AccountId \<Rightarrow> AccountId \<Rightarrow> u128 \<Rightarrow> 'c \<Rightarrow> (dispatch_error, unit, 'c) run"
  lookup :: "bytes \<Rightarrow> AccountId option"
  into_account :: "string \<Rightarrow> AccountId"
  multiply_by_rational :: "u128 \<Rightarrow> u128 \<Rightarrow> u128 \<Rightarrow> u128 option"
  perbill_mul :: "Perbill \<Rightarrow> u128 \<Rightarrow> u128"
  perbill_from_parts :: "u32 \<Rightarrow> Perbill"
  admin_origin :: "origin \<Rightarrow> bool"
  ChainIdentity :: ChainId
  ProposalLifetime :: BlockNumber

definition native_free_balance :: "'c config \<Rightarrow> AccountId \<Rightarrow> ('c, 'z) system_scheme \<Rightarrow> u128" where
  "native_free_balance X who s = currency_free_balance X (native s) who"

definition native_transfer ::
    "'c config \<Rightarrow> AccountId \<Rightarrow> AccountId \<Rightarrow> u128 \<Rightarrow> ('c, 'z) system_scheme
     \<Rightarrow> (dispatch_error, unit, ('c, 'z) system_scheme) run" where
  "native_transfer X from to v s =
     (case currency_transfer X from to v (native s) of (r, c) \<Rightarrow> (r, s\<lparr>native := c\<rparr>))"

text \<open>
  What the pallets rely on, by the documentation of the code outside the repository.
  \<open>multiply_by_rational a b c\<close> is \<open>a * b / c\<close> rounded down, or an error when it does not fit.
  Multiplying by a \<open>Perbill\<close> of at most one never increases a value. A transfer of the native
  currency that succeeds moves exactly the value, needs it to be there unless it is to oneself,
  and touches no third account; one that fails changes nothing, and none panics.
\<close>

definition mul_rational_ok :: "'c config \<Rightarrow> bool" where
  "mul_rational_ok X \<longleftrightarrow>
     (\<forall>a b c. c \<noteq> 0 \<longrightarrow>
        multiply_by_rational X a b c =
          (if unat a * unat b div unat c < 2 ^ 128
           then Some (word_of_nat (unat a * unat b div unat c)) else None))"

definition perbill_ok :: "'c config \<Rightarrow> bool" where
  "perbill_ok X \<longleftrightarrow> (\<forall>p v. p \<le> 1000000000 \<longrightarrow> perbill_mul X p v \<le> v)"

definition currency_ok :: "'c config \<Rightarrow> bool" where
  "currency_ok X \<longleftrightarrow>
     (\<forall>a b v c c'. currency_transfer X a b v c = (Ok (), c') \<longrightarrow>
        (\<forall>w. unat (currency_free_balance X c' w) + (if w = a then unat v else 0)
           = unat (currency_free_balance X c w) + (if w = b then unat v else 0))
        \<and> (a = b \<or> v \<le> currency_free_balance X c a))
   \<and> (\<forall>a b v c e c'. currency_transfer X a b v c = (Err e, c') \<longrightarrow> c' = c)
   \<and> (\<forall>a b v c c'. currency_transfer X a b v c \<noteq> (Panic, c'))"

text \<open>
  A concrete instance of the external code, on which these hypotheses hold and the definitions
  can be evaluated: the native currency is a function from accounts to balances.
\<close>

definition plain_transfer ::
    "AccountId \<Rightarrow> AccountId \<Rightarrow> u128 \<Rightarrow> (AccountId \<Rightarrow> u128) \<Rightarrow> (dispatch_error, unit, AccountId \<Rightarrow> u128) run" where
  "plain_transfer a b v c =
     (if v = 0 \<or> a = b then (Ok (), c)
      else if c a < v then (Err (Foreign 0), c)
      else if 2 ^ 128 \<le> unat (c b) + unat v then (Err (Foreign 1), c)
      else (Ok (), c(a := c a - v, b := c b + v)))"

definition plain_number :: "bytes \<Rightarrow> AccountId" where
  "plain_number bs = foldl (\<lambda>n b. n * 256 + ucast b) 0 bs"

definition plain_config :: "(AccountId \<Rightarrow> u128) config" where
  "plain_config = \<lparr>
     currency_free_balance = (\<lambda>c. c),
     currency_transfer = plain_transfer,
     lookup = (\<lambda>bs. Some (plain_number bs)),
     into_account = (\<lambda>id. plain_number (map of_char id)),
     multiply_by_rational = (\<lambda>a b c.
       if unat a * unat b div unat c < 2 ^ 128 then Some (word_of_nat (unat a * unat b div unat c)) else None),
     perbill_mul = (\<lambda>p v. word_of_nat (unat v * min (unat p) (10 ^ 9) div 10 ^ 9)),
     perbill_from_parts = (\<lambda>p. min p 1000000000),
     admin_origin = (\<lambda>_. False),
     ChainIdentity = 1,
     ProposalLifetime = 100\<rparr>"

lemma plain_config_simps [simp]:
  "currency_free_balance plain_config c = c"
  "currency_transfer plain_config = plain_transfer"
  "lookup plain_config bs = Some (plain_number bs)"
  "into_account plain_config m = plain_number (map of_char m)"
  "multiply_by_rational plain_config a b d =
     (if unat a * unat b div unat d < 2 ^ 128 then Some (word_of_nat (unat a * unat b div unat d)) else None)"
  "perbill_mul plain_config p v = word_of_nat (unat v * min (unat p) (10 ^ 9) div 10 ^ 9)"
  "perbill_from_parts plain_config p = min p 1000000000"
  "\<not> admin_origin plain_config o'"
  "ChainIdentity plain_config = 1"
  "ProposalLifetime plain_config = 100"
  by (simp_all add: plain_config_def)

lemma plain_mul_rational_ok: "mul_rational_ok plain_config"
  by (simp add: mul_rational_ok_def plain_config_def)

lemma plain_perbill_ok: "perbill_ok plain_config"
proof -
  have "unat (word_of_nat (unat v * min (unat p) (10 ^ 9) div 10 ^ 9) :: u128) \<le> unat v"
    for p :: Perbill and v :: u128
  proof -
    have "unat v * min (unat p) (10 ^ 9) div 10 ^ 9 \<le> unat v * 10 ^ 9 div 10 ^ 9"
      by (intro div_le_mono mult_le_mono) simp_all
    also have "\<dots> = unat v" by simp
    finally show ?thesis
      by (simp add: unat_of_nat)
  qed
  then have "perbill_mul plain_config p v \<le> v" for p v
    by (simp add: plain_config_def word_le_nat_alt)
  then show ?thesis
    by (simp only: perbill_ok_def) blast
qed

lemma plain_currency_ok: "currency_ok plain_config"
  by (auto simp: currency_ok_def plain_config_def plain_transfer_def word_nat word_le_nat_alt
      word_less_nat_alt split: if_splits)

lemmas plain_ok = plain_mul_rational_ok plain_perbill_ok plain_currency_ok

lemma mul_rational_SomeD:
  assumes "mul_rational_ok X" "multiply_by_rational X a b c = Some r" "c \<noteq> 0"
  shows "unat r = unat a * unat b div unat c"
  using assms by (auto simp: mul_rational_ok_def unat_of_nat split: if_splits)

lemma deposit_event_simps [simp]:
  "block_number (deposit_event e s) = block_number s"
  "native (deposit_event e s) = native s"
  "events (deposit_event e s) = events s @ [e]"
  by (simp_all add: deposit_event_def)

lemma native_transfer_Ok_iff:
  "native_transfer X a b v s = (Ok u, s') \<longleftrightarrow>
     (\<exists>c. currency_transfer X a b v (native s) = (Ok (), c) \<and> s' = s\<lparr>native := c\<rparr>)"
  by (auto simp: native_transfer_def split: prod.splits)

lemma native_transfer_Err:
  assumes "currency_ok X" "native_transfer X a b v s = (Err e, s')"
  shows "s' = s"
proof -
  from assms(2) obtain c where c: "currency_transfer X a b v (native s) = (Err e, c)" "s' = s\<lparr>native := c\<rparr>"
    by (auto simp: native_transfer_def split: prod.splits)
  with assms(1) have "c = native s"
    unfolding currency_ok_def by blast
  with c show ?thesis by simp
qed

lemma native_transfer_total [run_total]: "currency_ok X \<Longrightarrow> no_panic (native_transfer X a b v s)"
  unfolding currency_ok_def no_panic_def native_transfer_def by (auto split: prod.splits)

lemma native_transfer_state: "\<exists>c. snd (native_transfer X a b v s) = s\<lparr>native := c\<rparr>"
  by (auto simp: native_transfer_def split: prod.splits)

lemma native_transfer_balance:
  assumes "currency_ok X" "native_transfer X a b v s = (Ok u, s')"
  shows "unat (native_free_balance X w s') + (if w = a then unat v else 0)
       = unat (native_free_balance X w s) + (if w = b then unat v else 0)"
    and "a = b \<or> v \<le> native_free_balance X a s"
  using assms unfolding currency_ok_def native_transfer_Ok_iff native_free_balance_def
  by fastforce+

end
