(* ===== verification/Token_Balances.thy ===== *)
theory Token_Balances
  imports Runtime_Types
begin

text \<open>
  The three token ledgers of the runtime: \<open>rtoken/balances\<close>, \<open>xtoken/balances\<close> and
  \<open>rdex/balances\<close> are three copies of one pallet that differ in the type of the token symbol. The
  pallet is modelled once over a symbol type, and each copy is its instance on its own storage,
  errors and events. The locale \<open>token_currency\<close> is the \<open>traits::Currency\<close> interface with the
  laws its clients (bridge, rtoken, rdex, claims) rely on; the three pallets interpret it.
\<close>

section \<open>The pallet over a symbol type\<close>

record AccountData =
  free :: u128

record 'sym token_store =
  TotalIssuance :: "'sym \<Rightarrow> u128"
  Account :: "'sym \<Rightarrow> AccountId \<Rightarrow> AccountData option"

definition AccountData_default :: AccountData where
  "AccountData_default = \<lparr>free = 0\<rparr>"

definition empty_tokens :: "'sym token_store" where
  "empty_tokens = \<lparr>TotalIssuance = (\<lambda>_. 0), Account = (\<lambda>_ _. None)\<rparr>"

text \<open>
  \<open>try_mutate_account\<close> reads the entry (or the default), runs the closure on it, and writes the
  entry back only when the closure succeeds. The closure may itself change the store, as the
  nested call in \<open>transfer\<close> does.
\<close>

definition try_mutate_account ::
    "AccountId \<Rightarrow> 'sym
     \<Rightarrow> (AccountData \<Rightarrow> 'sym token_store \<Rightarrow> (balances_error, 'r \<times> AccountData, 'sym token_store) run)
     \<Rightarrow> 'sym token_store \<Rightarrow> (balances_error, 'r, 'sym token_store) run" where
  "try_mutate_account who symbol f st =
     and_then (f (unwrap_or (Account st symbol who) AccountData_default) st)
       (\<lambda>(result, maybe_data) st1.
          (Ok result, st1\<lparr>Account := (Account st1)(symbol := (Account st1 symbol)(who \<mapsto> maybe_data))\<rparr>))"

definition free_balance :: "AccountId \<Rightarrow> 'sym \<Rightarrow> 'sym token_store \<Rightarrow> u128" where
  "free_balance who symbol st = (case Account st symbol who of Some rdata \<Rightarrow> free rdata | None \<Rightarrow> 0)"

definition total_issuance :: "'sym \<Rightarrow> 'sym token_store \<Rightarrow> u128" where
  "total_issuance symbol st = TotalIssuance st symbol"

definition ensure_can_withdraw :: "u128 \<Rightarrow> u128 \<Rightarrow> balances_error option" where
  "ensure_can_withdraw amount new_balance =
     (if amount = 0 then None else if new_balance \<ge> 0 then None else Some LiquidityRestrictions)"

text \<open>
  The operations return the events they deposit; the pallet instances below append them to the
  system log.
\<close>

definition token_transfer ::
    "AccountId \<Rightarrow> AccountId \<Rightarrow> 'sym \<Rightarrow> u128 \<Rightarrow> 'sym token_store
     \<Rightarrow> (balances_error, 'sym balances_event list, 'sym token_store) run" where
  "token_transfer transactor dest symbol v st =
     (if v = 0 \<or> transactor = dest then (Ok [], st)
      else and_then
        (try_mutate_account dest symbol
          (\<lambda>to_data st1. and_then
            (try_mutate_account transactor symbol
              (\<lambda>from_data st2.
                 ok_or (checked_sub (free from_data) v) InsufficientBalance st2 (\<lambda>from_free.
                 ok_or (checked_add (free to_data) v) Overflow st2 (\<lambda>to_free.
                 (case ensure_can_withdraw v from_free of
                    Some e \<Rightarrow> (Err e, st2)
                  | None \<Rightarrow> (Ok (to_data\<lparr>free := to_free\<rparr>, from_data\<lparr>free := from_free\<rparr>), st2)))))
              st1)
            (\<lambda>to_data' st2. (Ok ((), to_data'), st2)))
          st)
        (\<lambda>_ st1. (Ok [Transfer transactor dest symbol v], st1)))"

definition token_mint ::
    "AccountId \<Rightarrow> 'sym \<Rightarrow> u128 \<Rightarrow> 'sym token_store
     \<Rightarrow> (balances_error, 'sym balances_event list, 'sym token_store) run" where
  "token_mint who symbol v st =
     (if v = 0 then (Ok [], st)
      else and_then
        (try_mutate_account who symbol
          (\<lambda>data st1. ok_or (checked_add (free data) v) Overflow st1
             (\<lambda>new_free. (Ok ((), data\<lparr>free := new_free\<rparr>), st1)))
          st)
        (\<lambda>_ st1.
           (Ok [Minted who symbol v],
            st1\<lparr>TotalIssuance := (TotalIssuance st1)(symbol :=
                  unwrap_or (checked_add (TotalIssuance st1 symbol) v) (- 1))\<rparr>)))"

definition token_burn ::
    "AccountId \<Rightarrow> 'sym \<Rightarrow> u128 \<Rightarrow> 'sym token_store
     \<Rightarrow> (balances_error, 'sym balances_event list, 'sym token_store) run" where
  "token_burn who symbol v st =
     (if v = 0 then (Ok [], st)
      else and_then
        (try_mutate_account who symbol
          (\<lambda>data st1. ok_or (checked_sub (free data) v) InsufficientBalance st1
             (\<lambda>new_free.
                (case ensure_can_withdraw v new_free of
                   Some e \<Rightarrow> (Err e, st1)
                 | None \<Rightarrow> (Ok ((), data\<lparr>free := new_free\<rparr>), st1))))
          st)
        (\<lambda>_ st1.
           (Ok [Burned who symbol v],
            st1\<lparr>TotalIssuance := (TotalIssuance st1)(symbol :=
                  unwrap_or (checked_sub (TotalIssuance st1 symbol) v) 0)\<rparr>)))"

section \<open>The three pallets\<close>

record 'c tokens_state = "'c system" +
  rbalances :: "RSymbol token_store"
  xbalances :: "XSymbol token_store"
  lpbalances :: "RSymbol token_store"

text \<open>
  A pallet instance runs the operation on its own field of the runtime state, tags the error with
  the pallet and appends the events.
\<close>

definition token_lift ::
    "(('c, 'z) system_scheme \<Rightarrow> 'sym token_store)
     \<Rightarrow> (('sym token_store \<Rightarrow> 'sym token_store) \<Rightarrow> ('c, 'z) system_scheme \<Rightarrow> ('c, 'z) system_scheme)
     \<Rightarrow> (balances_error \<Rightarrow> dispatch_error) \<Rightarrow> ('sym balances_event \<Rightarrow> event)
     \<Rightarrow> ('sym token_store \<Rightarrow> (balances_error, 'sym balances_event list, 'sym token_store) run)
     \<Rightarrow> ('c, 'z) system_scheme \<Rightarrow> (dispatch_error, unit, ('c, 'z) system_scheme) run" where
  "token_lift get upd err ev m s =
     (case m (get s) of
        (Ok evs, st) \<Rightarrow> (Ok (), (upd (\<lambda>_. st) s)\<lparr>events := events s @ map ev evs\<rparr>)
      | (Err e, st) \<Rightarrow> (Err (err e), upd (\<lambda>_. st) s)
      | (Panic, st) \<Rightarrow> (Panic, upd (\<lambda>_. st) s))"

definition rbal_lift ::
    "(RSymbol token_store \<Rightarrow> (balances_error, RSymbol balances_event list, RSymbol token_store) run)
     \<Rightarrow> ('c, 'z) tokens_state_scheme \<Rightarrow> (dispatch_error, unit, ('c, 'z) tokens_state_scheme) run" where
  "rbal_lift = token_lift rbalances rbalances_update RBalancesErr RBalancesEv"

definition xbal_lift ::
    "(XSymbol token_store \<Rightarrow> (balances_error, XSymbol balances_event list, XSymbol token_store) run)
     \<Rightarrow> ('c, 'z) tokens_state_scheme \<Rightarrow> (dispatch_error, unit, ('c, 'z) tokens_state_scheme) run" where
  "xbal_lift = token_lift xbalances xbalances_update XBalancesErr XBalancesEv"

definition lp_lift ::
    "(RSymbol token_store \<Rightarrow> (balances_error, RSymbol balances_event list, RSymbol token_store) run)
     \<Rightarrow> ('c, 'z) tokens_state_scheme \<Rightarrow> (dispatch_error, unit, ('c, 'z) tokens_state_scheme) run" where
  "lp_lift = token_lift lpbalances lpbalances_update LpBalancesErr LpBalancesEv"

definition rbal_free_balance :: "AccountId \<Rightarrow> RSymbol \<Rightarrow> ('c, 'z) tokens_state_scheme \<Rightarrow> u128" where
  "rbal_free_balance who symbol s = free_balance who symbol (rbalances s)"

definition rbal_total_issuance :: "RSymbol \<Rightarrow> ('c, 'z) tokens_state_scheme \<Rightarrow> u128" where
  "rbal_total_issuance symbol s = total_issuance symbol (rbalances s)"

definition rbal_transfer ::
    "AccountId \<Rightarrow> AccountId \<Rightarrow> RSymbol \<Rightarrow> u128 \<Rightarrow> ('c, 'z) tokens_state_scheme
     \<Rightarrow> (dispatch_error, unit, ('c, 'z) tokens_state_scheme) run" where
  "rbal_transfer transactor dest symbol v = rbal_lift (token_transfer transactor dest symbol v)"

definition rbal_mint ::
    "AccountId \<Rightarrow> RSymbol \<Rightarrow> u128 \<Rightarrow> ('c, 'z) tokens_state_scheme
     \<Rightarrow> (dispatch_error, unit, ('c, 'z) tokens_state_scheme) run" where
  "rbal_mint who symbol v = rbal_lift (token_mint who symbol v)"

definition rbal_burn ::
    "AccountId \<Rightarrow> RSymbol \<Rightarrow> u128 \<Rightarrow> ('c, 'z) tokens_state_scheme
     \<Rightarrow> (dispatch_error, unit, ('c, 'z) tokens_state_scheme) run" where
  "rbal_burn who symbol v = rbal_lift (token_burn who symbol v)"

definition xbal_free_balance :: "AccountId \<Rightarrow> XSymbol \<Rightarrow> ('c, 'z) tokens_state_scheme \<Rightarrow> u128" where
  "xbal_free_balance who symbol s = free_balance who symbol (xbalances s)"

definition xbal_total_issuance :: "XSymbol \<Rightarrow> ('c, 'z) tokens_state_scheme \<Rightarrow> u128" where
  "xbal_total_issuance symbol s = total_issuance symbol (xbalances s)"

definition xbal_transfer ::
    "AccountId \<Rightarrow> AccountId \<Rightarrow> XSymbol \<Rightarrow> u128 \<Rightarrow> ('c, 'z) tokens_state_scheme
     \<Rightarrow> (dispatch_error, unit, ('c, 'z) tokens_state_scheme) run" where
  "xbal_transfer transactor dest symbol v = xbal_lift (token_transfer transactor dest symbol v)"

definition xbal_mint ::
    "AccountId \<Rightarrow> XSymbol \<Rightarrow> u128 \<Rightarrow> ('c, 'z) tokens_state_scheme
     \<Rightarrow> (dispatch_error, unit, ('c, 'z) tokens_state_scheme) run" where
  "xbal_mint who symbol v = xbal_lift (token_mint who symbol v)"

definition xbal_burn ::
    "AccountId \<Rightarrow> XSymbol \<Rightarrow> u128 \<Rightarrow> ('c, 'z) tokens_state_scheme
     \<Rightarrow> (dispatch_error, unit, ('c, 'z) tokens_state_scheme) run" where
  "xbal_burn who symbol v = xbal_lift (token_burn who symbol v)"

definition lp_free_balance :: "AccountId \<Rightarrow> RSymbol \<Rightarrow> ('c, 'z) tokens_state_scheme \<Rightarrow> u128" where
  "lp_free_balance who symbol s = free_balance who symbol (lpbalances s)"

definition lp_total_issuance :: "RSymbol \<Rightarrow> ('c, 'z) tokens_state_scheme \<Rightarrow> u128" where
  "lp_total_issuance symbol s = total_issuance symbol (lpbalances s)"

definition lp_transfer ::
    "AccountId \<Rightarrow> AccountId \<Rightarrow> RSymbol \<Rightarrow> u128 \<Rightarrow> ('c, 'z) tokens_state_scheme
     \<Rightarrow> (dispatch_error, unit, ('c, 'z) tokens_state_scheme) run" where
  "lp_transfer transactor dest symbol v = lp_lift (token_transfer transactor dest symbol v)"

definition lp_mint ::
    "AccountId \<Rightarrow> RSymbol \<Rightarrow> u128 \<Rightarrow> ('c, 'z) tokens_state_scheme
     \<Rightarrow> (dispatch_error, unit, ('c, 'z) tokens_state_scheme) run" where
  "lp_mint who symbol v = lp_lift (token_mint who symbol v)"

definition lp_burn ::
    "AccountId \<Rightarrow> RSymbol \<Rightarrow> u128 \<Rightarrow> ('c, 'z) tokens_state_scheme
     \<Rightarrow> (dispatch_error, unit, ('c, 'z) tokens_state_scheme) run" where
  "lp_burn who symbol v = lp_lift (token_burn who symbol v)"

text \<open>The one dispatchable of each pallet, \<open>transfer\<close>.\<close>

definition rbal_call_transfer ::
    "'c config \<Rightarrow> origin \<Rightarrow> bytes \<Rightarrow> RSymbol \<Rightarrow> u128 \<Rightarrow> ('c, 'z) tokens_state_scheme
     \<Rightarrow> (dispatch_error, unit, ('c, 'z) tokens_state_scheme) run" where
  "rbal_call_transfer X o' dest symbol v s =
     ensure_signed o' s (\<lambda>transactor.
     ok_or (lookup X dest) CannotLookup s (\<lambda>dest.
     rbal_transfer transactor dest symbol v s))"

definition xbal_call_transfer ::
    "'c config \<Rightarrow> origin \<Rightarrow> bytes \<Rightarrow> XSymbol \<Rightarrow> u128 \<Rightarrow> ('c, 'z) tokens_state_scheme
     \<Rightarrow> (dispatch_error, unit, ('c, 'z) tokens_state_scheme) run" where
  "xbal_call_transfer X o' dest symbol v s =
     ensure_signed o' s (\<lambda>transactor.
     ok_or (lookup X dest) CannotLookup s (\<lambda>dest.
     xbal_transfer transactor dest symbol v s))"

definition lp_call_transfer ::
    "'c config \<Rightarrow> origin \<Rightarrow> bytes \<Rightarrow> RSymbol \<Rightarrow> u128 \<Rightarrow> ('c, 'z) tokens_state_scheme
     \<Rightarrow> (dispatch_error, unit, ('c, 'z) tokens_state_scheme) run" where
  "lp_call_transfer X o' dest symbol v s =
     ensure_signed o' s (\<lambda>transactor.
     ok_or (lookup X dest) CannotLookup s (\<lambda>dest.
     lp_transfer transactor dest symbol v s))"

section \<open>Abstract specification\<close>

text \<open>
  What the pallet promises, over natural numbers: a ledger of balances and issued totals, with the
  width of \<open>u128\<close> appearing only as a cap on an account and on the recorded total.
\<close>

record 'sym token_spec =
  spec_free :: "'sym \<Rightarrow> AccountId \<Rightarrow> nat"
  spec_issued :: "'sym \<Rightarrow> nat"

datatype 'sym token_op =
    OpTransfer AccountId AccountId 'sym u128
  | OpMint AccountId 'sym u128
  | OpBurn AccountId 'sym u128

fun token_exec :: "'sym token_op \<Rightarrow> 'sym token_store
     \<Rightarrow> (balances_error, 'sym balances_event list, 'sym token_store) run" where
  "token_exec (OpTransfer a b y v) st = token_transfer a b y v st"
| "token_exec (OpMint a y v) st = token_mint a y v st"
| "token_exec (OpBurn a y v) st = token_burn a y v st"

fun spec_exec :: "'sym token_op \<Rightarrow> 'sym token_spec \<Rightarrow> balances_error + 'sym token_spec" where
  "spec_exec (OpTransfer a b y v) L =
     (if v = 0 \<or> a = b then Inr L
      else if spec_free L y a < unat v then Inl InsufficientBalance
      else if 2 ^ 128 \<le> spec_free L y b + unat v then Inl Overflow
      else Inr (L\<lparr>spec_free := (spec_free L)(y := (spec_free L y)
                   (a := spec_free L y a - unat v, b := spec_free L y b + unat v))\<rparr>))"
| "spec_exec (OpMint a y v) L =
     (if v = 0 then Inr L
      else if 2 ^ 128 \<le> spec_free L y a + unat v then Inl Overflow
      else Inr (L\<lparr>spec_free := (spec_free L)(y := (spec_free L y)(a := spec_free L y a + unat v)),
                   spec_issued := (spec_issued L)(y := min (2 ^ 128 - 1) (spec_issued L y + unat v))\<rparr>))"
| "spec_exec (OpBurn a y v) L =
     (if v = 0 then Inr L
      else if spec_free L y a < unat v then Inl InsufficientBalance
      else Inr (L\<lparr>spec_free := (spec_free L)(y := (spec_free L y)(a := spec_free L y a - unat v)),
                   spec_issued := (spec_issued L)(y := spec_issued L y - unat v)\<rparr>))"

definition abs_tokens :: "'sym token_store \<Rightarrow> 'sym token_spec" where
  "abs_tokens st = \<lparr>spec_free = (\<lambda>y a. unat (free_balance a y st)),
                    spec_issued = (\<lambda>y. unat (TotalIssuance st y))\<rparr>"

definition abs_run :: "(balances_error, 'a, 'sym token_store) run \<Rightarrow> (balances_error + 'sym token_spec) option" where
  "abs_run r = (case r of (Ok _, st) \<Rightarrow> Some (Inr (abs_tokens st)) | (Err e, _) \<Rightarrow> Some (Inl e)
                        | (Panic, _) \<Rightarrow> None)"

text \<open>A history of calls, some of which may fail; what the accounts hold; what was ever minted.\<close>

fun token_history :: "'sym token_op list \<Rightarrow> 'sym token_store \<Rightarrow> 'sym token_store" where
  "token_history [] st = st"
| "token_history (c # cs) st = token_history cs (snd (token_exec c st))"

definition holdings :: "'sym \<Rightarrow> 'sym token_store \<Rightarrow> nat" where
  "holdings y st = (\<Sum>w\<in>UNIV. unat (free_balance w y st))"

fun minted :: "'sym \<Rightarrow> 'sym token_op list \<Rightarrow> nat" where
  "minted y [] = 0"
| "minted y (OpMint a z v # cs) = (if z = y then unat v else 0) + minted y cs"
| "minted y (_ # cs) = minted y cs"

section \<open>Closed forms of the operations\<close>

lemma AccountData_update_free [simp]: "(d :: AccountData)\<lparr>free := x\<rparr> = \<lparr>free = x\<rparr>"
  by (cases d) simp

lemma ensure_can_withdraw_None [simp]: "ensure_can_withdraw amount new_balance = None"
  by (simp add: ensure_can_withdraw_def)

lemma free_unwrap_or_Account [simp]:
  "free (unwrap_or (Account st symbol who) AccountData_default) = free_balance who symbol st"
  by (cases "Account st symbol who") (simp_all add: free_balance_def AccountData_default_def)

definition set_free :: "'sym \<Rightarrow> AccountId \<Rightarrow> u128 \<Rightarrow> 'sym token_store \<Rightarrow> 'sym token_store" where
  "set_free symbol who x st =
     st\<lparr>Account := (Account st)(symbol := (Account st symbol)(who \<mapsto> \<lparr>free = x\<rparr>))\<rparr>"

lemma free_balance_set_free [simp]:
  "free_balance w y (set_free symbol who x st) =
     (if w = who \<and> y = symbol then x else free_balance w y st)"
  by (simp add: set_free_def free_balance_def)

lemma TotalIssuance_set_free [simp]: "TotalIssuance (set_free symbol who x st) = TotalIssuance st"
  by (simp add: set_free_def)

lemma free_balance_update_issuance [simp]:
  "free_balance w y (st\<lparr>TotalIssuance := f\<rparr>) = free_balance w y st"
  by (simp add: free_balance_def)

lemma token_transfer_eq:
  "token_transfer a b y v st =
     (if v = 0 \<or> a = b then (Ok [], st)
      else if free_balance a y st < v then (Err InsufficientBalance, st)
      else if 2 ^ 128 \<le> unat (free_balance b y st) + unat v then (Err Overflow, st)
      else (Ok [Transfer a b y v],
            set_free y b (free_balance b y st + v) (set_free y a (free_balance a y st - v) st)))"
  by (auto simp: token_transfer_def try_mutate_account_def checked_sub_def checked_add_def
      set_free_def)

lemma token_mint_eq:
  "token_mint who y v st =
     (if v = 0 then (Ok [], st)
      else if 2 ^ 128 \<le> unat (free_balance who y st) + unat v then (Err Overflow, st)
      else (Ok [Minted who y v],
            (set_free y who (free_balance who y st + v) st)
              \<lparr>TotalIssuance := (TotalIssuance st)(y := saturating_add (TotalIssuance st y) v)\<rparr>))"
  by (auto simp: token_mint_def try_mutate_account_def checked_add_def saturating_add_def
      set_free_def)

lemma token_burn_eq:
  "token_burn who y v st =
     (if v = 0 then (Ok [], st)
      else if free_balance who y st < v then (Err InsufficientBalance, st)
      else (Ok [Burned who y v],
            (set_free y who (free_balance who y st - v) st)
              \<lparr>TotalIssuance := (TotalIssuance st)(y := saturating_sub (TotalIssuance st y) v)\<rparr>))"
  by (auto simp: token_burn_def try_mutate_account_def checked_sub_def saturating_sub_def
      set_free_def)

section \<open>The currency interface\<close>

text \<open>
  The laws of \<open>traits::Currency\<close>. A balance law is stated as a balance sheet: what an account held
  plus what it received is what it holds plus what it gave. An operation that fails leaves the
  state as it was.
\<close>

locale token_currency =
  fixes bal :: "AccountId \<Rightarrow> 'sym \<Rightarrow> 's \<Rightarrow> u128"
    and issued :: "'sym \<Rightarrow> 's \<Rightarrow> u128"
    and transfer :: "AccountId \<Rightarrow> AccountId \<Rightarrow> 'sym \<Rightarrow> u128 \<Rightarrow> 's \<Rightarrow> ('e, 'r, 's) run"
    and mint :: "AccountId \<Rightarrow> 'sym \<Rightarrow> u128 \<Rightarrow> 's \<Rightarrow> ('e, 'r, 's) run"
    and burn :: "AccountId \<Rightarrow> 'sym \<Rightarrow> u128 \<Rightarrow> 's \<Rightarrow> ('e, 'r, 's) run"
  assumes transfer_sheet: "transfer a b y v s = (Ok r, s') \<Longrightarrow>
      unat (bal w z s') + (if w = a \<and> z = y then unat v else 0) =
      unat (bal w z s) + (if w = b \<and> z = y then unat v else 0)"
    and transfer_covered: "transfer a b y v s = (Ok r, s') \<Longrightarrow> a \<noteq> b \<Longrightarrow> v \<le> bal a y s"
    and transfer_issued: "transfer a b y v s = (Ok r, s') \<Longrightarrow> issued z s' = issued z s"
    and transfer_fails: "transfer a b y v s = (Err e, s') \<Longrightarrow> s' = s"
    and transfer_total: "fst (transfer a b y v s) \<noteq> Panic"
    and mint_sheet: "mint a y v s = (Ok r, s') \<Longrightarrow>
      unat (bal w z s') = unat (bal w z s) + (if w = a \<and> z = y then unat v else 0)"
    and mint_issued: "mint a y v s = (Ok r, s') \<Longrightarrow>
      issued z s' = (if z = y then saturating_add (issued y s) v else issued z s)"
    and mint_fails: "mint a y v s = (Err e, s') \<Longrightarrow> s' = s"
    and mint_total: "fst (mint a y v s) \<noteq> Panic"
    and burn_sheet: "burn a y v s = (Ok r, s') \<Longrightarrow>
      unat (bal w z s') + (if w = a \<and> z = y then unat v else 0) = unat (bal w z s)"
    and burn_issued: "burn a y v s = (Ok r, s') \<Longrightarrow>
      issued z s' = (if z = y then saturating_sub (issued y s) v else issued z s)"
    and burn_fails: "burn a y v s = (Err e, s') \<Longrightarrow> s' = s"
    and burn_total: "fst (burn a y v s) \<noteq> Panic"
begin

definition held :: "'sym \<Rightarrow> 's \<Rightarrow> nat" where
  "held y s = (\<Sum>w\<in>UNIV. unat (bal w y s))"

lemma bal_le_held: "unat (bal w y s) \<le> held y s"
  unfolding held_def by (rule member_le_sum) auto

lemma sum_single: "(\<Sum>w\<in>UNIV. if w = (a :: AccountId) \<and> z = y then n else (0 :: nat)) = (if z = y then n else 0)"
  by (cases "z = y") simp_all

lemma held_transfer: "transfer a b y v s = (Ok r, s') \<Longrightarrow> held z s' = held z s"
proof -
  assume ok: "transfer a b y v s = (Ok r, s')"
  have "(\<Sum>w\<in>UNIV. unat (bal w z s') + (if w = a \<and> z = y then unat v else 0)) =
        (\<Sum>w\<in>UNIV. unat (bal w z s) + (if w = b \<and> z = y then unat v else 0))"
    by (rule sum.cong) (simp_all add: transfer_sheet [OF ok])
  then show ?thesis
    unfolding held_def sum.distrib sum_single by simp
qed

lemma held_mint:
  "mint a y v s = (Ok r, s') \<Longrightarrow> held z s' = held z s + (if z = y then unat v else 0)"
  unfolding held_def by (simp only: mint_sheet sum.distrib sum_single)

lemma held_burn:
  "burn a y v s = (Ok r, s') \<Longrightarrow> held z s' + (if z = y then unat v else 0) = held z s"
proof -
  assume ok: "burn a y v s = (Ok r, s')"
  have "(\<Sum>w\<in>UNIV. unat (bal w z s') + (if w = a \<and> z = y then unat v else 0)) =
        (\<Sum>w\<in>UNIV. unat (bal w z s))"
    by (rule sum.cong) (simp_all add: burn_sheet [OF ok])
  then show ?thesis
    unfolding held_def sum.distrib sum_single by simp
qed

text \<open>
  The recorded issuance never exceeds what the accounts hold; it equals it as long as the
  issuance counter has not saturated.
\<close>

lemma issued_le_transfer:
  "unat (issued z s) \<le> held z s \<Longrightarrow> transfer a b y v s = (Ok r, s') \<Longrightarrow>
   unat (issued z s') \<le> held z s'"
  by (simp add: held_transfer transfer_issued)

lemma issued_le_mint:
  "unat (issued z s) \<le> held z s \<Longrightarrow> mint a y v s = (Ok r, s') \<Longrightarrow>
   unat (issued z s') \<le> held z s'"
  by (auto simp: held_mint mint_issued word_nat)

lemma issued_le_burn:
  "unat (issued z s) \<le> held z s \<Longrightarrow> burn a y v s = (Ok r, s') \<Longrightarrow>
   unat (issued z s') \<le> held z s'"
  using held_burn [of a y v s r s' z] by (auto simp: burn_issued word_nat split: if_splits)

lemma issued_eq_mint:
  "unat (issued z s) = held z s \<Longrightarrow> mint a y v s = (Ok r, s') \<Longrightarrow> held z s' < 2 ^ 128 \<Longrightarrow>
   unat (issued z s') = held z s'"
  by (auto simp: held_mint mint_issued word_nat)

lemma issued_eq_burn:
  "unat (issued z s) = held z s \<Longrightarrow> burn a y v s = (Ok r, s') \<Longrightarrow>
   unat (issued z s') = held z s'"
  using held_burn [of a y v s r s' z] by (auto simp: burn_issued word_nat split: if_splits)

lemma transfer_state: "snd (transfer a b y v s) = s \<or> (\<exists>r. transfer a b y v s = (Ok r, snd (transfer a b y v s)))"
  using transfer_fails [of a b y v s] transfer_total [of a b y v s]
  by (cases "transfer a b y v s"; cases "fst (transfer a b y v s)") auto

lemma mint_state: "snd (mint a y v s) = s \<or> (\<exists>r. mint a y v s = (Ok r, snd (mint a y v s)))"
  using mint_fails [of a y v s] mint_total [of a y v s]
  by (cases "mint a y v s"; cases "fst (mint a y v s)") auto

lemma burn_state: "snd (burn a y v s) = s \<or> (\<exists>r. burn a y v s = (Ok r, snd (burn a y v s)))"
  using burn_fails [of a y v s] burn_total [of a y v s]
  by (cases "burn a y v s"; cases "fst (burn a y v s)") auto

end

text \<open>The generic pallet and its three copies implement the interface.\<close>

lemmas token_ops_eq = token_transfer_eq token_mint_eq token_burn_eq total_issuance_def

lemmas word_order_nat = not_less word_le_nat_alt word_less_nat_alt

interpretation tok: token_currency free_balance total_issuance token_transfer token_mint token_burn
  by unfold_locales (auto simp: token_ops_eq word_nat word_order_nat split: if_splits)

lemma token_lift_Ok:
  "token_lift get upd err ev m s = (Ok u, s') \<longleftrightarrow>
     (\<exists>evs st. m (get s) = (Ok evs, st) \<and>
        s' = (upd (\<lambda>_. st) s)\<lparr>events := events s @ map ev evs\<rparr>)"
  by (auto simp: token_lift_def split: prod.splits outcome.splits)

lemma token_lift_Err:
  "token_lift get upd err ev m s = (Err e, s') \<longleftrightarrow>
     (\<exists>e' st. m (get s) = (Err e', st) \<and> e = err e' \<and> s' = upd (\<lambda>_. st) s)"
  by (auto simp: token_lift_def split: prod.splits outcome.splits)

lemma token_lift_Panic: "fst (token_lift get upd err ev m s) = Panic \<longleftrightarrow> fst (m (get s)) = Panic"
  by (auto simp: token_lift_def split: prod.splits outcome.splits)

lemma token_lift_currency:
  assumes get_upd: "\<And>f s. get (upd f s) = f (get s)"
    and get_events: "\<And>e s. get (s\<lparr>events := e\<rparr>) = get s"
    and upd_same: "\<And>s. upd (\<lambda>_. get s) s = s"
  shows "token_currency (\<lambda>a y s. free_balance a y (get s)) (\<lambda>y s. total_issuance y (get s))
     (\<lambda>a b y v. token_lift get upd err ev (token_transfer a b y v))
     (\<lambda>a y v. token_lift get upd err ev (token_mint a y v))
     (\<lambda>a y v. token_lift get upd err ev (token_burn a y v))"
  by unfold_locales
    (auto simp: token_lift_Ok token_lift_Err token_lift_Panic get_upd get_events upd_same
       token_ops_eq word_nat word_order_nat split: if_splits)

interpretation rcur: token_currency rbal_free_balance rbal_total_issuance rbal_transfer rbal_mint rbal_burn
  unfolding rbal_free_balance_def rbal_total_issuance_def rbal_transfer_def rbal_mint_def
    rbal_burn_def rbal_lift_def
  by (rule token_lift_currency) simp_all

interpretation xcur: token_currency xbal_free_balance xbal_total_issuance xbal_transfer xbal_mint xbal_burn
  unfolding xbal_free_balance_def xbal_total_issuance_def xbal_transfer_def xbal_mint_def
    xbal_burn_def xbal_lift_def
  by (rule token_lift_currency) simp_all

interpretation lcur: token_currency lp_free_balance lp_total_issuance lp_transfer lp_mint lp_burn
  unfolding lp_free_balance_def lp_total_issuance_def lp_transfer_def lp_mint_def
    lp_burn_def lp_lift_def
  by (rule token_lift_currency) simp_all

lemma token_calls_total [run_total]:
  "no_panic (rbal_transfer a b y v s)" "no_panic (rbal_mint a y v s)" "no_panic (rbal_burn a y v s)"
  "no_panic (xbal_transfer a b z v s)" "no_panic (xbal_mint a z v s)" "no_panic (xbal_burn a z v s)"
  "no_panic (lp_transfer a b y v s)" "no_panic (lp_mint a y v s)" "no_panic (lp_burn a y v s)"
  by (simp_all only: no_panic_def rcur.transfer_total rcur.mint_total rcur.burn_total xcur.transfer_total
      xcur.mint_total xcur.burn_total lcur.transfer_total lcur.mint_total lcur.burn_total not_False_eq_True)

text \<open>An operation of a pallet touches its own field and the event log only.\<close>

lemma token_lift_state:
  "\<exists>st evs. snd (token_lift get upd err ev m s) = (upd (\<lambda>_. st) s)\<lparr>events := evs\<rparr>"
proof (cases "m (get s)")
  case (Pair r st)
  have same: "upd (\<lambda>_. st) s = (upd (\<lambda>_. st) s)\<lparr>events := events (upd (\<lambda>_. st) s)\<rparr>" by simp
  show ?thesis
  proof (cases r)
    case (Ok evs)
    with Pair show ?thesis by (auto simp: token_lift_def)
  next
    case (Err e)
    with Pair have "snd (token_lift get upd err ev m s) = upd (\<lambda>_. st) s"
      by (simp add: token_lift_def)
    with same show ?thesis by metis
  next
    case Panic
    with Pair have "snd (token_lift get upd err ev m s) = upd (\<lambda>_. st) s"
      by (simp add: token_lift_def)
    with same show ?thesis by metis
  qed
qed

lemma rbal_lift_state: "\<exists>st evs. snd (rbal_lift m s) = s\<lparr>rbalances := st, events := evs\<rparr>"
  unfolding rbal_lift_def using token_lift_state by blast

lemma xbal_lift_state: "\<exists>st evs. snd (xbal_lift m s) = s\<lparr>xbalances := st, events := evs\<rparr>"
  unfolding xbal_lift_def using token_lift_state by blast

lemma lp_lift_state: "\<exists>st evs. snd (lp_lift m s) = s\<lparr>lpbalances := st, events := evs\<rparr>"
  unfolding lp_lift_def using token_lift_state by blast

lemmas rbal_ops = rbal_transfer_def rbal_mint_def rbal_burn_def
lemmas xbal_ops = xbal_transfer_def xbal_mint_def xbal_burn_def
lemmas lp_ops = lp_transfer_def lp_mint_def lp_burn_def

section \<open>Properties\<close>

lemma holdings_held: "holdings y st = tok.held y st"
  by (simp add: holdings_def tok.held_def)

lemma token_exec_Err: "token_exec c st = (Err e, st') \<Longrightarrow> st' = st"
  by (cases c) (auto dest: tok.transfer_fails tok.mint_fails tok.burn_fails)

lemma token_exec_total: "fst (token_exec c st) \<noteq> Panic"
  by (cases c) (simp_all add: tok.transfer_total tok.mint_total tok.burn_total)

lemma token_exec_cases:
  obtains (unchanged) "snd (token_exec c st) = st"
  | (ok) r st' where "token_exec c st = (Ok r, st')"
  using token_exec_Err [of c st] token_exec_total [of c st]
  by (cases "token_exec c st"; cases "fst (token_exec c st)") auto

lemma issued_le_step:
  assumes "unat (TotalIssuance st z) \<le> holdings z st"
  shows "unat (TotalIssuance (snd (token_exec c st)) z) \<le> holdings z (snd (token_exec c st))"
proof (cases c st rule: token_exec_cases)
  case unchanged
  with assms show ?thesis by simp
next
  case (ok r st')
  with assms show ?thesis
    by (cases c) (auto simp: holdings_held total_issuance_def
        dest: tok.issued_le_transfer [unfolded total_issuance_def, rotated]
          tok.issued_le_mint [unfolded total_issuance_def, rotated]
          tok.issued_le_burn [unfolded total_issuance_def, rotated])
qed

lemma holdings_step: "holdings z (snd (token_exec c st)) \<le> holdings z st + minted z [c]"
proof (cases c st rule: token_exec_cases)
  case unchanged
  then show ?thesis by simp
next
  case (ok r st')
  then show ?thesis
    by (cases c) (auto simp: holdings_held
        dest: tok.held_transfer [where z = z] tok.held_mint [where z = z] tok.held_burn [where z = z]
        split: if_splits)
qed

lemma issued_eq_step:
  assumes eq: "unat (TotalIssuance st z) = holdings z st"
    and small: "holdings z st + minted z [c] < 2 ^ 128"
  shows "unat (TotalIssuance (snd (token_exec c st)) z) = holdings z (snd (token_exec c st))"
proof (cases c st rule: token_exec_cases)
  case unchanged
  with eq show ?thesis by simp
next
  case (ok r st')
  with holdings_step [of z c st] small have "tok.held z st' < 2 ^ 128"
    by (simp add: holdings_held)
  with ok eq show ?thesis
    by (cases c) (auto simp: holdings_held tok.held_transfer
        dest: tok.transfer_issued [where z = z, unfolded total_issuance_def]
          tok.issued_eq_mint [unfolded total_issuance_def, rotated]
          tok.issued_eq_burn [unfolded total_issuance_def, rotated])
qed

lemma minted_Cons: "minted y (c # cs) = minted y [c] + minted y cs"
  by (cases c) simp_all

lemma issued_eq_history:
  "unat (TotalIssuance st y) = holdings y st \<Longrightarrow> holdings y st + minted y cs < 2 ^ 128 \<Longrightarrow>
   unat (TotalIssuance (token_history cs st) y) = holdings y (token_history cs st)"
proof (induction cs arbitrary: st)
  case Nil
  then show ?case by simp
next
  case (Cons c cs)
  from Cons.prems(2) have bound: "holdings y st + minted y [c] + minted y cs < 2 ^ 128"
    by (simp only: minted_Cons [of y c cs])
  with Cons.prems(1) have "unat (TotalIssuance (snd (token_exec c st)) y) = holdings y (snd (token_exec c st))"
    by (intro issued_eq_step) simp_all
  moreover have "holdings y (snd (token_exec c st)) + minted y cs < 2 ^ 128"
    using bound holdings_step [of y c st] by linarith
  ultimately show ?case using Cons.IH by simp
qed

lemma holdings_empty [simp]: "holdings y empty_tokens = 0"
  by (simp add: holdings_def free_balance_def empty_tokens_def)

lemma TotalIssuance_empty [simp]: "TotalIssuance empty_tokens y = 0"
  by (simp add: empty_tokens_def)

lemma issued_le_history:
  "unat (TotalIssuance st y) \<le> holdings y st \<Longrightarrow>
   unat (TotalIssuance (token_history cs st) y) \<le> holdings y (token_history cs st)"
  by (induction cs arbitrary: st) (simp_all add: issued_le_step)

text \<open>
  C1. The pallet's operations refine the abstract ledger: on every branch, success or error, the
  machine-word operation computes exactly what the natural-number specification says, and never
  panics.
\<close>

theorem token_ops_refine_spec:
  "abs_run (token_exec c st) = Some (spec_exec c (abs_tokens st))"
  by (cases c)
    (auto simp: abs_run_def abs_tokens_def token_ops_eq word_nat word_order_nat fun_eq_iff
      split: if_splits)

text \<open>
  Whatever sequence of transfers, mints and burns is attempted on an empty ledger, the recorded
  total issuance of a token never exceeds the sum of what all accounts hold of it.
\<close>

theorem issuance_never_exceeds_holdings:
  "unat (TotalIssuance (token_history cs empty_tokens) y) \<le> holdings y (token_history cs empty_tokens)"
  by (rule issued_le_history) simp

text \<open>
  As long as the mints of a history do not add up to the width of the counter, the recorded
  total issuance of a token is exactly the sum of what all accounts hold of it.
\<close>

theorem issuance_exact:
  assumes "minted y cs < 2 ^ 128"
  shows "unat (TotalIssuance (token_history cs empty_tokens) y) = holdings y (token_history cs empty_tokens)"
  using assms issued_eq_history [of empty_tokens y cs] by simp

theorem issuance_exact_witness:
  "minted RDOT [OpMint 1 RDOT 50, OpTransfer 1 2 RDOT 20, OpBurn 2 RDOT 5] < 2 ^ 128 \<and>
   unat (TotalIssuance (token_history [OpMint 1 RDOT 50, OpTransfer 1 2 RDOT 20, OpBurn 2 RDOT 5]
           empty_tokens) RDOT)
   = holdings RDOT (token_history [OpMint 1 RDOT 50, OpTransfer 1 2 RDOT 20, OpBurn 2 RDOT 5]
           empty_tokens)"
  using issuance_exact [of RDOT "[OpMint 1 RDOT 50, OpTransfer 1 2 RDOT 20, OpBurn 2 RDOT 5]"]
  by simp

text \<open>
  The clamp on the issuance counter is silent: two mints that each fit their account leave the
  recorded issuance below what the accounts hold, and neither of them reports an overflow.
\<close>

theorem issuance_clamp_loses_value:
  "(let st1 = token_mint 1 RDOT (- 1) empty_tokens; st2 = token_mint 2 RDOT 1 (snd st1)
    in fst st1 = Ok [Minted 1 RDOT (- 1)] \<and> fst st2 = Ok [Minted 2 RDOT 1] \<and>
       unat (free_balance 1 RDOT (snd st2)) + unat (free_balance 2 RDOT (snd st2))
         = unat (TotalIssuance (snd st2) RDOT) + 1)"
  by (simp add: token_mint_eq empty_tokens_def free_balance_def set_free_def saturating_add_def unat_max)

end
