(* ===== verification/Relayers.thy ===== *)
theory Relayers
  imports Token_Balances
begin

text \<open>
  The voter registries: \<open>bridge/relayers\<close> (per chain), \<open>rtoken/relayers\<close> (per rtoken symbol) and
  \<open>rdexn/payers\<close> (per rtoken symbol, with other names) are copies of one pallet. It is modelled
  once over the key type; the locale \<open>registry\<close> states what voting pallets rely on, and the three
  pallets interpret it.
\<close>

section \<open>The pallet over a key type\<close>

record 'k relayer_store =
  RelayerThreshold :: "'k \<Rightarrow> u32"
  Relayers :: "'k \<Rightarrow> AccountId \<Rightarrow> bool"
  RelayerCount :: "'k \<Rightarrow> u32"

definition empty_relayers :: "'k relayer_store" where
  "empty_relayers = \<lparr>RelayerThreshold = (\<lambda>_. 0), Relayers = (\<lambda>_ _. False), RelayerCount = (\<lambda>_. 0)\<rparr>"

definition is_relayer :: "'k \<Rightarrow> AccountId \<Rightarrow> 'k relayer_store \<Rightarrow> bool" where
  "is_relayer k who st = Relayers st k who"

definition reg_set_threshold ::
    "'k \<Rightarrow> u32 \<Rightarrow> 'k relayer_store \<Rightarrow> (relayers_error, 'k relayers_event list, 'k relayer_store) run" where
  "reg_set_threshold k threshold st =
     ensure (threshold > 0) relayers_error.InvalidThreshold st
       (Ok [relayers_event.RelayerThresholdChanged k threshold],
        st\<lparr>RelayerThreshold := (RelayerThreshold st)(k := threshold)\<rparr>)"

definition reg_add_relayer ::
    "'k \<Rightarrow> AccountId \<Rightarrow> 'k relayer_store \<Rightarrow> (relayers_error, 'k relayers_event list, 'k relayer_store) run" where
  "reg_add_relayer k relayer st =
     ensure (\<not> is_relayer k relayer st) relayers_error.RelayerAlreadyExists st
       (Ok [relayers_event.RelayerAdded k relayer],
        st\<lparr>Relayers := (Relayers st)(k := (Relayers st k)(relayer := True)),
           RelayerCount := (RelayerCount st)(k := RelayerCount st k + 1)\<rparr>)"

definition reg_remove_relayer ::
    "'k \<Rightarrow> AccountId \<Rightarrow> 'k relayer_store \<Rightarrow> (relayers_error, 'k relayers_event list, 'k relayer_store) run" where
  "reg_remove_relayer k relayer st =
     ensure (is_relayer k relayer st) relayers_error.RelayerInvalid st
       (Ok [relayers_event.RelayerRemoved k relayer],
        st\<lparr>Relayers := (Relayers st)(k := (Relayers st k)(relayer := False)),
           RelayerCount := (RelayerCount st)(k := RelayerCount st k - 1)\<rparr>)"

section \<open>The three pallets\<close>

record 'c registry_state = "'c tokens_state" +
  brelayers :: "ChainId relayer_store"
  rrelayers :: "RSymbol relayer_store"
  payers :: "RSymbol relayer_store"

text \<open>
  A dispatchable checks for the root origin and, where it takes an address, looks the account up,
  before it runs the operation on the pallet's field.
\<close>

definition reg_lift ::
    "(('c, 'z) system_scheme \<Rightarrow> 'k relayer_store)
     \<Rightarrow> (('k relayer_store \<Rightarrow> 'k relayer_store) \<Rightarrow> ('c, 'z) system_scheme \<Rightarrow> ('c, 'z) system_scheme)
     \<Rightarrow> (relayers_error \<Rightarrow> dispatch_error) \<Rightarrow> ('k relayers_event \<Rightarrow> event)
     \<Rightarrow> ('k relayer_store \<Rightarrow> (relayers_error, 'k relayers_event list, 'k relayer_store) run)
     \<Rightarrow> ('c, 'z) system_scheme \<Rightarrow> (dispatch_error, unit, ('c, 'z) system_scheme) run" where
  "reg_lift get upd err ev m s =
     (case m (get s) of
        (Ok evs, st) \<Rightarrow> (Ok (), (upd (\<lambda>_. st) s)\<lparr>events := events s @ map ev evs\<rparr>)
      | (Err e, st) \<Rightarrow> (Err (err e), upd (\<lambda>_. st) s)
      | (Panic, st) \<Rightarrow> (Panic, upd (\<lambda>_. st) s))"

fun payers_error_of :: "relayers_error \<Rightarrow> payers_error" where
  "payers_error_of relayers_error.InvalidThreshold = payers_error.InvalidThreshold"
| "payers_error_of relayers_error.RelayerAlreadyExists = payers_error.PayerAlreadyExists"
| "payers_error_of relayers_error.RelayerInvalid = payers_error.PayerInvalid"
| "payers_error_of relayers_error.MustBeRelayer = payers_error.MustBePayer"

fun payers_event_of :: "RSymbol relayers_event \<Rightarrow> payers_event" where
  "payers_event_of (relayers_event.RelayerThresholdChanged k n) = PayerThresholdChanged k n"
| "payers_event_of (relayers_event.RelayerAdded k a) = PayerAdded k a"
| "payers_event_of (relayers_event.RelayerRemoved k a) = PayerRemoved k a"

abbreviation brelayers_lift where
  "brelayers_lift \<equiv> reg_lift brelayers brelayers_update BridgeRelayersErr BridgeRelayersEv"

abbreviation rrelayers_lift where
  "rrelayers_lift \<equiv> reg_lift rrelayers rrelayers_update RTokenRelayersErr RTokenRelayersEv"

abbreviation payers_lift where
  "payers_lift \<equiv> reg_lift payers payers_update (RDexnPayersErr \<circ> payers_error_of) (RDexnPayersEv \<circ> payers_event_of)"

definition brelayers_set_threshold ::
    "origin \<Rightarrow> ChainId \<Rightarrow> u32 \<Rightarrow> ('c, 'z) registry_state_scheme
     \<Rightarrow> (dispatch_error, unit, ('c, 'z) registry_state_scheme) run" where
  "brelayers_set_threshold o' chain_id threshold s =
     ensure_root o' s (brelayers_lift (reg_set_threshold chain_id threshold) s)"

definition brelayers_add_relayer ::
    "'c config \<Rightarrow> origin \<Rightarrow> ChainId \<Rightarrow> bytes \<Rightarrow> ('c, 'z) registry_state_scheme
     \<Rightarrow> (dispatch_error, unit, ('c, 'z) registry_state_scheme) run" where
  "brelayers_add_relayer X o' chain_id who s =
     ensure_root o' s (ok_or (lookup X who) CannotLookup s (\<lambda>relayer.
       brelayers_lift (reg_add_relayer chain_id relayer) s))"

definition brelayers_remove_relayer ::
    "'c config \<Rightarrow> origin \<Rightarrow> ChainId \<Rightarrow> bytes \<Rightarrow> ('c, 'z) registry_state_scheme
     \<Rightarrow> (dispatch_error, unit, ('c, 'z) registry_state_scheme) run" where
  "brelayers_remove_relayer X o' chain_id who s =
     ensure_root o' s (ok_or (lookup X who) CannotLookup s (\<lambda>relayer.
       brelayers_lift (reg_remove_relayer chain_id relayer) s))"

definition rrelayers_set_threshold ::
    "origin \<Rightarrow> RSymbol \<Rightarrow> u32 \<Rightarrow> ('c, 'z) registry_state_scheme
     \<Rightarrow> (dispatch_error, unit, ('c, 'z) registry_state_scheme) run" where
  "rrelayers_set_threshold o' symbol threshold s =
     ensure_root o' s (rrelayers_lift (reg_set_threshold symbol threshold) s)"

definition rrelayers_add_relayer ::
    "'c config \<Rightarrow> origin \<Rightarrow> RSymbol \<Rightarrow> bytes \<Rightarrow> ('c, 'z) registry_state_scheme
     \<Rightarrow> (dispatch_error, unit, ('c, 'z) registry_state_scheme) run" where
  "rrelayers_add_relayer X o' symbol who s =
     ensure_root o' s (ok_or (lookup X who) CannotLookup s (\<lambda>relayer.
       rrelayers_lift (reg_add_relayer symbol relayer) s))"

definition rrelayers_remove_relayer ::
    "'c config \<Rightarrow> origin \<Rightarrow> RSymbol \<Rightarrow> bytes \<Rightarrow> ('c, 'z) registry_state_scheme
     \<Rightarrow> (dispatch_error, unit, ('c, 'z) registry_state_scheme) run" where
  "rrelayers_remove_relayer X o' symbol who s =
     ensure_root o' s (ok_or (lookup X who) CannotLookup s (\<lambda>relayer.
       rrelayers_lift (reg_remove_relayer symbol relayer) s))"

definition payers_set_threshold ::
    "origin \<Rightarrow> RSymbol \<Rightarrow> u32 \<Rightarrow> ('c, 'z) registry_state_scheme
     \<Rightarrow> (dispatch_error, unit, ('c, 'z) registry_state_scheme) run" where
  "payers_set_threshold o' symbol threshold s =
     ensure_root o' s (payers_lift (reg_set_threshold symbol threshold) s)"

definition payers_add_payer ::
    "'c config \<Rightarrow> origin \<Rightarrow> RSymbol \<Rightarrow> bytes \<Rightarrow> ('c, 'z) registry_state_scheme
     \<Rightarrow> (dispatch_error, unit, ('c, 'z) registry_state_scheme) run" where
  "payers_add_payer X o' symbol who s =
     ensure_root o' s (ok_or (lookup X who) CannotLookup s (\<lambda>payer.
       payers_lift (reg_add_relayer symbol payer) s))"

definition payers_remove_payer ::
    "'c config \<Rightarrow> origin \<Rightarrow> RSymbol \<Rightarrow> bytes \<Rightarrow> ('c, 'z) registry_state_scheme
     \<Rightarrow> (dispatch_error, unit, ('c, 'z) registry_state_scheme) run" where
  "payers_remove_payer X o' symbol who s =
     ensure_root o' s (ok_or (lookup X who) CannotLookup s (\<lambda>payer.
       payers_lift (reg_remove_relayer symbol payer) s))"

definition brelayers_is_relayer :: "ChainId \<Rightarrow> AccountId \<Rightarrow> ('c, 'z) registry_state_scheme \<Rightarrow> bool" where
  "brelayers_is_relayer chain_id who s = is_relayer chain_id who (brelayers s)"

definition rrelayers_is_relayer :: "RSymbol \<Rightarrow> AccountId \<Rightarrow> ('c, 'z) registry_state_scheme \<Rightarrow> bool" where
  "rrelayers_is_relayer symbol who s = is_relayer symbol who (rrelayers s)"

definition is_payer :: "RSymbol \<Rightarrow> AccountId \<Rightarrow> ('c, 'z) registry_state_scheme \<Rightarrow> bool" where
  "is_payer symbol who s = is_relayer symbol who (payers s)"

section \<open>Histories\<close>

text \<open>Any sequence of attempts to change a registry; a failed attempt leaves what the code leaves.\<close>

datatype 'k reg_op = OpSetThreshold 'k u32 | OpAdd 'k AccountId | OpRemove 'k AccountId

fun reg_exec :: "'k reg_op \<Rightarrow> 'k relayer_store \<Rightarrow> (relayers_error, 'k relayers_event list, 'k relayer_store) run" where
  "reg_exec (OpSetThreshold k n) st = reg_set_threshold k n st"
| "reg_exec (OpAdd k a) st = reg_add_relayer k a st"
| "reg_exec (OpRemove k a) st = reg_remove_relayer k a st"

fun reg_history :: "'k reg_op list \<Rightarrow> 'k relayer_store \<Rightarrow> 'k relayer_store" where
  "reg_history [] st = st"
| "reg_history (c # cs) st = reg_history cs (snd (reg_exec c st))"

section \<open>The registry interface\<close>

text \<open>
  What the voting pallets rely on: who is a member, how many members there are, and the number of
  votes a proposal needs; and what each operation that succeeds does to the three. An operation
  that fails changes nothing.
\<close>

locale registry =
  fixes member :: "'k \<Rightarrow> AccountId \<Rightarrow> 's \<Rightarrow> bool"
    and count :: "'k \<Rightarrow> 's \<Rightarrow> u32"
    and threshold :: "'k \<Rightarrow> 's \<Rightarrow> u32"
    and set_threshold :: "'k \<Rightarrow> u32 \<Rightarrow> 's \<Rightarrow> ('e, 'r, 's) run"
    and add :: "'k \<Rightarrow> AccountId \<Rightarrow> 's \<Rightarrow> ('e, 'r, 's) run"
    and remove :: "'k \<Rightarrow> AccountId \<Rightarrow> 's \<Rightarrow> ('e, 'r, 's) run"
  assumes set_threshold_ok: "set_threshold k n s = (Ok r, s') \<Longrightarrow>
      0 < n \<and> threshold j s' = (if j = k then n else threshold j s)
      \<and> member j w s' = member j w s \<and> count j s' = count j s"
    and set_threshold_fails: "set_threshold k n s = (Err e, s') \<Longrightarrow> s' = s"
    and set_threshold_total: "fst (set_threshold k n s) \<noteq> Panic"
    and add_ok: "add k a s = (Ok r, s') \<Longrightarrow>
      \<not> member k a s \<and> member j w s' = (member j w s \<or> j = k \<and> w = a)
      \<and> count j s' = (if j = k then count k s + 1 else count j s) \<and> threshold j s' = threshold j s"
    and add_fails: "add k a s = (Err e, s') \<Longrightarrow> s' = s"
    and add_total: "fst (add k a s) \<noteq> Panic"
    and remove_ok: "remove k a s = (Ok r, s') \<Longrightarrow>
      member k a s \<and> member j w s' = (member j w s \<and> \<not> (j = k \<and> w = a))
      \<and> count j s' = (if j = k then count k s - 1 else count j s) \<and> threshold j s' = threshold j s"
    and remove_fails: "remove k a s = (Err e, s') \<Longrightarrow> s' = s"
    and remove_total: "fst (remove k a s) \<noteq> Panic"
begin

definition members :: "'k \<Rightarrow> 's \<Rightarrow> AccountId set" where
  "members k s = {w. member k w s}"

definition counted :: "'s \<Rightarrow> bool" where
  "counted s \<longleftrightarrow> (\<forall>k. count k s = word_of_nat (card (members k s)))"

lemma members_add: "add k a s = (Ok r, s') \<Longrightarrow> members j s' = (if j = k then insert a (members k s) else members j s)"
  by (auto simp: members_def dest: add_ok)

lemma members_remove: "remove k a s = (Ok r, s') \<Longrightarrow> members j s' = (if j = k then members k s - {a} else members j s)"
  by (auto simp: members_def dest: remove_ok)

lemma counted_set_threshold: "counted s \<Longrightarrow> set_threshold k n s = (Ok r, s') \<Longrightarrow> counted s'"
  by (simp add: counted_def members_def set_threshold_ok)

lemma counted_add:
  assumes "counted s" "add k a s = (Ok r, s')"
  shows "counted s'"
proof -
  have "a \<notin> members k s"
    using add_ok [OF assms(2)] by (simp add: members_def)
  then show ?thesis
    using assms(1) by (simp add: counted_def add_ok [OF assms(2)] members_add [OF assms(2)])
qed

lemma counted_remove:
  assumes "counted s" "remove k a s = (Ok r, s')"
  shows "counted s'"
proof -
  have "a \<in> members k s"
    using remove_ok [OF assms(2)] by (simp add: members_def)
  then have "card (members k s) = Suc (card (members k s - {a}))"
    by (intro card.remove) simp_all
  then show ?thesis
    using assms(1) by (simp add: counted_def remove_ok [OF assms(2)] members_remove [OF assms(2)]
        del: card_Diff_insert card_Diff_singleton)
qed

text \<open>A threshold that was set is never reset to zero.\<close>

lemma threshold_stays:
  "0 < threshold j s \<Longrightarrow> set_threshold k n s = (Ok r, s') \<Longrightarrow> 0 < threshold j s'"
  "0 < threshold j s \<Longrightarrow> add k a s = (Ok r, s') \<Longrightarrow> 0 < threshold j s'"
  "0 < threshold j s \<Longrightarrow> remove k a s = (Ok r, s') \<Longrightarrow> 0 < threshold j s'"
  by (simp_all add: set_threshold_ok add_ok remove_ok)

end

lemmas reg_ops = reg_set_threshold_def reg_add_relayer_def reg_remove_relayer_def is_relayer_def

lemma reg_lift_Ok:
  "reg_lift get upd err ev m s = (Ok u, s') \<longleftrightarrow>
     (\<exists>evs st. m (get s) = (Ok evs, st) \<and>
        s' = (upd (\<lambda>_. st) s)\<lparr>events := events s @ map ev evs\<rparr>)"
  by (auto simp: reg_lift_def split: prod.splits outcome.splits)

lemma reg_lift_Err:
  "reg_lift get upd err ev m s = (Err e, s') \<longleftrightarrow>
     (\<exists>e' st. m (get s) = (Err e', st) \<and> e = err e' \<and> s' = upd (\<lambda>_. st) s)"
  by (auto simp: reg_lift_def split: prod.splits outcome.splits)

lemma reg_lift_Panic: "fst (reg_lift get upd err ev m s) = Panic \<longleftrightarrow> fst (m (get s)) = Panic"
  by (auto simp: reg_lift_def split: prod.splits outcome.splits)

interpretation reg: registry is_relayer "\<lambda>k st. RelayerCount st k" "\<lambda>k st. RelayerThreshold st k"
    reg_set_threshold reg_add_relayer reg_remove_relayer
  by unfold_locales (auto simp: reg_ops ensure_def split: if_splits)

lemma reg_lift_registry:
  assumes get_upd: "\<And>f s. get (upd f s) = f (get s)"
    and get_events: "\<And>e s. get (s\<lparr>events := e\<rparr>) = get s"
    and upd_same: "\<And>s. upd (\<lambda>_. get s) s = s"
  shows "registry (\<lambda>k w s. is_relayer k w (get s)) (\<lambda>k s. RelayerCount (get s) k)
     (\<lambda>k s. RelayerThreshold (get s) k)
     (\<lambda>k n. reg_lift get upd err ev (reg_set_threshold k n))
     (\<lambda>k a. reg_lift get upd err ev (reg_add_relayer k a))
     (\<lambda>k a. reg_lift get upd err ev (reg_remove_relayer k a))"
  by unfold_locales
    (auto simp: reg_lift_Ok reg_lift_Err reg_lift_Panic get_upd get_events upd_same
       reg_ops ensure_def split: if_splits)

text \<open>The three pallets, behind their root-only dispatchables.\<close>

interpretation breg: registry brelayers_is_relayer "\<lambda>k s. RelayerCount (brelayers s) k"
    "\<lambda>k s. RelayerThreshold (brelayers s) k" "brelayers_set_threshold Root"
    "\<lambda>k a. brelayers_lift (reg_add_relayer k a)" "\<lambda>k a. brelayers_lift (reg_remove_relayer k a)"
  unfolding brelayers_is_relayer_def brelayers_set_threshold_def ensure_root_simps
  by (rule reg_lift_registry) simp_all

interpretation rreg: registry rrelayers_is_relayer "\<lambda>k s. RelayerCount (rrelayers s) k"
    "\<lambda>k s. RelayerThreshold (rrelayers s) k" "rrelayers_set_threshold Root"
    "\<lambda>k a. rrelayers_lift (reg_add_relayer k a)" "\<lambda>k a. rrelayers_lift (reg_remove_relayer k a)"
  unfolding rrelayers_is_relayer_def rrelayers_set_threshold_def ensure_root_simps
  by (rule reg_lift_registry) simp_all

interpretation preg: registry is_payer "\<lambda>k s. RelayerCount (payers s) k"
    "\<lambda>k s. RelayerThreshold (payers s) k" "payers_set_threshold Root"
    "\<lambda>k a. payers_lift (reg_add_relayer k a)" "\<lambda>k a. payers_lift (reg_remove_relayer k a)"
  unfolding is_payer_def payers_set_threshold_def ensure_root_simps
  by (rule reg_lift_registry) simp_all

section \<open>Properties\<close>

lemma reg_exec_cases:
  obtains (unchanged) "snd (reg_exec c st) = st"
  | (ok) r st' where "reg_exec c st = (Ok r, st')"
proof -
  have "snd (reg_exec c st) = st \<or> (\<exists>r st'. reg_exec c st = (Ok r, st'))"
    by (cases c) (simp_all add: reg_ops ensure_def)
  then show thesis using unchanged ok by blast
qed

lemma counted_step: "reg.counted st \<Longrightarrow> reg.counted (snd (reg_exec c st))"
proof (cases c st rule: reg_exec_cases)
  case (ok r st')
  moreover assume "reg.counted st"
  ultimately show ?thesis
    by (cases c) (auto intro: reg.counted_set_threshold reg.counted_add reg.counted_remove)
qed simp

lemma threshold_step:
  "0 < RelayerThreshold st k \<Longrightarrow> 0 < RelayerThreshold (snd (reg_exec c st)) k"
proof (cases c st rule: reg_exec_cases)
  case (ok r st')
  moreover assume "0 < RelayerThreshold st k"
  ultimately show ?thesis
    by (cases c) (auto intro: reg.threshold_stays)
qed simp

lemma counted_history: "reg.counted st \<Longrightarrow> reg.counted (reg_history cs st)"
  by (induction cs arbitrary: st) (simp_all add: counted_step)

lemma threshold_history:
  "0 < RelayerThreshold st k \<Longrightarrow> 0 < RelayerThreshold (reg_history cs st) k"
  by (induction cs arbitrary: st) (simp_all add: threshold_step)

lemma counted_empty: "reg.counted empty_relayers"
  by (simp add: reg.counted_def reg.members_def empty_relayers_def is_relayer_def)

text \<open>
  After any sequence of attempts to change a registry, the stored relayer count of every key is
  the number of its members, at the width of the counter: the decrement of a removal never runs
  below what the membership map holds.
\<close>

theorem relayer_count_is_membership:
  "RelayerCount (reg_history cs empty_relayers) k
     = word_of_nat (card {w. is_relayer k w (reg_history cs empty_relayers)})"
  using counted_history [OF counted_empty, of cs] by (simp add: reg.counted_def reg.members_def)

end
