(* ===== verification/Rate.thy ===== *)
theory Rate
  imports Relayers
begin

text \<open>
  \<open>rtoken/rate\<close>: the exchange rate between a staked token and its liquid rtoken, in units of
  \<open>10^12\<close>. The other rtoken and rdexn pallets convert amounts with it; the ledger sets it when
  the last pool of an era reports its active stake.
\<close>

definition RATEBASE :: RateType where "RATEBASE = 1000000000000"

record rate_store =
  EraRate :: "RSymbol \<Rightarrow> EraIndex \<Rightarrow> RateType option"
  Rate :: "RSymbol \<Rightarrow> RateType option"

definition empty_rates :: rate_store where
  "empty_rates = \<lparr>EraRate = (\<lambda>_ _. None), Rate = (\<lambda>_. None)\<rparr>"

record 'c rate_state = "'c registry_state" +
  rates :: rate_store

text \<open>The cast \<open>as RateType\<close> keeps the low 64 bits of the quotient.\<close>

definition set_rate ::
    "'c config \<Rightarrow> RSymbol \<Rightarrow> u128 \<Rightarrow> u128 \<Rightarrow> ('c, 'z) rate_state_scheme
     \<Rightarrow> RateType \<times> ('c, 'z) rate_state_scheme" where
  "set_rate X symbol total' rtotal s =
     (if total' = 0 \<or> rtotal = 0 then
        (RATEBASE, deposit_event (RTokenRateEv (RateSet symbol RATEBASE))
           (rates_update (\<lambda>st. st\<lparr>Rate := (Rate st)(symbol \<mapsto> RATEBASE)\<rparr>) s))
      else
        let new_rate = (ucast (unwrap_or (multiply_by_rational X total' (ucast RATEBASE) rtotal) (ucast RATEBASE)) :: RateType);
            op_rate = Rate (rates s) symbol
        in if op_rate = None \<or> the op_rate \<noteq> new_rate
           then (new_rate, deposit_event (RTokenRateEv (RateSet symbol new_rate))
                   (rates_update (\<lambda>st. st\<lparr>Rate := (Rate st)(symbol \<mapsto> new_rate)\<rparr>) s))
           else (new_rate, s))"

definition set_era_rate :: "RSymbol \<Rightarrow> EraIndex \<Rightarrow> RateType \<Rightarrow> ('c, 'z) rate_state_scheme \<Rightarrow> ('c, 'z) rate_state_scheme" where
  "set_era_rate symbol era rate =
     rates_update (\<lambda>st. st\<lparr>EraRate := (EraRate st)(symbol := (EraRate st symbol)(era \<mapsto> rate))\<rparr>)"

definition token_to_rtoken :: "'c config \<Rightarrow> RSymbol \<Rightarrow> u128 \<Rightarrow> ('c, 'z) rate_state_scheme \<Rightarrow> u128" where
  "token_to_rtoken X symbol balance s =
     (case Rate (rates s) symbol of
        None \<Rightarrow> balance
      | Some rate \<Rightarrow>
          if rate = 0 then balance
          else unwrap_or (multiply_by_rational X balance (ucast RATEBASE) (ucast rate)) balance)"

definition rtoken_to_token :: "'c config \<Rightarrow> RSymbol \<Rightarrow> u128 \<Rightarrow> ('c, 'z) rate_state_scheme \<Rightarrow> u128" where
  "rtoken_to_token X symbol rbalance s =
     (case Rate (rates s) symbol of
        None \<Rightarrow> rbalance
      | Some rate \<Rightarrow> unwrap_or (multiply_by_rational X rbalance (ucast rate) (ucast RATEBASE)) 0)"

text \<open>A state in which the rate of one token is 1.5, for evaluation.\<close>

definition sample_rate :: "(AccountId \<Rightarrow> u128) rate_state" where
  "sample_rate = \<lparr>block_number = 10, events = [], native = (\<lambda>_. 1000), rbalances = empty_tokens,
     xbalances = empty_tokens, lpbalances = empty_tokens, brelayers = empty_relayers,
     rrelayers = empty_relayers, payers = empty_relayers,
     rates = empty_rates\<lparr>Rate := (\<lambda>_. None)(RDOT \<mapsto> 1500000000000)\<rparr>\<rparr>"

section \<open>Arithmetic of the conversions\<close>

lemma unat_RATEBASE [simp]: "unat RATEBASE = 10 ^ 12"
  by (simp add: RATEBASE_def)

lemma unat_rate_u128 [simp]: "unat (ucast (r :: RateType) :: u128) = unat r"
  by (simp add: unsigned_ucast_eq take_bit_nat_eq_self unat_less_pow [THEN less_trans])

lemma mul_rational_unwrap:
  assumes "mul_rational_ok X" "c \<noteq> 0"
  shows "unat (unwrap_or (multiply_by_rational X a b c) d) =
     (if unat a * unat b div unat c < 2 ^ 128 then unat a * unat b div unat c else unat d)"
  using assms by (simp add: mul_rational_ok_def unat_of_nat)

lemma RATEBASE_neq_0 [simp]: "RATEBASE \<noteq> 0"
  by (simp add: RATEBASE_def)

lemma rate_u128_eq_0 [simp]: "(ucast (r :: RateType) :: u128) = 0 \<longleftrightarrow> r = 0"
  by (metis unat_0 unat_eq_zero unat_rate_u128)

lemma rtoken_to_token_value:
  assumes "mul_rational_ok X" "Rate (rates s) symbol = Some r"
  shows "unat (rtoken_to_token X symbol v s) =
     (if unat v * unat r div 10 ^ 12 < 2 ^ 128 then unat v * unat r div 10 ^ 12 else 0)"
  using assms by (simp add: rtoken_to_token_def mul_rational_unwrap)

lemma token_to_rtoken_value:
  assumes "mul_rational_ok X" "Rate (rates s) symbol = Some r" "r \<noteq> 0"
  shows "unat (token_to_rtoken X symbol v s) =
     (if unat v * 10 ^ 12 div unat r < 2 ^ 128 then unat v * 10 ^ 12 div unat r else unat v)"
  using assms by (simp add: token_to_rtoken_def mul_rational_unwrap)

lemma scaled_div_le: "(a :: nat) \<le> x * b div r \<Longrightarrow> 0 < b \<Longrightarrow> a * r div b \<le> x"
proof -
  assume "a \<le> x * b div r" "0 < b"
  then have "a * r \<le> x * b"
    by (meson div_times_less_eq_dividend le_trans mult_le_mono1)
  then have "a * r div b \<le> x * b div b"
    by (rule div_le_mono)
  then show ?thesis using \<open>0 < b\<close> by simp
qed

lemma set_rate_sets: "Rate (rates (snd (set_rate X symbol total' rtotal s))) symbol = Some (fst (set_rate X symbol total' rtotal s))"
  by (cases "Rate (rates s) symbol") (simp_all add: set_rate_def Let_def deposit_event_def)

lemma set_rate_others: "y \<noteq> symbol \<Longrightarrow> Rate (rates (snd (set_rate X symbol total' rtotal s))) y = Rate (rates s) y"
  by (simp add: set_rate_def Let_def deposit_event_def)

lemma set_rate_value:
  assumes "mul_rational_ok X" "total' \<noteq> 0" "rtotal \<noteq> 0"
  shows "unat (fst (set_rate X symbol total' rtotal s)) =
    (if unat total' * 10 ^ 12 div unat rtotal < 2 ^ 128
     then unat total' * 10 ^ 12 div unat rtotal mod 2 ^ 64 else 10 ^ 12)"
proof -
  have "fst (set_rate X symbol total' rtotal s) =
      (ucast (unwrap_or (multiply_by_rational X total' (ucast RATEBASE) rtotal) (ucast RATEBASE)) :: RateType)"
    using assms by (simp add: set_rate_def Let_def)
  then show ?thesis
    using mul_rational_unwrap [OF assms(1, 3), of total' "ucast RATEBASE" "ucast RATEBASE"]
    by (simp add: unsigned_ucast_eq take_bit_eq_mod)
qed

lemma quotient_overflow_le:
  assumes "(2 :: nat) ^ 128 \<le> t * 10 ^ 12 div r" "t < 2 ^ 128" "r \<noteq> 0"
  shows "r \<le> 10 ^ 12" "r \<le> t"
proof -
  from assms(1) have "2 ^ 128 * r \<le> t * 10 ^ 12"
    by (meson div_times_less_eq_dividend le_trans mult_le_mono1)
  moreover have "t * 10 ^ 12 < 2 ^ 128 * 10 ^ 12"
    using assms(2) by simp
  ultimately have "2 ^ 128 * r < 2 ^ 128 * (10 ^ 12 :: nat)" by linarith
  then show "r \<le> 10 ^ 12" by simp
  show "r \<le> t"
    using \<open>2 ^ 128 * r \<le> t * 10 ^ 12\<close> by simp
qed

section \<open>Properties\<close>

lemma set_rate_solvent_aux:
  assumes "mul_rational_ok X" "total' \<noteq> 0"
  shows "unat (rtoken_to_token X symbol rtotal (snd (set_rate X symbol total' rtotal s))) \<le> unat total'"
proof (cases "rtotal = 0")
  case True
  with assms show ?thesis
    by (simp add: rtoken_to_token_value [OF assms(1) set_rate_sets])
next
  case False
  let ?q = "unat total' * 10 ^ 12 div unat rtotal"
  let ?r = "unat (fst (set_rate X symbol total' rtotal s))"
  have "unat rtotal * ?r div 10 ^ 12 \<le> unat total'"
  proof (cases "?q < 2 ^ 128")
    case True
    then have "?r \<le> ?q" using assms False by (simp add: set_rate_value)
    then show ?thesis using scaled_div_le [of ?r] by (simp add: mult.commute)
  next
    case large: False
    then have "unat rtotal \<le> unat total'"
      using quotient_overflow_le(2) [of "unat total'" "unat rtotal"] False unat_less_pow [of total']
      by (simp add: unat_eq_0)
    with large assms False show ?thesis by (simp add: set_rate_value)
  qed
  then show ?thesis
    by (simp add: rtoken_to_token_value [OF assms(1) set_rate_sets])
qed

text \<open>
  C29. Converting an amount of token to rtoken and back never yields more than the amount, whatever
  the stored rate is (unset, zero, or so small that the first conversion falls back to the
  unconverted amount).
\<close>

theorem rate_roundtrip_no_gain:
  assumes "mul_rational_ok X"
  shows "unat (rtoken_to_token X symbol (token_to_rtoken X symbol v s) s) \<le> unat v"
proof (cases "Rate (rates s) symbol")
  case None
  then show ?thesis by (simp add: rtoken_to_token_def token_to_rtoken_def)
next
  case (Some r)
  show ?thesis
  proof (cases "r = 0")
    case True
    with Some assms show ?thesis by (simp add: rtoken_to_token_value)
  next
    case False
    let ?q = "unat v * 10 ^ 12 div unat r"
    have "unat (token_to_rtoken X symbol v s) * unat r div 10 ^ 12 \<le> unat v"
    proof (cases "?q < 2 ^ 128")
      case True
      with Some False assms show ?thesis
        by (simp add: token_to_rtoken_value scaled_div_le)
    next
      case large: False
      then have "unat r \<le> 10 ^ 12"
        using quotient_overflow_le(1) [of "unat v" "unat r"] False unat_less_pow [of v]
        by (simp add: unat_eq_0)
      then have "unat v * unat r div 10 ^ 12 \<le> unat v"
        using div_le_mono [of "unat v * unat r" "unat v * 10 ^ 12" "10 ^ 12"] by simp
      with large Some False assms show ?thesis by (simp add: token_to_rtoken_value)
    qed
    with Some assms show ?thesis by (simp add: rtoken_to_token_value)
  qed
qed

theorem rate_roundtrip_no_gain_witness:
  "mul_rational_ok plain_config \<and>
   unat (rtoken_to_token plain_config RDOT (token_to_rtoken plain_config RDOT 100 sample_rate) sample_rate)
     \<le> unat (100 :: u128)"
  using rate_roundtrip_no_gain [OF plain_mul_rational_ok, of RDOT 100 sample_rate] plain_mul_rational_ok
  by blast

text \<open>
  A rate set from a non-empty stake never promises more than the stake: the whole rtoken supply
  it was computed for redeems for at most the total stake, also when the quotient is truncated to
  64 bits or too large to compute.
\<close>

theorem set_rate_solvent:
  assumes "mul_rational_ok X" "total' \<noteq> 0"
  shows "unat (rtoken_to_token X symbol rtotal (snd (set_rate X symbol total' rtotal s))) \<le> unat total'"
  using assms by (rule set_rate_solvent_aux)

theorem set_rate_solvent_witness:
  "mul_rational_ok plain_config \<and> (300 :: u128) \<noteq> 0 \<and>
   unat (rtoken_to_token plain_config RDOT 7 (snd (set_rate plain_config RDOT 300 7 sample_rate))) \<le> unat (300 :: u128)"
  using set_rate_solvent [OF plain_mul_rational_ok, of 300 RDOT 7 sample_rate] plain_mul_rational_ok
  by simp

text \<open>
  The quotient is cut to 64 bits without a check: a stake of \<open>2^64\<close> against an rtoken supply of
  \<open>10^12\<close> sets the rate to zero, after which every rtoken redeems for nothing while new deposits
  are converted one to one.
\<close>

theorem set_rate_truncates:
  assumes "mul_rational_ok X"
  shows "let (r, s') = set_rate X symbol (2 ^ 64) (10 ^ 12) s
         in r = 0 \<and> Rate (rates s') symbol = Some 0
            \<and> rtoken_to_token X symbol v s' = 0 \<and> token_to_rtoken X symbol v s' = v"
proof -
  let ?res = "set_rate X symbol (2 ^ 64) (10 ^ 12) s"
  have nz: "(2 ^ 64 :: u128) \<noteq> 0" "(10 ^ 12 :: u128) \<noteq> 0" by simp_all
  have "unat (fst ?res) = 0"
    unfolding set_rate_value [OF assms nz] by simp
  then have zero: "fst ?res = 0" by (simp add: unat_eq_0)
  then have rate: "Rate (rates (snd ?res)) symbol = Some 0"
    by (simp only: set_rate_sets)
  then have "unat (rtoken_to_token X symbol v (snd ?res)) = 0"
    by (simp only: rtoken_to_token_value [OF assms rate]) simp
  then have "rtoken_to_token X symbol v (snd ?res) = 0" by (simp only: unat_eq_0)
  moreover have "token_to_rtoken X symbol v (snd ?res) = v"
    using rate by (simp only: token_to_rtoken_def) simp
  ultimately show ?thesis
    using zero rate by (simp only: case_prod_unfold Let_def)
qed

theorem set_rate_truncates_witness:
  "mul_rational_ok plain_config \<and>
   (let (r, s') = set_rate plain_config RDOT (2 ^ 64) (10 ^ 12) sample_rate
    in r = 0 \<and> Rate (rates s') RDOT = Some 0
       \<and> rtoken_to_token plain_config RDOT 5 s' = 0 \<and> token_to_rtoken plain_config RDOT 5 s' = 5)"
  using set_rate_truncates [OF plain_mul_rational_ok, of RDOT sample_rate 5] plain_mul_rational_ok
  by blast

end
