(* ===== verification/Bridge.thy ===== *)
theory Bridge
  imports Rate
begin

text \<open>
  \<open>bridge/common\<close>: relayers of a source chain vote for a proposal (a nonce and a call); when the
  votes reach the threshold the call is dispatched from the bridge's account. The pallet also
  keeps the whitelist of chains with their deposit nonces, the fees, and the resource maps.
  The call type is a parameter, and so is the function that dispatches a call.
\<close>

section \<open>Resource identifiers\<close>

text \<open>One step of the loop that right-aligns the identifier below the chain byte.\<close>

definition place_byte :: "bytes \<Rightarrow> nat \<Rightarrow> nat \<Rightarrow> bytes \<Rightarrow> bytes" where
  "place_byte id' range' i r_id = r_id[30 - i := id' ! (range' - 1 - i)]"

definition derive_resource_id :: "ChainId \<Rightarrow> bytes \<Rightarrow> ResourceId" where
  "derive_resource_id chain id' =
     (let r_id = (replicate 32 0)[31 := chain];
          range' = if length id' > 31 then 31 else length id'
      in fold (place_byte id' range') [0..<range'] r_id)"

section \<open>Proposals\<close>

datatype (plugins only: code) ProposalStatus = Active | Passed | Expired | Executed

record ProposalVotes =
  voted :: "AccountId list"
  status :: ProposalStatus
  expiry :: BlockNumber

definition ProposalVotes_default :: ProposalVotes where
  "ProposalVotes_default = \<lparr>voted = [], status = Active, expiry = 0\<rparr>"

definition is_completed :: "ProposalVotes \<Rightarrow> bool" where
  "is_completed v \<longleftrightarrow> status v = Executed \<or> status v = Expired"

definition has_voted :: "ProposalVotes \<Rightarrow> AccountId \<Rightarrow> bool" where
  "has_voted v who \<longleftrightarrow> who \<in> set (voted v)"

definition is_expired :: "ProposalVotes \<Rightarrow> BlockNumber \<Rightarrow> bool" where
  "is_expired v now \<longleftrightarrow> expiry v \<le> now"

definition to_be_executed :: "ProposalVotes \<Rightarrow> ProposalVotes" where
  "to_be_executed v = v\<lparr>status := Executed\<rparr>"

definition derivate :: "ProposalVotes \<Rightarrow> u32 \<Rightarrow> BlockNumber \<Rightarrow> ProposalStatus \<times> ProposalVotes" where
  "derivate v threshold now =
     (if is_completed v then (status v, v)
      else if expiry v \<le> now then (Expired, v\<lparr>status := Expired\<rparr>)
      else if length (voted v) \<ge> unat threshold then (Passed, v\<lparr>status := Passed\<rparr>)
      else (status v, v))"

section \<open>Storage\<close>

text \<open>
  \<open>OwnRelayerThreshold\<close>, \<open>OwnRelayers\<close> and \<open>OwnRelayerCount\<close> are this pallet's items of those
  names, beside the per-chain ones of \<open>bridge/relayers\<close>.
\<close>

record 'call bridge_store =
  ChainNonces :: "ChainId \<Rightarrow> DepositNonce option"
  ChainFees :: "ChainId \<Rightarrow> Balance option"
  ProxyAccounts :: "AccountId \<Rightarrow> u8 option"
  FeesRecipientAccount :: "AccountId option"
  IsPaused :: bool
  OwnRelayerThreshold :: u32
  OwnRelayers :: "AccountId \<Rightarrow> bool"
  OwnRelayerCount :: u32
  BridgeVotes :: "ChainId \<Rightarrow> DepositNonce \<times> 'call \<Rightarrow> ProposalVotes option"
  Resources :: "ResourceId \<Rightarrow> bytes option"
  ResourceRsymbol :: "ResourceId \<Rightarrow> RSymbol option"
  RsymbolResource :: "RSymbol \<Rightarrow> ResourceId option"
  ResourceXsymbol :: "ResourceId \<Rightarrow> XSymbol option"
  XsymbolResource :: "XSymbol \<Rightarrow> ResourceId option"

definition DEFAULT_RELAYER_THRESHOLD :: u32 where "DEFAULT_RELAYER_THRESHOLD = 1"

definition empty_bridge :: "'call bridge_store" where
  "empty_bridge = \<lparr>ChainNonces = (\<lambda>_. None), ChainFees = (\<lambda>_. None), ProxyAccounts = (\<lambda>_. None),
     FeesRecipientAccount = None, IsPaused = False, OwnRelayerThreshold = DEFAULT_RELAYER_THRESHOLD,
     OwnRelayers = (\<lambda>_. False), OwnRelayerCount = 0, BridgeVotes = (\<lambda>_ _. None),
     Resources = (\<lambda>_. None), ResourceRsymbol = (\<lambda>_. None), RsymbolResource = (\<lambda>_. None),
     ResourceXsymbol = (\<lambda>_. None), XsymbolResource = (\<lambda>_. None)\<rparr>"

record ('c, 'call) bridge_state = "'c rate_state" +
  bridge :: "'call bridge_store"

section \<open>Administration\<close>

definition bridge_account_id :: "'c config \<Rightarrow> AccountId" where
  "bridge_account_id X = into_account X ''cb/bridg''"

definition ensure_admin :: "'c config \<Rightarrow> origin \<Rightarrow> 's \<Rightarrow> (dispatch_error, 'a, 's) run \<Rightarrow> (dispatch_error, 'a, 's) run" where
  "ensure_admin X o' s k = (if admin_origin X o' then k else ensure_root o' s k)"

text \<open>\<open>EnsureBridge\<close>: only the bridge's own account passes.\<close>

definition ensure_bridge ::
    "'c config \<Rightarrow> origin \<Rightarrow> 's \<Rightarrow> (AccountId \<Rightarrow> (dispatch_error, 'a, 's) run) \<Rightarrow> (dispatch_error, 'a, 's) run" where
  "ensure_bridge X o' s k =
     (case o' of
        Signed who \<Rightarrow> if who = bridge_account_id X then k (bridge_account_id X) else (Err BadOrigin, s)
      | _ \<Rightarrow> (Err BadOrigin, s))"

lemma ensure_admin_Ok [run_ok]:
  "ensure_admin X o' s k = (Ok x, s') \<longleftrightarrow> (admin_origin X o' \<or> o' = Root) \<and> k = (Ok x, s')"
  by (auto simp: ensure_admin_def run_ok)

lemma ensure_bridge_Ok [run_ok]:
  "ensure_bridge X o' s k = (Ok x, s') \<longleftrightarrow>
     o' = Signed (bridge_account_id X) \<and> k (bridge_account_id X) = (Ok x, s')"
  by (cases o') (auto simp: ensure_bridge_def)

lemma ensure_bridge_simps [simp]:
  "ensure_bridge X (Signed (bridge_account_id X)) s k = k (bridge_account_id X)"
  "o' \<noteq> Signed (bridge_account_id X) \<Longrightarrow> ensure_bridge X o' s k = (Err BadOrigin, s)"
  by (cases o'; auto simp: ensure_bridge_def)+

lemma ensure_admin_keeps [run_keeps]:
  "P s \<Longrightarrow> keeps P k \<Longrightarrow> keeps P (ensure_admin X o' s k)"
  by (auto simp: ensure_admin_def intro: run_keeps)

lemma ensure_bridge_keeps [run_keeps]:
  "P s \<Longrightarrow> (o' = Signed (bridge_account_id X) \<Longrightarrow> keeps P (k (bridge_account_id X))) \<Longrightarrow> keeps P (ensure_bridge X o' s k)"
  by (cases o') (auto simp: ensure_bridge_def intro: run_keeps)

lemma ensure_admin_total [run_total]: "no_panic k \<Longrightarrow> no_panic (ensure_admin X o' s k)"
  by (auto simp: ensure_admin_def intro: run_total)

lemma ensure_bridge_total [run_total]: "no_panic (k (bridge_account_id X)) \<Longrightarrow> no_panic (ensure_bridge X o' s k)"
  by (cases o') (auto simp: ensure_bridge_def intro: run_total)

definition chain_whitelisted :: "ChainId \<Rightarrow> ('c, 'call, 'z) bridge_state_scheme \<Rightarrow> bool" where
  "chain_whitelisted id' s \<longleftrightarrow> ChainNonces (bridge s) id' \<noteq> None"

definition bridge_is_relayer :: "AccountId \<Rightarrow> ('c, 'call, 'z) bridge_state_scheme \<Rightarrow> bool" where
  "bridge_is_relayer who s = OwnRelayers (bridge s) who"

definition bridge_set_threshold ::
    "'c config \<Rightarrow> origin \<Rightarrow> u32 \<Rightarrow> ('c, 'call, 'z) bridge_state_scheme
     \<Rightarrow> (dispatch_error, unit, ('c, 'call, 'z) bridge_state_scheme) run" where
  "bridge_set_threshold X o' threshold s =
     ensure_admin X o' s (ensure (threshold > 0) (BridgeErr bridge_error.InvalidThreshold) s
       (Ok (), deposit_event (BridgeEv (bridge_event.RelayerThresholdChanged threshold))
          (bridge_update (\<lambda>b. b\<lparr>OwnRelayerThreshold := threshold\<rparr>) s)))"

definition add_resource ::
    "'c config \<Rightarrow> origin \<Rightarrow> ResourceId \<Rightarrow> bytes \<Rightarrow> ('c, 'call, 'z) bridge_state_scheme
     \<Rightarrow> (dispatch_error, unit, ('c, 'call, 'z) bridge_state_scheme) run" where
  "add_resource X o' id' method s =
     ensure_admin X o' s (Ok (), bridge_update (\<lambda>b. b\<lparr>Resources := (Resources b)(id' \<mapsto> method)\<rparr>) s)"

definition remove_resource ::
    "'c config \<Rightarrow> origin \<Rightarrow> ResourceId \<Rightarrow> ('c, 'call, 'z) bridge_state_scheme
     \<Rightarrow> (dispatch_error, unit, ('c, 'call, 'z) bridge_state_scheme) run" where
  "remove_resource X o' id' s =
     ensure_admin X o' s (Ok (), bridge_update (\<lambda>b. b\<lparr>Resources := (Resources b)(id' := None)\<rparr>) s)"

definition bridge_add_relayer ::
    "'c config \<Rightarrow> origin \<Rightarrow> bytes \<Rightarrow> ('c, 'call, 'z) bridge_state_scheme
     \<Rightarrow> (dispatch_error, unit, ('c, 'call, 'z) bridge_state_scheme) run" where
  "bridge_add_relayer X o' who s =
     ensure_admin X o' s (ok_or (lookup X who) CannotLookup s (\<lambda>relayer.
       ensure (\<not> bridge_is_relayer relayer s) (BridgeErr bridge_error.RelayerAlreadyExists) s
         (Ok (), deposit_event (BridgeEv (bridge_event.RelayerAdded relayer))
            (bridge_update (\<lambda>b. b\<lparr>OwnRelayers := (OwnRelayers b)(relayer := True),
                                   OwnRelayerCount := OwnRelayerCount b + 1\<rparr>) s))))"

definition bridge_remove_relayer ::
    "'c config \<Rightarrow> origin \<Rightarrow> bytes \<Rightarrow> ('c, 'call, 'z) bridge_state_scheme
     \<Rightarrow> (dispatch_error, unit, ('c, 'call, 'z) bridge_state_scheme) run" where
  "bridge_remove_relayer X o' dest s =
     ensure_admin X o' s (ok_or (lookup X dest) CannotLookup s (\<lambda>relayer.
       ensure (bridge_is_relayer relayer s) (BridgeErr bridge_error.RelayerInvalid) s
         (Ok (), deposit_event (BridgeEv (bridge_event.RelayerRemoved relayer))
            (bridge_update (\<lambda>b. b\<lparr>OwnRelayers := (OwnRelayers b)(relayer := False),
                                   OwnRelayerCount := OwnRelayerCount b - 1\<rparr>) s))))"

definition map_resource_and_rsymbol ::
    "'c config \<Rightarrow> origin \<Rightarrow> ResourceId \<Rightarrow> RSymbol \<Rightarrow> ('c, 'call, 'z) bridge_state_scheme
     \<Rightarrow> (dispatch_error, unit, ('c, 'call, 'z) bridge_state_scheme) run" where
  "map_resource_and_rsymbol X o' resource_id symbol s =
     ensure_admin X o' s (Ok (), bridge_update (\<lambda>b. b\<lparr>
       ResourceRsymbol := (ResourceRsymbol b)(resource_id \<mapsto> symbol),
       RsymbolResource := (RsymbolResource b)(symbol \<mapsto> resource_id)\<rparr>) s)"

definition unmap_resource_and_rsymbol ::
    "'c config \<Rightarrow> origin \<Rightarrow> ResourceId \<Rightarrow> RSymbol \<Rightarrow> ('c, 'call, 'z) bridge_state_scheme
     \<Rightarrow> (dispatch_error, unit, ('c, 'call, 'z) bridge_state_scheme) run" where
  "unmap_resource_and_rsymbol X o' resource_id symbol s =
     ensure_admin X o' s (Ok (), bridge_update (\<lambda>b. b\<lparr>
       ResourceRsymbol := (ResourceRsymbol b)(resource_id := None),
       RsymbolResource := (RsymbolResource b)(symbol := None)\<rparr>) s)"

definition map_resource_and_xsymbol ::
    "'c config \<Rightarrow> origin \<Rightarrow> ResourceId \<Rightarrow> XSymbol \<Rightarrow> ('c, 'call, 'z) bridge_state_scheme
     \<Rightarrow> (dispatch_error, unit, ('c, 'call, 'z) bridge_state_scheme) run" where
  "map_resource_and_xsymbol X o' resource_id symbol s =
     ensure_admin X o' s (Ok (), bridge_update (\<lambda>b. b\<lparr>
       ResourceXsymbol := (ResourceXsymbol b)(resource_id \<mapsto> symbol),
       XsymbolResource := (XsymbolResource b)(symbol \<mapsto> resource_id)\<rparr>) s)"

definition unmap_resource_and_xsymbol ::
    "'c config \<Rightarrow> origin \<Rightarrow> ResourceId \<Rightarrow> XSymbol \<Rightarrow> ('c, 'call, 'z) bridge_state_scheme
     \<Rightarrow> (dispatch_error, unit, ('c, 'call, 'z) bridge_state_scheme) run" where
  "unmap_resource_and_xsymbol X o' resource_id symbol s =
     ensure_admin X o' s (Ok (), bridge_update (\<lambda>b. b\<lparr>
       ResourceXsymbol := (ResourceXsymbol b)(resource_id := None),
       XsymbolResource := (XsymbolResource b)(symbol := None)\<rparr>) s)"

definition whitelist ::
    "'c config \<Rightarrow> ChainId \<Rightarrow> ('c, 'call, 'z) bridge_state_scheme
     \<Rightarrow> (dispatch_error, unit, ('c, 'call, 'z) bridge_state_scheme) run" where
  "whitelist X id' s =
     ensure (id' \<noteq> ChainIdentity X) (BridgeErr InvalidChainId) s
       (ensure (\<not> chain_whitelisted id' s) (BridgeErr ChainAlreadyWhitelisted) s
         (Ok (), deposit_event (BridgeEv (ChainWhitelisted id'))
            (bridge_update (\<lambda>b. b\<lparr>ChainNonces := (ChainNonces b)(id' \<mapsto> 0)\<rparr>) s)))"

definition whitelist_chain ::
    "'c config \<Rightarrow> origin \<Rightarrow> ChainId \<Rightarrow> ('c, 'call, 'z) bridge_state_scheme
     \<Rightarrow> (dispatch_error, unit, ('c, 'call, 'z) bridge_state_scheme) run" where
  "whitelist_chain X o' id' s = ensure_admin X o' s (whitelist X id' s)"

definition remove_whitelist_chain ::
    "'c config \<Rightarrow> origin \<Rightarrow> ChainId \<Rightarrow> ('c, 'call, 'z) bridge_state_scheme
     \<Rightarrow> (dispatch_error, unit, ('c, 'call, 'z) bridge_state_scheme) run" where
  "remove_whitelist_chain X o' id' s =
     ensure_admin X o' s (ensure (chain_whitelisted id' s) (BridgeErr ChainNotWhitelisted) s
       (Ok (), deposit_event (BridgeEv (ChainRemoved id'))
          (bridge_update (\<lambda>b. b\<lparr>ChainNonces := (ChainNonces b)(id' := None)\<rparr>) s)))"

definition set_proxy_accounts ::
    "'c config \<Rightarrow> origin \<Rightarrow> AccountId \<Rightarrow> ('c, 'call, 'z) bridge_state_scheme
     \<Rightarrow> (dispatch_error, unit, ('c, 'call, 'z) bridge_state_scheme) run" where
  "set_proxy_accounts X o' account s =
     ensure_admin X o' s (Ok (), bridge_update (\<lambda>b. b\<lparr>ProxyAccounts := (ProxyAccounts b)(account \<mapsto> 0)\<rparr>) s)"

definition remove_proxy_accounts ::
    "'c config \<Rightarrow> origin \<Rightarrow> AccountId \<Rightarrow> ('c, 'call, 'z) bridge_state_scheme
     \<Rightarrow> (dispatch_error, unit, ('c, 'call, 'z) bridge_state_scheme) run" where
  "remove_proxy_accounts X o' account s =
     ensure_admin X o' s (Ok (), bridge_update (\<lambda>b. b\<lparr>ProxyAccounts := (ProxyAccounts b)(account := None)\<rparr>) s)"

definition set_chain_fees ::
    "origin \<Rightarrow> ChainId \<Rightarrow> Balance \<Rightarrow> ('c, 'call, 'z) bridge_state_scheme
     \<Rightarrow> (dispatch_error, unit, ('c, 'call, 'z) bridge_state_scheme) run" where
  "set_chain_fees o' id' fees s =
     ensure_signed o' s (\<lambda>who.
       ensure (chain_whitelisted id' s) (BridgeErr InvalidChainId) s
         (ensure (ProxyAccounts (bridge s) who \<noteq> None) (BridgeErr bridge_error.InvalidProxyAccount) s
           (Ok (), deposit_event (BridgeEv (ChainFeesSet id' fees))
              (bridge_update (\<lambda>b. b\<lparr>ChainFees := (ChainFees b)(id' \<mapsto> fees)\<rparr>) s))))"

definition set_fees_recipient_account ::
    "'c config \<Rightarrow> origin \<Rightarrow> AccountId \<Rightarrow> ('c, 'call, 'z) bridge_state_scheme
     \<Rightarrow> (dispatch_error, unit, ('c, 'call, 'z) bridge_state_scheme) run" where
  "set_fees_recipient_account X o' account s =
     ensure_admin X o' s (Ok (), bridge_update (\<lambda>b. b\<lparr>FeesRecipientAccount := Some account\<rparr>) s)"

definition set_is_pasued ::
    "'c config \<Rightarrow> origin \<Rightarrow> bool \<Rightarrow> ('c, 'call, 'z) bridge_state_scheme
     \<Rightarrow> (dispatch_error, unit, ('c, 'call, 'z) bridge_state_scheme) run" where
  "set_is_pasued X o' paused s =
     ensure_admin X o' s (Ok (), bridge_update (\<lambda>b. b\<lparr>IsPaused := paused\<rparr>) s)"

section \<open>Outgoing transfers\<close>

definition check_eth_recipient :: "bytes \<Rightarrow> bool" where
  "check_eth_recipient recipient \<longleftrightarrow> length recipient = 20"

definition swapable ::
    "'c config \<Rightarrow> bytes \<Rightarrow> ChainId \<Rightarrow> ('c, 'call, 'z) bridge_state_scheme
     \<Rightarrow> (Balance \<times> AccountId \<times> AccountId \<Rightarrow> (dispatch_error, 'a, ('c, 'call, 'z) bridge_state_scheme) run)
     \<Rightarrow> (dispatch_error, 'a, ('c, 'call, 'z) bridge_state_scheme) run" where
  "swapable X recipient dest_id s k =
     ensure (\<not> IsPaused (bridge s)) (BridgeErr ServicePaused) s
       (ensure (chain_whitelisted dest_id s) (BridgeErr InvalidChainId) s
         (ok_or (ChainFees (bridge s) dest_id) (BridgeErr InvalidChainFee) s (\<lambda>fee.
          ok_or (FeesRecipientAccount (bridge s)) (BridgeErr InvalidFeesRecipientAccount) s (\<lambda>receiver.
          ensure (dest_id = ETH_CHAIN_ID \<or> dest_id = BSC_CHAIN_ID \<longrightarrow> check_eth_recipient recipient)
            (BridgeErr InvalidEthereumAddress) s
            (k (fee, receiver, bridge_account_id X))))))"

definition bump_nonce ::
    "ChainId \<Rightarrow> ('c, 'call, 'z) bridge_state_scheme \<Rightarrow> DepositNonce \<times> ('c, 'call, 'z) bridge_state_scheme" where
  "bump_nonce id' s =
     (let nonce = unwrap_or (ChainNonces (bridge s) id') 0 + 1
      in (nonce, bridge_update (\<lambda>b. b\<lparr>ChainNonces := (ChainNonces b)(id' \<mapsto> nonce)\<rparr>) s))"

definition transfer_fungible ::
    "AccountId \<Rightarrow> ChainId \<Rightarrow> ResourceId \<Rightarrow> bytes \<Rightarrow> U256 \<Rightarrow> ('c, 'call, 'z) bridge_state_scheme
     \<Rightarrow> (dispatch_error, unit, ('c, 'call, 'z) bridge_state_scheme) run" where
  "transfer_fungible source dest_id resource_id to amount s =
     ensure (chain_whitelisted dest_id s) (BridgeErr ChainNotWhitelisted) s
       (case bump_nonce dest_id s of (nonce, s1) \<Rightarrow>
          (Ok (), deposit_event (BridgeEv (FungibleTransfer source dest_id nonce resource_id amount to)) s1))"

section \<open>Voting\<close>

definition put_votes ::
    "ChainId \<Rightarrow> DepositNonce \<times> 'call \<Rightarrow> ProposalVotes \<Rightarrow> ('c, 'call, 'z) bridge_state_scheme
     \<Rightarrow> ('c, 'call, 'z) bridge_state_scheme" where
  "put_votes src_id k v = bridge_update (\<lambda>b. b\<lparr>BridgeVotes :=
     (BridgeVotes b)(src_id := (BridgeVotes b src_id)(k \<mapsto> v))\<rparr>)"

definition commit_vote ::
    "'c config \<Rightarrow> AccountId \<Rightarrow> DepositNonce \<Rightarrow> ChainId \<Rightarrow> 'call \<Rightarrow> ('c, 'call, 'z) bridge_state_scheme
     \<Rightarrow> (dispatch_error, unit, ('c, 'call, 'z) bridge_state_scheme) run" where
  "commit_vote X who nonce src_id prop s =
     (let now = block_number s;
          votes = unwrap_or (BridgeVotes (bridge s) src_id (nonce, prop))
                    (ProposalVotes_default\<lparr>expiry := now + ProposalLifetime X\<rparr>)
      in ensure (\<not> is_completed votes) (BridgeErr ProposalAlreadyCompleted) s
          (ensure (\<not> has_voted votes who) (BridgeErr RelayerAlreadyVoted) s
            (let s1 = if is_expired votes now
                      then put_votes src_id (nonce, prop) (votes\<lparr>status := Expired\<rparr>) s else s
             in ensure (\<not> is_expired votes now) (BridgeErr bridge_error.ProposalExpired) s1
                  (let votes1 = votes\<lparr>voted := voted votes @ [who]\<rparr>;
                       (_, votes2) = derivate votes1 (RelayerThreshold (brelayers s1) src_id) now
                   in (Ok (), deposit_event (BridgeEv (bridge_event.VoteFor src_id nonce who))
                         (put_votes src_id (nonce, prop) votes2 s1))))))"

text \<open>
  \<open>run\<close> is the dispatch of a call from an origin; its value (post-dispatch info) is dropped.
\<close>

definition try_resolve_proposal ::
    "'c config
     \<Rightarrow> ('call \<Rightarrow> origin \<Rightarrow> ('c, 'call, 'z) bridge_state_scheme
           \<Rightarrow> (dispatch_error, unit, ('c, 'call, 'z) bridge_state_scheme) run)
     \<Rightarrow> DepositNonce \<Rightarrow> ChainId \<Rightarrow> 'call \<Rightarrow> ('c, 'call, 'z) bridge_state_scheme
     \<Rightarrow> (dispatch_error, unit, ('c, 'call, 'z) bridge_state_scheme) run" where
  "try_resolve_proposal X run nonce src_id prop s =
     ok_or (BridgeVotes (bridge s) src_id (nonce, prop)) (BridgeErr bridge_error.ProposalDoesNotExist) s (\<lambda>votes.
       case status votes of
         Passed \<Rightarrow>
           and_then (run prop (Signed (bridge_account_id X))
                      (deposit_event (BridgeEv (ProposalPassed src_id nonce)) s))
             (\<lambda>_ s1. (Ok (), deposit_event (BridgeEv (ProposalExecuted src_id nonce))
                        (put_votes src_id (nonce, prop) (to_be_executed votes) s1)))
       | Expired \<Rightarrow> (Ok (), deposit_event (BridgeEv (ProposalCancelled src_id nonce)) s)
       | _ \<Rightarrow> (Ok (), s))"

definition acknowledge_proposal ::
    "'c config
     \<Rightarrow> ('call \<Rightarrow> origin \<Rightarrow> ('c, 'call, 'z) bridge_state_scheme
           \<Rightarrow> (dispatch_error, unit, ('c, 'call, 'z) bridge_state_scheme) run)
     \<Rightarrow> origin \<Rightarrow> DepositNonce \<Rightarrow> ChainId \<Rightarrow> ResourceId \<Rightarrow> 'call \<Rightarrow> ('c, 'call, 'z) bridge_state_scheme
     \<Rightarrow> (dispatch_error, unit, ('c, 'call, 'z) bridge_state_scheme) run" where
  "acknowledge_proposal X run o' nonce src_id resource_id call s =
     ensure_signed o' s (\<lambda>who.
       ensure (brelayers_is_relayer src_id who s) (BridgeRelayersErr relayers_error.MustBeRelayer) s
         (ensure (chain_whitelisted src_id s) (BridgeErr ChainNotWhitelisted) s
           (ensure (Resources (bridge s) resource_id \<noteq> None) (BridgeErr ResourceDoesNotExist) s
             (and_then (commit_vote X who nonce src_id call s)
                (\<lambda>_ s1. try_resolve_proposal X run nonce src_id call s1)))))"

section \<open>Runs of the voting pallet\<close>

text \<open>
  A step either acknowledges a proposal or does anything that leaves the votes alone (another
  dispatchable of the pallet or of another pallet, a new block). It is labelled with the proposals
  it executes.
\<close>

type_synonym 'call proposal = "ChainId \<times> DepositNonce \<times> 'call"

definition proposal_votes :: "'call proposal \<Rightarrow> ('c, 'call, 'z) bridge_state_scheme \<Rightarrow> ProposalVotes option" where
  "proposal_votes p s = (case p of (src_id, k) \<Rightarrow> BridgeVotes (bridge s) src_id k)"

definition executed_proposal :: "'call proposal \<Rightarrow> ('c, 'call, 'z) bridge_state_scheme \<Rightarrow> bool" where
  "executed_proposal p s \<longleftrightarrow> (case proposal_votes p s of None \<Rightarrow> False | Some v \<Rightarrow> status v = Executed)"

inductive bridge_step for X run where
  ack: "acknowledge_proposal X run o' nonce src_id rid call s = (r, s') \<Longrightarrow>
        bridge_step X run s
          (if r = Ok () \<and> executed_proposal (src_id, nonce, call) s' then [(src_id, nonce, call)] else []) s'"
| other: "BridgeVotes (bridge s') = BridgeVotes (bridge s) \<Longrightarrow> bridge_step X run s [] s'"

inductive bridge_trace for X run where
  start: "bridge_trace X run s [] s"
| step: "bridge_trace X run s ps t \<Longrightarrow> bridge_step X run t qs u \<Longrightarrow> bridge_trace X run s (ps @ qs) u"

text \<open>What the dispatch of a call may not do: rewrite the votes of a finished proposal.\<close>

definition keeps_completed ::
    "('call \<Rightarrow> origin \<Rightarrow> ('c, 'call, 'z) bridge_state_scheme
        \<Rightarrow> (dispatch_error, unit, ('c, 'call, 'z) bridge_state_scheme) run) \<Rightarrow> bool" where
  "keeps_completed run \<longleftrightarrow> (\<forall>call o' s p v. proposal_votes p s = Some v \<longrightarrow> is_completed v \<longrightarrow>
      proposal_votes p (snd (run call o' s)) = Some v)"

text \<open>The votes a proposal starts a vote with, created on its first vote.\<close>

definition pending_votes :: "'c config \<Rightarrow> 'call proposal \<Rightarrow> ('c, 'call, 'z) bridge_state_scheme \<Rightarrow> ProposalVotes" where
  "pending_votes X p s = unwrap_or (proposal_votes p s)
     (ProposalVotes_default\<lparr>expiry := block_number s + ProposalLifetime X\<rparr>)"

text \<open>The votes of one relayer for a proposal that is open to it.\<close>

definition open_for ::
    "'c config \<Rightarrow> AccountId \<Rightarrow> 'call proposal \<Rightarrow> ResourceId \<Rightarrow> ('c, 'call, 'z) bridge_state_scheme \<Rightarrow> bool" where
  "open_for X who p rid s \<longleftrightarrow>
     brelayers_is_relayer (fst p) who s \<and> chain_whitelisted (fst p) s \<and> Resources (bridge s) rid \<noteq> None
     \<and> \<not> is_completed (pending_votes X p s) \<and> \<not> has_voted (pending_votes X p s) who
     \<and> \<not> is_expired (pending_votes X p s) (block_number s)"

text \<open>A sequence of deposits to one chain.\<close>

fun deposits ::
    "ChainId \<Rightarrow> (AccountId \<times> ResourceId \<times> bytes \<times> U256) list \<Rightarrow> ('c, 'call, 'z) bridge_state_scheme
     \<Rightarrow> ('c, 'call, 'z) bridge_state_scheme" where
  "deposits dest_id [] s = s"
| "deposits dest_id ((source, rid, to, amount) # ds) s =
     deposits dest_id ds (snd (transfer_fungible source dest_id rid to amount s))"

text \<open>
  A state for evaluation: chain 2 is whitelisted with two relayers and a threshold of two; a call
  names an account and the amount of rETH to mint for it.
\<close>

definition sample_bridge :: "(AccountId \<Rightarrow> u128, AccountId \<times> u128) bridge_state" where
  "sample_bridge = \<lparr>block_number = 10, events = [], native = (\<lambda>_. 1000), rbalances = empty_tokens,
     xbalances = empty_tokens, lpbalances = empty_tokens,
     brelayers = \<lparr>RelayerThreshold = (\<lambda>_. 0)(2 := 2), Relayers = (\<lambda>c a. c = 2 \<and> (a = 7 \<or> a = 8)),
                  RelayerCount = (\<lambda>_. 0)(2 := 2)\<rparr>,
     rrelayers = empty_relayers, payers = empty_relayers, rates = empty_rates,
     bridge = empty_bridge\<lparr>ChainNonces := (\<lambda>_. None)(2 \<mapsto> 0), Resources := (\<lambda>_. None)([1] \<mapsto> [])\<rparr>\<rparr>"

definition sample_mint ::
    "AccountId \<times> u128 \<Rightarrow> origin \<Rightarrow> (AccountId \<Rightarrow> u128, AccountId \<times> u128) bridge_state
     \<Rightarrow> (dispatch_error, unit, (AccountId \<Rightarrow> u128, AccountId \<times> u128) bridge_state) run" where
  "sample_mint call o' s = rbal_mint (fst call) RETH (snd call) s"

section \<open>Lemmas\<close>

lemma place_byte_length [simp]: "length (place_byte id' r i xs) = length xs"
  by (simp add: place_byte_def)

lemma fold_place_byte:
  assumes "length xs = 32" "n \<le> r" "r \<le> 31" "r \<le> length id'"
  shows "fold (place_byte id' r) [0..<n] xs =
     take (31 - n) xs @ drop (r - n) (take r id') @ drop 31 xs"
  using assms(2)
proof (induction n)
  case 0
  have "take 31 xs @ drop 31 xs = xs" by (rule append_take_drop_id)
  with 0 assms show ?case by simp
next
  case (Suc n)
  have split: "take (31 - n) xs = take (31 - Suc n) xs @ [xs ! (30 - n)]"
  proof -
    have "31 - n = Suc (30 - n)" using Suc.prems assms by simp
    then show ?thesis using assms take_Suc_conv_app_nth [of "30 - n" xs] by simp
  qed
  have next_byte: "drop (r - Suc n) (take r id') = id' ! (r - Suc n) # drop (r - n) (take r id')"
    using Suc.prems assms Cons_nth_drop_Suc [of "r - Suc n" "take r id'"] by (simp add: Suc_diff_Suc)
  have len: "length (take (31 - Suc n) xs) = 30 - n"
    using assms Suc.prems by simp
  have "fold (place_byte id' r) [0..<Suc n] xs =
      (take (31 - Suc n) xs @ xs ! (30 - n) # drop (r - n) (take r id') @ drop 31 xs)[30 - n := id' ! (r - Suc n)]"
    using Suc.IH Suc.prems unfolding split by (simp add: place_byte_def [of id' r n])
  also have "\<dots> = take (31 - Suc n) xs @ id' ! (r - Suc n) # drop (r - n) (take r id') @ drop 31 xs"
    by (subst list_update_append) (simp only: len, simp)
  finally show ?case using next_byte by simp
qed

lemma put_votes_same [simp]: "BridgeVotes (bridge (put_votes c k v s)) c k = Some v"
  by (simp add: put_votes_def)

lemma put_votes_other [simp]:
  "(c, k) \<noteq> (d, j) \<Longrightarrow> BridgeVotes (bridge (put_votes c k v s)) d j = BridgeVotes (bridge s) d j"
  by (auto simp: put_votes_def)

lemma put_votes_frame [simp]:
  "block_number (put_votes c k v s) = block_number s"
  "brelayers (put_votes c k v s) = brelayers s"
  by (simp_all add: put_votes_def)

lemma deposit_event_bridge [simp]:
  "bridge (deposit_event e s) = bridge s"
  "brelayers (deposit_event e s) = brelayers s"
  by (simp_all add: deposit_event_def)

lemma proposal_votes_pair: "proposal_votes (c, k) s = BridgeVotes (bridge s) c k"
  by (simp add: proposal_votes_def)

lemma derivate_open:
  "\<not> is_completed v \<Longrightarrow> \<not> is_expired v now \<Longrightarrow>
   snd (derivate v t now) = (if unat t \<le> length (voted v) then v\<lparr>status := Passed\<rparr> else v)"
  by (simp add: derivate_def is_expired_def)

text \<open>A vote on an open proposal is recorded, and the proposal passes when it reaches the threshold.\<close>

lemma commit_vote_open:
  assumes "\<not> is_completed (pending_votes X (c, n, p) s)" "\<not> has_voted (pending_votes X (c, n, p) s) who"
    and "\<not> is_expired (pending_votes X (c, n, p) s) (block_number s)"
  defines "v1 \<equiv> (pending_votes X (c, n, p) s)\<lparr>voted := voted (pending_votes X (c, n, p) s) @ [who]\<rparr>"
  shows "commit_vote X who n c p s =
     (Ok (), deposit_event (BridgeEv (bridge_event.VoteFor c n who))
        (put_votes c (n, p)
           (if unat (RelayerThreshold (brelayers s) c) \<le> length (voted v1) then v1\<lparr>status := Passed\<rparr> else v1) s))"
proof -
  have "\<not> is_completed v1" "\<not> is_expired v1 (block_number s)"
    using assms by (simp_all add: v1_def is_completed_def is_expired_def)
  then have "snd (derivate v1 (RelayerThreshold (brelayers s) c) (block_number s)) =
      (if unat (RelayerThreshold (brelayers s) c) \<le> length (voted v1) then v1\<lparr>status := Passed\<rparr> else v1)"
    by (rule derivate_open)
  then show ?thesis
    using assms(1-3) unfolding commit_vote_def pending_votes_def proposal_votes_pair v1_def Let_def
    by (simp add: case_prod_unfold)
qed

lemma commit_vote_closed:
  assumes "is_completed (pending_votes X (c, n, p) s) \<or> has_voted (pending_votes X (c, n, p) s) who
      \<or> is_expired (pending_votes X (c, n, p) s) (block_number s)"
  shows "\<exists>e. fst (commit_vote X who n c p s) = Err e"
  using assms unfolding commit_vote_def pending_votes_def proposal_votes_pair Let_def
  by (auto simp: ensure_def)

lemma acknowledge_closed:
  assumes "\<not> open_for X who (c, n, p) rid s"
  shows "acknowledge_proposal X run (Signed who) n c rid p s = acknowledge_proposal X run' (Signed who) n c rid p s"
    and "fst (acknowledge_proposal X run (Signed who) n c rid p s) \<noteq> Ok ()"
proof -
  have "\<exists>e. fst (commit_vote X who n c p s) = Err e"
    if "brelayers_is_relayer c who s" "chain_whitelisted c s" "Resources (bridge s) rid \<noteq> None"
    using that assms commit_vote_closed [of X c n p s who] by (auto simp: open_for_def)
  then show "acknowledge_proposal X run (Signed who) n c rid p s = acknowledge_proposal X run' (Signed who) n c rid p s"
    and "fst (acknowledge_proposal X run (Signed who) n c rid p s) \<noteq> Ok ()"
    by (auto simp: acknowledge_proposal_def ensure_def and_then_def split: prod.splits outcome.splits)
qed

lemma acknowledge_open:
  assumes "open_for X who (c, n, p) rid s"
  defines "v1 \<equiv> (pending_votes X (c, n, p) s)\<lparr>voted := voted (pending_votes X (c, n, p) s) @ [who]\<rparr>"
  shows "acknowledge_proposal X run (Signed who) n c rid p s =
     try_resolve_proposal X run n c p (deposit_event (BridgeEv (bridge_event.VoteFor c n who))
        (put_votes c (n, p)
           (if unat (RelayerThreshold (brelayers s) c) \<le> length (voted v1) then v1\<lparr>status := Passed\<rparr> else v1) s))"
  using assms by (simp add: acknowledge_proposal_def open_for_def commit_vote_open)

lemma acknowledge_below_quorum:
  assumes "open_for X who (c, n, p) rid s" "status (pending_votes X (c, n, p) s) \<noteq> Passed"
    and "length (voted (pending_votes X (c, n, p) s)) + 1 < unat (RelayerThreshold (brelayers s) c)"
  defines "v1 \<equiv> (pending_votes X (c, n, p) s)\<lparr>voted := voted (pending_votes X (c, n, p) s) @ [who]\<rparr>"
  shows "acknowledge_proposal X run (Signed who) n c rid p s =
     (Ok (), deposit_event (BridgeEv (bridge_event.VoteFor c n who)) (put_votes c (n, p) v1 s))"
proof -
  have "status (pending_votes X (c, n, p) s) = Active"
    using assms(1,2) by (cases "status (pending_votes X (c, n, p) s)") (auto simp: open_for_def is_completed_def)
  with assms show ?thesis
    by (simp add: acknowledge_open try_resolve_proposal_def)
qed

text \<open>A finished proposal is not voted on, executed or changed again.\<close>

lemma acknowledge_completed:
  assumes "proposal_votes (c, n, p) s = Some v" "is_completed v"
  shows "\<exists>e. acknowledge_proposal X run o' n c rid p s = (Err e, s)"
  using assms
  by (cases o') (auto simp: acknowledge_proposal_def commit_vote_def proposal_votes_pair ensure_def and_then_def)

lemma commit_vote_keeps_completed:
  assumes "proposal_votes q s = Some v" "is_completed v"
  shows "proposal_votes q (snd (commit_vote X who n c p s)) = Some v"
proof (cases "q = (c, n, p)")
  case True
  with assms have "commit_vote X who n c p s = (Err (BridgeErr ProposalAlreadyCompleted), s)"
    by (simp add: commit_vote_def proposal_votes_pair)
  with assms show ?thesis by simp
next
  case False
  then obtain d j where "q = (d, j)" "(c, n, p) \<noteq> (d, j)" by (cases q) auto
  with assms show ?thesis
    by (simp add: commit_vote_def Let_def proposal_votes_pair ensure_def case_prod_unfold)
qed

section \<open>Properties\<close>

abbreviation still :: "'call proposal \<Rightarrow> ProposalVotes \<Rightarrow> ('c, 'call, 'z) bridge_state_scheme \<Rightarrow> bool" where
  "still q v \<equiv> \<lambda>u. proposal_votes q u = Some v"

lemma still_deposit: "still q v (deposit_event e t) = still q v t"
  by (cases q) (simp add: proposal_votes_pair)

lemma still_put: "q \<noteq> (c, n, p) \<Longrightarrow> still q v (put_votes c (n, p) w t) = still q v t"
  by (cases q) (auto simp: proposal_votes_pair)

lemma try_resolve_keeps_completed:
  assumes "keeps_completed run" "is_completed v" "q \<noteq> (c, n, p)" "still q v t"
  shows "keeps (still q v) (try_resolve_proposal X run n c p t)"
  unfolding try_resolve_proposal_def
proof (rule ok_or_keeps)
  fix w
  have "keeps (still q v) (run p o' (deposit_event e t))" for o' e
    using assms(1,2,4) still_deposit unfolding keeps_completed_def keeps_def by blast
  then show "keeps (still q v) (case status w of
         Passed \<Rightarrow> and_then (run p (Signed (bridge_account_id X)) (deposit_event (BridgeEv (ProposalPassed c n)) t))
           (\<lambda>_ s1. (Ok (), deposit_event (BridgeEv (ProposalExecuted c n)) (put_votes c (n, p) (to_be_executed w) s1)))
       | Expired \<Rightarrow> (Ok (), deposit_event (BridgeEv (ProposalCancelled c n)) t) | _ \<Rightarrow> (Ok (), t))"
    using assms(3,4)
    by (cases "status w") (auto intro!: run_keeps simp: still_deposit still_put)
qed (rule assms(4))

lemma acknowledge_keeps_completed:
  assumes run: "keeps_completed run" and v: "proposal_votes q s = Some v" "is_completed v"
  shows "keeps (still q v) (acknowledge_proposal X run o' n c rid p s)"
proof (cases "q = (c, n, p)")
  case True
  with acknowledge_completed v show ?thesis unfolding keeps_def by (metis snd_conv)
next
  case False
  have "keeps (still q v) (commit_vote X who n c p s)" for who
    unfolding keeps_def using v by (rule commit_vote_keeps_completed)
  then show ?thesis
    unfolding acknowledge_proposal_def
    by (intro run_keeps v try_resolve_keeps_completed run False)
qed

lemma bridge_step_keeps_executed:
  assumes "keeps_completed run" "bridge_step X run s qs t" "executed_proposal p s"
  shows "executed_proposal p t" "p \<notin> set qs"
proof -
  from assms(3) obtain v where v: "proposal_votes p s = Some v" "status v = Executed"
    by (auto simp: executed_proposal_def split: option.splits)
  then have c: "is_completed v" by (simp add: is_completed_def)
  from assms(2) show "executed_proposal p t"
  proof cases
    case (ack o' nonce src_id rid call r)
    with keepsD [OF acknowledge_keeps_completed [OF assms(1) v(1) c]] v(2) show ?thesis
      by (metis (lifting) executed_proposal_def option.simps(5))
  next
    case other
    with v show ?thesis by (simp add: executed_proposal_def proposal_votes_def split: prod.splits)
  qed
  from assms(2) show "p \<notin> set qs"
  proof cases
    case (ack o' nonce src_id rid call r)
    then show ?thesis
      using acknowledge_completed [of src_id nonce call s v X run o' rid] v c by (auto split: if_splits)
  qed simp
qed

lemma bridge_step_label: "bridge_step X run s qs t \<Longrightarrow> distinct qs \<and> (\<forall>p\<in>set qs. executed_proposal p t)"
  by (erule bridge_step.cases) auto

lemma bridge_trace_executed:
  assumes "keeps_completed run" "bridge_trace X run s ps t"
  shows "distinct ps \<and> (\<forall>p\<in>set ps. executed_proposal p t)"
  using assms(2)
proof (induction rule: bridge_trace.induct)
  case (step s ps t qs u)
  then show ?case
    using bridge_step_keeps_executed [OF assms(1) step.hyps(2)] bridge_step_label [OF step.hyps(2)]
    by auto
qed simp


lemma sample_mint_keeps: "keeps_completed sample_mint"
proof -
  have "bridge (snd (sample_mint call o' s)) = bridge s" for call o' s
    using rbal_lift_state [of "token_mint (fst call) RETH (snd call)" s]
    by (auto simp: sample_mint_def rbal_mint_def)
  then show ?thesis
    by (simp add: keeps_completed_def proposal_votes_def)
qed

lemmas sample_eval = open_for_def sample_bridge_def brelayers_is_relayer_def is_relayer_def
  chain_whitelisted_def empty_bridge_def pending_votes_def proposal_votes_def is_completed_def
  ProposalVotes_default_def has_voted_def is_expired_def plain_config_def

lemma sample_open: "open_for plain_config 7 (2, 1, (5, 10)) [1] sample_bridge"
  by (simp add: sample_eval)

abbreviation sample_voted where
  "sample_voted \<equiv> deposit_event (BridgeEv (bridge_event.VoteFor 2 1 7))
     (put_votes 2 (1, (5, 10)) \<lparr>voted = [7], status = Active, expiry = 110\<rparr> sample_bridge)"

lemma sample_vote:
  "acknowledge_proposal plain_config sample_mint (Signed 7) 1 2 [1] (5, 10) sample_bridge = (Ok (), sample_voted)"
  by (subst acknowledge_below_quorum [OF sample_open]) (simp_all add: sample_eval)

lemma sample_open2: "open_for plain_config 8 (2, 1, (5, 10)) [1] sample_voted"
  by (simp add: sample_eval put_votes_def deposit_event_def)

lemma sample_vote2:
  "\<exists>t. acknowledge_proposal plain_config sample_mint (Signed 8) 1 2 [1] (5, 10) sample_voted = (Ok (), t)
     \<and> executed_proposal (2, 1, (5, 10)) t"
  by (subst acknowledge_open [OF sample_open2])
    (simp add: sample_eval put_votes_def deposit_event_def try_resolve_proposal_def sample_mint_def
      rbal_mint_def rbal_lift_def token_lift_def token_mint_eq empty_tokens_def free_balance_def
      executed_proposal_def to_be_executed_def)

lemma sample_trace:
  "\<exists>t. bridge_trace plain_config sample_mint sample_bridge [(2, 1, (5, 10))] t"
proof -
  have "bridge_step plain_config sample_mint sample_bridge [] sample_voted"
    using bridge_step.ack [OF sample_vote] by (simp add: executed_proposal_def proposal_votes_def)
  then have "bridge_trace plain_config sample_mint sample_bridge ([] @ []) sample_voted"
    by (rule bridge_trace.step [OF bridge_trace.start])
  moreover obtain t where "bridge_step plain_config sample_mint sample_voted [(2, 1, (5, 10))] t"
    using sample_vote2 bridge_step.ack [of plain_config sample_mint "Signed 8" 1 2 "[1]" "(5, 10)" sample_voted "Ok ()"]
    by auto
  ultimately show ?thesis
    using bridge_trace.step by fastforce
qed




text \<open>
  C24. The vote that reaches the threshold dispatches the call from the bridge's account, after the
  vote is stored and the proposal marked as passed, and marks the proposal executed when the call
  succeeds.
\<close>

theorem quorum_dispatches:
  assumes "open_for X who (c, n, p) rid s"
    and "unat (RelayerThreshold (brelayers s) c) \<le> length (voted (pending_votes X (c, n, p) s)) + 1"
  defines "v1 \<equiv> (pending_votes X (c, n, p) s)\<lparr>voted := voted (pending_votes X (c, n, p) s) @ [who], status := Passed\<rparr>"
  shows "acknowledge_proposal X run (Signed who) n c rid p s =
    and_then (run p (Signed (bridge_account_id X))
       (deposit_event (BridgeEv (ProposalPassed c n))
         (deposit_event (BridgeEv (bridge_event.VoteFor c n who)) (put_votes c (n, p) v1 s))))
     (\<lambda>_ t. (Ok (), deposit_event (BridgeEv (ProposalExecuted c n))
                 (put_votes c (n, p) (v1\<lparr>status := Executed\<rparr>) t)))"
  using assms by (simp add: acknowledge_open try_resolve_proposal_def to_be_executed_def)

theorem quorum_dispatches_witness:
  "open_for plain_config 8 (2, 1, (5, 10)) [1] sample_voted \<and>
   unat (RelayerThreshold (brelayers sample_voted) 2)
     \<le> length (voted (pending_votes plain_config (2, 1, (5, 10)) sample_voted)) + 1 \<and>
   fst (acknowledge_proposal plain_config sample_mint (Signed 8) 1 2 [1] (5, 10) sample_voted) = Ok ()"
proof -
  have q: "unat (RelayerThreshold (brelayers sample_voted) 2)
     \<le> length (voted (pending_votes plain_config (2, 1, (5, 10)) sample_voted)) + 1"
    by (simp add: sample_eval put_votes_def deposit_event_def)
  show ?thesis
    using sample_open2 q
    unfolding quorum_dispatches [OF sample_open2 q, of sample_mint]
    by (simp add: sample_eval put_votes_def deposit_event_def sample_mint_def
        rbal_mint_def rbal_lift_def token_lift_def token_mint_eq empty_tokens_def free_balance_def)
qed

text \<open>
  A vote that commits never leaves the proposal expired, so the branch of
  \<open>try_resolve_proposal\<close> that deposits \<open>ProposalCancelled\<close> is never taken by an acknowledgement:
  an expired proposal is reported as an error instead, with its expiry written to storage.
\<close>

theorem acknowledge_never_cancels:
  assumes "commit_vote X who n c p s = (Ok (), s1)"
  shows "\<exists>v. BridgeVotes (bridge s1) c (n, p) = Some v \<and> status v \<noteq> Expired \<and> who \<in> set (voted v)"
proof -
  let ?v = "pending_votes X (c, n, p) s"
  have "\<not> is_completed ?v" "\<not> has_voted ?v who" "\<not> is_expired ?v (block_number s)"
    using assms commit_vote_closed [of X c n p s who] by auto
  then show ?thesis
    using assms by (auto simp: commit_vote_open is_completed_def)
qed

theorem acknowledge_never_cancels_witness:
  "\<exists>s1. commit_vote plain_config 7 1 2 (5, 10) sample_bridge = (Ok (), s1) \<and>
     (\<exists>v. BridgeVotes (bridge s1) 2 (1, (5, 10)) = Some v \<and> status v \<noteq> Expired \<and> 7 \<in> set (voted v))"
proof -
  obtain s1 where s1: "commit_vote plain_config 7 1 2 (5, 10) sample_bridge = (Ok (), s1)"
    using sample_open by (simp add: commit_vote_open open_for_def)
  from acknowledge_never_cancels [OF s1] s1 show ?thesis by blast
qed

text \<open>
  A resource identifier is 32 bytes: the first 31 bytes of the given identifier, left-padded
  with zeros, then the chain byte.
\<close>

theorem derive_resource_id_layout:
  "derive_resource_id chain id' =
     replicate (31 - min 31 (length id')) 0 @ take 31 id' @ [chain]"
proof -
  let ?r = "min 31 (length id')"
  let ?xs = "(replicate 32 0)[31 := chain]"
  have xs: "?xs = replicate 31 0 @ [chain]"
    by (simp add: list_update_append numeral_eq_Suc)
  have "derive_resource_id chain id' = fold (place_byte id' ?r) [0..<?r] ?xs"
    by (simp add: derive_resource_id_def min_def Let_def)
  also have "\<dots> = take (31 - ?r) ?xs @ drop 0 (take ?r id') @ drop 31 ?xs"
    using fold_place_byte [of ?xs ?r ?r id'] by simp
  also have "\<dots> = replicate (31 - ?r) 0 @ take 31 id' @ [chain]"
    unfolding xs by (simp add: min_def)
  finally show ?thesis .
qed

text \<open>
  The threshold that \<open>set_threshold\<close> of this pallet stores plays no part in voting: the votes are
  counted against the threshold kept by \<open>bridge/relayers\<close>.
\<close>

lemma own_threshold_unused:
  fixes s :: "('c, 'call, 'z) bridge_state_scheme" and threshold :: u32
  defines "s' \<equiv> bridge_update (\<lambda>b. b\<lparr>OwnRelayerThreshold := threshold\<rparr>) s"
  shows "fst (commit_vote X who n c p s') = fst (commit_vote X who n c p s)
    \<and> BridgeVotes (bridge (snd (commit_vote X who n c p s'))) = BridgeVotes (bridge (snd (commit_vote X who n c p s)))"
  by (simp add: s'_def commit_vote_def ensure_def Let_def case_prod_unfold put_votes_def)

lemma transfer_fungible_Ok:
  "chain_whitelisted d s \<Longrightarrow> fst (transfer_fungible a d rid to v s) = Ok ()"
  by (simp add: transfer_fungible_def bump_nonce_def Let_def)

lemma transfer_fungible_frame:
  "rbalances (snd (transfer_fungible a d rid to v s)) = rbalances s"
  "xbalances (snd (transfer_fungible a d rid to v s)) = xbalances s"
  "native (snd (transfer_fungible a d rid to v s)) = native s"
  by (simp_all add: transfer_fungible_def bump_nonce_def Let_def ensure_def deposit_event_def)

lemma transfer_fungible_nonce:
  assumes "ChainNonces (bridge s) d = Some n"
  shows "snd (transfer_fungible a d rid to v s) =
    deposit_event (BridgeEv (FungibleTransfer a d (n + 1) rid v to))
      (bridge_update (\<lambda>b. b\<lparr>ChainNonces := (ChainNonces b)(d \<mapsto> n + 1)\<rparr>) s)"
  using assms by (simp add: transfer_fungible_def chain_whitelisted_def bump_nonce_def Let_def)

text \<open>
  Deposits to a whitelisted chain are numbered consecutively: after a chain's nonce \<open>n\<close>, the
  \<open>i\<close>-th of a sequence of deposits carries \<open>n + i\<close>, and the stored nonce is the last one.
\<close>

theorem deposits_consecutive:
  assumes "ChainNonces (bridge s) d = Some n"
  shows "ChainNonces (bridge (deposits d ds s)) d = Some (n + word_of_nat (length ds)) \<and>
    events (deposits d ds s) = events s @
      map (\<lambda>(i, source, rid, to, amount). BridgeEv (FungibleTransfer source d (n + word_of_nat i) rid amount to))
        (enumerate 1 ds)"
  using assms
proof (induction d ds s arbitrary: n rule: deposits.induct)
  case (2 d a rid to v ds s)
  let ?t = "snd (transfer_fungible a d rid to v s)"
  have t: "ChainNonces (bridge ?t) d = Some (n + 1)"
    "events ?t = events s @ [BridgeEv (FungibleTransfer a d (n + 1) rid v to)]"
    using 2(2) by (simp_all add: transfer_fungible_nonce)
  show ?case
    using 2(1) [OF t(1)] t(2)
    by (simp add: enumerate_Suc_eq case_prod_unfold comp_def add.assoc)
qed simp

theorem deposits_consecutive_witness:
  "ChainNonces (bridge sample_bridge) 2 = Some 0 \<and>
   events (deposits 2 [(5, [1], [], 10), (6, [1], [], 20)] sample_bridge) =
     [BridgeEv (FungibleTransfer 5 2 1 [1] 10 []), BridgeEv (FungibleTransfer 6 2 2 [1] 20 [])]"
proof -
  have n: "ChainNonces (bridge sample_bridge) 2 = Some 0" by (simp add: sample_bridge_def)
  with deposits_consecutive [OF n, of "[(5, [1], [], 10), (6, [1], [], 20)]"] show ?thesis
    by (simp add: sample_bridge_def)
qed

end
