(* ===== verification/Bridge_Swap.thy ===== *)
theory Bridge_Swap
  imports Bridge
begin

text \<open>
  \<open>bridge/swap\<close>: a user sends native tokens, rtokens or xtokens to another chain (they are locked
  in the bridge's account, or burned for rETH and xtokens, and a deposit is recorded), and the
  bridge brings them back by dispatching the three \<open>_back\<close> calls from its own account.
  \<open>NativeTokenId\<close> is a constant of the runtime's configuration.
\<close>

type_synonym ('c, 'call, 'z) bridge_run =
  "(dispatch_error, unit, ('c, 'call, 'z) bridge_state_scheme) run"

definition transfer_native ::
    "'c config \<Rightarrow> ResourceId \<Rightarrow> origin \<Rightarrow> u128 \<Rightarrow> bytes \<Rightarrow> ChainId \<Rightarrow> ('c, 'call, 'z) bridge_state_scheme
     \<Rightarrow> ('c, 'call, 'z) bridge_run" where
  "transfer_native X NativeTokenId o' amount recipient dest_id s =
     ensure_signed o' s (\<lambda>source.
     swapable X recipient dest_id s (\<lambda>(fee, receiver, bridger).
     and_then (native_transfer X source bridger (saturating_add amount fee) s) (\<lambda>_ s1.
     and_then (run_if (fee > 0) (native_transfer X bridger receiver fee) s1) (\<lambda>_ s2.
     transfer_fungible source dest_id NativeTokenId recipient (ucast amount) s2))))"

definition transfer_native_back ::
    "'c config \<Rightarrow> origin \<Rightarrow> AccountId \<Rightarrow> u128 \<Rightarrow> ResourceId \<Rightarrow> ('c, 'call, 'z) bridge_state_scheme
     \<Rightarrow> ('c, 'call, 'z) bridge_run" where
  "transfer_native_back X o' recipient amount resource_id s =
     ensure_bridge X o' s (\<lambda>bridge_id. native_transfer X bridge_id recipient amount s)"

definition transfer_rtoken ::
    "'c config \<Rightarrow> origin \<Rightarrow> RSymbol \<Rightarrow> u128 \<Rightarrow> bytes \<Rightarrow> ChainId \<Rightarrow> ('c, 'call, 'z) bridge_state_scheme
     \<Rightarrow> ('c, 'call, 'z) bridge_run" where
  "transfer_rtoken X o' symbol amount recipient dest_id s =
     ensure_signed o' s (\<lambda>who.
     swapable X recipient dest_id s (\<lambda>(fee, receiver, bridger).
     ok_or (RsymbolResource (bridge s) symbol) (BridgeSwapErr bridge_swap_error.RsymbolNotMapped) s (\<lambda>resource.
     ok_or (checked_sub (rbal_free_balance who symbol s) amount) (BridgeSwapErr InsufficientRbalance) s (\<lambda>new_rbalance.
     case ensure_can_withdraw amount new_rbalance of
       Some e \<Rightarrow> (Err (RBalancesErr e), s)
     | None \<Rightarrow>
         and_then (run_if (fee > 0) (native_transfer X who receiver fee) s) (\<lambda>_ s1.
         and_then (if symbol = RETH then rbal_burn who symbol amount s1
                   else rbal_transfer who bridger symbol amount s1) (\<lambda>_ s2.
         transfer_fungible who dest_id resource recipient (ucast amount) s2))))))"

definition transfer_rtoken_back ::
    "'c config \<Rightarrow> origin \<Rightarrow> AccountId \<Rightarrow> u128 \<Rightarrow> ResourceId \<Rightarrow> ('c, 'call, 'z) bridge_state_scheme
     \<Rightarrow> ('c, 'call, 'z) bridge_run" where
  "transfer_rtoken_back X o' recipient amount resource_id s =
     ensure_bridge X o' s (\<lambda>bridge_id.
     ok_or (ResourceRsymbol (bridge s) resource_id) (BridgeSwapErr ResourceNotMapped) s (\<lambda>symbol.
     if symbol = RETH then rbal_mint recipient symbol amount s
     else rbal_transfer bridge_id recipient symbol amount s))"

definition transfer_xtoken ::
    "'c config \<Rightarrow> origin \<Rightarrow> XSymbol \<Rightarrow> u128 \<Rightarrow> bytes \<Rightarrow> ChainId \<Rightarrow> ('c, 'call, 'z) bridge_state_scheme
     \<Rightarrow> ('c, 'call, 'z) bridge_run" where
  "transfer_xtoken X o' symbol amount recipient dest_id s =
     ensure_signed o' s (\<lambda>who.
     swapable X recipient dest_id s (\<lambda>(fee, receiver, _).
     ok_or (XsymbolResource (bridge s) symbol) (BridgeSwapErr XsymbolNotMapped) s (\<lambda>resource.
     ok_or (checked_sub (xbal_free_balance who symbol s) amount) (BridgeSwapErr bridge_swap_error.InsufficientXbalance) s (\<lambda>new_rbalance.
     case ensure_can_withdraw amount new_rbalance of
       Some e \<Rightarrow> (Err (XBalancesErr e), s)
     | None \<Rightarrow>
         and_then (run_if (fee > 0) (native_transfer X who receiver fee) s) (\<lambda>_ s1.
         and_then (xbal_burn who symbol amount s1) (\<lambda>_ s2.
         transfer_fungible who dest_id resource recipient (ucast amount) s2))))))"

definition transfer_xtoken_back ::
    "'c config \<Rightarrow> origin \<Rightarrow> AccountId \<Rightarrow> u128 \<Rightarrow> ResourceId \<Rightarrow> ('c, 'call, 'z) bridge_state_scheme
     \<Rightarrow> ('c, 'call, 'z) bridge_run" where
  "transfer_xtoken_back X o' recipient amount resource_id s =
     ensure_bridge X o' s (\<lambda>_.
     ok_or (ResourceXsymbol (bridge s) resource_id) (BridgeSwapErr ResourceNotMapped) s (\<lambda>symbol.
     xbal_mint recipient symbol amount s))"

text \<open>
  A state for evaluation: chain 4 is open with a fee of 3 paid to account 99, account 5 holds 50
  rDOT and 40 WRA, and resource 1 stands for rDOT.
\<close>

definition sample_swap :: "(AccountId \<Rightarrow> u128) \<Rightarrow> (AccountId \<Rightarrow> u128, unit) bridge_state" where
  "sample_swap funds = \<lparr>block_number = 10, events = [], native = funds,
     rbalances = snd (token_mint 5 RDOT 50 empty_tokens),
     xbalances = snd (token_mint 5 WRA 40 empty_tokens), lpbalances = empty_tokens,
     brelayers = empty_relayers, rrelayers = empty_relayers, payers = empty_relayers, rates = empty_rates,
     bridge = empty_bridge\<lparr>ChainNonces := (\<lambda>_. None)(4 \<mapsto> 0), ChainFees := (\<lambda>_. None)(4 \<mapsto> 3),
       FeesRecipientAccount := Some 99, RsymbolResource := (\<lambda>_. None)(RDOT \<mapsto> [1]),
       ResourceRsymbol := (\<lambda>_. None)([1] \<mapsto> RDOT), XsymbolResource := (\<lambda>_. None)(WRA \<mapsto> [2])\<rparr>\<rparr>"

section \<open>Lemmas\<close>

lemma swapable_Ok [run_ok]:
  "swapable X recipient d s k = (Ok x, s') \<longleftrightarrow>
     (\<exists>fee receiver. \<not> IsPaused (bridge s) \<and> chain_whitelisted d s \<and> ChainFees (bridge s) d = Some fee
        \<and> FeesRecipientAccount (bridge s) = Some receiver
        \<and> (d = ETH_CHAIN_ID \<or> d = BSC_CHAIN_ID \<longrightarrow> length recipient = 20)
        \<and> k (fee, receiver, bridge_account_id X) = (Ok x, s'))"
  by (auto simp: swapable_def run_ok check_eth_recipient_def)

lemma native_transfer_bridge [simp]: "bridge (snd (native_transfer X a b v s)) = bridge s"
  "rbalances (snd (native_transfer X a b v s)) = rbalances s"
  "xbalances (snd (native_transfer X a b v s)) = xbalances s"
  using native_transfer_state [of X a b v s] by auto

lemma fee_bridge [simp]:
  "bridge (snd (run_if b (native_transfer X w r fee) s)) = bridge s"
  "rbalances (snd (run_if b (native_transfer X w r fee) s)) = rbalances s"
  "xbalances (snd (run_if b (native_transfer X w r fee) s)) = xbalances s"
  by (cases b; simp)+

lemma rbal_lift_bridge [simp]:
  "bridge (snd (rbal_lift m s)) = bridge s" "native (snd (rbal_lift m s)) = native s"
  using rbal_lift_state [of m s] by auto

lemma xbal_lift_bridge [simp]:
  "bridge (snd (xbal_lift m s)) = bridge s" "native (snd (xbal_lift m s)) = native s"
  using xbal_lift_state [of m s] by auto

lemma chain_whitelisted_cong: "bridge s = bridge t \<Longrightarrow> chain_whitelisted d s = chain_whitelisted d t"
  by (simp add: chain_whitelisted_def)

lemma run_if_native_frame:
  assumes "run_if b (native_transfer X w r fee) s = (Ok u, s1)"
  shows "bridge s1 = bridge s" "rbalances s1 = rbalances s" "xbalances s1 = xbalances s"
  using fee_bridge [of b X w r fee s] assms by simp_all

lemma rbal_ops_frame:
  assumes "rbal_lift m s = (r, s1)"
  shows "bridge s1 = bridge s" "native s1 = native s"
  using rbal_lift_bridge [of m s] assms by simp_all

text \<open>What a transfer of rtokens to another chain that succeeds went through.\<close>

lemma transfer_rtoken_OkE:
  assumes "transfer_rtoken X o' y v recipient d s = (Ok u, s')"
  obtains (ok) who resource s1 s2 where "o' = Signed who"
    "chain_whitelisted d s" "RsymbolResource (bridge s) y = Some resource" "v \<le> rbal_free_balance who y s"
    "bridge s1 = bridge s" "rbalances s1 = rbalances s"
    "(if y = RETH then rbal_burn who y v s1 else rbal_transfer who (bridge_account_id X) y v s1) = (Ok (), s2)"
    "bridge s2 = bridge s" "transfer_fungible who d resource recipient (ucast v) s2 = (Ok u, s')"
proof -
  from assms obtain who fee receiver resource s1 s2 where *: "o' = Signed who"
    "chain_whitelisted d s" "RsymbolResource (bridge s) y = Some resource" "v \<le> rbal_free_balance who y s"
    "run_if (fee > 0) (native_transfer X who receiver fee) s = (Ok (), s1)"
    "(if y = RETH then rbal_burn who y v s1 else rbal_transfer who (bridge_account_id X) y v s1) = (Ok (), s2)"
    "transfer_fungible who d resource recipient (ucast v) s2 = (Ok u, s')"
    by (auto simp: transfer_rtoken_def ensure_signed_Ok swapable_Ok ok_or_Ok and_then_Ok split del: if_split)
  moreover from *(5) have "bridge s1 = bridge s" "rbalances s1 = rbalances s"
    by (rule run_if_native_frame)+
  moreover from *(6) have "bridge s2 = bridge s1"
    by (auto simp: rbal_ops dest: rbal_ops_frame split: if_splits)
  ultimately show thesis using ok by simp
qed

section \<open>Properties\<close>

text \<open>
  A transfer of rtokens to another chain that succeeds takes exactly the amount from the sender,
  locks it in the bridge's account (for rETH, burns it), touches no other balance, and announces the
  same amount under the next nonce of the destination chain.
\<close>

theorem transfer_rtoken_locks_or_burns:
  assumes "transfer_rtoken X (Signed who) y v recipient d s = (Ok u, s')"
  shows "unat (rbal_free_balance w z s') + (if w = who \<and> z = y then unat v else 0) =
         unat (rbal_free_balance w z s) + (if y \<noteq> RETH \<and> w = bridge_account_id X \<and> z = y then unat v else 0)
    \<and> (\<exists>n resource. ChainNonces (bridge s) d = Some n \<and> RsymbolResource (bridge s) y = Some resource
         \<and> ChainNonces (bridge s') d = Some (n + 1)
         \<and> last (events s') = BridgeEv (FungibleTransfer who d (n + 1) resource (ucast v) recipient))"
  using assms
proof (cases rule: transfer_rtoken_OkE)
  case (ok who' resource s1 s2)
  then have [simp]: "who' = who" by simp
  from ok obtain n where n: "ChainNonces (bridge s) d = Some n"
    by (auto simp: chain_whitelisted_def)
  have bal: "rbal_free_balance w z s' = rbal_free_balance w z s2" "rbal_free_balance w z s1 = rbal_free_balance w z s"
    using ok transfer_fungible_frame(1) [of who d resource recipient "ucast v" s2]
    by (simp_all add: rbal_free_balance_def)
  have "unat (rbal_free_balance w z s2) + (if w = who \<and> z = y then unat v else 0) =
        unat (rbal_free_balance w z s1) + (if y \<noteq> RETH \<and> w = bridge_account_id X \<and> z = y then unat v else 0)"
  proof (cases "y = RETH")
    case True
    with ok show ?thesis using rcur.burn_sheet [of who y v s1 "()" s2 w z] by simp
  next
    case False
    with ok show ?thesis using rcur.transfer_sheet [of who "bridge_account_id X" y v s1 "()" s2 w z] by simp
  qed
  moreover have "s' = snd (transfer_fungible who d resource recipient (ucast v) s2)"
    using ok by simp
  ultimately show ?thesis
    using n ok bal transfer_fungible_nonce [of s2 d n who resource recipient "ucast v"] by simp
qed

lemma sample_account [simp]: "bridge_account_id plain_config = 7161338457345320039"
  by (simp add: bridge_account_id_def plain_number_def)

lemmas sample_swap_eval = sample_swap_def empty_bridge_def chain_whitelisted_def ETH_CHAIN_ID_def BSC_CHAIN_ID_def
  swapable_def native_transfer_def plain_transfer_def rbal_ops xbal_ops rbal_lift_def xbal_lift_def token_lift_def
  token_ops_eq rbal_free_balance_def xbal_free_balance_def free_balance_def set_free_def empty_tokens_def
  checked_sub_def transfer_fungible_def bump_nonce_def

lemma sample_swap_runs:
  "\<exists>s'. transfer_rtoken plain_config (Signed 5) RDOT 20 [] 4 (sample_swap (\<lambda>_. 1000)) = (Ok (), s')"
  unfolding transfer_rtoken_def by (simp add: sample_swap_eval)

theorem transfer_rtoken_locks_or_burns_witness:
  "\<exists>s'. transfer_rtoken plain_config (Signed 5) RDOT 20 [] 4 (sample_swap (\<lambda>_. 1000)) = (Ok (), s')
     \<and> unat (rbal_free_balance 5 RDOT s') + 20 = 50"
proof -
  obtain s' where s': "transfer_rtoken plain_config (Signed 5) RDOT 20 [] 4 (sample_swap (\<lambda>_. 1000)) = (Ok (), s')"
    using sample_swap_runs by blast
  have "rbal_free_balance 5 RDOT (sample_swap (\<lambda>_. 1000)) = 50"
    by (simp add: sample_swap_eval)
  with s' transfer_rtoken_locks_or_burns [OF s', of 5 RDOT] show ?thesis by simp
qed

text \<open>
  C30. Bringing rtokens back undoes sending them: when the resource maps of the symbol agree, the
  bridge's call for the same amount succeeds and restores every balance.
\<close>

theorem rtoken_bridge_roundtrip:
  assumes "transfer_rtoken X (Signed who) y v recipient d s = (Ok u, s')"
    and "RsymbolResource (bridge s) y = Some resource" "ResourceRsymbol (bridge s) resource = Some y"
    and "who \<noteq> bridge_account_id X"
  shows "\<exists>s''. transfer_rtoken_back X (Signed (bridge_account_id X)) who v resource s' = (Ok (), s'')
      \<and> (\<forall>w z. rbal_free_balance w z s'' = rbal_free_balance w z s)"
  using assms(1)
proof (cases rule: transfer_rtoken_OkE)
  case (ok who' resource' s1 s2)
  then have [simp]: "who' = who" "resource' = resource" using assms(2) by simp_all
  have s': "rbalances s' = rbalances s2" "ResourceRsymbol (bridge s') = ResourceRsymbol (bridge s)"
    using ok transfer_fungible_frame(1) [of who d resource recipient "ucast v" s2]
    by (auto simp: transfer_fungible_def bump_nonce_def Let_def run_ok)
  show ?thesis
  proof (cases "v = 0")
    case True
    with ok s' assms(3) show ?thesis
      by (auto simp: transfer_rtoken_back_def rbal_ops rbal_lift_def token_lift_def token_transfer_def
          token_mint_def token_burn_def rbal_free_balance_def split: if_splits)
  next
    case False
    have "v \<le> free_balance who y (rbalances s)"
      using ok by (simp add: rbal_free_balance_def)
    with ok s' assms False unat_less_pow [of "free_balance who y (rbalances s)"] show ?thesis
      by (auto simp: transfer_rtoken_back_def rbal_ops rbal_lift_def token_lift_def token_ops_eq
          rbal_free_balance_def free_balance_set_free word_nat word_order_nat split: if_splits)
  qed
qed

theorem rtoken_bridge_roundtrip_witness:
  "\<exists>s' s''. transfer_rtoken plain_config (Signed 5) RDOT 20 [] 4 (sample_swap (\<lambda>_. 1000)) = (Ok (), s')
     \<and> transfer_rtoken_back plain_config (Signed (bridge_account_id plain_config)) 5 20 [1] s' = (Ok (), s'')
     \<and> rbal_free_balance 5 RDOT s'' = rbal_free_balance 5 RDOT (sample_swap (\<lambda>_. 1000))"
proof -
  obtain s' where s': "transfer_rtoken plain_config (Signed 5) RDOT 20 [] 4 (sample_swap (\<lambda>_. 1000)) = (Ok (), s')"
    using sample_swap_runs by blast
  have "RsymbolResource (bridge (sample_swap (\<lambda>_. 1000))) RDOT = Some [1]"
    "ResourceRsymbol (bridge (sample_swap (\<lambda>_. 1000))) [1] = Some RDOT" "5 \<noteq> bridge_account_id plain_config"
    by (simp_all add: sample_swap_def)
  from rtoken_bridge_roundtrip [OF s' this] s' show ?thesis by blast
qed

text \<open>
  Sending xtokens is all or nothing: an attempt that fails, at whatever point, leaves the whole
  state as it was. The balance is checked before the fee is paid, so the burn after it cannot fail.
\<close>

theorem transfer_xtoken_atomic:
  assumes "currency_ok X" "transfer_xtoken X o' y v recipient d s = (Err e, s')"
  shows "s' = s"
proof -
  have burn: "fst (xbal_burn who y v s1) = Ok ()"
    if "v \<le> xbal_free_balance who y s" "xbalances s1 = xbalances s" for who s1
    using that by (auto simp: xbal_ops xbal_lift_def token_lift_def token_burn_eq xbal_free_balance_def leD)
  have fee: "run_if b (native_transfer X who r f) s = (Err e', s1) \<Longrightarrow> s1 = s"
    "run_if b (native_transfer X who r f) s \<noteq> (Panic, s1)" for b who r f e' s1
    using native_transfer_Err [OF assms(1)] assms(1)
    by (auto simp: run_if_def currency_ok_def native_transfer_def split: if_splits prod.splits)
  have tail: "and_then (xbal_burn who y v s1) (\<lambda>_ s2. transfer_fungible who d resource recipient (ucast v) s2) \<noteq> (Err e, s')"
    if "v \<le> xbal_free_balance who y s" "xbalances s1 = xbalances s" "chain_whitelisted d s" "bridge s1 = bridge s"
    for who resource s1
  proof -
    have "chain_whitelisted d (snd (xbal_burn who y v s1))"
      using that by (simp add: chain_whitelisted_def xbal_ops)
    then have "fst (transfer_fungible who d resource recipient (ucast v) (snd (xbal_burn who y v s1))) = Ok ()"
      by (rule transfer_fungible_Ok)
    with burn [OF that(1,2)] show ?thesis
      by (cases "xbal_burn who y v s1") (auto simp: and_then_def)
  qed
  have pay: "s' = s" if "and_then (run_if b (native_transfer X who r f) s) (\<lambda>_ s1.
       and_then (xbal_burn who y v s1) (\<lambda>_ s2. transfer_fungible who d resource recipient (ucast v) s2)) = (Err e, s')"
     "v \<le> xbal_free_balance who y s" "chain_whitelisted d s" for b who r f resource
  proof (cases "run_if b (native_transfer X who r f) s")
    case (Pair res s1)
    with that fee show ?thesis
      using tail [of who s1 resource] fee_bridge [of b X who r f s] by (cases res) auto
  qed
  from assms(2) show ?thesis
    by (cases o') (auto simp: transfer_xtoken_def swapable_def ensure_def ok_or_def checked_sub_def
        split: if_splits option.splits dest: pay)
qed

theorem transfer_xtoken_atomic_witness:
  "currency_ok plain_config \<and>
   (\<exists>e. transfer_xtoken plain_config (Signed 5) WRA 20 [] 4 (sample_swap (\<lambda>_. 2)) = (Err e, sample_swap (\<lambda>_. 2)))"
proof -
  have "\<exists>e s'. transfer_xtoken plain_config (Signed 5) WRA 20 [] 4 (sample_swap (\<lambda>_. 2)) = (Err e, s')"
    unfolding transfer_xtoken_def by (simp add: sample_swap_eval)
  then obtain e s' where *: "transfer_xtoken plain_config (Signed 5) WRA 20 [] 4 (sample_swap (\<lambda>_. 2)) = (Err e, s')"
    by blast
  from transfer_xtoken_atomic [OF plain_currency_ok *] * plain_currency_ok show ?thesis by blast
qed

text \<open>
  A transfer of native tokens to another chain that succeeds leaves the announced amount in the
  bridge's account and the fee with the fee recipient, when the three accounts are distinct and
  amount and fee together fit the balance type.
\<close>

theorem transfer_native_backed:
  assumes "currency_ok X" "transfer_native X NativeTokenId (Signed source) amount recipient d s = (Ok u, s')"
    and "ChainFees (bridge s) d = Some fee" "FeesRecipientAccount (bridge s) = Some receiver"
    and "distinct [source, receiver, bridge_account_id X]" "unat amount + unat fee < 2 ^ 128"
  shows "unat (native_free_balance X (bridge_account_id X) s') = unat (native_free_balance X (bridge_account_id X) s) + unat amount
    \<and> unat (native_free_balance X receiver s') = unat (native_free_balance X receiver s) + unat fee
    \<and> unat (native_free_balance X source s') + unat amount + unat fee = unat (native_free_balance X source s)"
proof -
  let ?b = "bridge_account_id X"
  from assms(2-4) obtain s1 s2 where s1: "native_transfer X source ?b (saturating_add amount fee) s = (Ok (), s1)"
    and s2: "run_if (fee > 0) (native_transfer X ?b receiver fee) s1 = (Ok (), s2)"
    and s': "transfer_fungible source d NativeTokenId recipient (ucast amount) s2 = (Ok u, s')"
    by (auto simp: transfer_native_def ensure_signed_Ok swapable_Ok and_then_Ok)
  have total: "unat (saturating_add amount fee) = unat amount + unat fee"
    using assms(6) by (simp add: word_nat)
  have last: "native_free_balance X w s' = native_free_balance X w s2" for w
    using s' transfer_fungible_frame(3) [of source d NativeTokenId recipient "ucast amount" s2]
    by (simp add: native_free_balance_def)
  have paid: "unat (native_free_balance X w s2) + (if w = ?b then unat fee else 0) =
      unat (native_free_balance X w s1) + (if w = receiver then unat fee else 0)" for w
  proof (cases "fee > 0")
    case True
    with s2 show ?thesis using native_transfer_balance(1) [OF assms(1), of ?b receiver fee s1 "()" s2 w] by simp
  next
    case False
    then have "fee = 0" by (simp add: word_neq_0_conv [symmetric])
    with s2 show ?thesis by simp
  qed
  have sent: "unat (native_free_balance X w s1) + (if w = source then unat amount + unat fee else 0) =
      unat (native_free_balance X w s) + (if w = ?b then unat amount + unat fee else 0)" for w
    using native_transfer_balance(1) [OF assms(1) s1, of w] unfolding total .
  show ?thesis
    using paid [of ?b] paid [of receiver] paid [of source] sent [of ?b] sent [of receiver] sent [of source] assms(5)
    by (auto simp: last)
qed

lemma sample_native_runs:
  "\<exists>s'. transfer_native plain_config [9] (Signed 5) 20 [] 4 (sample_swap (\<lambda>_. 1000)) = (Ok (), s')"
  unfolding transfer_native_def by (simp add: sample_swap_eval saturating_add_def)

theorem transfer_native_backed_witness:
  "\<exists>s'. transfer_native plain_config [9] (Signed 5) 20 [] 4 (sample_swap (\<lambda>_. 1000)) = (Ok (), s')
     \<and> unat (native_free_balance plain_config (bridge_account_id plain_config) s') = 1020"
proof -
  obtain s' where s': "transfer_native plain_config [9] (Signed 5) 20 [] 4 (sample_swap (\<lambda>_. 1000)) = (Ok (), s')"
    using sample_native_runs by blast
  have "ChainFees (bridge (sample_swap (\<lambda>_. 1000))) 4 = Some 3"
    "FeesRecipientAccount (bridge (sample_swap (\<lambda>_. 1000))) = Some 99"
    "distinct [5, 99, bridge_account_id plain_config]" "unat (20 :: u128) + unat (3 :: u128) < 2 ^ 128"
    by (simp_all add: sample_swap_def)
  from transfer_native_backed [OF plain_currency_ok s' this] s' show ?thesis
    by (simp add: native_free_balance_def sample_swap_def)
qed

text \<open>
  Sending native tokens is not all or nothing: when the fee recipient cannot take the fee, the
  call fails after the sender's tokens have moved to the bridge, and no deposit is announced for
  them.
\<close>

theorem transfer_native_not_atomic:
  "let s = sample_swap ((\<lambda>_. 1000)(99 := - 1)); (r, s') = transfer_native plain_config [9] (Signed 5) 20 [] 4 s
   in r = Err (Foreign 1) \<and> native_free_balance plain_config 5 s' = 977
      \<and> native_free_balance plain_config (bridge_account_id plain_config) s' = 1023 \<and> events s' = events s"
  unfolding transfer_native_def
  by (simp add: sample_swap_eval saturating_add_def native_free_balance_def unat_max)

end
