(* ===== verification/Ledger.thy ===== *)
theory Ledger
  imports Bridge_Swap
begin

text \<open>
  \<open>rtoken/ledger\<close>: the bonding pools of each rtoken, the amounts waiting to be bonded and unbonded,
  and the era protocol. A new era takes a snapshot of every bonded pool; relayers then report, for
  each snapshot, that bonding was done, the active stake, the withdrawal and the transfer. The last
  active report of an era sets the exchange rate.
\<close>

section \<open>Data\<close>

text \<open>\<open>LinkChunk\<close> and \<open>BondSnapshot\<close>; the fields carry a prefix as both structs share names.\<close>

record LinkChunk =
  pipe_bond :: u128
  pipe_unbond :: u128
  pipe_active :: u128

definition LinkChunk_default :: LinkChunk where
  "LinkChunk_default = \<lparr>pipe_bond = 0, pipe_unbond = 0, pipe_active = 0\<rparr>"

datatype (plugins only: code) PoolBondState =
  EraUpdated | BondReported | ActiveReported | WithdrawSkipped | WithdrawReported | TransferReported

datatype (plugins only: code) BondAction =
  BondOnly | UnbondOnly | BothBondUnbond | EitherBondUnbond | InterDeduct

record BondSnapshot =
  snap_symbol :: RSymbol
  snap_era :: u32
  snap_pool :: bytes
  snap_bond :: u128
  snap_unbond :: u128
  snap_active :: u128
  snap_last_voter :: AccountId
  snap_state :: PoolBondState

record Unbonding =
  unbond_who :: AccountId
  unbond_value :: u128
  unbond_recipient :: bytes

definition era_updated :: "BondSnapshot \<Rightarrow> bool" where
  "era_updated snap \<longleftrightarrow> snap_state snap = PoolBondState.EraUpdated"

definition bond_reported :: "BondSnapshot \<Rightarrow> bool" where
  "bond_reported snap \<longleftrightarrow> snap_state snap = PoolBondState.BondReported"

definition active_reported :: "BondSnapshot \<Rightarrow> bool" where
  "active_reported snap \<longleftrightarrow> snap_state snap = PoolBondState.ActiveReported"

definition withdraw_reported :: "BondSnapshot \<Rightarrow> bool" where
  "withdraw_reported snap \<longleftrightarrow> snap_state snap = PoolBondState.WithdrawReported
     \<or> chain_type (snap_symbol snap) = Tendermint \<and> active_reported snap
     \<or> snap_symbol snap = RBNB \<and> active_reported snap"

definition update_state :: "PoolBondState \<Rightarrow> BondSnapshot \<Rightarrow> BondSnapshot" where
  "update_state new_state snap = snap\<lparr>snap_state := new_state\<rparr>"

definition continuable :: "BondSnapshot \<Rightarrow> bool" where
  "continuable snap \<longleftrightarrow> snap_state snap = WithdrawSkipped \<or> snap_state snap = PoolBondState.TransferReported"

section \<open>Storage\<close>

record ledger_store =
  ChainEras :: "RSymbol \<Rightarrow> u32 option"
  ChainBondingDuration :: "RSymbol \<Rightarrow> u32 option"
  Commission :: Perbill
  Receiver :: "AccountId option"
  Pools :: "RSymbol \<Rightarrow> bytes list"
  BondedPools :: "RSymbol \<Rightarrow> bytes list"
  TotalExpectedActive :: "RSymbol \<Rightarrow> u32 \<Rightarrow> u128 option"
  BondPipelines :: "RSymbol \<Rightarrow> bytes \<Rightarrow> LinkChunk option"
  EraSnapShots :: "RSymbol \<Rightarrow> u32 \<Rightarrow> Hash list option"
  Snapshots :: "RSymbol \<Rightarrow> Hash \<Rightarrow> BondSnapshot option"
  CurrentEraSnapShots :: "RSymbol \<Rightarrow> Hash list option"
  PoolUnbonds :: "RSymbol \<Rightarrow> bytes \<times> u32 \<Rightarrow> Unbonding list option"
  EraUnbondLimit :: "RSymbol \<Rightarrow> u16"
  SubAccounts :: "RSymbol \<Rightarrow> bytes \<Rightarrow> bytes list"
  MultiThresholds :: "RSymbol \<Rightarrow> bytes \<Rightarrow> u16 option"
  LastVoter :: "RSymbol \<Rightarrow> AccountId option"
  LeastBond :: "RSymbol \<Rightarrow> u128 option"

definition empty_ledger :: ledger_store where
  "empty_ledger = \<lparr>ChainEras = (\<lambda>_. None), ChainBondingDuration = (\<lambda>_. None),
     Commission = 100000000, Receiver = None, Pools = (\<lambda>_. []), BondedPools = (\<lambda>_. []),
     TotalExpectedActive = (\<lambda>_ _. None), BondPipelines = (\<lambda>_ _. None), EraSnapShots = (\<lambda>_ _. None),
     Snapshots = (\<lambda>_ _. None), CurrentEraSnapShots = (\<lambda>_. None), PoolUnbonds = (\<lambda>_ _. None),
     EraUnbondLimit = (\<lambda>_. 0), SubAccounts = (\<lambda>_ _. []), MultiThresholds = (\<lambda>_ _. None),
     LastVoter = (\<lambda>_. None), LeastBond = (\<lambda>_. None)\<rparr>"

record ('c, 'call) ledger_state = "('c, 'call) bridge_state" +
  ledger :: ledger_store

type_synonym ('c, 'call, 'z) ledger_run =
  "(dispatch_error, unit, ('c, 'call, 'z) ledger_state_scheme) run"

text \<open>Writing one key of a one-level or a two-level map.\<close>

abbreviation put2 :: "'a \<Rightarrow> 'b \<Rightarrow> 'v \<Rightarrow> ('a \<Rightarrow> 'b \<Rightarrow> 'v) \<Rightarrow> 'a \<Rightarrow> 'b \<Rightarrow> 'v" where
  "put2 a b v m \<equiv> m(a := (m a)(b := v))"

section \<open>Origins\<close>

definition voter_account_id :: "'c config \<Rightarrow> AccountId" where
  "voter_account_id X = into_account X ''rtk/vote''"

text \<open>\<open>EnsureVoter\<close> of \<open>rtoken/votes\<close>, which the runtime plugs in as \<open>VoterOrigin\<close>.\<close>

definition is_voter :: "'c config \<Rightarrow> origin \<Rightarrow> bool" where
  "is_voter X o' \<longleftrightarrow> o' = Signed (voter_account_id X)"

definition ensure_voter :: "'c config \<Rightarrow> origin \<Rightarrow> 's \<Rightarrow> (dispatch_error, 'a, 's) run \<Rightarrow> (dispatch_error, 'a, 's) run" where
  "ensure_voter X o' s k = ensure (is_voter X o') BadOrigin s k"

definition ensure_voter_or_admin :: "'c config \<Rightarrow> origin \<Rightarrow> 's \<Rightarrow> (dispatch_error, 'a, 's) run \<Rightarrow> (dispatch_error, 'a, 's) run" where
  "ensure_voter_or_admin X o' s k = (if is_voter X o' then k else ensure_root o' s k)"

section \<open>Administration\<close>

definition set_commission ::
    "'c config \<Rightarrow> origin \<Rightarrow> u32 \<Rightarrow> ('c, 'call, 'z) ledger_state_scheme \<Rightarrow> ('c, 'call, 'z) ledger_run" where
  "set_commission X o' new_part s =
     ensure_root o' s (ensure (new_part < 1000000000) (LedgerErr ledger_error.OverFlow) s
       (let old_commission = Commission (ledger s);
            new_commission = perbill_from_parts X new_part
        in (Ok (), deposit_event (LedgerEv (CommissionUpdated old_commission new_commission))
              (ledger_update (\<lambda>l. l\<lparr>Commission := new_commission\<rparr>) s))))"

definition add_new_pool ::
    "origin \<Rightarrow> RSymbol \<Rightarrow> bytes \<Rightarrow> ('c, 'call, 'z) ledger_state_scheme \<Rightarrow> ('c, 'call, 'z) ledger_run" where
  "add_new_pool o' symbol pool s =
     ensure_root o' s (ensure (pool \<notin> set (Pools (ledger s) symbol)) (LedgerErr PoolAlreadyAdded) s
       (Ok (), deposit_event (LedgerEv (PoolAdded symbol pool))
          (ledger_update (\<lambda>l. l\<lparr>Pools := (Pools l)(symbol := Pools l symbol @ [pool])\<rparr>) s)))"

definition remove_pool ::
    "origin \<Rightarrow> RSymbol \<Rightarrow> bytes \<Rightarrow> ('c, 'call, 'z) ledger_state_scheme \<Rightarrow> ('c, 'call, 'z) ledger_run" where
  "remove_pool o' symbol pool s =
     ensure_root o' s
       (ok_or (position (\<lambda>p. p = pool) (BondedPools (ledger s) symbol)) (LedgerErr PoolNotBonded) s (\<lambda>bonded_index.
        let pipe = unwrap_or (BondPipelines (ledger s) symbol pool) LinkChunk_default
        in ensure (pipe_bond pipe = 0 \<and> pipe_unbond pipe = 0 \<and> pipe_active pipe = 0) (LedgerErr ActiveAlreadySet) s
        (unwrap (position (\<lambda>p. p = pool) (Pools (ledger s) symbol)) s (\<lambda>op_index.
          (Ok (), ledger_update (\<lambda>l. l\<lparr>
             BondedPools := (BondedPools l)(symbol := remove_nth bonded_index (BondedPools l symbol)),
             Pools := (Pools l)(symbol := remove_nth op_index (Pools l symbol))\<rparr>) s)))))"

definition set_receiver ::
    "origin \<Rightarrow> AccountId \<Rightarrow> ('c, 'call, 'z) ledger_state_scheme \<Rightarrow> ('c, 'call, 'z) ledger_run" where
  "set_receiver o' new_receiver s =
     ensure_root o' s (Ok (), ledger_update (\<lambda>l. l\<lparr>Receiver := Some new_receiver\<rparr>) s)"

definition set_era_unbond_limit ::
    "origin \<Rightarrow> RSymbol \<Rightarrow> u16 \<Rightarrow> ('c, 'call, 'z) ledger_state_scheme \<Rightarrow> ('c, 'call, 'z) ledger_run" where
  "set_era_unbond_limit o' symbol limit s =
     ensure_root o' s (Ok (), ledger_update (\<lambda>l. l\<lparr>EraUnbondLimit := (EraUnbondLimit l)(symbol := limit)\<rparr>) s)"

definition set_init_bond ::
    "'c config \<Rightarrow> origin \<Rightarrow> RSymbol \<Rightarrow> bytes \<Rightarrow> AccountId \<Rightarrow> u128 \<Rightarrow> ('c, 'call, 'z) ledger_state_scheme
     \<Rightarrow> ('c, 'call, 'z) ledger_run" where
  "set_init_bond X o' symbol pool bond_receiver amount s =
     ensure_root o' s
      (ensure (pool \<in> set (Pools (ledger s) symbol)) (LedgerErr ledger_error.PoolNotFound) s
      (ensure (pool \<notin> set (BondedPools (ledger s) symbol)) (LedgerErr RepeatInitBond) s
      (and_then (rbal_mint bond_receiver symbol (token_to_rtoken X symbol amount s) s) (\<lambda>_ s1.
         let s2 = if Rate (rates s1) symbol = None then snd (set_rate X symbol 0 0 s1) else s1
         in (Ok (), ledger_update (\<lambda>l. l\<lparr>
              BondedPools := (BondedPools l)(symbol := BondedPools l symbol @ [pool]),
              BondPipelines := put2 symbol pool
                (Some \<lparr>pipe_bond = 0, pipe_unbond = 0, pipe_active = amount\<rparr>) (BondPipelines l)\<rparr>) s2)))))"

definition set_chain_bonding_duration ::
    "origin \<Rightarrow> RSymbol \<Rightarrow> u32 \<Rightarrow> ('c, 'call, 'z) ledger_state_scheme \<Rightarrow> ('c, 'call, 'z) ledger_run" where
  "set_chain_bonding_duration o' symbol new_bonding_duration s =
     ensure_root o' s (ensure (new_bonding_duration > 0) (LedgerErr NewBondingDurationZero) s
       (let old_bonding_duration = unwrap_or (ChainBondingDuration (ledger s) symbol) 0
        in (Ok (), deposit_event (LedgerEv (BondingDurationUpdated symbol old_bonding_duration new_bonding_duration))
             (ledger_update (\<lambda>l. l\<lparr>ChainBondingDuration := (ChainBondingDuration l)(symbol \<mapsto> new_bonding_duration)\<rparr>) s))))"

definition add_sub_accounts_and_threshold ::
    "origin \<Rightarrow> RSymbol \<Rightarrow> bytes \<Rightarrow> bytes list \<Rightarrow> u16 \<Rightarrow> ('c, 'call, 'z) ledger_state_scheme
     \<Rightarrow> ('c, 'call, 'z) ledger_run" where
  "add_sub_accounts_and_threshold o' symbol pool sub_accounts threshold s =
     ensure_root o' s
      (ensure (pool \<in> set (Pools (ledger s) symbol)) (LedgerErr ledger_error.PoolNotFound) s
      (ensure (unat threshold \<le> length sub_accounts) (Other ''threshold bigger than size of sub_accounts'') s
        (Ok (), ledger_update (\<lambda>l. l\<lparr>
           SubAccounts := put2 symbol pool sub_accounts (SubAccounts l),
           MultiThresholds := put2 symbol pool (Some threshold) (MultiThresholds l)\<rparr>) s)))"

definition clear_current_era_snap_shots ::
    "origin \<Rightarrow> RSymbol \<Rightarrow> ('c, 'call, 'z) ledger_state_scheme \<Rightarrow> ('c, 'call, 'z) ledger_run" where
  "clear_current_era_snap_shots o' symbol s =
     ensure_root o' s (Ok (), ledger_update (\<lambda>l. l\<lparr>CurrentEraSnapShots := (CurrentEraSnapShots l)(symbol \<mapsto> [])\<rparr>) s)"

definition set_least_bond ::
    "origin \<Rightarrow> RSymbol \<Rightarrow> u128 \<Rightarrow> ('c, 'call, 'z) ledger_state_scheme \<Rightarrow> ('c, 'call, 'z) ledger_run" where
  "set_least_bond o' symbol least s =
     ensure_root o' s (Ok (), ledger_update (\<lambda>l. l\<lparr>LeastBond := (LeastBond l)(symbol \<mapsto> least)\<rparr>) s)"

section \<open>Eras\<close>

text \<open>
  The loop over the bonded pools: it stores a snapshot of each under its hash and collects the
  hashes. \<open>hash_of\<close> is the runtime's hashing function.
\<close>

fun snapshot_pools ::
    "(BondSnapshot \<Rightarrow> Hash) \<Rightarrow> RSymbol \<Rightarrow> u32 \<Rightarrow> AccountId \<Rightarrow> bytes list \<Rightarrow> Hash list
     \<Rightarrow> ('c, 'call, 'z) ledger_state_scheme \<Rightarrow> Hash list \<times> ('c, 'call, 'z) ledger_state_scheme" where
  "snapshot_pools hash_of symbol new_era voter [] era_shots s = (era_shots, s)"
| "snapshot_pools hash_of symbol new_era voter (pool # pools) era_shots s =
     (let pipe = unwrap_or (BondPipelines (ledger s) symbol pool) LinkChunk_default;
          snapshot = \<lparr>snap_symbol = symbol, snap_era = new_era, snap_pool = pool,
            snap_bond = pipe_bond pipe, snap_unbond = pipe_unbond pipe, snap_active = pipe_active pipe,
            snap_last_voter = voter, snap_state = PoolBondState.EraUpdated\<rparr>;
          shot_id = hash_of snapshot
      in snapshot_pools hash_of symbol new_era voter pools (era_shots @ [shot_id])
           (deposit_event (LedgerEv (EraPoolUpdated symbol new_era shot_id voter))
             (ledger_update (\<lambda>l. l\<lparr>Snapshots := put2 symbol shot_id (Some snapshot) (Snapshots l)\<rparr>) s)))"

definition set_chain_era ::
    "'c config \<Rightarrow> (BondSnapshot \<Rightarrow> Hash) \<Rightarrow> origin \<Rightarrow> RSymbol \<Rightarrow> u32 \<Rightarrow> ('c, 'call, 'z) ledger_state_scheme
     \<Rightarrow> ('c, 'call, 'z) ledger_run" where
  "set_chain_era X hash_of o' symbol new_era s =
     ensure_voter X o' s
      (let era_shots = unwrap_or (CurrentEraSnapShots (ledger s) symbol) []
       in ensure (era_shots = []) (LedgerErr LastEraNotContinuable) s
      (ok_or (LastVoter (ledger s) symbol) (LedgerErr LastVoterNobody) s (\<lambda>voter.
       let old_era = unwrap_or (ChainEras (ledger s) symbol) 0
       in ensure (old_era = 0 \<or> saturating_add old_era 1 = new_era) (LedgerErr EraSkipped) s
      (let (era_shots1, s1) = snapshot_pools hash_of symbol new_era voter (BondedPools (ledger s) symbol) era_shots s
       in (Ok (), deposit_event (LedgerEv (ledger_event.EraUpdated symbol old_era new_era))
            (ledger_update (\<lambda>l. l\<lparr>
               EraSnapShots := put2 symbol new_era (Some era_shots1) (EraSnapShots l),
               CurrentEraSnapShots := (CurrentEraSnapShots l)(symbol \<mapsto> era_shots1),
               ChainEras := (ChainEras l)(symbol \<mapsto> new_era)\<rparr>) s1))))))"

definition put_snapshot ::
    "RSymbol \<Rightarrow> Hash \<Rightarrow> BondSnapshot \<Rightarrow> ('c, 'call, 'z) ledger_state_scheme \<Rightarrow> ('c, 'call, 'z) ledger_state_scheme" where
  "put_snapshot symbol shot_id snap =
     ledger_update (\<lambda>l. l\<lparr>Snapshots := put2 symbol shot_id (Some snap) (Snapshots l)\<rparr>)"

definition put_pipeline ::
    "RSymbol \<Rightarrow> bytes \<Rightarrow> LinkChunk \<Rightarrow> ('c, 'call, 'z) ledger_state_scheme \<Rightarrow> ('c, 'call, 'z) ledger_state_scheme" where
  "put_pipeline symbol pool pipe =
     ledger_update (\<lambda>l. l\<lparr>BondPipelines := put2 symbol pool (Some pipe) (BondPipelines l)\<rparr>)"

definition get_pipeline :: "RSymbol \<Rightarrow> bytes \<Rightarrow> ('c, 'call, 'z) ledger_state_scheme \<Rightarrow> LinkChunk" where
  "get_pipeline symbol pool s = unwrap_or (BondPipelines (ledger s) symbol pool) LinkChunk_default"

definition bond_report ::
    "'c config \<Rightarrow> origin \<Rightarrow> RSymbol \<Rightarrow> Hash \<Rightarrow> ('c, 'call, 'z) ledger_state_scheme \<Rightarrow> ('c, 'call, 'z) ledger_run" where
  "bond_report X o' symbol shot_id s =
     ensure_voter_or_admin X o' s
      (ok_or (Snapshots (ledger s) symbol shot_id) (LedgerErr SnapShotNotFound) s (\<lambda>snap.
       ensure (era_updated snap) (LedgerErr StateNotEraUpdated) s
        (let pipe = get_pipeline symbol (snap_pool snap) s;
             pipe1 = pipe\<lparr>pipe_bond := saturating_sub (pipe_bond pipe) (snap_bond snap),
                          pipe_unbond := saturating_sub (pipe_unbond pipe) (snap_unbond snap)\<rparr>
         in (Ok (), deposit_event (LedgerEv (ledger_event.BondReported symbol shot_id (snap_last_voter snap)))
               (put_snapshot symbol shot_id (update_state PoolBondState.BondReported snap)
                 (put_pipeline symbol (snap_pool snap) pipe1 s))))))"

text \<open>The \<open>match action\<close> shared by \<open>new_bond_report\<close> and \<open>bond_and_report_active\<close>.\<close>

fun apply_bond_action :: "BondAction \<Rightarrow> BondSnapshot \<Rightarrow> LinkChunk \<Rightarrow> LinkChunk" where
  "apply_bond_action BondOnly snap pipe = pipe\<lparr>pipe_bond := saturating_sub (pipe_bond pipe) (snap_bond snap)\<rparr>"
| "apply_bond_action UnbondOnly snap pipe = pipe\<lparr>pipe_unbond := saturating_sub (pipe_unbond pipe) (snap_unbond snap)\<rparr>"
| "apply_bond_action BothBondUnbond snap pipe =
     pipe\<lparr>pipe_bond := saturating_sub (pipe_bond pipe) (snap_bond snap),
          pipe_unbond := saturating_sub (pipe_unbond pipe) (snap_unbond snap)\<rparr>"
| "apply_bond_action EitherBondUnbond snap pipe = pipe"
| "apply_bond_action InterDeduct snap pipe =
     (let deduct = if snap_bond snap \<ge> snap_unbond snap then snap_unbond snap else snap_bond snap
      in pipe\<lparr>pipe_bond := saturating_sub (pipe_bond pipe) deduct,
              pipe_unbond := saturating_sub (pipe_unbond pipe) deduct\<rparr>)"

definition new_bond_report ::
    "'c config \<Rightarrow> origin \<Rightarrow> RSymbol \<Rightarrow> Hash \<Rightarrow> BondAction \<Rightarrow> ('c, 'call, 'z) ledger_state_scheme
     \<Rightarrow> ('c, 'call, 'z) ledger_run" where
  "new_bond_report X o' symbol shot_id action s =
     ensure_voter_or_admin X o' s
      (ok_or (Snapshots (ledger s) symbol shot_id) (LedgerErr SnapShotNotFound) s (\<lambda>snap.
       ensure (era_updated snap) (LedgerErr StateNotEraUpdated) s
        (let pipe = apply_bond_action action snap (get_pipeline symbol (snap_pool snap) s)
         in (Ok (), deposit_event (LedgerEv (ledger_event.BondReported symbol shot_id (snap_last_voter snap)))
               (put_snapshot symbol shot_id (update_state PoolBondState.BondReported snap)
                 (put_pipeline symbol (snap_pool snap) pipe s))))))"

text \<open>
  The three active reports share their end. \<open>record_active\<close> is what follows the minting of the fee:
  \<open>pipe\<close> is the pipeline as adjusted so far and \<open>active\<close> the new active stake of the pool; the index
  and the list of each era list are passed on. \<open>settle_active\<close> starts at the lookup of the receiver.
  (Two of the reports read the pipeline after minting the fee, which does not touch it.)
\<close>

definition record_active ::
    "'c config \<Rightarrow> RSymbol \<Rightarrow> Hash \<Rightarrow> BondSnapshot \<Rightarrow> LinkChunk \<Rightarrow> u128 \<Rightarrow> Hash list \<Rightarrow> Hash list
     \<Rightarrow> ('c, 'call, 'z) ledger_state_scheme \<Rightarrow> ('c, 'call, 'z) ledger_state_scheme" where
  "record_active X symbol shot_id snap pipe active era_shots cur_era_shot s =
     (let expected_active = saturating_sub (saturating_add (pipe_active pipe) active) (snap_active snap);
          total_expected_active =
            saturating_add (unwrap_or (TotalExpectedActive (ledger s) symbol (snap_era snap)) 0) expected_active;
          s1 = if era_shots = []
               then (case set_rate X symbol total_expected_active (rbal_total_issuance symbol s) s of
                       (rate, t) \<Rightarrow> set_era_rate symbol (snap_era snap) rate t)
               else s;
          s2 = ledger_update (\<lambda>l. l\<lparr>
                 EraSnapShots := put2 symbol (snap_era snap) (Some era_shots) (EraSnapShots l),
                 BondPipelines := put2 symbol (snap_pool snap)
                   (Some (pipe\<lparr>pipe_active := expected_active\<rparr>)) (BondPipelines l),
                 TotalExpectedActive := put2 symbol (snap_era snap)
                   (Some total_expected_active) (TotalExpectedActive l)\<rparr>) s1
      in if PoolUnbonds (ledger s2) symbol (snap_pool snap, snap_era snap) \<noteq> None
         then put_snapshot symbol shot_id (update_state PoolBondState.ActiveReported snap)
                (deposit_event (LedgerEv (ledger_event.ActiveReported symbol shot_id (snap_last_voter snap))) s2)
         else put_snapshot symbol shot_id (update_state WithdrawSkipped snap)
                (ledger_update (\<lambda>l. l\<lparr>CurrentEraSnapShots := (CurrentEraSnapShots l)(symbol \<mapsto> cur_era_shot)\<rparr>) s2))"

definition settle_active ::
    "'c config \<Rightarrow> RSymbol \<Rightarrow> Hash \<Rightarrow> BondSnapshot \<Rightarrow> LinkChunk \<Rightarrow> u128 \<Rightarrow> ('c, 'call, 'z) ledger_state_scheme
     \<Rightarrow> ('c, 'call, 'z) ledger_run" where
  "settle_active X symbol shot_id snap pipe active s =
     ok_or (Receiver (ledger s)) (LedgerErr NoReceiver) s (\<lambda>receiver.
     let era_shots = unwrap_or (EraSnapShots (ledger s) symbol (snap_era snap)) [] in
     ok_or (position (\<lambda>shot. shot = shot_id) era_shots) (LedgerErr ActiveAlreadySet) s (\<lambda>era_index.
     let cur_era_shot = unwrap_or (CurrentEraSnapShots (ledger s) symbol) [] in
     ok_or (position (\<lambda>shot. shot = shot_id) cur_era_shot) (LedgerErr ActiveAlreadySet) s (\<lambda>cur_era_index.
     and_then
       (run_if (active > snap_active snap)
          (\<lambda>t. rbal_mint receiver symbol
                 (token_to_rtoken X symbol (perbill_mul X (Commission (ledger t)) (active - snap_active snap)) t) t) s)
       (\<lambda>_ s1. (Ok (), record_active X symbol shot_id snap pipe active
                   (remove_nth era_index era_shots) (remove_nth cur_era_index cur_era_shot) s1)))))"

definition bond_and_report_active ::
    "'c config \<Rightarrow> origin \<Rightarrow> RSymbol \<Rightarrow> Hash \<Rightarrow> BondAction \<Rightarrow> u128 \<Rightarrow> u128 \<Rightarrow> ('c, 'call, 'z) ledger_state_scheme
     \<Rightarrow> ('c, 'call, 'z) ledger_run" where
  "bond_and_report_active X o' symbol shot_id action active reward s =
     ensure_voter_or_admin X o' s
      (ok_or (Snapshots (ledger s) symbol shot_id) (LedgerErr SnapShotNotFound) s (\<lambda>snap.
       ensure (era_updated snap) (LedgerErr StateNotEraUpdated) s
      (ensure (Rate (rates s) symbol \<noteq> None) (LedgerErr RateIsNone) s
        (let pipe = get_pipeline symbol (snap_pool snap) s;
             pipe1 = pipe\<lparr>pipe_bond := saturating_add (pipe_bond pipe) reward\<rparr>;
             pipe2 = apply_bond_action action snap pipe1
         in settle_active X symbol shot_id snap pipe2 (saturating_add active reward) s))))"

definition active_report ::
    "'c config \<Rightarrow> origin \<Rightarrow> RSymbol \<Rightarrow> Hash \<Rightarrow> u128 \<Rightarrow> ('c, 'call, 'z) ledger_state_scheme
     \<Rightarrow> ('c, 'call, 'z) ledger_run" where
  "active_report X o' symbol shot_id active s =
     ensure_voter_or_admin X o' s
      (ok_or (Snapshots (ledger s) symbol shot_id) (LedgerErr SnapShotNotFound) s (\<lambda>snap.
       ensure (bond_reported snap) (LedgerErr StateNotBondReported) s
      (ensure (Rate (rates s) symbol \<noteq> None) (LedgerErr RateIsNone) s
        (settle_active X symbol shot_id snap (get_pipeline symbol (snap_pool snap) s) active s))))"

definition new_active_report ::
    "'c config \<Rightarrow> origin \<Rightarrow> RSymbol \<Rightarrow> Hash \<Rightarrow> u128 \<Rightarrow> u128 \<Rightarrow> ('c, 'call, 'z) ledger_state_scheme
     \<Rightarrow> ('c, 'call, 'z) ledger_run" where
  "new_active_report X o' symbol shot_id staked unstaked s =
     ensure_voter_or_admin X o' s
      (ok_or (Snapshots (ledger s) symbol shot_id) (LedgerErr SnapShotNotFound) s (\<lambda>snap.
       ensure (bond_reported snap) (LedgerErr StateNotBondReported) s
      (ensure (Rate (rates s) symbol \<noteq> None) (LedgerErr RateIsNone) s
        (let pipe = get_pipeline symbol (snap_pool snap) s;
             pipe1 = pipe\<lparr>pipe_bond := saturating_add (pipe_bond pipe) unstaked\<rparr>
         in settle_active X symbol shot_id snap pipe1 (saturating_add staked unstaked) s))))"

definition withdraw_report ::
    "'c config \<Rightarrow> origin \<Rightarrow> RSymbol \<Rightarrow> Hash \<Rightarrow> ('c, 'call, 'z) ledger_state_scheme \<Rightarrow> ('c, 'call, 'z) ledger_run" where
  "withdraw_report X o' symbol shot_id s =
     ensure_voter_or_admin X o' s
      (ok_or (Snapshots (ledger s) symbol shot_id) (LedgerErr SnapShotNotFound) s (\<lambda>snap.
       ensure (active_reported snap) (LedgerErr StateNotActiveReported) s
        (Ok (), deposit_event (LedgerEv (ledger_event.WithdrawReported symbol shot_id (snap_last_voter snap)))
           (put_snapshot symbol shot_id (update_state PoolBondState.WithdrawReported snap) s))))"

definition transfer_report ::
    "'c config \<Rightarrow> origin \<Rightarrow> RSymbol \<Rightarrow> Hash \<Rightarrow> ('c, 'call, 'z) ledger_state_scheme \<Rightarrow> ('c, 'call, 'z) ledger_run" where
  "transfer_report X o' symbol shot_id s =
     ensure_voter_or_admin X o' s
      (ok_or (Snapshots (ledger s) symbol shot_id) (LedgerErr SnapShotNotFound) s (\<lambda>snap.
       ensure (withdraw_reported snap) (LedgerErr StateNotWithdrawReported) s
        (let cur_era_shot = unwrap_or (CurrentEraSnapShots (ledger s) symbol) [] in
         ok_or (position (\<lambda>shot. shot = shot_id) cur_era_shot) (LedgerErr ledger_error.TransferReported) s (\<lambda>cur_era_index.
          (Ok (), deposit_event (LedgerEv (ledger_event.TransferReported symbol shot_id))
             (put_snapshot symbol shot_id (update_state PoolBondState.TransferReported snap)
               (ledger_update (\<lambda>l. l\<lparr>CurrentEraSnapShots :=
                  (CurrentEraSnapShots l)(symbol \<mapsto> remove_nth cur_era_index cur_era_shot)\<rparr>) s)))))))"

section \<open>Operations as data\<close>

datatype (plugins only: code) ledger_op =
    SetCommission origin u32
  | AddNewPool origin RSymbol bytes
  | RemovePool origin RSymbol bytes
  | SetReceiver origin AccountId
  | SetEraUnbondLimit origin RSymbol u16
  | SetInitBond origin RSymbol bytes AccountId u128
  | SetChainBondingDuration origin RSymbol u32
  | AddSubAccounts origin RSymbol bytes "bytes list" u16
  | ClearCurrentEraSnapShots origin RSymbol
  | SetLeastBond origin RSymbol u128
  | SetChainEra origin RSymbol u32
  | BondReport origin RSymbol Hash
  | NewBondReport origin RSymbol Hash BondAction
  | BondAndReportActive origin RSymbol Hash BondAction u128 u128
  | ActiveReport origin RSymbol Hash u128
  | NewActiveReport origin RSymbol Hash u128 u128
  | WithdrawReport origin RSymbol Hash
  | TransferReport origin RSymbol Hash

fun ledger_exec ::
    "'c config \<Rightarrow> (BondSnapshot \<Rightarrow> Hash) \<Rightarrow> ledger_op \<Rightarrow> ('c, 'call, 'z) ledger_state_scheme
     \<Rightarrow> ('c, 'call, 'z) ledger_run" where
  "ledger_exec X h (SetCommission o' n) s = set_commission X o' n s"
| "ledger_exec X h (AddNewPool o' y p) s = add_new_pool o' y p s"
| "ledger_exec X h (RemovePool o' y p) s = remove_pool o' y p s"
| "ledger_exec X h (SetReceiver o' a) s = set_receiver o' a s"
| "ledger_exec X h (SetEraUnbondLimit o' y n) s = set_era_unbond_limit o' y n s"
| "ledger_exec X h (SetInitBond o' y p a v) s = set_init_bond X o' y p a v s"
| "ledger_exec X h (SetChainBondingDuration o' y n) s = set_chain_bonding_duration o' y n s"
| "ledger_exec X h (AddSubAccounts o' y p as n) s = add_sub_accounts_and_threshold o' y p as n s"
| "ledger_exec X h (ClearCurrentEraSnapShots o' y) s = clear_current_era_snap_shots o' y s"
| "ledger_exec X h (SetLeastBond o' y n) s = set_least_bond o' y n s"
| "ledger_exec X h (SetChainEra o' y e) s = set_chain_era X h o' y e s"
| "ledger_exec X h (BondReport o' y i) s = bond_report X o' y i s"
| "ledger_exec X h (NewBondReport o' y i a) s = new_bond_report X o' y i a s"
| "ledger_exec X h (BondAndReportActive o' y i a v r) s = bond_and_report_active X o' y i a v r s"
| "ledger_exec X h (ActiveReport o' y i v) s = active_report X o' y i v s"
| "ledger_exec X h (NewActiveReport o' y i v u) s = new_active_report X o' y i v u s"
| "ledger_exec X h (WithdrawReport o' y i) s = withdraw_report X o' y i s"
| "ledger_exec X h (TransferReport o' y i) s = transfer_report X o' y i s"

text \<open>
  The runs of the pallet: those of its own operations that \<open>ok\<close> admits, in any order, and in
  between what the voting pallet does to its storage (it notes the last voter) and what the series
  pallet does (it queues bonds and unbonds in the pipelines).
\<close>

inductive ledger_reach for X h and ok :: "ledger_store \<Rightarrow> ledger_op \<Rightarrow> bool" where
  genesis: "ledger s = empty_ledger \<Longrightarrow> ledger_reach X h ok s"
| operation: "ledger_reach X h ok s \<Longrightarrow> ok (ledger s) c \<Longrightarrow> ledger_reach X h ok (snd (ledger_exec X h c s))"
| voter: "ledger_reach X h ok s \<Longrightarrow> ledger t = (ledger s)\<lparr>LastVoter := v\<rparr> \<Longrightarrow> ledger_reach X h ok t"
| pipeline: "ledger_reach X h ok s \<Longrightarrow> ledger t = (ledger s)\<lparr>BondPipelines := b, PoolUnbonds := u\<rparr> \<Longrightarrow> ledger_reach X h ok t"

text \<open>The snapshot that a new era takes of a pool.\<close>

definition pool_snapshot :: "ledger_store \<Rightarrow> RSymbol \<Rightarrow> u32 \<Rightarrow> AccountId \<Rightarrow> bytes \<Rightarrow> BondSnapshot" where
  "pool_snapshot l y e voter pool =
     (let pipe = unwrap_or (BondPipelines l y pool) LinkChunk_default
      in \<lparr>snap_symbol = y, snap_era = e, snap_pool = pool, snap_bond = pipe_bond pipe,
          snap_unbond = pipe_unbond pipe, snap_active = pipe_active pipe, snap_last_voter = voter,
          snap_state = PoolBondState.EraUpdated\<rparr>)"

text \<open>
  The operations of an undisturbed run: the administrator does not clear the current snapshots, and
  the hash function tells the snapshots of one era apart.
\<close>

fun undisturbed :: "(BondSnapshot \<Rightarrow> Hash) \<Rightarrow> ledger_store \<Rightarrow> ledger_op \<Rightarrow> bool" where
  "undisturbed h l (ClearCurrentEraSnapShots o' y) = False"
| "undisturbed h l (SetChainEra o' y e) =
     (\<forall>v. LastVoter l y = Some v \<longrightarrow> distinct (map (h \<circ> pool_snapshot l y e v) (BondedPools l y)))"
| "undisturbed h l c = True"

text \<open>
  States for evaluation: a ledger of rDOT with one pool bonded and a last voter, and the same in
  the middle of era 1 with the pool's bond reported.
\<close>

definition sample_hash :: "BondSnapshot \<Rightarrow> Hash" where
  "sample_hash snap = plain_number (snap_pool snap)"

definition sample_ledger :: "ledger_store \<Rightarrow> (AccountId \<Rightarrow> u128, unit) ledger_state" where
  "sample_ledger l = \<lparr>block_number = 10, events = [], native = (\<lambda>_. 1000),
     rbalances = snd (token_mint 5 RDOT 100 empty_tokens), xbalances = empty_tokens, lpbalances = empty_tokens,
     brelayers = empty_relayers, rrelayers = empty_relayers, payers = empty_relayers,
     rates = empty_rates\<lparr>Rate := (\<lambda>_. None)(RDOT \<mapsto> RATEBASE)\<rparr>, bridge = empty_bridge, ledger = l\<rparr>"

definition sample_bonded :: ledger_store where
  "sample_bonded = empty_ledger\<lparr>Pools := (\<lambda>_. [])(RDOT := [[1]]), BondedPools := (\<lambda>_. [])(RDOT := [[1]]),
     BondPipelines := put2 RDOT [1] (Some \<lparr>pipe_bond = 0, pipe_unbond = 0, pipe_active = 100\<rparr>) (\<lambda>_ _. None),
     LastVoter := (\<lambda>_. None)(RDOT \<mapsto> 7)\<rparr>"

definition sample_shot :: BondSnapshot where
  "sample_shot = \<lparr>snap_symbol = RDOT, snap_era = 1, snap_pool = [1], snap_bond = 0, snap_unbond = 0,
     snap_active = 100, snap_last_voter = 7, snap_state = PoolBondState.BondReported\<rparr>"

definition sample_era :: ledger_store where
  "sample_era = sample_bonded\<lparr>ChainEras := (\<lambda>_. None)(RDOT \<mapsto> 1), Receiver := Some 9,
     EraSnapShots := put2 RDOT 1 (Some [1]) (\<lambda>_ _. None), CurrentEraSnapShots := (\<lambda>_. None)(RDOT \<mapsto> [1]),
     Snapshots := put2 RDOT 1 (Some sample_shot) (\<lambda>_ _. None)\<rparr>"

section \<open>Invariants\<close>

text \<open>Bonded pools are known pools, and neither list repeats a pool.\<close>

definition pools_ok :: "ledger_store \<Rightarrow> bool" where
  "pools_ok l \<longleftrightarrow> (\<forall>y. distinct (Pools l y) \<and> distinct (BondedPools l y) \<and> set (BondedPools l y) \<subseteq> set (Pools l y))"

abbreviation current_shots :: "ledger_store \<Rightarrow> RSymbol \<Rightarrow> Hash list" where
  "current_shots l y \<equiv> unwrap_or (CurrentEraSnapShots l y) []"

text \<open>
  A snapshot is stored under the hash of what it was when its era began; the current snapshots of a
  token are exactly those that are not finished.
\<close>

definition hashed :: "(BondSnapshot \<Rightarrow> Hash) \<Rightarrow> ledger_store \<Rightarrow> bool" where
  "hashed h l \<longleftrightarrow> (\<forall>y i snap. Snapshots l y i = Some snap \<longrightarrow> i = h (update_state PoolBondState.EraUpdated snap))"

definition shots_ok :: "ledger_store \<Rightarrow> bool" where
  "shots_ok l \<longleftrightarrow> (\<forall>y. distinct (current_shots l y) \<and>
     (\<forall>i. i \<in> set (current_shots l y) \<longleftrightarrow> (\<exists>snap. Snapshots l y i = Some snap \<and> \<not> continuable snap)))"

text \<open>How the state of a snapshot may move.\<close>

inductive shot_step :: "RSymbol \<Rightarrow> PoolBondState \<Rightarrow> PoolBondState \<Rightarrow> bool" where
  "shot_step y PoolBondState.EraUpdated PoolBondState.BondReported"
| "shot_step y PoolBondState.EraUpdated PoolBondState.ActiveReported"
| "shot_step y PoolBondState.EraUpdated WithdrawSkipped"
| "shot_step y PoolBondState.BondReported PoolBondState.ActiveReported"
| "shot_step y PoolBondState.BondReported WithdrawSkipped"
| "shot_step y PoolBondState.ActiveReported PoolBondState.WithdrawReported"
| "shot_step y PoolBondState.WithdrawReported PoolBondState.TransferReported"
| "y \<in> {RATOM, RBNB} \<Longrightarrow> shot_step y PoolBondState.ActiveReported PoolBondState.TransferReported"

inductive_simps shot_step_simps:
  "shot_step y PoolBondState.EraUpdated t" "shot_step y PoolBondState.BondReported t"
  "shot_step y PoolBondState.ActiveReported t" "shot_step y PoolBondState.WithdrawReported t"
  "shot_step y WithdrawSkipped t" "shot_step y PoolBondState.TransferReported t"

section \<open>Lemmas\<close>

lemma ensure_voter_keeps [run_keeps]: "P s \<Longrightarrow> keeps P k \<Longrightarrow> keeps P (ensure_voter X o' s k)"
  by (auto simp: ensure_voter_def intro: run_keeps)

lemma ensure_voter_or_admin_keeps [run_keeps]:
  "P s \<Longrightarrow> keeps P k \<Longrightarrow> keeps P (ensure_voter_or_admin X o' s k)"
  by (auto simp: ensure_voter_or_admin_def intro: run_keeps)

lemma ensure_voter_Ok [run_ok]: "ensure_voter X o' s k = (Ok x, s') \<longleftrightarrow> is_voter X o' \<and> k = (Ok x, s')"
  by (simp add: ensure_voter_def run_ok)

lemma ensure_voter_or_admin_Ok [run_ok]:
  "ensure_voter_or_admin X o' s k = (Ok x, s') \<longleftrightarrow> (is_voter X o' \<or> o' = Root) \<and> k = (Ok x, s')"
  by (auto simp: ensure_voter_or_admin_def run_ok)

lemma ledger_frame [simp]:
  "ledger (deposit_event e s) = ledger s"
  "ledger (snd (rbal_lift m s)) = ledger s"
  "ledger (snd (set_rate X y a b s)) = ledger s"
  "ledger (set_era_rate y e' r s) = ledger s"
  using rbal_lift_state [of m s]
  by (auto simp: deposit_event_def set_rate_def set_era_rate_def Let_def)

lemma rbal_mint_ledger [simp]: "ledger (snd (rbal_mint a y v s)) = ledger s"
  by (simp add: rbal_mint_def)

lemma rbal_mint_rates [simp]: "rates (snd (rbal_mint a y v s)) = rates s"
  using rbal_lift_state [of "token_mint a y v" s] by (auto simp: rbal_mint_def)

lemma fee_ledger:
  assumes "run_if b (\<lambda>t. rbal_mint a y (f t) t) s = (r, s1)"
  shows "ledger s1 = ledger s" "rates s1 = rates s"
  using assms rbal_mint_ledger [of a y "f s" s] rbal_mint_rates [of a y "f s" s] by (cases b; simp)+

lemma fee_fails:
  assumes "run_if b (\<lambda>t. rbal_mint a y (f t) t) s = (r, s1)" "\<And>x. r \<noteq> Ok x"
  shows "s1 = s"
  using assms rcur.mint_state [of a y "f s" s] by (cases b) auto

lemma settle_rate_ledger [simp]:
  "ledger (case set_rate X y a b s of (r, t) \<Rightarrow> set_era_rate y e r t) = ledger s"
  by (simp add: case_prod_unfold)

text \<open>What a settled active report does to this pallet's storage; one that fails does nothing.\<close>

lemma record_active_ledger:
  "\<exists>pipes totals. ledger (record_active X y i snap pipe active era_shots cur s) =
      (let l = (ledger s)\<lparr>EraSnapShots := put2 y (snap_era snap) (Some era_shots) (EraSnapShots (ledger s)),
                         BondPipelines := pipes, TotalExpectedActive := totals\<rparr>
       in if PoolUnbonds (ledger s) y (snap_pool snap, snap_era snap) \<noteq> None
          then l\<lparr>Snapshots := put2 y i (Some (update_state PoolBondState.ActiveReported snap)) (Snapshots l)\<rparr>
          else l\<lparr>CurrentEraSnapShots := (CurrentEraSnapShots l)(y \<mapsto> cur),
                 Snapshots := put2 y i (Some (update_state WithdrawSkipped snap)) (Snapshots l)\<rparr>)"
  by (auto simp: record_active_def put_snapshot_def Let_def)

lemma settle_active_cases:
  obtains (fails) "snd (settle_active X y i snap pipe active s) = s" "\<And>x. fst (settle_active X y i snap pipe active s) \<noteq> Ok x"
  | (ok) s1 where "ledger s1 = ledger s" "rates s1 = rates s" "i \<in> set (current_shots (ledger s) y)"
      "settle_active X y i snap pipe active s = (Ok (), record_active X y i snap pipe active
         (remove1 i (unwrap_or (EraSnapShots (ledger s) y (snap_era snap)) [])) (remove1 i (current_shots (ledger s) y)) s1)"
proof (cases "\<exists>x. fst (settle_active X y i snap pipe active s) = Ok x")
  case True
  then obtain s' where "settle_active X y i snap pipe active s = (Ok (), s')"
    by (cases "settle_active X y i snap pipe active s") auto
  then obtain receiver e c s1 where
    e: "position (\<lambda>shot. shot = i) (unwrap_or (EraSnapShots (ledger s) y (snap_era snap)) []) = Some e"
    and c: "position (\<lambda>shot. shot = i) (current_shots (ledger s) y) = Some c"
    and fee: "run_if (active > snap_active snap)
          (\<lambda>t. rbal_mint receiver y
                 (token_to_rtoken X y (perbill_mul X (Commission (ledger t)) (active - snap_active snap)) t) t) s = (Ok (), s1)"
    and s': "settle_active X y i snap pipe active s = (Ok (), record_active X y i snap pipe active
                   (remove_nth e (unwrap_or (EraSnapShots (ledger s) y (snap_era snap)) []))
                   (remove_nth c (current_shots (ledger s) y)) s1)"
    unfolding settle_active_def Let_def by (auto simp: ok_or_Ok and_then_Ok)
  show ?thesis
    using ok [OF fee_ledger [OF fee]] s' position_Some [OF e] position_Some [OF c] by simp
next
  case False
  have "snd (settle_active X y i snap pipe active s) = s"
    using False unfolding settle_active_def Let_def ok_or_def and_then_def
    by (auto simp del: fun_upd_apply dest: fee_fails split: option.splits prod.splits outcome.splits)
  with False show ?thesis using fails by blast
qed

lemma rate_init_ledger [simp]: "ledger (if b then snd (set_rate X y v w t) else t) = ledger t"
  by simp

lemma mint_then_keeps:
  fixes s :: "('c, 'call, 'z) ledger_state_scheme"
  assumes "Q (ledger s)"
    and "\<And>t :: ('c, 'call, 'z) ledger_state_scheme. ledger t = ledger s \<Longrightarrow> keeps (\<lambda>t. Q (ledger t)) (k () t)"
  shows "keeps (\<lambda>t. Q (ledger t)) (and_then (rbal_mint a y v s) k)"
proof (cases "rbal_mint a y v s")
  case (Pair r t)
  then have "ledger t = ledger s" using rbal_mint_ledger [of a y v s] by simp
  with assms Pair show ?thesis by (cases r) (simp_all add: keeps_def)
qed

lemma settle_active_keeps:
  fixes s :: "('c, 'call, 'z) ledger_state_scheme"
  assumes "Q (ledger s)"
    and "\<And>(s1 :: ('c, 'call, 'z) ledger_state_scheme) era_shots. ledger s1 = ledger s \<Longrightarrow> i \<in> set (current_shots (ledger s) y) \<Longrightarrow>
      Q (ledger (record_active X y i snap pipe active era_shots (remove1 i (current_shots (ledger s) y)) s1))"
  shows "keeps (\<lambda>t. Q (ledger t)) (settle_active X y i snap pipe active s)"
proof (cases X y i snap pipe active s rule: settle_active_cases)
  case fails
  with assms(1) show ?thesis by (simp add: keeps_def)
next
  case (ok s1)
  from assms(2) [OF ok(1,3)] ok(4) show ?thesis by (simp only: keeps_def snd_conv)
qed

lemma record_active_pools [simp]:
  "Pools (ledger (record_active X y i snap pipe active era_shots cur s)) = Pools (ledger s)"
  "BondedPools (ledger (record_active X y i snap pipe active era_shots cur s)) = BondedPools (ledger s)"
  using record_active_ledger [of X y i snap pipe active era_shots cur s] by (auto simp: Let_def)

lemma pool_snapshot_simps [simp]:
  "snap_symbol (pool_snapshot l y e v p) = y" "snap_pool (pool_snapshot l y e v p) = p"
  "snap_state (pool_snapshot l y e v p) = PoolBondState.EraUpdated"
  "update_state PoolBondState.EraUpdated (pool_snapshot l y e v p) = pool_snapshot l y e v p"
  "pool_snapshot (l\<lparr>Snapshots := m\<rparr>) y e v p = pool_snapshot l y e v p"
  by (auto simp: pool_snapshot_def update_state_def Let_def)

lemma snapshot_pools_Cons:
  "snapshot_pools h y e v (p # ps) shots s =
     snapshot_pools h y e v ps (shots @ [h (pool_snapshot (ledger s) y e v p)])
       (deposit_event (LedgerEv (EraPoolUpdated y e (h (pool_snapshot (ledger s) y e v p)) v))
         (put_snapshot y (h (pool_snapshot (ledger s) y e v p)) (pool_snapshot (ledger s) y e v p) s))"
  by (simp add: pool_snapshot_def put_snapshot_def Let_def)

lemma put_snapshot_ledger [simp]:
  "ledger (put_snapshot y i snap s) = (ledger s)\<lparr>Snapshots := put2 y i (Some snap) (Snapshots (ledger s))\<rparr>"
  by (simp add: put_snapshot_def)

lemma put_pipeline_ledger [simp]:
  "ledger (put_pipeline y p pipe s) = (ledger s)\<lparr>BondPipelines := put2 y p (Some pipe) (BondPipelines (ledger s))\<rparr>"
  by (simp add: put_pipeline_def)

declare snapshot_pools.simps(2) [simp del]

lemma snapshot_pools_ids:
  "fst (snapshot_pools h y e v ps shots s) = shots @ map (h \<circ> pool_snapshot (ledger s) y e v) ps"
  by (induction ps arbitrary: shots s) (simp_all add: snapshot_pools_Cons)

text \<open>The snapshots after the loop: those of the pools, the rest as before.\<close>

definition snapshots_of ::
    "(BondSnapshot \<Rightarrow> Hash) \<Rightarrow> (bytes \<Rightarrow> BondSnapshot) \<Rightarrow> RSymbol \<Rightarrow> bytes list
     \<Rightarrow> (RSymbol \<Rightarrow> Hash \<Rightarrow> BondSnapshot option) \<Rightarrow> RSymbol \<Rightarrow> Hash \<Rightarrow> BondSnapshot option" where
  "snapshots_of h shot y ps m = fold (\<lambda>p. put2 y (h (shot p)) (Some (shot p))) ps m"

lemma snapshot_pools_ledger:
  "ledger (snd (snapshot_pools h y e v ps shots s)) =
     (ledger s)\<lparr>Snapshots := snapshots_of h (pool_snapshot (ledger s) y e v) y ps (Snapshots (ledger s))\<rparr>"
  by (induction ps arbitrary: shots s) (simp_all add: snapshot_pools_Cons snapshots_of_def)

lemma snapshots_of_cases:
  "snapshots_of h shot y ps m z i = m z i \<and> (z \<noteq> y \<or> i \<notin> set (map (h \<circ> shot) ps))
   \<or> z = y \<and> (\<exists>p\<in>set ps. i = h (shot p) \<and> snapshots_of h shot y ps m z i = Some (shot p))"
proof (induction ps arbitrary: m)
  case Nil
  show ?case by (simp add: snapshots_of_def)
next
  case (Cons a ps)
  let ?m = "put2 y (h (shot a)) (Some (shot a)) m"
  have step: "snapshots_of h shot y (a # ps) m = snapshots_of h shot y ps ?m"
    by (simp add: snapshots_of_def)
  define w where "w = snapshots_of h shot y ps ?m z i"
  have m: "?m z i = (if z = y \<and> i = h (shot a) then Some (shot a) else m z i)" by simp
  from Cons.IH [of ?m] show ?case
    unfolding step w_def [symmetric] m by (cases "z = y \<and> i = h (shot a)") auto
qed

section \<open>The pools\<close>

lemma pools_ok_exec:
  assumes "pools_ok (ledger s)"
  shows "keeps (\<lambda>t. pools_ok (ledger t)) (ledger_exec X h c s)"
proof (cases c)
  case (RemovePool o' y p)
  then show ?thesis using assms
    by (auto simp: remove_pool_def Let_def pools_ok_def subset_iff intro!: run_keeps dest!: position_Some)
next
  case (SetInitBond o' y p a v)
  then show ?thesis using assms
    by (auto simp: set_init_bond_def Let_def pools_ok_def subset_iff split: if_splits
        intro!: mint_then_keeps ensure_root_keeps ensure_keeps return_keeps)
next
  case (SetChainEra o' y e)
  then show ?thesis using assms
    by (auto simp: set_chain_era_def Let_def case_prod_unfold snapshot_pools_ledger pools_ok_def subset_iff intro!: run_keeps)
next
  case (BondAndReportActive o' y i a v r)
  then show ?thesis using assms
    by (auto simp: bond_and_report_active_def Let_def pools_ok_def subset_iff intro!: run_keeps settle_active_keeps)
next
  case (ActiveReport o' y i v)
  then show ?thesis using assms
    by (auto simp: active_report_def pools_ok_def subset_iff intro!: run_keeps settle_active_keeps)
next
  case (NewActiveReport o' y i v r)
  then show ?thesis using assms
    by (auto simp: new_active_report_def Let_def pools_ok_def subset_iff intro!: run_keeps settle_active_keeps)
qed (use assms in \<open>auto simp: set_commission_def add_new_pool_def set_receiver_def set_era_unbond_limit_def
    set_chain_bonding_duration_def add_sub_accounts_and_threshold_def clear_current_era_snap_shots_def
    set_least_bond_def bond_report_def new_bond_report_def withdraw_report_def transfer_report_def
    Let_def pools_ok_def subset_iff intro!: run_keeps\<close>)

lemma pools_ok_reach: "ledger_reach X h ok s \<Longrightarrow> pools_ok (ledger s)"
proof (induction rule: ledger_reach.induct)
  case (operation s c)
  then show ?case using pools_ok_exec [of s X h c] by (simp add: keeps_def)
qed (simp_all add: pools_ok_def empty_ledger_def)

lemma ensure_voter_total [run_total]:
  "no_panic k \<Longrightarrow> no_panic (ensure_voter X o' s k)"
  "no_panic k \<Longrightarrow> no_panic (ensure_voter_or_admin X o' s k)"
  by (auto simp: ensure_voter_def ensure_voter_or_admin_def intro: run_total)

lemma settle_active_total [run_total]: "no_panic (settle_active X y i snap pipe active s)"
  unfolding settle_active_def Let_def by (intro run_total)

lemma remove_pool_total: "pools_ok (ledger s) \<Longrightarrow> no_panic (remove_pool o' y p s)"
  unfolding remove_pool_def Let_def
  by (intro run_total) (auto simp: pools_ok_def position_None dest: position_Some)

lemma exec_total:
  assumes "pools_ok (ledger s)"
  shows "no_panic (ledger_exec X h c s)"
  using remove_pool_total [OF assms]
  by (cases c) (auto simp: set_commission_def add_new_pool_def set_receiver_def set_era_unbond_limit_def
    set_init_bond_def set_chain_era_def bond_and_report_active_def active_report_def new_active_report_def
    set_chain_bonding_duration_def add_sub_accounts_and_threshold_def clear_current_era_snap_shots_def
    set_least_bond_def bond_report_def new_bond_report_def withdraw_report_def transfer_report_def
    Let_def case_prod_unfold intro!: run_total)

section \<open>The snapshots\<close>

text \<open>The two invariants of the snapshots look at two fields only.\<close>

definition snaps_ok :: "(BondSnapshot \<Rightarrow> Hash) \<Rightarrow> ledger_store \<Rightarrow> bool" where
  "snaps_ok h l \<longleftrightarrow> hashed h l \<and> shots_ok l"

lemma snaps_ok_cong:
  "Snapshots l = Snapshots m \<Longrightarrow> CurrentEraSnapShots l = CurrentEraSnapShots m \<Longrightarrow> snaps_ok h l = snaps_ok h m"
  by (simp add: snaps_ok_def hashed_def shots_ok_def)

lemma snaps_ok_fields [simp]:
  "snaps_ok h (l\<lparr>ChainEras := f1\<rparr>) = snaps_ok h l" "snaps_ok h (l\<lparr>ChainBondingDuration := f2\<rparr>) = snaps_ok h l"
  "snaps_ok h (l\<lparr>Commission := f3\<rparr>) = snaps_ok h l" "snaps_ok h (l\<lparr>Receiver := f4\<rparr>) = snaps_ok h l"
  "snaps_ok h (l\<lparr>Pools := f5\<rparr>) = snaps_ok h l" "snaps_ok h (l\<lparr>BondedPools := f6\<rparr>) = snaps_ok h l"
  "snaps_ok h (l\<lparr>TotalExpectedActive := f7\<rparr>) = snaps_ok h l" "snaps_ok h (l\<lparr>BondPipelines := f8\<rparr>) = snaps_ok h l"
  "snaps_ok h (l\<lparr>EraSnapShots := f9\<rparr>) = snaps_ok h l" "snaps_ok h (l\<lparr>PoolUnbonds := f10\<rparr>) = snaps_ok h l"
  "snaps_ok h (l\<lparr>EraUnbondLimit := f11\<rparr>) = snaps_ok h l" "snaps_ok h (l\<lparr>SubAccounts := f12\<rparr>) = snaps_ok h l"
  "snaps_ok h (l\<lparr>MultiThresholds := f13\<rparr>) = snaps_ok h l" "snaps_ok h (l\<lparr>LastVoter := f14\<rparr>) = snaps_ok h l"
  "snaps_ok h (l\<lparr>LeastBond := f15\<rparr>) = snaps_ok h l"
  by (rule snaps_ok_cong; simp)+

lemma update_state_simps [simp]:
  "update_state a (update_state b snap) = update_state a snap"
  "snap_state (update_state a snap) = a"
  "snap_symbol (update_state a snap) = snap_symbol snap"
  by (simp_all add: update_state_def)

lemma shots_ok_empty:
  assumes "shots_ok l" "current_shots l y = []" "Snapshots l y i = Some snap"
  shows "continuable snap"
proof -
  from assms(1) have "i \<in> set (current_shots l y) \<longleftrightarrow> (\<exists>snap. Snapshots l y i = Some snap \<and> \<not> continuable snap)"
    unfolding shots_ok_def by blast
  with assms(2,3) show ?thesis by simp
qed

lemma hashed_put:
  "hashed h l \<Longrightarrow> Snapshots l y i = Some snap \<Longrightarrow>
   hashed h (l\<lparr>Snapshots := put2 y i (Some (update_state st snap)) (Snapshots l)\<rparr>)"
  by (auto simp: hashed_def)

text \<open>A report that does not finish the snapshot, and one that does.\<close>

lemma snaps_ok_put:
  assumes "snaps_ok h l" "Snapshots l y i = Some snap" "\<not> continuable snap" "st \<noteq> WithdrawSkipped" "st \<noteq> PoolBondState.TransferReported"
  shows "snaps_ok h (l\<lparr>Snapshots := put2 y i (Some (update_state st snap)) (Snapshots l)\<rparr>)"
  using assms hashed_put [of h l y i snap st]
  by (auto simp: snaps_ok_def shots_ok_def continuable_def)

lemma snaps_ok_put_pipe:
  assumes "snaps_ok h l" "Snapshots l y i = Some snap" "\<not> continuable snap" "st \<noteq> WithdrawSkipped" "st \<noteq> PoolBondState.TransferReported"
  shows "snaps_ok h (l\<lparr>BondPipelines := b, Snapshots := put2 y i (Some (update_state st snap)) (Snapshots l)\<rparr>)"
  using snaps_ok_put [of h "l\<lparr>BondPipelines := b\<rparr>" y i snap st] assms by simp

lemma snaps_ok_finish:
  assumes "snaps_ok h l" "Snapshots l y i = Some snap" "st = WithdrawSkipped \<or> st = PoolBondState.TransferReported"
  shows "snaps_ok h (l\<lparr>CurrentEraSnapShots := (CurrentEraSnapShots l)(y \<mapsto> remove1 i (current_shots l y)),
                       Snapshots := put2 y i (Some (update_state st snap)) (Snapshots l)\<rparr>)"
  using assms hashed_put [of h l y i snap st]
  by (auto simp: snaps_ok_def shots_ok_def hashed_def continuable_def)

lemma settle_active_snaps:
  assumes "snaps_ok h (ledger s)" "Snapshots (ledger s) y i = Some snap" "\<not> continuable snap"
  shows "keeps (\<lambda>t. snaps_ok h (ledger t)) (settle_active X y i snap pipe active s)"
proof (rule settle_active_keeps)
  fix s1 :: "('a, 'b, 'c) ledger_state_scheme" and era_shots
  assume s1: "ledger s1 = ledger s"
  obtain pipes totals where l: "ledger (record_active X y i snap pipe active era_shots
        (remove1 i (current_shots (ledger s) y)) s1) =
      (let l = (ledger s1)\<lparr>EraSnapShots := put2 y (snap_era snap) (Some era_shots) (EraSnapShots (ledger s1)),
                         BondPipelines := pipes, TotalExpectedActive := totals\<rparr>
       in if PoolUnbonds (ledger s1) y (snap_pool snap, snap_era snap) \<noteq> None
          then l\<lparr>Snapshots := put2 y i (Some (update_state PoolBondState.ActiveReported snap)) (Snapshots l)\<rparr>
          else l\<lparr>CurrentEraSnapShots := (CurrentEraSnapShots l)(y \<mapsto> remove1 i (current_shots (ledger s) y)),
                 Snapshots := put2 y i (Some (update_state WithdrawSkipped snap)) (Snapshots l)\<rparr>)"
    using record_active_ledger by blast
  let ?l = "(ledger s)\<lparr>EraSnapShots := put2 y (snap_era snap) (Some era_shots) (EraSnapShots (ledger s)),
                         BondPipelines := pipes, TotalExpectedActive := totals\<rparr>"
  have ok: "snaps_ok h ?l" "Snapshots ?l y i = Some snap" using assms by simp_all
  show "snaps_ok h (ledger (record_active X y i snap pipe active era_shots
        (remove1 i (current_shots (ledger s) y)) s1))"
    unfolding l s1 Let_def
    using snaps_ok_put [OF ok assms(3), of PoolBondState.ActiveReported] snaps_ok_finish [OF ok, of WithdrawSkipped]
    by simp
qed (rule assms(1))

lemma new_snaps_ok:
  fixes e :: u32 and v :: AccountId
  assumes ok: "snaps_ok h l" and empty: "current_shots l y = []" and dist: "distinct (map (h \<circ> pool_snapshot l y e v) ps)"
  defines "shot \<equiv> pool_snapshot l y e v"
  shows "snaps_ok h (l\<lparr>Snapshots := snapshots_of h shot y ps (Snapshots l),
                       CurrentEraSnapShots := (CurrentEraSnapShots l)(y \<mapsto> map (h \<circ> shot) ps)\<rparr>)"
proof -
  let ?m = "snapshots_of h shot y ps (Snapshots l)"
  have shot: "snap_pool (shot p) = p" "update_state PoolBondState.EraUpdated (shot p) = shot p" "\<not> continuable (shot p)" for p
    by (simp_all add: shot_def continuable_def)
  note dist' = dist [folded shot_def]
  have old: "continuable snap" if "Snapshots l y i = Some snap" for i snap
    using ok empty that by (auto simp: snaps_ok_def intro: shots_ok_empty)
  have hash: "i = h (update_state PoolBondState.EraUpdated snap)" if "?m z i = Some snap" for z i snap
    using snapshots_of_cases [of h shot y ps "Snapshots l" z i] that ok shot(2)
    by (auto simp: snaps_ok_def hashed_def)
  have other: "?m z i = Snapshots l z i" if "z \<noteq> y" for z i
    using snapshots_of_cases [of h shot y ps "Snapshots l" z i] that by auto
  have cur: "i \<in> set (map (h \<circ> shot) ps) \<longleftrightarrow> (\<exists>snap. ?m y i = Some snap \<and> \<not> continuable snap)" for i
    using snapshots_of_cases [of h shot y ps "Snapshots l" y i] old shot(3) by auto
  show ?thesis
    using ok dist' hash other cur by (auto simp: snaps_ok_def hashed_def shots_ok_def simp del: set_map)
qed

lemma snaps_ok_exec:
  assumes "snaps_ok h (ledger s)" "undisturbed h (ledger s) c"
  shows "keeps (\<lambda>t. snaps_ok h (ledger t)) (ledger_exec X h c s)"
proof (cases c)
  case (SetInitBond o' y p a v)
  then show ?thesis using assms
    by (auto simp: set_init_bond_def Let_def intro!: mint_then_keeps ensure_root_keeps ensure_keeps return_keeps)
next
  case (SetChainEra o' y e)
  have "snaps_ok h ((ledger s)\<lparr>Snapshots := snapshots_of h (pool_snapshot (ledger s) y e v) y (BondedPools (ledger s) y) (Snapshots (ledger s)),
         EraSnapShots := q,
         CurrentEraSnapShots := (CurrentEraSnapShots (ledger s))(y \<mapsto> map (h \<circ> pool_snapshot (ledger s) y e v) (BondedPools (ledger s) y))\<rparr>)"
    if "current_shots (ledger s) y = []" "LastVoter (ledger s) y = Some v" for v q
    by (rule snaps_ok_cong [THEN iffD1, OF _ _ new_snaps_ok [OF assms(1) that(1), of e v "BondedPools (ledger s) y"]])
      (use assms(2) SetChainEra that(2) in \<open>simp_all\<close>)
  with SetChainEra assms(1) show ?thesis
    by (auto simp: set_chain_era_def Let_def case_prod_unfold snapshot_pools_ledger snapshot_pools_ids intro!: run_keeps)
next
  case (BondAndReportActive o' y i a v r)
  with assms(1) show ?thesis
    by (auto simp: bond_and_report_active_def Let_def era_updated_def continuable_def
        intro!: run_keeps settle_active_snaps)
next
  case (ActiveReport o' y i v)
  with assms(1) show ?thesis
    by (auto simp: active_report_def bond_reported_def continuable_def intro!: run_keeps settle_active_snaps)
next
  case (NewActiveReport o' y i v r)
  with assms(1) show ?thesis
    by (auto simp: new_active_report_def Let_def bond_reported_def continuable_def
        intro!: run_keeps settle_active_snaps)
next
  case (TransferReport o' y i)
  with assms(1) show ?thesis
    by (auto simp: transfer_report_def Let_def intro!: run_keeps dest!: position_Some intro: snaps_ok_finish)
qed (use assms in \<open>auto simp: set_commission_def add_new_pool_def remove_pool_def set_receiver_def set_era_unbond_limit_def
    set_chain_bonding_duration_def add_sub_accounts_and_threshold_def
    set_least_bond_def bond_report_def new_bond_report_def withdraw_report_def era_updated_def active_reported_def
    continuable_def Let_def intro!: run_keeps snaps_ok_put snaps_ok_put_pipe\<close>)

lemma snaps_ok_reach:
  assumes "ledger_reach X h (undisturbed h) s"
  shows "snaps_ok h (ledger s)"
  using assms
proof (induction rule: ledger_reach.induct)
  case (operation s c)
  then show ?case
    using snaps_ok_exec [of h s c X] by (simp add: keeps_def)
qed (simp_all add: snaps_ok_def hashed_def shots_ok_def empty_ledger_def)

section \<open>Properties\<close>

text \<open>
  C37. No operation of the ledger panics, in any state the pallet can reach: the unchecked
  \<open>unwrap\<close> in \<open>remove_pool\<close> always finds the pool, because bonded pools are known pools.
\<close>

theorem ledger_never_panics:
  assumes "ledger_reach X h ok s"
  shows "fst (ledger_exec X h c s) \<noteq> Panic"
  using exec_total [OF pools_ok_reach [OF assms]] by (simp add: no_panic_def)

lemma sample_reach: "ledger_reach plain_config sample_hash (undisturbed sample_hash) (sample_ledger sample_bonded)"
proof -
  let ?R = "ledger_reach plain_config sample_hash (undisturbed sample_hash)"
  let ?c1 = "AddNewPool Root RDOT [1]" and ?c2 = "SetInitBond Root RDOT [1] 5 100"
  let ?s0 = "sample_ledger empty_ledger"
  let ?s1 = "snd (ledger_exec plain_config sample_hash ?c1 ?s0)"
  let ?s2 = "snd (ledger_exec plain_config sample_hash ?c2 ?s1)"
  have "?R ?s0" by (rule ledger_reach.genesis) (simp add: sample_ledger_def)
  then have "?R ?s1" by (rule ledger_reach.operation) simp
  then have "?R ?s2" by (rule ledger_reach.operation) simp
  moreover have "ledger (sample_ledger sample_bonded) = (ledger ?s2)\<lparr>LastVoter := (\<lambda>_. None)(RDOT \<mapsto> 7)\<rparr>"
    by (simp add: add_new_pool_def set_init_bond_def sample_ledger_def sample_bonded_def empty_ledger_def
        token_to_rtoken_def rbal_mint_def rbal_lift_def token_lift_def token_mint_eq free_balance_def
        empty_tokens_def set_free_def deposit_event_def)
  ultimately show ?thesis by (rule ledger_reach.voter)
qed

theorem ledger_never_panics_witness:
  "ledger_reach plain_config sample_hash (undisturbed sample_hash) (sample_ledger sample_bonded)
   \<and> fst (ledger_exec plain_config sample_hash (RemovePool Root RDOT [1]) (sample_ledger sample_bonded)) \<noteq> Panic"
  using ledger_never_panics [OF sample_reach] sample_reach by blast


lemma sample_era_begins:
  "\<exists>s'. set_chain_era plain_config sample_hash (Signed (voter_account_id plain_config)) RDOT 1 (sample_ledger sample_bonded) = (Ok (), s')
     \<and> current_shots (ledger s') RDOT = [1]"
  by (simp add: set_chain_era_def ensure_voter_def is_voter_def Let_def case_prod_unfold snapshot_pools_ledger
      snapshot_pools_ids sample_ledger_def sample_bonded_def empty_ledger_def sample_hash_def plain_number_def)




text \<open>Where a snapshot may go in one operation.\<close>

definition moved :: "BondSnapshot \<Rightarrow> BondSnapshot \<Rightarrow> bool" where
  "moved snap snap' \<longleftrightarrow> snap' = snap \<or> (\<exists>st. shot_step (snap_symbol snap) (snap_state snap) st \<and> snap' = update_state st snap)"

abbreviation shot_moves :: "RSymbol \<Rightarrow> Hash \<Rightarrow> BondSnapshot \<Rightarrow> ledger_store \<Rightarrow> bool" where
  "shot_moves y i snap l \<equiv> \<exists>snap'. Snapshots l y i = Some snap' \<and> moved snap snap'"

lemma moved_refl [simp]: "moved snap snap"
  by (simp add: moved_def)

lemma moved_step [intro]: "shot_step (snap_symbol snap) (snap_state snap) st \<Longrightarrow> moved snap (update_state st snap)"
  by (auto simp: moved_def)

lemma settle_active_moves:
  assumes "Snapshots (ledger s) y i = Some snap" "Snapshots (ledger s) z j = Some old"
    and "snap_state old = PoolBondState.EraUpdated \<or> snap_state old = PoolBondState.BondReported"
  shows "keeps (\<lambda>t. shot_moves y i snap (ledger t)) (settle_active X z j old pipe active s)"
proof (rule settle_active_keeps)
  fix s1 :: "('a, 'b, 'c) ledger_state_scheme" and era_shots
  assume "ledger s1 = ledger s"
  moreover have "shot_step (snap_symbol old) (snap_state old) PoolBondState.ActiveReported"
    "shot_step (snap_symbol old) (snap_state old) WithdrawSkipped"
    using assms(3) by (auto simp: shot_step_simps)
  ultimately show "shot_moves y i snap (ledger (record_active X z j old pipe active era_shots
        (remove1 j (current_shots (ledger s) z)) s1))"
    using record_active_ledger [of X z j old pipe active era_shots "remove1 j (current_shots (ledger s) z)" s1] assms(1,2)
    by (auto simp: Let_def intro!: moved_step)
qed (use assms(1) in simp)

lemma withdraw_reported_step:
  "withdraw_reported snap \<Longrightarrow> shot_step (snap_symbol snap) (snap_state snap) PoolBondState.TransferReported"
  by (cases "snap_symbol snap") (auto simp: withdraw_reported_def active_reported_def shot_step_simps)

lemma shot_moves_exec:
  assumes "Snapshots (ledger s) y i = Some snap" "\<And>o' z e. c \<noteq> SetChainEra o' z e"
  shows "keeps (\<lambda>t. shot_moves y i snap (ledger t)) (ledger_exec X h c s)"
proof (cases c)
  case (SetInitBond o' z p a v)
  then show ?thesis using assms(1)
    by (auto simp: set_init_bond_def Let_def intro!: mint_then_keeps ensure_root_keeps ensure_keeps return_keeps)
next
  case (BondAndReportActive o' z j a v r)
  then show ?thesis using assms(1)
    by (auto simp: bond_and_report_active_def Let_def era_updated_def intro!: run_keeps settle_active_moves)
next
  case (ActiveReport o' z j v)
  then show ?thesis using assms(1)
    by (auto simp: active_report_def bond_reported_def intro!: run_keeps settle_active_moves)
next
  case (NewActiveReport o' z j v r)
  then show ?thesis using assms(1)
    by (auto simp: new_active_report_def Let_def bond_reported_def intro!: run_keeps settle_active_moves)
next
  case (TransferReport o' z j)
  then show ?thesis using assms(1)
    by (auto simp: transfer_report_def Let_def intro!: run_keeps moved_step withdraw_reported_step)
qed (use assms in \<open>auto simp: set_commission_def add_new_pool_def remove_pool_def set_receiver_def set_era_unbond_limit_def
    set_chain_bonding_duration_def add_sub_accounts_and_threshold_def clear_current_era_snap_shots_def
    set_least_bond_def bond_report_def new_bond_report_def withdraw_report_def era_updated_def active_reported_def
    Let_def shot_step_simps intro!: run_keeps moved_step\<close>)



lemma rate_fields [simp]:
  "rates (put_snapshot y i snap s) = rates s" "rbalances (put_snapshot y i snap s) = rbalances s"
  "rates (deposit_event e s) = rates s" "rbalances (deposit_event e s) = rbalances s"
  "rbalances (snd (set_rate X y v w s)) = rbalances s" "rbalances (set_era_rate y n r s) = rbalances s"
  "Rate (rates (set_era_rate y n r s)) = Rate (rates s)"
  by (simp_all add: put_snapshot_def deposit_event_def set_rate_def set_era_rate_def Let_def)

lemma record_active_rates:
  fixes s :: "('c, 'call, 'z) ledger_state_scheme" and y :: RSymbol
  defines "total' \<equiv> \<lambda>pipe active snap. saturating_add (unwrap_or (TotalExpectedActive (ledger s) y (snap_era snap)) 0)
      (saturating_sub (saturating_add (pipe_active pipe) active) (snap_active snap))"
  shows "Rate (rates (record_active X y i snap pipe active [] cur s))
      = Rate (rates (snd (set_rate X y (total' pipe active snap) (rbal_total_issuance y s) s)))"
    and "shots \<noteq> [] \<Longrightarrow> rates (record_active X y i snap pipe active shots cur s) = rates s"
    and "rbal_total_issuance z (record_active X y i snap pipe active shots cur s) = rbal_total_issuance z s"
    and "TotalExpectedActive (ledger (record_active X y i snap pipe active shots cur s)) y (snap_era snap)
      = Some (total' pipe active snap)"
  by (auto simp: record_active_def total'_def Let_def case_prod_unfold rbal_total_issuance_def)

text \<open>The three operations that report the active stake of a snapshot.\<close>

fun reports_active :: "RSymbol \<Rightarrow> Hash \<Rightarrow> ledger_op \<Rightarrow> bool" where
  "reports_active y i (ActiveReport o' z j v) = (z = y \<and> j = i)"
| "reports_active y i (NewActiveReport o' z j v u) = (z = y \<and> j = i)"
| "reports_active y i (BondAndReportActive o' z j a v r) = (z = y \<and> j = i)"
| "reports_active y i c = False"

lemma reports_active_settle:
  assumes "reports_active y i c" "ledger_exec X h c s = (Ok u, s')" "Snapshots (ledger s) y i = Some snap"
  shows "\<exists>pipe active. settle_active X y i snap pipe active s = (Ok u, s')"
  using assms
  by (cases c) (auto simp: active_report_def new_active_report_def bond_and_report_active_def Let_def run_ok)

lemma rtoken_to_token_cong: "Rate (rates s) = Rate (rates t) \<Longrightarrow> rtoken_to_token X y v s = rtoken_to_token X y v t"
  by (simp add: rtoken_to_token_def)


lemma sample_report:
  "\<exists>s'. ledger_exec plain_config sample_hash (ActiveReport Root RDOT 1 100) (sample_ledger sample_era) = (Ok (), s')
     \<and> TotalExpectedActive (ledger s') RDOT 1 = Some 100"
  by (simp add: active_report_def ensure_voter_or_admin_def is_voter_def settle_active_def Let_def
      sample_ledger_def sample_era_def sample_bonded_def sample_shot_def bond_reported_def get_pipeline_def
      record_active_def empty_ledger_def case_prod_unfold saturating_add_def saturating_sub_def)


lemma record_active_snapshot:
  "\<exists>st. (st = PoolBondState.ActiveReported \<or> st = WithdrawSkipped) \<and>
     Snapshots (ledger (record_active X y i snap pipe active shots cur s)) y i = Some (update_state st snap)"
  using record_active_ledger [of X y i snap pipe active shots cur s] by (auto simp: Let_def)

lemma settle_active_snapshot:
  assumes "settle_active X y i snap pipe active s = (Ok u, s')"
  shows "\<exists>st. (st = PoolBondState.ActiveReported \<or> st = WithdrawSkipped) \<and>
     Snapshots (ledger s') y i = Some (update_state st snap)"
  using assms
proof (cases X y i snap pipe active s rule: settle_active_cases)
  case (ok s1)
  with assms record_active_snapshot show ?thesis by (metis Pair_inject)
qed simp

text \<open>The seven reports, and the snapshot each is about.\<close>

fun report_of :: "ledger_op \<Rightarrow> (RSymbol \<times> Hash) option" where
  "report_of (BondReport o' y i) = Some (y, i)"
| "report_of (NewBondReport o' y i a) = Some (y, i)"
| "report_of (BondAndReportActive o' y i a v r) = Some (y, i)"
| "report_of (ActiveReport o' y i v) = Some (y, i)"
| "report_of (NewActiveReport o' y i v u) = Some (y, i)"
| "report_of (WithdrawReport o' y i) = Some (y, i)"
| "report_of (TransferReport o' y i) = Some (y, i)"
| "report_of c = None"

lemma voter_guard_Err [simp]: "\<exists>e'. ensure_voter_or_admin X o' s (Err e, s) = (Err e', s)"
  by (cases o') (auto simp: ensure_voter_or_admin_def)

lemmas state_tests = era_updated_def bond_reported_def active_reported_def withdraw_reported_def

text \<open>
  A report is accepted once: repeating a report that was accepted is refused and changes nothing,
  so a proposal that the voting pallet dispatches a second time has no second effect on the ledger.
\<close>

theorem report_accepted_once:
  assumes "report_of c = Some k" "ledger_exec X h c s = (Ok u, s')"
  shows "\<exists>e. ledger_exec X h c s' = (Err e, s')"
proof (cases c)
  case (BondAndReportActive o' y i a v r)
  with assms show ?thesis
    by (auto simp: bond_and_report_active_def Let_def run_ok state_tests dest!: settle_active_snapshot)
next
  case (ActiveReport o' y i v)
  with assms show ?thesis
    by (auto simp: active_report_def run_ok state_tests dest!: settle_active_snapshot)
next
  case (NewActiveReport o' y i v r)
  with assms show ?thesis
    by (auto simp: new_active_report_def Let_def run_ok state_tests dest!: settle_active_snapshot)
qed (use assms in \<open>auto simp: bond_report_def new_bond_report_def withdraw_report_def transfer_report_def
    Let_def run_ok state_tests\<close>)

theorem report_accepted_once_witness:
  "\<exists>s' e. report_of (ActiveReport Root RDOT 1 100) = Some (RDOT, 1)
     \<and> ledger_exec plain_config sample_hash (ActiveReport Root RDOT 1 100) (sample_ledger sample_era) = (Ok (), s')
     \<and> ledger_exec plain_config sample_hash (ActiveReport Root RDOT 1 100) s' = (Err e, s')"
proof -
  obtain s' where s': "ledger_exec plain_config sample_hash (ActiveReport Root RDOT 1 100) (sample_ledger sample_era) = (Ok (), s')"
    using sample_report by blast
  have k: "report_of (ActiveReport Root RDOT 1 100) = Some (RDOT, 1)" by simp
  from report_accepted_once [OF k s'] s' k show ?thesis by blast
qed

end
