(* ===== verification/Votes.thy ===== *)
theory Votes
  imports Ledger
begin

text \<open>
  \<open>rtoken/votes\<close>: relayers of an rtoken vote for or against a proposal (an id and a call); a decided
  proposal is dispatched from the account of this pallet. The call type and its dispatch are
  parameters, as for the bridge.
\<close>

section \<open>Proposals\<close>

datatype (plugins only: code) RproposalStatus = Initiated | Approved | Rejected | Expired

text \<open>The fields \<open>status\<close> and \<open>expiry\<close> carry a prefix, as the bridge's proposals have them too.\<close>

record RproposalVotes =
  votes_for :: "AccountId list"
  votes_against :: "AccountId list"
  rstatus :: RproposalStatus
  rexpiry :: BlockNumber

definition RproposalVotes_default :: RproposalVotes where
  "RproposalVotes_default = \<lparr>votes_for = [], votes_against = [], rstatus = Initiated, rexpiry = 0\<rparr>"

text \<open>The sum of the votes against and the threshold is one of 32-bit words and wraps.\<close>

definition rderivate :: "RproposalVotes \<Rightarrow> u32 \<Rightarrow> u32 \<Rightarrow> RproposalStatus \<times> RproposalVotes" where
  "rderivate v threshold total' =
     (if length (votes_for v) \<ge> unat threshold then (Approved, v\<lparr>rstatus := Approved\<rparr>)
      else if total' \<ge> threshold \<and> word_of_nat (length (votes_against v)) + threshold > total'
      then (Rejected, v\<lparr>rstatus := Rejected\<rparr>)
      else (Initiated, v))"

definition ris_completed :: "RproposalVotes \<Rightarrow> bool" where
  "ris_completed v \<longleftrightarrow> rstatus v \<noteq> Initiated"

definition rhas_voted :: "RproposalVotes \<Rightarrow> AccountId \<Rightarrow> bool" where
  "rhas_voted v who \<longleftrightarrow> who \<in> set (votes_for v) \<or> who \<in> set (votes_against v)"

definition ris_expired :: "RproposalVotes \<Rightarrow> BlockNumber \<Rightarrow> bool" where
  "ris_expired v now \<longleftrightarrow> rexpiry v \<le> now"

section \<open>Storage and operations\<close>

record 'call votes_store =
  RVotes :: "RSymbol \<Rightarrow> Hash \<times> 'call \<Rightarrow> RproposalVotes option"

definition empty_votes :: "'call votes_store" where
  "empty_votes = \<lparr>RVotes = (\<lambda>_ _. None)\<rparr>"

record ('c, 'call) votes_state = "('c, 'call) ledger_state" +
  votes :: "'call votes_store"

type_synonym ('c, 'call, 'z) votes_run =
  "(dispatch_error, unit, ('c, 'call, 'z) votes_state_scheme) run"

definition put_rvotes ::
    "RSymbol \<Rightarrow> Hash \<times> 'call \<Rightarrow> RproposalVotes \<Rightarrow> ('c, 'call, 'z) votes_state_scheme
     \<Rightarrow> ('c, 'call, 'z) votes_state_scheme" where
  "put_rvotes symbol k v = votes_update (\<lambda>m. m\<lparr>RVotes := put2 symbol k (Some v) (RVotes m)\<rparr>)"

definition rcommit_vote ::
    "'c config \<Rightarrow> AccountId \<Rightarrow> RSymbol \<Rightarrow> Hash \<Rightarrow> bool \<Rightarrow> 'call \<Rightarrow> ('c, 'call, 'z) votes_state_scheme
     \<Rightarrow> ('c, 'call, 'z) votes_run" where
  "rcommit_vote X who symbol prop_id in_favour prop s =
     (let now = block_number s;
          v = unwrap_or (RVotes (votes s) symbol (prop_id, prop))
                (RproposalVotes_default\<lparr>rexpiry := now + ProposalLifetime X\<rparr>)
      in if rhas_voted v who then (Ok (), s)
         else
           let (v1, s1) =
                 if in_favour
                 then (v\<lparr>votes_for := votes_for v @ [who]\<rparr>,
                       deposit_event (VotesEv (votes_event.VoteFor who symbol prop_id)) s)
                 else (v\<lparr>votes_against := votes_against v @ [who]\<rparr>,
                       deposit_event (VotesEv (votes_event.VoteAgainst who symbol prop_id)) s)
           in if ris_completed v1 then (Ok (), put_rvotes symbol (prop_id, prop) v1 s1)
              else if ris_expired v1 now
              then (Err (VotesErr votes_error.ProposalExpired),
                    put_rvotes symbol (prop_id, prop) (v1\<lparr>rstatus := RproposalStatus.Expired\<rparr>) s1)
              else
                let (_, v2) = rderivate v1 (RelayerThreshold (rrelayers s1) symbol) (RelayerCount (rrelayers s1) symbol)
                in (Ok (), put_rvotes symbol (prop_id, prop) v2 s1))"

definition rtry_resolve_proposal ::
    "'c config
     \<Rightarrow> ('call \<Rightarrow> origin \<Rightarrow> ('c, 'call, 'z) votes_state_scheme \<Rightarrow> ('c, 'call, 'z) votes_run)
     \<Rightarrow> RSymbol \<Rightarrow> Hash \<Rightarrow> 'call \<Rightarrow> ('c, 'call, 'z) votes_state_scheme \<Rightarrow> ('c, 'call, 'z) votes_run" where
  "rtry_resolve_proposal X run symbol prop_id prop s =
     ok_or (RVotes (votes s) symbol (prop_id, prop)) (VotesErr votes_error.ProposalDoesNotExist) s (\<lambda>v.
       if rstatus v = Approved \<or> rstatus v = Rejected
       then and_then (run prop (Signed (voter_account_id X)) s) (\<lambda>_ s1. (Ok (), s1))
       else (Ok (), s))"

definition racknowledge_proposal ::
    "'c config
     \<Rightarrow> ('call \<Rightarrow> origin \<Rightarrow> ('c, 'call, 'z) votes_state_scheme \<Rightarrow> ('c, 'call, 'z) votes_run)
     \<Rightarrow> origin \<Rightarrow> RSymbol \<Rightarrow> Hash \<Rightarrow> bool \<Rightarrow> 'call \<Rightarrow> ('c, 'call, 'z) votes_state_scheme
     \<Rightarrow> ('c, 'call, 'z) votes_run" where
  "racknowledge_proposal X run o' symbol prop_id in_favour call s =
     ensure_signed o' s (\<lambda>who.
     ensure (rrelayers_is_relayer symbol who s) (RTokenRelayersErr relayers_error.MustBeRelayer) s
      (let s1 = ledger_update (\<lambda>l. l\<lparr>LastVoter := (LastVoter l)(symbol \<mapsto> who)\<rparr>) s
       in and_then (rcommit_vote X who symbol prop_id in_favour call s1)
            (\<lambda>_ s2. rtry_resolve_proposal X run symbol prop_id call s2)))"

section \<open>Runs of the pallet\<close>

text \<open>A step acknowledges a proposal or leaves the votes alone.\<close>

inductive votes_reach for X run where
  genesis: "RVotes (votes s) = (\<lambda>_ _. None) \<Longrightarrow> votes_reach X run s"
| ack: "votes_reach X run s \<Longrightarrow> votes_reach X run (snd (racknowledge_proposal X run o' y i f call s))"
| other: "votes_reach X run s \<Longrightarrow> RVotes (votes t) = RVotes (votes s) \<Longrightarrow> votes_reach X run t"

definition keeps_votes ::
    "('call \<Rightarrow> origin \<Rightarrow> ('c, 'call, 'z) votes_state_scheme \<Rightarrow> ('c, 'call, 'z) votes_run) \<Rightarrow> bool" where
  "keeps_votes run \<longleftrightarrow> (\<forall>call o' s. RVotes (votes (snd (run call o' s))) = RVotes (votes s))"

text \<open>The voters of a proposal are distinct.\<close>

definition voters_ok :: "'call votes_store \<Rightarrow> bool" where
  "voters_ok m \<longleftrightarrow> (\<forall>y k v. RVotes m y k = Some v \<longrightarrow> distinct (votes_for v @ votes_against v))"

definition rpending ::
    "'c config \<Rightarrow> RSymbol \<Rightarrow> Hash \<times> 'call \<Rightarrow> ('c, 'call, 'z) votes_state_scheme \<Rightarrow> RproposalVotes" where
  "rpending X y k s = unwrap_or (RVotes (votes s) y k)
     (RproposalVotes_default\<lparr>rexpiry := block_number s + ProposalLifetime X\<rparr>)"

text \<open>
  A state for evaluation: two relayers of rDOT, a threshold of two, and the given votes; a call that
  does nothing.
\<close>

definition sample_votes :: "unit votes_store \<Rightarrow> (AccountId \<Rightarrow> u128, unit) votes_state" where
  "sample_votes m = \<lparr>block_number = 10, events = [], native = (\<lambda>_. 1000), rbalances = empty_tokens,
     xbalances = empty_tokens, lpbalances = empty_tokens, brelayers = empty_relayers,
     rrelayers = \<lparr>RelayerThreshold = (\<lambda>_. 0)(RDOT := 2), Relayers = (\<lambda>y a. y = RDOT \<and> (a = 7 \<or> a = 8)),
                  RelayerCount = (\<lambda>_. 0)(RDOT := 2)\<rparr>,
     payers = empty_relayers, rates = empty_rates, bridge = empty_bridge, ledger = empty_ledger, votes = m\<rparr>"

definition sample_call ::
    "unit \<Rightarrow> origin \<Rightarrow> (AccountId \<Rightarrow> u128, unit) votes_state
     \<Rightarrow> (dispatch_error, unit, (AccountId \<Rightarrow> u128, unit) votes_state) run" where
  "sample_call c o' s = (Ok (), s)"

section \<open>Lemmas\<close>

lemma put_rvotes_simps [simp]:
  "RVotes (votes (put_rvotes y k v s)) = put2 y k (Some v) (RVotes (votes s))"
  "rrelayers (put_rvotes y k v s) = rrelayers s"
  by (simp_all add: put_rvotes_def)

lemma votes_frame [simp]:
  "votes (deposit_event e s) = votes s"
  "rrelayers (deposit_event e s) = rrelayers s"
  by (simp_all add: deposit_event_def)

lemma rderivate_voters [simp]:
  "votes_for (snd (rderivate v t n)) = votes_for v" "votes_against (snd (rderivate v t n)) = votes_against v"
  by (simp_all add: rderivate_def)

text \<open>A vote cast on a proposal, and the proposal after it.\<close>

definition cast_vote :: "RproposalVotes \<Rightarrow> AccountId \<Rightarrow> bool \<Rightarrow> RproposalVotes" where
  "cast_vote v who f = (if f then v\<lparr>votes_for := votes_for v @ [who]\<rparr> else v\<lparr>votes_against := votes_against v @ [who]\<rparr>)"

definition after_vote :: "RproposalVotes \<Rightarrow> BlockNumber \<Rightarrow> u32 \<Rightarrow> u32 \<Rightarrow> RproposalVotes" where
  "after_vote v now threshold n =
     (if ris_completed v then v else if ris_expired v now then v\<lparr>rstatus := RproposalStatus.Expired\<rparr>
      else snd (rderivate v threshold n))"

lemma cast_vote_simps [simp]:
  "votes_for (cast_vote v who f) = votes_for v @ (if f then [who] else [])"
  "votes_against (cast_vote v who f) = votes_against v @ (if f then [] else [who])"
  "rstatus (cast_vote v who f) = rstatus v" "rexpiry (cast_vote v who f) = rexpiry v"
  by (simp_all add: cast_vote_def)

lemma after_vote_simps [simp]:
  "votes_for (after_vote v now t n) = votes_for v" "votes_against (after_vote v now t n) = votes_against v"
  by (simp_all add: after_vote_def)

lemma rcommit_vote_eq:
  fixes s :: "('c, 'call, 'z) votes_state_scheme" and f :: bool and who :: AccountId
  assumes "v = rpending X y (i, call) s"
  defines "w \<equiv> after_vote (cast_vote v who f) (block_number s) (RelayerThreshold (rrelayers s) y) (RelayerCount (rrelayers s) y)"
    and "ev \<equiv> VotesEv (if f then votes_event.VoteFor who y i else votes_event.VoteAgainst who y i)"
  shows "rcommit_vote X who y i f call s =
    (if rhas_voted v who then (Ok (), s)
     else (if \<not> ris_completed v \<and> ris_expired v (block_number s) then Err (VotesErr votes_error.ProposalExpired) else Ok (),
           put_rvotes y (i, call) w (deposit_event ev s)))"
  unfolding rcommit_vote_def rpending_def [symmetric] assms(1) [symmetric] w_def ev_def after_vote_def cast_vote_def Let_def
  by (auto simp: case_prod_unfold ris_completed_def ris_expired_def)

lemma voters_okD: "voters_ok m \<Longrightarrow> RVotes m y k = Some v \<Longrightarrow> distinct (votes_for v @ votes_against v)"
  unfolding voters_ok_def by blast

lemma rpending_voters: "voters_ok (votes s) \<Longrightarrow> distinct (votes_for (rpending X y k s) @ votes_against (rpending X y k s))"
  by (cases "RVotes (votes s) y k") (use voters_okD [of "votes s" y k] in \<open>simp_all add: rpending_def RproposalVotes_default_def\<close>)

lemma voters_ok_put:
  "voters_ok m \<Longrightarrow> distinct (votes_for w @ votes_against w) \<Longrightarrow> voters_ok (m\<lparr>RVotes := put2 y k (Some w) (RVotes m)\<rparr>)"
  by (auto simp: voters_ok_def)

lemma voters_ok_cong: "RVotes m = RVotes n \<Longrightarrow> voters_ok m = voters_ok n"
  by (simp add: voters_ok_def)

lemma rcommit_vote_voters:
  assumes "voters_ok (votes s)"
  shows "voters_ok (votes (snd (rcommit_vote X who y i f call s)))"
proof (cases "rhas_voted (rpending X y (i, call) s) who")
  case True
  with assms show ?thesis by (simp add: rcommit_vote_eq [OF refl])
next
  case False
  let ?w = "after_vote (cast_vote (rpending X y (i, call) s) who f) (block_number s)
      (RelayerThreshold (rrelayers s) y) (RelayerCount (rrelayers s) y)"
  have "distinct (votes_for ?w @ votes_against ?w)"
    using rpending_voters [OF assms, of X y "(i, call)"] False by (auto simp: rhas_voted_def)
  from voters_ok_put [OF assms this, of y "(i, call)"] False show ?thesis
    by (subst voters_ok_cong [where n = "(votes s)\<lparr>RVotes := put2 y (i, call) (Some ?w) (RVotes (votes s))\<rparr>"])
      (simp_all add: rcommit_vote_eq [OF refl])
qed

lemma rresolve_votes:
  assumes "keeps_votes run"
  shows "RVotes (votes (snd (rtry_resolve_proposal X run y i call s))) = RVotes (votes s)"
proof -
  have "RVotes (votes (snd (and_then (run call o' s) (\<lambda>_ s1. (Ok (), s1))))) = RVotes (votes s)" for o'
  proof -
    from assms have "RVotes (votes (snd (run call o' s))) = RVotes (votes s)"
      unfolding keeps_votes_def by blast
    then show ?thesis by (cases "run call o' s"; cases "fst (run call o' s)") auto
  qed
  then show ?thesis by (simp add: rtry_resolve_proposal_def ok_or_def split: option.splits)
qed

lemma racknowledge_voters:
  assumes "keeps_votes run" "voters_ok (votes s)"
  shows "keeps (\<lambda>t. voters_ok (votes t)) (racknowledge_proposal X run o' y i f call s)"
proof -
  have "voters_ok (votes (snd (rtry_resolve_proposal X run y i call t)))" if "voters_ok (votes t)" for t
    using that voters_ok_cong [OF rresolve_votes [OF assms(1)]] by blast
  moreover have "voters_ok (votes (snd (rcommit_vote X who y i f call (ledger_update g s))))" for who g
    by (rule rcommit_vote_voters) (use assms(2) in simp)
  ultimately show ?thesis
    unfolding racknowledge_proposal_def Let_def
    by (intro ensure_signed_keeps ensure_keeps and_then_keeps assms(2)) (simp_all add: keeps_def)
qed

lemma voters_ok_reach:
  assumes "keeps_votes run" "votes_reach X run s"
  shows "voters_ok (votes s)"
  using assms(2)
proof (induction rule: votes_reach.induct)
  case (genesis s)
  then show ?case by (simp add: voters_ok_def)
next
  case (ack s o' y i f call)
  then show ?case using racknowledge_voters [OF assms(1)] by (simp add: keeps_def)
next
  case (other s t)
  then show ?case using voters_ok_cong by blast
qed

section \<open>Properties\<close>

text \<open>
  In every run no relayer is counted twice for a proposal, neither on one side nor on both,
  provided the dispatched calls leave the votes of this pallet alone.
\<close>

theorem relayer_counted_once:
  assumes "keeps_votes run" "votes_reach X run s" "RVotes (votes s) y k = Some v"
  shows "distinct (votes_for v @ votes_against v)"
  using voters_ok_reach [OF assms(1,2)] assms(3) by (rule voters_okD)

lemma sample_call_keeps: "keeps_votes sample_call"
  by (simp add: keeps_votes_def sample_call_def)

lemmas sample_votes_eval = sample_votes_def empty_votes_def rpending_def RproposalVotes_default_def
  rhas_voted_def ris_completed_def ris_expired_def after_vote_def cast_vote_def rderivate_def
  rrelayers_is_relayer_def is_relayer_def put_rvotes_def deposit_event_def

lemma sample_against:
  "\<exists>s' w. rcommit_vote plain_config 7 RDOT 1 False () (ledger_update g (sample_votes empty_votes)) = (Ok (), s')
     \<and> RVotes (votes s') RDOT (1, ()) = Some w \<and> rstatus w = Rejected \<and> votes_against w = [7]"
  by (simp add: rcommit_vote_eq [OF refl] sample_votes_eval)

theorem relayer_counted_once_witness:
  "\<exists>s v. keeps_votes sample_call \<and> votes_reach plain_config sample_call s
     \<and> RVotes (votes s) RDOT (1, ()) = Some v \<and> votes_against v = [7] \<and> distinct (votes_for v @ votes_against v)"
proof -
  let ?z = "sample_votes empty_votes"
  let ?s = "snd (racknowledge_proposal plain_config sample_call (Signed 7) RDOT 1 False () ?z)"
  have "votes_reach plain_config sample_call ?z"
    by (rule votes_reach.genesis) (simp add: sample_votes_eval)
  then have reach: "votes_reach plain_config sample_call ?s" by (rule votes_reach.ack)
  have rel: "rrelayers_is_relayer RDOT 7 ?z" by (simp add: sample_votes_eval)
  obtain v where v: "RVotes (votes ?s) RDOT (1, ()) = Some v" "votes_against v = [7]"
    using sample_against [of "\<lambda>l. l\<lparr>LastVoter := (LastVoter l)(RDOT \<mapsto> 7)\<rparr>"]
    by (auto simp: racknowledge_proposal_def rel rtry_resolve_proposal_def sample_call_def)
  from relayer_counted_once [OF sample_call_keeps reach v(1)] sample_call_keeps reach v show ?thesis by blast
qed

text \<open>
  A decision follows the votes: when a vote on an open proposal approves it, the votes for it reach
  the threshold; when it rejects it, the relayers who have not voted against it are too few to reach
  the threshold, as long as the sum of votes against and threshold fits 32 bits.
\<close>

theorem decision_follows_votes:
  assumes "rcommit_vote X who y i f call s = (Ok (), s')" "\<not> ris_completed (rpending X y (i, call) s)"
    and "RVotes (votes s') y (i, call) = Some w" "\<not> rhas_voted (rpending X y (i, call) s) who"
    and "length (votes_against w) + unat (RelayerThreshold (rrelayers s) y) < 2 ^ 32"
  shows "(rstatus w = Approved \<longrightarrow> unat (RelayerThreshold (rrelayers s) y) \<le> length (votes_for w))
    \<and> (rstatus w = Rejected \<longrightarrow>
         unat (RelayerCount (rrelayers s) y) - length (votes_against w) < unat (RelayerThreshold (rrelayers s) y))"
proof -
  let ?t = "RelayerThreshold (rrelayers s) y" and ?n = "RelayerCount (rrelayers s) y"
  from assms(1-4) obtain v1 where w: "w = snd (rderivate v1 ?t ?n)" "rstatus v1 = Initiated"
    by (auto simp: rcommit_vote_eq [OF refl] after_vote_def ris_completed_def ris_expired_def split: if_splits)
  have "unat (word_of_nat (length (votes_against w)) + ?t) = length (votes_against w) + unat ?t"
    using assms(5) by (simp add: unat_word_ariths unat_of_nat)
  with w show ?thesis
    by (auto simp: rderivate_def word_less_nat_alt word_le_nat_alt split: if_splits)
qed

theorem decision_follows_votes_witness:
  "\<exists>s' w. rcommit_vote plain_config 7 RDOT 1 False () (sample_votes empty_votes) = (Ok (), s')
     \<and> RVotes (votes s') RDOT (1, ()) = Some w \<and> rstatus w = Rejected
     \<and> unat (RelayerCount (rrelayers (sample_votes empty_votes)) RDOT) - length (votes_against w)
         < unat (RelayerThreshold (rrelayers (sample_votes empty_votes)) RDOT)"
proof -
  obtain s' w where s': "rcommit_vote plain_config 7 RDOT 1 False () (sample_votes empty_votes) = (Ok (), s')"
    "RVotes (votes s') RDOT (1, ()) = Some w" "rstatus w = Rejected" "votes_against w = [7]"
    using sample_against [of "\<lambda>l. l"] by (auto simp: sample_votes_def)
  have "\<not> ris_completed (rpending plain_config RDOT (1, ()) (sample_votes empty_votes))"
    "\<not> rhas_voted (rpending plain_config RDOT (1, ()) (sample_votes empty_votes)) 7"
    "length (votes_against w) + unat (RelayerThreshold (rrelayers (sample_votes empty_votes)) RDOT) < 2 ^ 32"
    using s' by (simp_all add: sample_votes_eval)
  from decision_follows_votes [OF s'(1) this(1) s'(2) this(2,3)] s' show ?thesis by blast
qed

lemma and_then_return [simp]:
  fixes r :: "('e, unit, 's) run"
  shows "and_then r (\<lambda>_ t. (Ok (), t)) = r"
  by (cases r; cases "fst r") auto

lemma racknowledge_relayer:
  assumes "rrelayers_is_relayer y who s"
  shows "racknowledge_proposal X run (Signed who) y i f call s =
    and_then (rcommit_vote X who y i f call (ledger_update (\<lambda>l. l\<lparr>LastVoter := (LastVoter l)(y \<mapsto> who)\<rparr>) s))
      (\<lambda>_ s2. rtry_resolve_proposal X run y i call s2)"
  using assms by (simp add: racknowledge_proposal_def)

text \<open>
  C39. A rejected proposal is dispatched like an approved one: when the vote of a relayer commits and
  leaves the proposal rejected, the acknowledgement runs the call from the pallet's account and
  returns its result.
\<close>

theorem rejected_is_dispatched:
  assumes "rrelayers_is_relayer y who s"
    and "rcommit_vote X who y i f call (ledger_update (\<lambda>l. l\<lparr>LastVoter := (LastVoter l)(y \<mapsto> who)\<rparr>) s) = (Ok (), s2)"
    and "RVotes (votes s2) y (i, call) = Some v" "rstatus v = Rejected"
  shows "racknowledge_proposal X run (Signed who) y i f call s = run call (Signed (voter_account_id X)) s2"
  using assms by (simp add: racknowledge_relayer rtry_resolve_proposal_def)

theorem rejected_is_dispatched_witness:
  "rrelayers_is_relayer RDOT 7 (sample_votes empty_votes) \<and>
   racknowledge_proposal plain_config (\<lambda>_ _ s. (Err (Other ''run''), s)) (Signed 7) RDOT 1 False () (sample_votes empty_votes)
     \<noteq> racknowledge_proposal plain_config sample_call (Signed 7) RDOT 1 False () (sample_votes empty_votes)"
proof -
  have rel: "rrelayers_is_relayer RDOT 7 (sample_votes empty_votes)" by (simp add: sample_votes_eval)
  obtain s2 w where s2: "rcommit_vote plain_config 7 RDOT 1 False ()
       (ledger_update (\<lambda>l. l\<lparr>LastVoter := (LastVoter l)(RDOT \<mapsto> 7)\<rparr>) (sample_votes empty_votes)) = (Ok (), s2)"
    "RVotes (votes s2) RDOT (1, ()) = Some w" "rstatus w = Rejected"
    using sample_against by blast
  from rejected_is_dispatched [OF rel s2] rel show ?thesis by (simp add: sample_call_def)
qed

text \<open>
  C40. An approved proposal is dispatched again by every later acknowledgement of any relayer, those who
  have voted before included: the pallet records no execution.
\<close>

theorem approved_is_redispatched:
  assumes "rrelayers_is_relayer y who s" "RVotes (votes s) y (i, call) = Some v" "rstatus v = Approved"
  shows "\<exists>s2. racknowledge_proposal X run (Signed who) y i f call s = run call (Signed (voter_account_id X)) s2
    \<and> ledger s2 = (ledger s)\<lparr>LastVoter := (LastVoter (ledger s))(y \<mapsto> who)\<rparr>
    \<and> rbalances s2 = rbalances s \<and> native s2 = native s"
proof -
  let ?s = "ledger_update (\<lambda>l. l\<lparr>LastVoter := (LastVoter l)(y \<mapsto> who)\<rparr>) s"
  have v: "v = rpending X y (i, call) ?s"
    using assms(2) by (simp add: rpending_def)
  obtain s2 w where s2: "rcommit_vote X who y i f call ?s = (Ok (), s2)"
      "RVotes (votes s2) y (i, call) = Some w" "rstatus w = Approved"
      "ledger s2 = ledger ?s" "rbalances s2 = rbalances s" "native s2 = native s"
    using assms(2,3) rcommit_vote_eq [OF v, of who f]
    by (cases "rhas_voted v who") (simp_all add: after_vote_def ris_completed_def put_rvotes_def)
  show ?thesis
    using s2 by (simp add: racknowledge_relayer [OF assms(1)] rtry_resolve_proposal_def) blast
qed

theorem approved_is_redispatched_witness:
  "\<exists>m v. rrelayers_is_relayer RDOT 7 (sample_votes m) \<and> RVotes m RDOT (1, ()) = Some v
     \<and> votes_for v = [7, 8] \<and> rstatus v = Approved
     \<and> fst (racknowledge_proposal plain_config (\<lambda>_ _ s. (Err (Other ''run''), s)) (Signed 7) RDOT 1 True () (sample_votes m))
         = Err (Other ''run'')"
proof -
  let ?v = "\<lparr>votes_for = [7, 8], votes_against = [], rstatus = Approved, rexpiry = 100\<rparr>"
  let ?m = "\<lparr>RVotes = put2 RDOT (1, ()) (Some ?v) (\<lambda>_ _. None)\<rparr>"
  have a: "rrelayers_is_relayer RDOT 7 (sample_votes ?m)" "RVotes (votes (sample_votes ?m)) RDOT (1, ()) = Some ?v"
    "rstatus ?v = Approved"
    by (simp_all add: sample_votes_eval)
  from approved_is_redispatched [OF a, of plain_config "\<lambda>_ _ s. (Err (Other ''run''), s)" True]
  have "fst (racknowledge_proposal plain_config (\<lambda>_ _ s. (Err (Other ''run''), s)) (Signed 7) RDOT 1 True () (sample_votes ?m))
      = Err (Other ''run'')" by auto
  with a show ?thesis by (intro exI [of _ ?m] exI [of _ ?v]) simp
qed

end
