(* ===== verification/Signatures.thy ===== *)
theory Signatures
  imports Runtime_Types
begin

text \<open>
  \<open>general/signature\<close> and its copy \<open>rtoken/series/src/signature.rs\<close>: which signature of which scheme
  a pallet accepts for a chain, the message an Ethereum wallet signs, and the hexadecimal form of a
  message. The schemes themselves (the key types and signatures of \<open>sp_core\<close>, the hash and the
  recovery of \<open>sp_io\<close>) are outside the repository and are fields of a record.
\<close>

section \<open>External cryptography\<close>

text \<open>
  \<open>Public::try_from\<close> of a byte slice, \<open>Signature::from_slice\<close> (\<open>None\<close> where it panics), and
  \<open>AppCrypto::verify\<close> (message, public key, signature), for each scheme.
\<close>

record crypto =
  sr_public :: "bytes \<Rightarrow> bytes option"
  ed_public :: "bytes \<Rightarrow> bytes option"
  ecd_public :: "bytes \<Rightarrow> bytes option"
  sr_signature :: "bytes \<Rightarrow> bytes option"
  ed_signature :: "bytes \<Rightarrow> bytes option"
  ecd_signature :: "bytes \<Rightarrow> bytes option"
  sr_verify :: "bytes \<Rightarrow> bytes \<Rightarrow> bytes \<Rightarrow> bool"
  ed_verify :: "bytes \<Rightarrow> bytes \<Rightarrow> bytes \<Rightarrow> bool"
  ecd_verify :: "bytes \<Rightarrow> bytes \<Rightarrow> bytes \<Rightarrow> bool"
  keccak_256 :: "bytes \<Rightarrow> bytes"
  secp256k1_ecdsa_recover :: "bytes \<Rightarrow> bytes \<Rightarrow> bytes option"

text \<open>
  The documented sizes: keys of the first two schemes have 32 bytes and of the third 33, their
  signatures 64 and 65, and a hash has 32.
\<close>

definition crypto_ok :: "crypto \<Rightarrow> bool" where
  "crypto_ok C \<longleftrightarrow>
     (\<forall>p. sr_public C p = (if length p = 32 then Some p else None))
   \<and> (\<forall>p. ed_public C p = (if length p = 32 then Some p else None))
   \<and> (\<forall>p. ecd_public C p = (if length p = 33 then Some p else None))
   \<and> (\<forall>g. sr_signature C g = (if length g = 64 then Some g else None))
   \<and> (\<forall>g. ed_signature C g = (if length g = 64 then Some g else None))
   \<and> (\<forall>g. ecd_signature C g = (if length g = 65 then Some g else None))
   \<and> (\<forall>m. length (keccak_256 C m) = 32)"

text \<open>
  A concrete instance: a scheme accepts the signature that repeats the key, a hash keeps the first
  32 bytes of its input, and the recovered key is the signature without its last byte.
\<close>

definition plain_crypto :: crypto where
  "plain_crypto = \<lparr>
     sr_public = (\<lambda>p. if length p = 32 then Some p else None),
     ed_public = (\<lambda>p. if length p = 32 then Some p else None),
     ecd_public = (\<lambda>p. if length p = 33 then Some p else None),
     sr_signature = (\<lambda>g. if length g = 64 then Some g else None),
     ed_signature = (\<lambda>g. if length g = 64 then Some g else None),
     ecd_signature = (\<lambda>g. if length g = 65 then Some g else None),
     sr_verify = (\<lambda>m p g. g = p @ p),
     ed_verify = (\<lambda>m p g. g = p @ p),
     ecd_verify = (\<lambda>m p g. g = p @ tl p),
     keccak_256 = (\<lambda>m. take 32 (m @ replicate 32 0)),
     secp256k1_ecdsa_recover = (\<lambda>g m. Some (butlast g))\<rparr>"

section \<open>Verification\<close>

datatype (plugins only: code) SigVerifyResult = InvalidPubkey | Fail | Pass

text \<open>The bytes of a byte-string literal.\<close>

definition ascii :: "string \<Rightarrow> bytes" where
  "ascii = map of_char"

text \<open>A body that panics has no result.\<close>

definition substrate_verify :: "crypto \<Rightarrow> bytes \<Rightarrow> bytes \<Rightarrow> bytes \<Rightarrow> SigVerifyResult option" where
  "substrate_verify C pubkey signature message =
     (if sr_public C pubkey = None \<and> ed_public C pubkey = None \<and> ecd_public C pubkey = None
      then Some InvalidPubkey
      else
        let step = (\<lambda>public sig verify rest.
              case public pubkey of
                None \<Rightarrow> rest
              | Some p \<Rightarrow> (case sig signature of
                    None \<Rightarrow> None
                  | Some g \<Rightarrow> if verify message p g then Some SigVerifyResult.Pass else rest))
        in step (sr_public C) (sr_signature C) (sr_verify C)
          (step (ed_public C) (ed_signature C) (ed_verify C)
          (step (ecd_public C) (ecd_signature C) (ecd_verify C)
             (Some Fail))))"

definition check_tendermint_pubkey :: "bytes \<Rightarrow> bool" where
  "check_tendermint_pubkey pubkey \<longleftrightarrow> length pubkey = 33"

definition tendermint_verify :: "bytes \<Rightarrow> bytes \<Rightarrow> bytes \<Rightarrow> SigVerifyResult option" where
  "tendermint_verify pubkey _ _ =
     (if \<not> check_tendermint_pubkey pubkey then Some InvalidPubkey
      else if True then Some SigVerifyResult.Pass
      else Some Fail)"

definition ed25519_verify :: "crypto \<Rightarrow> bytes \<Rightarrow> bytes \<Rightarrow> bytes \<Rightarrow> SigVerifyResult option" where
  "ed25519_verify C pubkey signature message =
     (case ed_public C pubkey of
        None \<Rightarrow> Some InvalidPubkey
      | Some public \<Rightarrow> (case ed_signature C signature of
            None \<Rightarrow> None
          | Some sig \<Rightarrow> if ed_verify C message public sig then Some SigVerifyResult.Pass else Some Fail))"

text \<open>The decimal digits of a length, least significant first, as the loop pushes them.\<close>

fun rev_digits :: "nat \<Rightarrow> bytes" where
  "rev_digits l = (if l > 0 then (48 + word_of_nat (l mod 10)) # rev_digits (l div 10) else [])"

declare rev_digits.simps [simp del]

definition ethereum_signable_message :: "bytes \<Rightarrow> bytes" where
  "ethereum_signable_message what =
     0x19 # ascii ''Ethereum Signed Message:'' @ [10] @ rev (rev_digits (length what)) @ what"

definition eth_recover :: "crypto \<Rightarrow> bytes \<Rightarrow> bytes \<Rightarrow> bytes option" where
  "eth_recover C sig msg =
     (let use_msg = keccak_256 C (ethereum_signable_message msg)
      in case secp256k1_ecdsa_recover C sig use_msg of
           None \<Rightarrow> None
         | Some pk \<Rightarrow> Some (drop 12 (keccak_256 C pk)))"

text \<open>\<open>copy_from_slice\<close> panics unless the lengths agree, and \<open>unwrap\<close> does when recovery fails.\<close>

definition ethereum_verify :: "crypto \<Rightarrow> bytes \<Rightarrow> bytes \<Rightarrow> bytes \<Rightarrow> SigVerifyResult option" where
  "ethereum_verify C pubkey signature msg =
     (if length pubkey \<noteq> 20 then Some InvalidPubkey
      else if length signature \<noteq> 65 then None
      else case eth_recover C signature msg of
             None \<Rightarrow> None
           | Some signer \<Rightarrow> if signer = pubkey then Some SigVerifyResult.Pass else Some Fail)"

definition push_nibble :: "u8 \<Rightarrow> u8" where
  "push_nibble n = (if n < 10 then 48 + n else 97 - 10 + n)"

fun to_ascii_hex :: "bytes \<Rightarrow> bytes" where
  "to_ascii_hex [] = []"
| "to_ascii_hex (b # data) = push_nibble (b div 16) # push_nibble (b mod 16) # to_ascii_hex data"

definition verify_signature ::
    "crypto \<Rightarrow> RSymbol \<Rightarrow> bytes \<Rightarrow> bytes \<Rightarrow> bytes \<Rightarrow> SigVerifyResult option" where
  "verify_signature C symbol pubkey signature message =
     (case chain_type symbol of
        Substrate \<Rightarrow> substrate_verify C pubkey signature (ascii ''<Bytes>'' @ message @ ascii ''</Bytes>'')
      | Tendermint \<Rightarrow> tendermint_verify pubkey signature message
      | Solana \<Rightarrow> ed25519_verify C pubkey signature (to_ascii_hex message)
      | Ethereum \<Rightarrow> ethereum_verify C pubkey signature message)"

definition verify_recipient :: "crypto \<Rightarrow> RSymbol \<Rightarrow> bytes \<Rightarrow> bool" where
  "verify_recipient C symbol recipient =
     (case chain_type symbol of
        Substrate \<Rightarrow> sr_public C recipient \<noteq> None
      | Tendermint \<Rightarrow> length recipient = 20
      | Ethereum \<Rightarrow> length recipient = 20
      | Solana \<Rightarrow> ed_public C recipient \<noteq> None)"

section \<open>Lemmas\<close>

lemma plain_crypto_ok: "crypto_ok plain_crypto"
proof -
  have "min (length m) 32 + (32 - length m) = 32" for m :: bytes
    by linarith
  then show ?thesis by (simp add: crypto_ok_def plain_crypto_def)
qed

lemma plain_verify [simp]:
  "sr_verify plain_crypto m p g = (g = p @ p)" "ed_verify plain_crypto m p g = (g = p @ p)"
  "eth_recover plain_crypto g m = Some (drop 12 (take 32 (butlast g @ replicate 32 0)))"
  by (simp_all add: plain_crypto_def eth_recover_def)

lemma push_nibble_inj:
  assumes "m < 16" "n < 16" "push_nibble m = push_nibble n"
  shows "m = n"
proof -
  have *: "unat (push_nibble k) = (if unat k < 10 then 48 + unat k else 87 + unat k)" if "k < 16" for k
    using that by (auto simp: push_nibble_def word_less_nat_alt unat_word_ariths)
  from assms(3) have "unat (push_nibble m) = unat (push_nibble n)" by simp
  with assms(1,2) have "unat m = unat n"
    by (auto simp: * word_less_nat_alt split: if_splits)
  then show ?thesis by (simp only: word_unat_eq_iff)
qed

lemma u8_nibbles:
  fixes a b :: u8
  assumes "a div 16 = b div 16" "a mod 16 = b mod 16"
  shows "a = b"
  using assms by (metis div_mult_mod_eq)

lemma nibble_less:
  fixes a :: u8
  shows "a div 16 < 16" "a mod 16 < 16"
  using unat_less_pow [of a] by (simp_all add: word_less_nat_alt unat_div unat_mod less_mult_imp_div_less)

lemma hex_length_aux: "length (to_ascii_hex a) = 2 * length a"
  by (induction a rule: to_ascii_hex.induct) simp_all

lemma hex_inj_aux: "to_ascii_hex a = to_ascii_hex b \<Longrightarrow> a = b"
proof (induction a arbitrary: b rule: to_ascii_hex.induct)
  case 1
  then show ?case by (cases b) simp_all
next
  case (2 x xs)
  then show ?case
    by (cases b) (auto dest!: push_nibble_inj [OF nibble_less(1) nibble_less(1)]
        push_nibble_inj [OF nibble_less(2) nibble_less(2)] intro: u8_nibbles)
qed

lemma rev_digits_length_mono: "m \<le> n \<Longrightarrow> length (rev_digits m) \<le> length (rev_digits n)"
proof (induction m arbitrary: n rule: rev_digits.induct)
  case (1 m)
  show ?case
  proof (cases "m = 0")
    case True
    then show ?thesis by (simp add: rev_digits.simps [of 0])
  next
    case False
    with 1 have "length (rev_digits (m div 10)) \<le> length (rev_digits (n div 10))"
      by (simp add: div_le_mono)
    with False 1(2) show ?thesis
      by (subst rev_digits.simps, subst (2) rev_digits.simps) simp
  qed
qed

lemma signable_length_strict:
  assumes "m < n"
  shows "length (rev_digits m) + m < length (rev_digits n) + n"
  using rev_digits_length_mono [of m n] assms by linarith

lemma crypto_okD:
  assumes "crypto_ok C"
  shows "sr_public C p = (if length p = 32 then Some p else None)"
    "ed_public C p = (if length p = 32 then Some p else None)"
    "ecd_public C p = (if length p = 33 then Some p else None)"
    "sr_signature C g = (if length g = 64 then Some g else None)"
    "ed_signature C g = (if length g = 64 then Some g else None)"
    "ecd_signature C g = (if length g = 65 then Some g else None)"
  using assms by (simp_all add: crypto_ok_def)

section \<open>Properties\<close>

text \<open>
  The message an Ethereum wallet signs determines the message that was wrapped, although the
  decimal length in front of it has no delimiter and the message may itself start with digits.
\<close>

theorem signable_message_injective:
  "ethereum_signable_message a = ethereum_signable_message b \<longleftrightarrow> a = b"
proof
  assume eq: "ethereum_signable_message a = ethereum_signable_message b"
  then have "length (rev_digits (length a)) + length a = length (rev_digits (length b)) + length b"
    by (simp add: ethereum_signable_message_def) (metis length_append length_rev)
  then have "length a = length b"
    using signable_length_strict [of "length a" "length b"] signable_length_strict [of "length b" "length a"]
    by (metis less_irrefl nat_neq_iff)
  with eq show "a = b" by (simp add: ethereum_signable_message_def)
qed simp

text \<open>
  The hexadecimal form of a message has twice its length and determines it.
\<close>

theorem hex_form_faithful:
  "length (to_ascii_hex a) = 2 * length a \<and> (to_ascii_hex a = to_ascii_hex b \<longleftrightarrow> a = b)"
  by (auto simp: hex_length_aux dest: hex_inj_aux)

text \<open>
  When a signature is accepted. On a Substrate chain a 32-byte key needs one of the two schemes
  with such keys to verify the message in its \<open>Bytes\<close> tags, and a 33-byte key the third; on Solana the
  key must verify the hexadecimal message; on an Ethereum chain the address recovered from the
  signature must be the given one. On a Tendermint chain every signature of every message passes: only
  the length of the key is looked at.
\<close>

theorem accepted_signature:
  assumes "crypto_ok C"
  shows "verify_signature C y key sig msg = Some SigVerifyResult.Pass \<longleftrightarrow>
    (case chain_type y of
       Substrate \<Rightarrow>
         let m = ascii ''<Bytes>'' @ msg @ ascii ''</Bytes>'' in
         length key = 32 \<and> length sig = 64 \<and> (sr_verify C m key sig \<or> ed_verify C m key sig)
         \<or> length key = 33 \<and> length sig = 65 \<and> ecd_verify C m key sig
     | Tendermint \<Rightarrow> length key = 33
     | Solana \<Rightarrow> length key = 32 \<and> length sig = 64 \<and> ed_verify C (to_ascii_hex msg) key sig
     | Ethereum \<Rightarrow> length key = 20 \<and> length sig = 65 \<and> eth_recover C sig msg = Some key)"
  by (cases "chain_type y")
    (auto simp: verify_signature_def substrate_verify_def tendermint_verify_def ed25519_verify_def
      ethereum_verify_def check_tendermint_pubkey_def crypto_okD [OF assms] Let_def
      split: if_splits option.splits)

theorem accepted_signature_witness:
  "crypto_ok plain_crypto
   \<and> verify_signature plain_crypto RATOM (replicate 33 1) [] [5] = Some SigVerifyResult.Pass
   \<and> verify_signature plain_crypto RDOT (replicate 32 1) (replicate 64 1) [5] = Some SigVerifyResult.Pass
   \<and> verify_signature plain_crypto RDOT (replicate 32 1) (replicate 64 2) [5] \<noteq> Some SigVerifyResult.Pass"
proof -
  have a: "verify_signature plain_crypto RATOM (replicate 33 1) [] [5] = Some SigVerifyResult.Pass"
    by (simp add: accepted_signature [OF plain_crypto_ok])
  have b: "replicate 64 (1::u8) = replicate 32 1 @ replicate 32 1"
    by (simp flip: replicate_add)
  have c: "replicate 64 (2::u8) \<noteq> replicate 32 1 @ replicate 32 1"
    by (simp flip: replicate_add)
  show ?thesis
    using a b c by (simp add: accepted_signature [OF plain_crypto_ok] plain_crypto_ok)
qed

text \<open>
  Verification aborts the whole call, instead of answering, exactly when the key has the right
  size for its scheme and the signature does not, or, on an Ethereum chain, when no key can be
  recovered from the signature.
\<close>

theorem verification_panics:
  assumes "crypto_ok C"
  shows "verify_signature C y key sig msg = None \<longleftrightarrow>
    (case chain_type y of
       Substrate \<Rightarrow> length key = 32 \<and> length sig \<noteq> 64 \<or> length key = 33 \<and> length sig \<noteq> 65
     | Tendermint \<Rightarrow> False
     | Solana \<Rightarrow> length key = 32 \<and> length sig \<noteq> 64
     | Ethereum \<Rightarrow> length key = 20 \<and> (length sig \<noteq> 65 \<or> eth_recover C sig msg = None))"
  by (cases "chain_type y")
    (auto simp: verify_signature_def substrate_verify_def tendermint_verify_def ed25519_verify_def
      ethereum_verify_def check_tendermint_pubkey_def crypto_okD [OF assms] Let_def
      split: if_splits option.splits)

theorem verification_panics_witness:
  "verify_signature plain_crypto RMATIC (replicate 20 1) [] [5] = None
   \<and> verify_signature plain_crypto RMATIC (replicate 20 1) (replicate 65 0) [5] \<noteq> None"
  by (simp add: verification_panics [OF plain_crypto_ok])

end
