(* ===== verification/RClaim.thy ===== *)
theory RClaim
  imports Votes Signatures
begin

text \<open>
  \<open>claims/rclaim\<close>: reward acts. Minting an rtoken (or, reported by a rewarder, rETH) during an act
  promises the minter a reward out of the budget of the act, which is paid in native tokens from a
  fund and is released over a number of blocks.
\<close>

section \<open>Data\<close>

text \<open>Field names carry a prefix where the two structures share a name or it is a keyword.\<close>

record ClaimInfo =
  mint_amount :: u128
  native_token_amount :: u128
  claim_total_reward :: Balance
  total_claimed :: Balance
  latest_claimed_block :: BlockNumber
  mint_block :: BlockNumber

record MintRewardAct =
  act_begin :: BlockNumber
  act_end :: BlockNumber
  act_cycle :: u32
  reward_rate :: u128
  act_total_reward :: Balance
  left_amount :: Balance
  user_limit :: Balance
  locked_blocks :: u32
  total_rtoken_amount :: u128
  total_native_token_amount :: u128

definition RCLAIM_RATEBASE :: u128 where
  "RCLAIM_RATEBASE = 1000000000000"

record rclaim_store =
  ClaimInfos :: "AccountId \<times> RSymbol \<times> u32 \<times> u64 \<Rightarrow> ClaimInfo option"
  REthClaimInfos :: "bytes \<times> u32 \<times> u64 \<Rightarrow> ClaimInfo option"
  REthRewarder :: "AccountId option"
  Acts :: "RSymbol \<times> u32 \<Rightarrow> MintRewardAct option"
  REthActs :: "u32 \<Rightarrow> MintRewardAct option"
  FundAddress :: "AccountId option"
  ActLatestCycle :: "RSymbol \<Rightarrow> u32"
  REthActLatestCycle :: u32
  ActCurrentCycle :: "RSymbol \<Rightarrow> u32"
  REthActCurrentCycle :: u32
  UserActs :: "AccountId \<times> RSymbol \<Rightarrow> u32 list option"
  UserREthActs :: "bytes \<Rightarrow> u32 list option"
  UserMintsCount :: "AccountId \<times> RSymbol \<times> u32 \<Rightarrow> u64"
  UserREthMintsCount :: "bytes \<times> u32 \<Rightarrow> u64"

definition empty_rclaim :: rclaim_store where
  "empty_rclaim = \<lparr>ClaimInfos = (\<lambda>_. None), REthClaimInfos = (\<lambda>_. None), REthRewarder = None,
     Acts = (\<lambda>_. None), REthActs = (\<lambda>_. None), FundAddress = None, ActLatestCycle = (\<lambda>_. 0),
     REthActLatestCycle = 0, ActCurrentCycle = (\<lambda>_. 0), REthActCurrentCycle = 0, UserActs = (\<lambda>_. None),
     UserREthActs = (\<lambda>_. None), UserMintsCount = (\<lambda>_. 0), UserREthMintsCount = (\<lambda>_. 0)\<rparr>"

record ('c, 'call) rclaim_state = "('c, 'call) votes_state" +
  rclaim :: rclaim_store

type_synonym ('c, 'call, 'z) rclaim_run =
  "(dispatch_error, unit, ('c, 'call, 'z) rclaim_state_scheme) run"

section \<open>Administration\<close>

definition set_reth_rewarder ::
    "origin \<Rightarrow> AccountId \<Rightarrow> ('c, 'call, 'z) rclaim_state_scheme \<Rightarrow> ('c, 'call, 'z) rclaim_run" where
  "set_reth_rewarder o' account s =
     ensure_root o' s (Ok (), rclaim_update (\<lambda>m. m\<lparr>REthRewarder := Some account\<rparr>) s)"

definition set_fund_address ::
    "origin \<Rightarrow> AccountId \<Rightarrow> ('c, 'call, 'z) rclaim_state_scheme \<Rightarrow> ('c, 'call, 'z) rclaim_run" where
  "set_fund_address o' address s =
     ensure_root o' s (Ok (), rclaim_update (\<lambda>m. m\<lparr>FundAddress := Some address\<rparr>) s)"

text \<open>The checks on its parameters with which the four operations on acts begin.\<close>

definition ensure_act ::
    "BlockNumber \<Rightarrow> BlockNumber \<Rightarrow> Balance \<Rightarrow> Balance \<Rightarrow> u32 \<Rightarrow> u128 \<Rightarrow> 's
     \<Rightarrow> (dispatch_error, unit, 's) run \<Rightarrow> (dispatch_error, unit, 's) run" where
  "ensure_act begin' end' total_reward limit locked rate s k =
     ensure (begin' > 0) (Other ''Begin block number must be greater than 0'') s
    (ensure (end' > begin') (Other ''End block number must be greater than begin block nubmer'') s
    (ensure (total_reward > 0) (Other ''total amount must be greater than 0'') s
    (ensure (total_reward > limit) (Other ''total amount must be greater than User limit'') s
    (ensure (locked > 0) (Other ''locked blocks must be greater than 0'') s
    (ensure (rate > 0) (Other ''reward rate must be greater than 0'') s k)))))"

definition new_act ::
    "BlockNumber \<Rightarrow> BlockNumber \<Rightarrow> u32 \<Rightarrow> Balance \<Rightarrow> Balance \<Rightarrow> u32 \<Rightarrow> u128 \<Rightarrow> MintRewardAct" where
  "new_act begin' end' new_cycle total_reward limit locked rate =
     \<lparr>act_begin = begin', act_end = end', act_cycle = new_cycle, reward_rate = rate,
      act_total_reward = total_reward, left_amount = total_reward, user_limit = limit,
      locked_blocks = locked, total_rtoken_amount = 0, total_native_token_amount = 0\<rparr>"

definition changed_act ::
    "BlockNumber \<Rightarrow> BlockNumber \<Rightarrow> u32 \<Rightarrow> Balance \<Rightarrow> Balance \<Rightarrow> u32 \<Rightarrow> u128 \<Rightarrow> MintRewardAct \<Rightarrow> MintRewardAct" where
  "changed_act begin' end' cycle total_reward limit locked rate act =
     (let left = if total_reward > act_total_reward act
            then saturating_add (left_amount act) (saturating_sub total_reward (act_total_reward act))
            else saturating_sub (left_amount act) (saturating_sub (act_total_reward act) total_reward)
      in act\<lparr>left_amount := left, act_begin := begin', act_end := end', act_cycle := cycle,
             reward_rate := rate, act_total_reward := total_reward, user_limit := limit, locked_blocks := locked\<rparr>)"

definition add_rtoken_reward_act ::
    "origin \<Rightarrow> BlockNumber \<Rightarrow> BlockNumber \<Rightarrow> RSymbol \<Rightarrow> Balance \<Rightarrow> Balance \<Rightarrow> u32 \<Rightarrow> u128
     \<Rightarrow> ('c, 'call, 'z) rclaim_state_scheme \<Rightarrow> ('c, 'call, 'z) rclaim_run" where
  "add_rtoken_reward_act o' begin' end' symbol total_reward limit locked rate s =
     ensure_root o' s
      (ensure_act begin' end' total_reward limit locked rate s
      (ensure (end' > block_number s) (Other ''End block number must be greater than current block nubmer'') s
      (let cycle = ActLatestCycle (rclaim s) symbol in
       and_then
         (if cycle > 0
          then ok_or (Acts (rclaim s) (symbol, cycle)) (RClaimErr HasNoAct) s (\<lambda>last_act.
                 ensure (begin' > act_end last_act)
                   (Other ''Begin block number must be greater than end block nubmer of the last act'') s (Ok (), s))
          else (Ok (), s))
         (\<lambda>_ s.
          let new_cycle = cycle + 1
          in (Ok (), rclaim_update (\<lambda>m. m\<lparr>
                ActLatestCycle := (ActLatestCycle m)(symbol := new_cycle),
                Acts := (Acts m)((symbol, new_cycle) \<mapsto> new_act begin' end' new_cycle total_reward limit locked rate)\<rparr>) s)))))"

definition update_rtoken_reward_act ::
    "origin \<Rightarrow> u32 \<Rightarrow> BlockNumber \<Rightarrow> BlockNumber \<Rightarrow> RSymbol \<Rightarrow> Balance \<Rightarrow> Balance \<Rightarrow> u32 \<Rightarrow> u128
     \<Rightarrow> ('c, 'call, 'z) rclaim_state_scheme \<Rightarrow> ('c, 'call, 'z) rclaim_run" where
  "update_rtoken_reward_act o' cycle begin' end' symbol total_reward limit locked rate s =
     ensure_root o' s
      (ensure_act begin' end' total_reward limit locked rate s
      (ok_or (Acts (rclaim s) (symbol, cycle)) (RClaimErr HasNoAct) s (\<lambda>act.
       ensure (end' > block_number s) (Other ''End block number must be greater than current block nubmer'') s
        (Ok (), rclaim_update (\<lambda>m. m\<lparr>
           Acts := (Acts m)((symbol, cycle) \<mapsto> changed_act begin' end' cycle total_reward limit locked rate act)\<rparr>) s))))"

definition add_reth_reward_act ::
    "origin \<Rightarrow> BlockNumber \<Rightarrow> BlockNumber \<Rightarrow> Balance \<Rightarrow> Balance \<Rightarrow> u32 \<Rightarrow> u128
     \<Rightarrow> ('c, 'call, 'z) rclaim_state_scheme \<Rightarrow> ('c, 'call, 'z) rclaim_run" where
  "add_reth_reward_act o' begin' end' total_reward limit locked rate s =
     ensure_root o' s
      (ensure_act begin' end' total_reward limit locked rate s
      (ensure (end' > block_number s) (Other ''End block number must be greater than current block nubmer'') s
      (let cycle = REthActLatestCycle (rclaim s) in
       and_then
         (if cycle > 0
          then ok_or (REthActs (rclaim s) cycle) (RClaimErr HasNoAct) s (\<lambda>last_act.
                 ensure (begin' > act_end last_act)
                   (Other ''Begin block number must be greater than end block nubmer of the last act'') s (Ok (), s))
          else (Ok (), s))
         (\<lambda>_ s.
          let new_cycle = cycle + 1
          in (Ok (), rclaim_update (\<lambda>m. m\<lparr>
                REthActLatestCycle := new_cycle,
                REthActs := (REthActs m)(new_cycle \<mapsto> new_act begin' end' new_cycle total_reward limit locked rate)\<rparr>) s)))))"

definition update_reth_reward_act ::
    "origin \<Rightarrow> u32 \<Rightarrow> BlockNumber \<Rightarrow> BlockNumber \<Rightarrow> Balance \<Rightarrow> Balance \<Rightarrow> u32 \<Rightarrow> u128
     \<Rightarrow> ('c, 'call, 'z) rclaim_state_scheme \<Rightarrow> ('c, 'call, 'z) rclaim_run" where
  "update_reth_reward_act o' cycle begin' end' total_reward limit locked rate s =
     ensure_root o' s
      (ensure_act begin' end' total_reward limit locked rate s
      (ok_or (REthActs (rclaim s) cycle) (RClaimErr HasNoAct) s (\<lambda>act.
       ensure (end' > block_number s) (Other ''End block number must be greater than current block nubmer'') s
        (Ok (), rclaim_update (\<lambda>m. m\<lparr>
           REthActs := (REthActs m)(cycle \<mapsto> changed_act begin' end' cycle total_reward limit locked rate act)\<rparr>) s))))"

section \<open>Promising rewards\<close>

text \<open>
  The search for the act that covers the current block, over the cycles after the current one:
  the loop stops at the first act still to begin.
\<close>

fun find_act :: "(u32 \<Rightarrow> MintRewardAct option) \<Rightarrow> BlockNumber \<Rightarrow> u32 list \<Rightarrow> u32 option" where
  "find_act acts now [] = None"
| "find_act acts now (i # cycles) =
     (case acts i of
        None \<Rightarrow> find_act acts now cycles
      | Some act \<Rightarrow>
          if now < act_begin act then None
          else if act_begin act \<le> now \<and> act_end act \<ge> now then Some i
          else find_act acts now cycles)"

definition cycle_range :: "u32 \<Rightarrow> u32 \<Rightarrow> u32 list" where
  "cycle_range a b = map word_of_nat [unat a ..< unat b]"

definition update_act_current_cycle ::
    "BlockNumber \<Rightarrow> RSymbol \<Rightarrow> ('c, 'call, 'z) rclaim_state_scheme \<Rightarrow> ('c, 'call, 'z) rclaim_state_scheme" where
  "update_act_current_cycle now symbol s =
     (let cycle = ActLatestCycle (rclaim s) symbol;
          last_current_cycle = ActCurrentCycle (rclaim s) symbol
      in if cycle > 0 then
           if cycle = last_current_cycle then s
           else case find_act (\<lambda>i. Acts (rclaim s) (symbol, i)) now (cycle_range (last_current_cycle + 1) (cycle + 1)) of
                  None \<Rightarrow> s
                | Some i \<Rightarrow> if i \<noteq> last_current_cycle
                    then rclaim_update (\<lambda>m. m\<lparr>ActCurrentCycle := (ActCurrentCycle m)(symbol := i)\<rparr>) s
                    else s
         else s)"

definition update_reth_act_current_cycle ::
    "BlockNumber \<Rightarrow> ('c, 'call, 'z) rclaim_state_scheme \<Rightarrow> ('c, 'call, 'z) rclaim_state_scheme" where
  "update_reth_act_current_cycle now s =
     (let cycle = REthActLatestCycle (rclaim s);
          last_current_cycle = REthActCurrentCycle (rclaim s)
      in if cycle > 0 then
           if cycle = last_current_cycle then s
           else case find_act (REthActs (rclaim s)) now (cycle_range (last_current_cycle + 1) (cycle + 1)) of
                  None \<Rightarrow> s
                | Some i \<Rightarrow> if i \<noteq> last_current_cycle
                    then rclaim_update (\<lambda>m. m\<lparr>REthActCurrentCycle := i\<rparr>) s
                    else s
         else s)"

text \<open>The reward of one mint, the act and the claim after it.\<close>

definition reward_of :: "'c config \<Rightarrow> MintRewardAct \<Rightarrow> u128 \<Rightarrow> u128" where
  "reward_of X act native_token_value =
     (let r0 = unwrap_or (multiply_by_rational X native_token_value (reward_rate act) RCLAIM_RATEBASE) 0;
          r1 = if r0 > left_amount act then left_amount act else r0
      in if user_limit act > 0 \<and> r1 > user_limit act then user_limit act else r1)"

definition charged_act :: "MintRewardAct \<Rightarrow> u128 \<Rightarrow> u128 \<Rightarrow> u128 \<Rightarrow> MintRewardAct" where
  "charged_act act reward mint_value native_token_value =
     act\<lparr>left_amount := saturating_sub (left_amount act) reward,
         total_rtoken_amount := saturating_add (total_rtoken_amount act) mint_value,
         total_native_token_amount := saturating_add (total_native_token_amount act) native_token_value\<rparr>"

definition new_claim :: "u128 \<Rightarrow> u128 \<Rightarrow> u128 \<Rightarrow> BlockNumber \<Rightarrow> ClaimInfo" where
  "new_claim mint_value native_token_value reward now =
     \<lparr>mint_amount = mint_value, native_token_amount = native_token_value, claim_total_reward = reward,
      total_claimed = 0, latest_claimed_block = now, mint_block = now\<rparr>"

definition update_claim_info ::
    "'c config \<Rightarrow> AccountId \<Rightarrow> RSymbol \<Rightarrow> u128 \<Rightarrow> u128 \<Rightarrow> ('c, 'call, 'z) rclaim_state_scheme
     \<Rightarrow> ('c, 'call, 'z) rclaim_state_scheme" where
  "update_claim_info X who symbol mint_value native_token_value s =
     (let now = block_number s;
          s0 = if ActCurrentCycle (rclaim s) symbol = 0 then update_act_current_cycle now symbol s else s;
          cycle0 = ActCurrentCycle (rclaim s0) symbol
      in if cycle0 = 0 then s0
         else case Acts (rclaim s0) (symbol, cycle0) of
           None \<Rightarrow> s0
         | Some act0 \<Rightarrow>
           (let s1 = if act_end act0 < now then update_act_current_cycle now symbol s0 else s0;
                cycle = ActCurrentCycle (rclaim s1) symbol
            in case Acts (rclaim s1) (symbol, cycle) of
              None \<Rightarrow> s1
            | Some act \<Rightarrow>
              if act_begin act > now \<or> act_end act < now then s1
              else if left_amount act = 0 then s1
              else
                let reward = reward_of X act native_token_value;
                    mints_count = UserMintsCount (rclaim s1) (who, symbol, cycle);
                    acts = unwrap_or (UserActs (rclaim s1) (who, symbol)) []
                in rclaim_update (\<lambda>m. m\<lparr>
                     ClaimInfos := (ClaimInfos m)((who, symbol, cycle, mints_count) \<mapsto>
                       new_claim mint_value native_token_value reward now),
                     UserActs := (if cycle \<in> set acts then UserActs m
                       else (UserActs m)((who, symbol) \<mapsto> acts @ [cycle])),
                     UserMintsCount := (UserMintsCount m)((who, symbol, cycle) := mints_count + 1),
                     Acts := (Acts m)((symbol, cycle) \<mapsto> charged_act act reward mint_value native_token_value)\<rparr>) s1))"

definition is_rewarder :: "AccountId \<Rightarrow> ('c, 'call, 'z) rclaim_state_scheme \<Rightarrow> bool" where
  "is_rewarder who s = (case REthRewarder (rclaim s) of None \<Rightarrow> False | Some r \<Rightarrow> r = who)"

text \<open>
  The loop that records reported rETH mints, over the zipped vectors, with the act it carries along;
  and the loop before it that checks them.
\<close>

fun record_reth_mints ::
    "'c config \<Rightarrow> BlockNumber \<Rightarrow> u32 \<Rightarrow> (bytes \<times> u128 \<times> u128) list \<Rightarrow> MintRewardAct
     \<Rightarrow> rclaim_store \<Rightarrow> MintRewardAct \<times> rclaim_store" where
  "record_reth_mints X now cycle [] act m = (act, m)"
| "record_reth_mints X now cycle ((pubkey, mint_value, native_token_value) # mints) act m =
     (if left_amount act = 0 then (act, m)
      else
        let reward = reward_of X act native_token_value;
            mints_count = UserREthMintsCount m (pubkey, cycle);
            acts = unwrap_or (UserREthActs m pubkey) []
        in record_reth_mints X now cycle mints (charged_act act reward mint_value native_token_value)
             (m\<lparr>REthClaimInfos := (REthClaimInfos m)((pubkey, cycle, mints_count) \<mapsto>
                  new_claim mint_value native_token_value reward now),
                UserREthActs := (if cycle \<in> set acts then UserREthActs m
                  else (UserREthActs m)(pubkey \<mapsto> acts @ [cycle])),
                UserREthMintsCount := (UserREthMintsCount m)((pubkey, cycle) := mints_count + 1)\<rparr>))"

fun check_reth_mints ::
    "(bytes \<times> u128 \<times> u128) list \<Rightarrow> 's \<Rightarrow> (dispatch_error, unit, 's) run" where
  "check_reth_mints [] s = (Ok (), s)"
| "check_reth_mints ((pubkey, mint_value, native_token_value) # mints) s =
     ensure (length pubkey = 20) (RClaimErr rclaim_error.InvalidPubkey) s
    (ensure (mint_value > 0) (RClaimErr rclaim_error.ValueZero) s
    (ensure (native_token_value > 0) (RClaimErr rclaim_error.ValueZero) s
    (check_reth_mints mints s)))"

definition update_reth_claim_info ::
    "'c config \<Rightarrow> origin \<Rightarrow> bytes list \<Rightarrow> u128 list \<Rightarrow> u128 list \<Rightarrow> ('c, 'call, 'z) rclaim_state_scheme
     \<Rightarrow> ('c, 'call, 'z) rclaim_run" where
  "update_reth_claim_info X o' pubkeys mint_values native_token_values s =
     ensure_signed o' s (\<lambda>who.
     ensure (is_rewarder who s) (RClaimErr InvalidREthRewarder) s
    (ensure (length pubkeys = length mint_values \<and> length pubkeys = length native_token_values \<and> length pubkeys < 200)
       (RClaimErr PubkeyAndValueNumberErr) s
      (let now = block_number s;
           s0 = if REthActCurrentCycle (rclaim s) = 0 then update_reth_act_current_cycle now s else s;
           cycle0 = REthActCurrentCycle (rclaim s0)
       in if cycle0 = 0 then (Ok (), s0)
          else case REthActs (rclaim s0) cycle0 of
            None \<Rightarrow> (Ok (), s0)
          | Some act0 \<Rightarrow>
            (let s1 = if act_end act0 < now then update_reth_act_current_cycle now s0 else s0;
                 cycle = REthActCurrentCycle (rclaim s1)
             in case REthActs (rclaim s1) cycle of
               None \<Rightarrow> (Ok (), s1)
             | Some act \<Rightarrow>
               if act_begin act > now \<or> act_end act < now then (Ok (), s1)
               else if left_amount act = 0 then (Ok (), s1)
               else
                 let mints = zip pubkeys (zip mint_values native_token_values)
                 in and_then (check_reth_mints mints s1) (\<lambda>_ s1.
                      let (act', m') = record_reth_mints X now cycle mints act (rclaim s1)
                      in (Ok (), rclaim_update (\<lambda>_. m'\<lparr>REthActs := (REthActs m')(cycle \<mapsto> act')\<rparr>) s1))))))"

section \<open>Claiming\<close>

text \<open>What is released of a claim at a block: all that is left once the lock is over, else a share.\<close>

definition claimable :: "'c config \<Rightarrow> BlockNumber \<Rightarrow> u32 \<Rightarrow> ClaimInfo \<Rightarrow> u128" where
  "claimable X now_block locked claim_info =
     (let final_block = saturating_add (mint_block claim_info) locked;
          left_claim_amount = saturating_sub (claim_total_reward claim_info) (total_claimed claim_info)
      in if now_block < final_block
         then let du_blocks = ucast (saturating_sub now_block (latest_claimed_block claim_info));
                  locked_du_blocks = ucast (saturating_sub final_block (latest_claimed_block claim_info))
              in unwrap_or (multiply_by_rational X left_claim_amount du_blocks locked_du_blocks) 0
         else left_claim_amount)"

definition claimed :: "BlockNumber \<Rightarrow> u128 \<Rightarrow> ClaimInfo \<Rightarrow> ClaimInfo" where
  "claimed now_block amount claim_info =
     claim_info\<lparr>total_claimed := saturating_add (total_claimed claim_info) amount,
                latest_claimed_block := now_block\<rparr>"

definition claim_rtoken_reward ::
    "'c config \<Rightarrow> origin \<Rightarrow> RSymbol \<Rightarrow> u32 \<Rightarrow> u64 \<Rightarrow> ('c, 'call, 'z) rclaim_state_scheme
     \<Rightarrow> ('c, 'call, 'z) rclaim_run" where
  "claim_rtoken_reward X o' symbol cycle index s =
     ensure_signed o' s (\<lambda>who.
     ok_or (ClaimInfos (rclaim s) (who, symbol, cycle, index)) (RClaimErr HasNoClaimInfo) s (\<lambda>claim_info.
     ok_or (Acts (rclaim s) (symbol, cycle)) (RClaimErr HasNoAct) s (\<lambda>act.
     ok_or (FundAddress (rclaim s)) (RClaimErr rclaim_error.NoFundAddress) s (\<lambda>fund_addr.
     ensure (saturating_sub (claim_total_reward claim_info) (total_claimed claim_info) > 0)
       (RClaimErr rclaim_error.ValueZero) s
      (let should_claim_amount = claimable X (block_number s) (locked_blocks act) claim_info
       in ensure (should_claim_amount > 0) (RClaimErr rclaim_error.ValueZero) s
         (and_then (native_transfer X fund_addr who should_claim_amount s) (\<lambda>_ s1.
            (Ok (), deposit_event (RClaimEv (RTokenClaimed who symbol should_claim_amount))
               (rclaim_update (\<lambda>m. m\<lparr>ClaimInfos := (ClaimInfos m)((who, symbol, cycle, index) \<mapsto>
                  claimed (block_number s) should_claim_amount claim_info)\<rparr>) s1)))))))))"

text \<open>\<open>who.using_encoded\<close> encodes an account as its 32 bytes, most significant first.\<close>

definition account_bytes :: "AccountId \<Rightarrow> bytes" where
  "account_bytes who = map (\<lambda>i. ucast (drop_bit (8 * (31 - i)) who)) [0..<32]"

definition claim_reth_reward ::
    "'c config \<Rightarrow> crypto \<Rightarrow> origin \<Rightarrow> bytes \<Rightarrow> bytes \<Rightarrow> u32 \<Rightarrow> u64 \<Rightarrow> ('c, 'call, 'z) rclaim_state_scheme
     \<Rightarrow> ('c, 'call, 'z) rclaim_run" where
  "claim_reth_reward X C o' pubkey sigs cycle index s =
     ensure_signed o' s (\<lambda>who.
     let use_who = to_ascii_hex (account_bytes who) in
     ensure (length pubkey = 20) (RClaimErr rclaim_error.InvalidPubkey) s
    (unwrap (ethereum_verify C pubkey sigs use_who) s (\<lambda>result.
     ensure (result = SigVerifyResult.Pass) (RClaimErr EthSigsFailed) s
    (ok_or (REthClaimInfos (rclaim s) (pubkey, cycle, index)) (RClaimErr HasNoClaimInfo) s (\<lambda>claim_info.
     ok_or (REthActs (rclaim s) cycle) (RClaimErr HasNoAct) s (\<lambda>act.
     ok_or (FundAddress (rclaim s)) (RClaimErr rclaim_error.NoFundAddress) s (\<lambda>fund_addr.
     ensure (saturating_sub (claim_total_reward claim_info) (total_claimed claim_info) > 0)
       (RClaimErr rclaim_error.ValueZero) s
      (let should_claim_amount = claimable X (block_number s) (locked_blocks act) claim_info
       in ensure (should_claim_amount > 0) (RClaimErr rclaim_error.ValueZero) s
         (and_then (native_transfer X fund_addr who should_claim_amount s) (\<lambda>_ s1.
            (Ok (), deposit_event (RClaimEv (REthClaimed who should_claim_amount))
               (rclaim_update (\<lambda>m. m\<lparr>REthClaimInfos := (REthClaimInfos m)((pubkey, cycle, index) \<mapsto>
                  claimed (block_number s) should_claim_amount claim_info)\<rparr>) s1))))))))))))"

section \<open>Budgets\<close>

text \<open>
  What the claims of an act promise and what has been paid on them, for the rtoken acts and the rETH
  acts alike: \<open>acts\<close> are the acts by key and \<open>infos\<close> the claims by user, act and index.
\<close>

definition claims_of :: "('u \<times> 'k \<times> u64 \<Rightarrow> ClaimInfo option) \<Rightarrow> 'k \<Rightarrow> ('u \<times> 'k \<times> u64) set" where
  "claims_of infos k = {x \<in> dom infos. fst (snd x) = k}"

definition promised :: "('u \<times> 'k \<times> u64 \<Rightarrow> ClaimInfo option) \<Rightarrow> 'k \<Rightarrow> nat" where
  "promised infos k = (\<Sum>x\<in>claims_of infos k. unat (claim_total_reward (the (infos x))))"

definition paid_out :: "('u \<times> 'k \<times> u64 \<Rightarrow> ClaimInfo option) \<Rightarrow> 'k \<Rightarrow> nat" where
  "paid_out infos k = (\<Sum>x\<in>claims_of infos k. unat (total_claimed (the (infos x))))"

definition budget_ok ::
    "BlockNumber \<Rightarrow> ('k \<Rightarrow> MintRewardAct option) \<Rightarrow> ('u \<times> 'k \<times> u64 \<Rightarrow> ClaimInfo option) \<Rightarrow> bool" where
  "budget_ok now acts infos \<longleftrightarrow>
     finite (dom infos)
   \<and> (\<forall>u k i. infos (u, k, i) \<noteq> None \<longrightarrow> acts k \<noteq> None)
   \<and> (\<forall>x c. infos x = Some c \<longrightarrow> total_claimed c \<le> claim_total_reward c
        \<and> latest_claimed_block c \<le> now \<and> mint_block c \<le> latest_claimed_block c)
   \<and> (\<forall>k a. acts k = Some a \<longrightarrow> promised infos k + unat (left_amount a) \<le> unat (act_total_reward a))"

definition rtoken_infos :: "rclaim_store \<Rightarrow> AccountId \<times> (RSymbol \<times> u32) \<times> u64 \<Rightarrow> ClaimInfo option" where
  "rtoken_infos m = (\<lambda>(who, (symbol, cycle), index). ClaimInfos m (who, symbol, cycle, index))"

definition rclaim_ok :: "BlockNumber \<Rightarrow> rclaim_store \<Rightarrow> bool" where
  "rclaim_ok now m \<longleftrightarrow>
     budget_ok now (Acts m) (rtoken_infos m) \<and> budget_ok now (REthActs m) (REthClaimInfos m)
   \<and> (\<forall>y c. Acts m (y, c) \<noteq> None \<longrightarrow> c \<le> ActLatestCycle m y)
   \<and> (\<forall>c. REthActs m c \<noteq> None \<longrightarrow> c \<le> REthActLatestCycle m)"

text \<open>
  A change of an act that takes no more out of its budget than is left of it.
\<close>

definition covered_change :: "MintRewardAct option \<Rightarrow> Balance \<Rightarrow> bool" where
  "covered_change act total_reward \<longleftrightarrow>
     (\<forall>a. act = Some a \<longrightarrow> unat (act_total_reward a) \<le> unat total_reward + unat (left_amount a))"

text \<open>
  Runs of the pallet: every operation, with fewer than \<open>2 ^ 32\<close> acts and covered changes, among steps
  of the rest of the runtime that leave this pallet's storage alone while time goes on.
\<close>

inductive rclaim_reach for X C where
  genesis: "rclaim s = empty_rclaim \<Longrightarrow> rclaim_reach X C s"
| rewarder: "rclaim_reach X C s \<Longrightarrow> rclaim_reach X C (snd (set_reth_rewarder o' a s))"
| fund: "rclaim_reach X C s \<Longrightarrow> rclaim_reach X C (snd (set_fund_address o' a s))"
| add: "rclaim_reach X C s \<Longrightarrow> ActLatestCycle (rclaim s) y \<noteq> - 1
    \<Longrightarrow> rclaim_reach X C (snd (add_rtoken_reward_act o' b e y t u l r s))"
| change: "rclaim_reach X C s \<Longrightarrow> covered_change (Acts (rclaim s) (y, c)) t
    \<Longrightarrow> rclaim_reach X C (snd (update_rtoken_reward_act o' c b e y t u l r s))"
| add_reth: "rclaim_reach X C s \<Longrightarrow> REthActLatestCycle (rclaim s) \<noteq> - 1
    \<Longrightarrow> rclaim_reach X C (snd (add_reth_reward_act o' b e t u l r s))"
| change_reth: "rclaim_reach X C s \<Longrightarrow> covered_change (REthActs (rclaim s) c) t
    \<Longrightarrow> rclaim_reach X C (snd (update_reth_reward_act o' c b e t u l r s))"
| mint: "rclaim_reach X C s \<Longrightarrow> rclaim_reach X C (update_claim_info X who y mv nv s)"
| mint_reth: "rclaim_reach X C s \<Longrightarrow> rclaim_reach X C (snd (update_reth_claim_info X o' keys mvs nvs s))"
| claim: "rclaim_reach X C s \<Longrightarrow> rclaim_reach X C (snd (claim_rtoken_reward X o' y c i s))"
| claim_reth: "rclaim_reach X C s \<Longrightarrow> rclaim_reach X C (snd (claim_reth_reward X C o' key sigs c i s))"
| other: "rclaim_reach X C s \<Longrightarrow> rclaim t = rclaim s \<Longrightarrow> block_number s \<le> block_number t \<Longrightarrow> rclaim_reach X C t"

section \<open>Lemmas\<close>

lemma claims_of_upd:
  "claims_of (infos((u, k, i) \<mapsto> c)) k' = (if k' = k then insert (u, k, i) (claims_of infos k) else claims_of infos k')"
  by (auto simp: claims_of_def)

lemma finite_claims: "finite (dom infos) \<Longrightarrow> finite (claims_of infos k)"
  by (simp add: claims_of_def)

lemma promised_upd:
  assumes "finite (dom infos)"
  shows "promised (infos((u, k, i) \<mapsto> c)) k' \<le> promised infos k' + (if k' = k then unat (claim_total_reward c) else 0)"
proof (cases "k' = k")
  case True
  let ?x = "(u, k, i)" and ?r = "\<lambda>x. unat (claim_total_reward (the (infos x)))"
  have "promised (infos(?x \<mapsto> c)) k = unat (claim_total_reward c) + (\<Sum>x\<in>claims_of infos k - {?x}. ?r x)"
    using finite_claims [OF assms, of k]
    by (simp add: promised_def claims_of_upd sum.insert_remove)
  also have "\<dots> \<le> unat (claim_total_reward c) + promised infos k"
    by (simp add: promised_def sum_mono2 finite_claims [OF assms])
  finally show ?thesis using True by simp
next
  case False
  then have "promised (infos((u, k, i) \<mapsto> c)) k' = promised infos k'"
    unfolding promised_def claims_of_upd by (auto intro!: sum.cong simp: claims_of_def)
  with False show ?thesis by simp
qed

lemma promised_same:
  assumes "infos x = Some c" "claim_total_reward d = claim_total_reward c"
  shows "promised (infos(x \<mapsto> d)) k = promised infos k"
proof -
  have "claims_of (infos(x \<mapsto> d)) k = claims_of infos k"
    using assms(1) by (auto simp: claims_of_def)
  then show ?thesis using assms unfolding promised_def by (auto intro!: sum.cong)
qed

lemma budget_okD:
  assumes "budget_ok now acts infos"
  shows "finite (dom infos)"
    "infos (u, k, i) \<noteq> None \<Longrightarrow> acts k \<noteq> None"
    "infos x = Some c \<Longrightarrow> total_claimed c \<le> claim_total_reward c"
    "infos x = Some c \<Longrightarrow> latest_claimed_block c \<le> now"
    "acts k = Some a \<Longrightarrow> promised infos k + unat (left_amount a) \<le> unat (act_total_reward a)"
    "infos x = Some c \<Longrightarrow> mint_block c \<le> latest_claimed_block c"
  using assms unfolding budget_ok_def by blast+

lemma budget_ok_mint:
  assumes ok: "budget_ok now acts infos" and a: "acts k = Some a" and r: "r \<le> left_amount a"
  shows "budget_ok now (acts(k \<mapsto> charged_act a r mv nv)) (infos((u, k, i) \<mapsto> new_claim mv nv r now))"
proof -
  let ?acts = "acts(k \<mapsto> charged_act a r mv nv)" and ?infos = "infos((u, k, i) \<mapsto> new_claim mv nv r now)"
  have "promised ?infos k' + unat (left_amount b) \<le> unat (act_total_reward b)" if b: "?acts k' = Some b" for k' b
  proof (cases "k' = k")
    case True
    with b have "b = charged_act a r mv nv" by simp
    with True promised_upd [OF budget_okD(1) [OF ok], of u k i "new_claim mv nv r now" k]
      budget_okD(5) [OF ok a] r show ?thesis
      by (simp add: charged_act_def new_claim_def word_nat word_le_nat_alt)
  next
    case False
    with b budget_okD(5) [OF ok, of k' b] promised_upd [OF budget_okD(1) [OF ok], of u k i "new_claim mv nv r now" k']
    show ?thesis by simp
  qed
  moreover have "?acts k' \<noteq> None" if "?infos (u', k', i') \<noteq> None" for u' k' i'
    using that budget_okD(2) [OF ok, of u' k' i'] by (auto split: if_splits)
  moreover have "total_claimed c \<le> claim_total_reward c \<and> latest_claimed_block c \<le> now \<and> mint_block c \<le> latest_claimed_block c"
    if "?infos x = Some c" for x c
    using that budget_okD(3,4,6) [OF ok, of x c] by (auto simp: new_claim_def split: if_splits)
  ultimately show ?thesis
    using budget_okD(1) [OF ok] unfolding budget_ok_def by (intro conjI) (simp, blast+)
qed

lemma budget_ok_claimed:
  assumes ok: "budget_ok now acts infos" and c: "infos x = Some c"
    and v: "unat v + unat (total_claimed c) \<le> unat (claim_total_reward c)"
  shows "budget_ok now acts (infos(x \<mapsto> claimed now v c))"
proof -
  let ?infos = "infos(x \<mapsto> claimed now v c)"
  have "promised ?infos k = promised infos k" for k
    by (rule promised_same [of infos x c]) (simp_all add: c claimed_def)
  moreover have "total_claimed d \<le> claim_total_reward d \<and> latest_claimed_block d \<le> now \<and> mint_block d \<le> latest_claimed_block d"
    if "?infos z = Some d" for z d
    using that budget_okD(3,4,6) [OF ok, of z d] v budget_okD(4,6) [OF ok c]
    by (auto simp: claimed_def word_le_nat_alt word_nat split: if_splits)
  moreover have "acts k \<noteq> None" if "?infos (u, k, i) \<noteq> None" for u k i
    using that budget_okD(2) [OF ok, of u k i] c by (auto split: if_splits)
  ultimately show ?thesis
    using ok unfolding budget_ok_def by (intro conjI) (simp, blast, blast, simp)
qed

lemma budget_ok_new_act:
  assumes ok: "budget_ok now acts infos" and k: "acts k = None"
  shows "budget_ok now (acts(k \<mapsto> new_act b e c t u l r)) infos"
proof -
  have "claims_of infos k = {}"
    using budget_okD(2) [OF ok, of _ k] k by (fastforce simp: claims_of_def)
  then have "promised infos k = 0" by (simp add: promised_def)
  with ok show ?thesis
    unfolding budget_ok_def by (auto simp: new_act_def)
qed

lemma budget_ok_changed:
  assumes ok: "budget_ok now acts infos" and k: "acts k = Some a" and "covered_change (Some a) t"
  shows "budget_ok now (acts(k \<mapsto> changed_act b e c t u l r a)) infos"
proof -
  have "promised infos k + unat (left_amount (changed_act b e c t u l r a)) \<le> unat t"
    using budget_okD(5) [OF ok k] assms(3) unat_less_pow [of t]
    by (auto simp: changed_act_def covered_change_def word_nat word_less_nat_alt)
  moreover have "act_total_reward (changed_act b e c t u l r a) = t"
    by (simp add: changed_act_def Let_def)
  ultimately show ?thesis
    using ok unfolding budget_ok_def by auto
qed

lemma budget_ok_later:
  "budget_ok now acts infos \<Longrightarrow> now \<le> later \<Longrightarrow> budget_ok later acts infos"
  unfolding budget_ok_def by (meson order_trans)

lemma reward_of_bounds:
  "reward_of X act v \<le> left_amount act" "user_limit act > 0 \<Longrightarrow> reward_of X act v \<le> user_limit act"
  by (auto simp: reward_of_def Let_def not_less)

lemma claimable_le:
  assumes "mul_rational_ok X" "latest_claimed_block c \<le> now"
  shows "unat (claimable X now l c) \<le> unat (claim_total_reward c) - unat (total_claimed c)"
proof (cases "now < saturating_add (mint_block c) l")
  case True
  let ?left = "saturating_sub (claim_total_reward c) (total_claimed c)"
  let ?du = "ucast (saturating_sub now (latest_claimed_block c)) :: u128"
  let ?ldu = "ucast (saturating_sub (saturating_add (mint_block c) l) (latest_claimed_block c)) :: u128"
  have du: "unat ?du = unat now - unat (latest_claimed_block c)"
    "unat ?ldu = unat (saturating_add (mint_block c) l) - unat (latest_claimed_block c)"
    by (simp_all add: unat_widen unat_saturating_sub)
  have lt: "unat now < unat (saturating_add (mint_block c) l)" "unat (latest_claimed_block c) \<le> unat now"
    using True assms(2) by (simp_all add: word_less_nat_alt word_le_nat_alt)
  with du have pos: "unat ?du \<le> unat ?ldu" "0 < unat ?ldu" by simp_all
  have "unat (unwrap_or (multiply_by_rational X ?left ?du ?ldu) 0) \<le> unat ?left"
  proof (cases "multiply_by_rational X ?left ?du ?ldu")
    case (Some r)
    have "?ldu \<noteq> 0" using pos(2) by (metis less_irrefl unat_0)
    then have "unat r = unat ?left * unat ?du div unat ?ldu"
      by (rule mul_rational_SomeD [OF assms(1) Some])
    also have "\<dots> \<le> unat ?left * unat ?ldu div unat ?ldu"
      by (intro div_le_mono mult_le_mono pos(1) order_refl)
    finally show ?thesis using Some pos(2) by simp
  qed simp
  with True show ?thesis by (simp add: claimable_def Let_def unat_saturating_sub)
qed (simp add: claimable_def Let_def unat_saturating_sub)

lemma rtoken_infos_upd [simp]:
  "rtoken_infos (m\<lparr>ClaimInfos := (ClaimInfos m)((w, y, c, i) \<mapsto> v)\<rparr>) = (rtoken_infos m)((w, (y, c), i) \<mapsto> v)"
  by (auto simp: rtoken_infos_def fun_eq_iff)

lemma rtoken_infos_frame [simp]:
  "rtoken_infos (m\<lparr>REthClaimInfos := a\<rparr>) = rtoken_infos m" "rtoken_infos (m\<lparr>REthRewarder := b\<rparr>) = rtoken_infos m"
  "rtoken_infos (m\<lparr>Acts := c\<rparr>) = rtoken_infos m" "rtoken_infos (m\<lparr>REthActs := d\<rparr>) = rtoken_infos m"
  "rtoken_infos (m\<lparr>FundAddress := e\<rparr>) = rtoken_infos m" "rtoken_infos (m\<lparr>ActLatestCycle := f\<rparr>) = rtoken_infos m"
  "rtoken_infos (m\<lparr>REthActLatestCycle := g\<rparr>) = rtoken_infos m" "rtoken_infos (m\<lparr>ActCurrentCycle := h\<rparr>) = rtoken_infos m"
  "rtoken_infos (m\<lparr>REthActCurrentCycle := i\<rparr>) = rtoken_infos m" "rtoken_infos (m\<lparr>UserActs := j\<rparr>) = rtoken_infos m"
  "rtoken_infos (m\<lparr>UserREthActs := k\<rparr>) = rtoken_infos m" "rtoken_infos (m\<lparr>UserMintsCount := l\<rparr>) = rtoken_infos m"
  "rtoken_infos (m\<lparr>UserREthMintsCount := n\<rparr>) = rtoken_infos m"
  by (simp_all add: rtoken_infos_def)

abbreviation rclaim_inv :: "('c, 'call, 'z) rclaim_state_scheme \<Rightarrow> bool" where
  "rclaim_inv s \<equiv> rclaim_ok (block_number s) (rclaim s)"

lemma rclaim_frame [simp]:
  "rclaim (deposit_event e s) = rclaim s"
  by (simp add: deposit_event_def)

lemma rclaim_okD:
  assumes "rclaim_ok now m"
  shows "budget_ok now (Acts m) (rtoken_infos m)" "budget_ok now (REthActs m) (REthClaimInfos m)"
    "Acts m (y, c) \<noteq> None \<Longrightarrow> c \<le> ActLatestCycle m y" "REthActs m c \<noteq> None \<Longrightarrow> c \<le> REthActLatestCycle m"
  using assms unfolding rclaim_ok_def by blast+

lemma next_cycle:
  fixes c d :: u32
  assumes "c \<noteq> - 1"
  shows "c < c + 1" "d \<le> c \<Longrightarrow> d \<le> c + 1"
proof -
  have "unat c \<noteq> unat (- 1 :: u32)"
    using assms unfolding word_unat_eq_iff .
  then have "unat c \<noteq> 2 ^ 32 - 1" by (simp add: unat_max)
  then have "unat (c + 1) = unat c + 1"
    using unat_less_pow [of c] by (subst unat_plus_exact) simp_all
  then show "c < c + 1" "d \<le> c \<Longrightarrow> d \<le> c + 1"
    by (simp_all add: word_less_nat_alt word_le_nat_alt)
qed

lemma rclaim_ok_add:
  assumes ok: "rclaim_ok now m" and "ActLatestCycle m y \<noteq> - 1"
  defines "n \<equiv> ActLatestCycle m y + 1"
  shows "rclaim_ok now (m\<lparr>ActLatestCycle := (ActLatestCycle m)(y := n), Acts := (Acts m)((y, n) \<mapsto> new_act b e n t u l r)\<rparr>)"
proof -
  have "Acts m (y, n) = None"
    using rclaim_okD(3) [OF ok, of y n] next_cycle(1) [OF assms(2)] unfolding n_def by fastforce
  then have "budget_ok now ((Acts m)((y, n) \<mapsto> new_act b e n t u l r)) (rtoken_infos m)"
    by (rule budget_ok_new_act [OF rclaim_okD(1) [OF ok]])
  then show ?thesis
    using rclaim_okD(2,4) [OF ok] rclaim_okD(3) [OF ok] next_cycle(2) [OF assms(2)]
    unfolding rclaim_ok_def n_def by (auto split: if_splits)
qed

lemma rclaim_ok_add_reth:
  assumes ok: "rclaim_ok now m" and "REthActLatestCycle m \<noteq> - 1"
  defines "n \<equiv> REthActLatestCycle m + 1"
  shows "rclaim_ok now (m\<lparr>REthActLatestCycle := n, REthActs := (REthActs m)(n \<mapsto> new_act b e n t u l r)\<rparr>)"
proof -
  have "REthActs m n = None"
    using rclaim_okD(4) [OF ok, of n] next_cycle(1) [OF assms(2)] unfolding n_def by fastforce
  then have "budget_ok now ((REthActs m)(n \<mapsto> new_act b e n t u l r)) (REthClaimInfos m)"
    by (rule budget_ok_new_act [OF rclaim_okD(2) [OF ok]])
  then show ?thesis
    using rclaim_okD(1,3) [OF ok] rclaim_okD(4) [OF ok] next_cycle(2) [OF assms(2)]
    unfolding rclaim_ok_def n_def by (auto split: if_splits)
qed

lemma add_rtoken_keeps:
  "rclaim_inv s \<Longrightarrow> ActLatestCycle (rclaim s) y \<noteq> - 1 \<Longrightarrow> keeps rclaim_inv (add_rtoken_reward_act o' b e y t u l r s)"
  unfolding add_rtoken_reward_act_def ensure_act_def Let_def
  by (intro run_keeps) (auto simp: run_ok rclaim_ok_add split: if_splits)

lemma add_reth_keeps:
  "rclaim_inv s \<Longrightarrow> REthActLatestCycle (rclaim s) \<noteq> - 1 \<Longrightarrow> keeps rclaim_inv (add_reth_reward_act o' b e t u l r s)"
  unfolding add_reth_reward_act_def ensure_act_def Let_def
  by (intro run_keeps) (auto simp: run_ok rclaim_ok_add_reth split: if_splits)

lemma update_rtoken_keeps:
  assumes "rclaim_inv s" "covered_change (Acts (rclaim s) (y, c)) t"
  shows "keeps rclaim_inv (update_rtoken_reward_act o' c b e y t u l r s)"
proof -
  have "rclaim_ok (block_number s) ((rclaim s)\<lparr>Acts := (Acts (rclaim s))((y, c) \<mapsto> changed_act b e c t u l r a)\<rparr>)"
    if a: "Acts (rclaim s) (y, c) = Some a" for a
    using budget_ok_changed [OF rclaim_okD(1) [OF assms(1)] a, of t b e c u l r] assms a
    unfolding rclaim_ok_def by (auto split: if_splits)
  then show ?thesis
    unfolding update_rtoken_reward_act_def ensure_act_def by (intro run_keeps assms(1)) simp_all
qed

lemma update_reth_keeps:
  assumes "rclaim_inv s" "covered_change (REthActs (rclaim s) c) t"
  shows "keeps rclaim_inv (update_reth_reward_act o' c b e t u l r s)"
proof -
  have "rclaim_ok (block_number s) ((rclaim s)\<lparr>REthActs := (REthActs (rclaim s))(c \<mapsto> changed_act b e c t u l r a)\<rparr>)"
    if a: "REthActs (rclaim s) c = Some a" for a
    using budget_ok_changed [OF rclaim_okD(2) [OF assms(1)] a, of t b e c u l r] assms a
    unfolding rclaim_ok_def by (auto split: if_splits)
  then show ?thesis
    unfolding update_reth_reward_act_def ensure_act_def by (intro run_keeps assms(1)) simp_all
qed

lemma current_cycle_state:
  "\<exists>f. update_act_current_cycle now y s = rclaim_update (\<lambda>m. m\<lparr>ActCurrentCycle := f\<rparr>) s"
proof -
  have *: "\<exists>f. s = rclaim_update (\<lambda>m. m\<lparr>ActCurrentCycle := f\<rparr>) s"
    by (intro exI [of _ "ActCurrentCycle (rclaim s)"]) simp
  have "\<exists>f. rclaim_update (\<lambda>m. m\<lparr>ActCurrentCycle := (ActCurrentCycle m)(y := i)\<rparr>) s
      = rclaim_update (\<lambda>m. m\<lparr>ActCurrentCycle := f\<rparr>) s" for i
    by (intro exI [of _ "(ActCurrentCycle (rclaim s))(y := i)"]) simp
  with * show ?thesis
    unfolding update_act_current_cycle_def Let_def by (auto split: option.splits)
qed

lemma reth_current_cycle_state:
  "\<exists>f. update_reth_act_current_cycle now s = rclaim_update (\<lambda>m. m\<lparr>REthActCurrentCycle := f\<rparr>) s"
proof -
  have *: "\<exists>f. s = rclaim_update (\<lambda>m. m\<lparr>REthActCurrentCycle := f\<rparr>) s"
    by (intro exI [of _ "REthActCurrentCycle (rclaim s)"]) simp
  then show ?thesis
    unfolding update_reth_act_current_cycle_def Let_def by (auto split: option.splits)
qed

lemma rclaim_ok_cycles [simp]:
  "rclaim_ok now (m\<lparr>ActCurrentCycle := f\<rparr>) = rclaim_ok now m" "rclaim_ok now (m\<lparr>REthActCurrentCycle := g\<rparr>) = rclaim_ok now m"
  by (simp_all add: rclaim_ok_def)

lemma current_cycle_frame [simp]:
  "block_number (update_act_current_cycle now y s) = block_number s"
  "block_number (update_reth_act_current_cycle now s) = block_number s"
  "rclaim_ok t (rclaim (update_act_current_cycle now y s)) = rclaim_ok t (rclaim s)"
  "rclaim_ok t (rclaim (update_reth_act_current_cycle now s)) = rclaim_ok t (rclaim s)"
  using current_cycle_state [of now y s] reth_current_cycle_state [of now s] by auto

lemma rclaim_ok_mint:
  assumes ok: "rclaim_ok now m" and a: "Acts m (y, c) = Some a"
  shows "rclaim_ok now (m\<lparr>
    ClaimInfos := (ClaimInfos m)((w, y, c, i) \<mapsto> new_claim mv nv (reward_of X a nv) now), UserActs := ua, UserMintsCount := uc,
    Acts := (Acts m)((y, c) \<mapsto> charged_act a (reward_of X a nv) mv nv)\<rparr>)"
  using budget_ok_mint [OF rclaim_okD(1) [OF ok] a reward_of_bounds(1), of X nv mv nv w i] ok a
  unfolding rclaim_ok_def by (auto split: if_splits)

lemma mint_keeps: "rclaim_inv s \<Longrightarrow> rclaim_inv (update_claim_info X who y mv nv s)"
  unfolding update_claim_info_def Let_def by (simp add: rclaim_ok_mint split: option.splits)

lemma record_reth_mints_ok:
  assumes "budget_ok now ((REthActs m)(c \<mapsto> act)) (REthClaimInfos m)"
    and "record_reth_mints X now c mints act m = (act', m')"
  shows "budget_ok now ((REthActs m)(c \<mapsto> act')) (REthClaimInfos m')
    \<and> Acts m' = Acts m \<and> ClaimInfos m' = ClaimInfos m \<and> REthActs m' = REthActs m
    \<and> ActLatestCycle m' = ActLatestCycle m \<and> REthActLatestCycle m' = REthActLatestCycle m"
  using assms
proof (induction X now c mints act m arbitrary: act' m' rule: record_reth_mints.induct)
  case (1 X now cycle act m)
  then show ?case by auto
next
  case (2 X now c key mv nv mints act m)
  show ?case
  proof (cases "left_amount act = 0")
    case True
    with 2 show ?thesis by auto
  next
    case False
    have "((REthActs m)(c \<mapsto> act)) c = Some act" by simp
    note budget_ok_mint [OF 2(2) this reward_of_bounds(1) [of X act nv]]
    then have "budget_ok now ((REthActs m)(c \<mapsto> charged_act act (reward_of X act nv) mv nv))
        ((REthClaimInfos m)((key, c, UserREthMintsCount m (key, c)) \<mapsto> new_claim mv nv (reward_of X act nv) now))"
      by (simp only: fun_upd_upd)
    with 2(1) [OF False refl refl refl, of act' m'] 2(3) False show ?thesis by (simp add: fun_upd_def Let_def)
  qed
qed

lemma check_reth_mints_state: "check_reth_mints mints s = (Ok u, t) \<Longrightarrow> t = s"
  by (induction mints s rule: check_reth_mints.induct) (auto simp: run_ok)

lemma check_reth_mints_keeps: "P s \<Longrightarrow> keeps P (check_reth_mints mints s)"
  by (induction mints s rule: check_reth_mints.induct) (auto intro!: run_keeps)

lemma rclaim_ok_reth_mints:
  assumes ok: "rclaim_ok now m" and a: "REthActs m c = Some a"
    and r: "record_reth_mints X now c mints a m = (a', m')"
  shows "rclaim_ok now (m'\<lparr>REthActs := (REthActs m')(c \<mapsto> a')\<rparr>)"
proof -
  have "budget_ok now ((REthActs m)(c \<mapsto> a)) (REthClaimInfos m)"
    using rclaim_okD(2) [OF ok] a by (simp add: fun_upd_idem)
  note post = record_reth_mints_ok [OF this r]
  then have "rtoken_infos m' = rtoken_infos m" by (simp add: rtoken_infos_def)
  with post rclaim_okD(1,3,4) [OF ok] a show ?thesis
    unfolding rclaim_ok_def by (auto split: if_splits)
qed

lemma mint_reth_keeps:
  assumes "rclaim_inv s"
  shows "keeps rclaim_inv (update_reth_claim_info X o' keys mvs nvs s)"
proof -
  have recorded: "keeps rclaim_inv
      (and_then (check_reth_mints mints t) (\<lambda>_ s1. let (act', m') = record_reth_mints X (block_number s) c mints a (rclaim s1)
        in (Ok (), rclaim_update (\<lambda>_. m'\<lparr>REthActs := (REthActs m')(c \<mapsto> act')\<rparr>) s1)))"
    if "rclaim_inv t" "REthActs (rclaim t) c = Some a" "block_number t = block_number s" for mints t c a
    using that
    by (intro and_then_keeps check_reth_mints_keeps)
      (auto dest!: check_reth_mints_state simp: keeps_def rclaim_ok_reth_mints split: prod.splits)
  show ?thesis
    unfolding update_reth_claim_info_def Let_def
    by (intro ensure_signed_keeps ensure_keeps if_keeps option_keeps return_keeps recorded [unfolded Let_def] assms)
      (assumption | simp add: assms)+
qed

lemma claim_rtoken_keeps:
  assumes "mul_rational_ok X" "rclaim_inv s"
  shows "keeps rclaim_inv (claim_rtoken_reward X o' y c i s)"
proof -
  have paid: "rclaim_ok now (m\<lparr>ClaimInfos := (ClaimInfos m)((w, y, c, i) \<mapsto> claimed now (claimable X now l d) d)\<rparr>)"
    if ok: "rclaim_ok now m" and d: "ClaimInfos m (w, y, c, i) = Some d" for now m w l d
  proof -
    have x: "rtoken_infos m (w, (y, c), i) = Some d" using d by (simp add: rtoken_infos_def)
    have "unat (claimable X now l d) + unat (total_claimed d) \<le> unat (claim_total_reward d)"
      using claimable_le [OF assms(1) budget_okD(4) [OF rclaim_okD(1) [OF ok] x], of l]
        budget_okD(3) [OF rclaim_okD(1) [OF ok] x] by (simp add: word_le_nat_alt)
    from budget_ok_claimed [OF rclaim_okD(1) [OF ok] x this] ok show ?thesis
      unfolding rclaim_ok_def by simp
  qed
  show ?thesis
    unfolding claim_rtoken_reward_def Let_def
    by (intro run_keeps assms(2))
      (use assms(2) native_transfer_state in \<open>auto simp: native_transfer_Ok_iff keeps_def native_transfer_def intro!: paid split: prod.splits\<close>)
qed

lemma claim_reth_keeps:
  assumes "mul_rational_ok X" "rclaim_inv s"
  shows "keeps rclaim_inv (claim_reth_reward X C o' key sigs c i s)"
proof -
  have paid: "rclaim_ok now (m\<lparr>REthClaimInfos := (REthClaimInfos m)((key, c, i) \<mapsto> claimed now (claimable X now l d) d)\<rparr>)"
    if ok: "rclaim_ok now m" and d: "REthClaimInfos m (key, c, i) = Some d" for now m l d
  proof -
    have "unat (claimable X now l d) + unat (total_claimed d) \<le> unat (claim_total_reward d)"
      using claimable_le [OF assms(1) budget_okD(4) [OF rclaim_okD(2) [OF ok] d], of l]
        budget_okD(3) [OF rclaim_okD(2) [OF ok] d] by (simp add: word_le_nat_alt)
    from budget_ok_claimed [OF rclaim_okD(2) [OF ok] d this] ok show ?thesis
      unfolding rclaim_ok_def by simp
  qed
  show ?thesis
    unfolding claim_reth_reward_def Let_def
    by (intro run_keeps assms(2))
      (use assms(2) native_transfer_state in \<open>auto simp: native_transfer_Ok_iff keeps_def native_transfer_def intro!: paid split: prod.splits\<close>)
qed

lemma rclaim_ok_genesis: "rclaim_ok now empty_rclaim"
  by (simp add: rclaim_ok_def budget_ok_def empty_rclaim_def rtoken_infos_def dom_def case_prod_unfold)

lemma rclaim_ok_later: "rclaim_ok now m \<Longrightarrow> now \<le> later \<Longrightarrow> rclaim_ok later m"
  unfolding rclaim_ok_def by (blast intro: budget_ok_later)

lemma rclaim_ok_reach:
  assumes "mul_rational_ok X" "rclaim_reach X C s"
  shows "rclaim_inv s"
  using assms(2)
proof (induction rule: rclaim_reach.induct)
  case (genesis s)
  then show ?case by (simp add: rclaim_ok_genesis)
next
  case (rewarder s o' a)
  then show ?case by (cases o') (simp_all add: set_reth_rewarder_def rclaim_ok_def)
next
  case (fund s o' a)
  then show ?case by (cases o') (simp_all add: set_fund_address_def rclaim_ok_def)
next
  case (other s t)
  then show ?case using rclaim_ok_later by simp
qed (use add_rtoken_keeps update_rtoken_keeps add_reth_keeps update_reth_keeps mint_keeps mint_reth_keeps
      claim_rtoken_keeps [OF assms(1)] claim_reth_keeps [OF assms(1)] in \<open>simp_all add: keeps_def\<close>)

lemma paid_out_le_promised: "budget_ok now acts infos \<Longrightarrow> paid_out infos k \<le> promised infos k"
  unfolding paid_out_def promised_def
  by (intro sum_mono) (auto simp: claims_of_def word_le_nat_alt dest: budget_okD(3))

text \<open>
  A claim is on schedule for a lock when no more of its reward has been paid than the share of the
  lock that had passed at the last payment.
\<close>

definition on_schedule :: "u32 \<Rightarrow> ClaimInfo \<Rightarrow> bool" where
  "on_schedule locked d \<longleftrightarrow>
     (let start = unat (mint_block d);
          final = unat (saturating_add (mint_block d) locked)
      in unat (total_claimed d) * (final - start)
         \<le> unat (claim_total_reward d) * (min final (unat (latest_claimed_block d)) - start))"

lemma schedule_arith:
  fixes R C M L now F v :: int
  assumes "M \<le> L" "L \<le> now" "now < F" "0 \<le> R" "C \<le> R" "0 \<le> v"
    and step: "v * (F - L) \<le> (R - C) * (now - L)"
    and sched: "C * (F - M) \<le> R * (L - M)"
  shows "(C + v) * (F - M) \<le> R * (now - M)"
proof -
  have rest: "R * (F - L) \<le> (R - C) * (F - M)"
    using sched by (simp add: algebra_simps)
  have "R * (F - now) * (F - L) = R * (F - L) * (F - now)" by simp
  also have "\<dots> \<le> (R - C) * (F - M) * (F - now)"
    using rest assms(3) by (intro mult_right_mono) simp_all
  also have "\<dots> = ((R - C) * (F - L) - (R - C) * (now - L)) * (F - M)"
    by (simp add: algebra_simps)
  also have "\<dots> \<le> ((R - C) * (F - L) - v * (F - L)) * (F - M)"
    using step assms(1-3) by (intro mult_right_mono) simp_all
  also have "\<dots> = (R - C - v) * (F - M) * (F - L)" by (simp add: algebra_simps)
  finally have "R * (F - now) \<le> (R - C - v) * (F - M)"
    using assms(2,3) by (simp add: mult_le_cancel_right)
  then show ?thesis by (simp add: algebra_simps)
qed

lemma schedule_arith_nat:
  fixes R C M L now F v :: nat
  assumes "M \<le> L" "L \<le> now" "now < F" "C \<le> R"
    and "v * (F - L) \<le> (R - C) * (now - L)" "C * (F - M) \<le> R * (L - M)"
  shows "(C + v) * (F - M) \<le> R * (now - M)"
proof -
  have "int v * (int F - int L) \<le> (int R - int C) * (int now - int L)"
    using of_nat_mono [where 'a = int, OF assms(5)] assms(1-4) by (simp add: of_nat_diff)
  moreover have "int C * (int F - int M) \<le> int R * (int L - int M)"
    using of_nat_mono [where 'a = int, OF assms(6)] assms(1-4) by (simp add: of_nat_diff)
  ultimately have "(int C + int v) * (int F - int M) \<le> int R * (int now - int M)"
    using assms(1-4) by (intro schedule_arith [of "int M" "int L"]) simp_all
  with assms(1-4) have "int ((C + v) * (F - M)) \<le> int (R * (now - M))" by (simp add: of_nat_diff)
  then show ?thesis by (simp only: of_nat_le_iff)
qed

lemma claimable_share:
  assumes "mul_rational_ok X" "latest_claimed_block d \<le> now" "now < saturating_add (mint_block d) l"
  shows "unat (claimable X now l d) * (unat (saturating_add (mint_block d) l) - unat (latest_claimed_block d))
    \<le> (unat (claim_total_reward d) - unat (total_claimed d)) * (unat now - unat (latest_claimed_block d))"
proof -
  let ?left = "saturating_sub (claim_total_reward d) (total_claimed d)"
  let ?du = "ucast (saturating_sub now (latest_claimed_block d)) :: u128"
  let ?ldu = "ucast (saturating_sub (saturating_add (mint_block d) l) (latest_claimed_block d)) :: u128"
  have du: "unat ?du = unat now - unat (latest_claimed_block d)"
    "unat ?ldu = unat (saturating_add (mint_block d) l) - unat (latest_claimed_block d)"
    by (simp_all add: unat_widen unat_saturating_sub)
  have "0 < unat ?ldu" using assms(2,3) unfolding du by (simp add: word_less_nat_alt word_le_nat_alt)
  then have nz: "?ldu \<noteq> 0" by (metis less_irrefl unat_0)
  have "unat (unwrap_or (multiply_by_rational X ?left ?du ?ldu) 0) * unat ?ldu \<le> unat ?left * unat ?du"
    by (cases "multiply_by_rational X ?left ?du ?ldu") (simp_all add: mul_rational_SomeD [OF assms(1) _ nz])
  then show ?thesis
    unfolding du using assms(3) by (simp add: claimable_def Let_def unat_saturating_sub)
qed

lemma claimed_on_schedule:
  assumes "mul_rational_ok X" "mint_block d \<le> latest_claimed_block d" "latest_claimed_block d \<le> now"
    and "total_claimed d \<le> claim_total_reward d" "on_schedule l d"
  shows "on_schedule l (claimed now (claimable X now l d) d)"
proof -
  let ?F = "unat (saturating_add (mint_block d) l)" and ?M = "unat (mint_block d)" and ?L = "unat (latest_claimed_block d)"
  let ?v = "claimable X now l d" and ?R = "unat (claim_total_reward d)" and ?C = "unat (total_claimed d)"
  have le: "?M \<le> ?L" "?L \<le> unat now" "?C \<le> ?R" using assms(2-4) by (simp_all add: word_le_nat_alt)
  have sum: "?C + unat ?v \<le> ?R" using claimable_le [OF assms(1,3), of l] le(3) by simp
  then have paid: "unat (saturating_add (total_claimed d) ?v) = ?C + unat ?v"
    using unat_less_pow [of "claim_total_reward d"] by (simp add: word_nat)
  have "(?C + unat ?v) * (?F - ?M) \<le> ?R * (min ?F (unat now) - ?M)"
  proof (cases "now < saturating_add (mint_block d) l")
    case True
    then have now: "unat now < ?F" by (simp add: word_less_nat_alt)
    have "?C * (?F - ?M) \<le> ?R * (?L - ?M)"
      using assms(5) le(2) now by (simp add: on_schedule_def Let_def min_absorb2)
    then have "(?C + unat ?v) * (?F - ?M) \<le> ?R * (unat now - ?M)"
      by (rule schedule_arith_nat [OF le(1,2) now le(3) claimable_share [OF assms(1,3) True]])
    with now show ?thesis by (simp add: min_absorb2)
  next
    case False
    then have "?F \<le> unat now" by (simp add: word_less_nat_alt not_less)
    with sum show ?thesis by (simp add: min_absorb1 mult_le_mono1)
  qed
  then show ?thesis
    unfolding on_schedule_def claimed_def Let_def using paid by simp
qed

lemma claim_rtoken_Ok:
  assumes "claim_rtoken_reward X (Signed who) y c i s = (Ok u, s')"
  obtains d a fund n where "ClaimInfos (rclaim s) (who, y, c, i) = Some d" "Acts (rclaim s) (y, c) = Some a"
    "FundAddress (rclaim s) = Some fund" "0 < claimable X (block_number s) (locked_blocks a) d"
    "native_transfer X fund who (claimable X (block_number s) (locked_blocks a) d) s = (Ok (), n)"
    "rclaim s' = (rclaim s)\<lparr>ClaimInfos := (ClaimInfos (rclaim s))((who, y, c, i) \<mapsto>
       claimed (block_number s) (claimable X (block_number s) (locked_blocks a) d) d)\<rparr>"
    "native s' = native n"
  using assms by (auto simp: claim_rtoken_reward_def run_ok Let_def native_transfer_Ok_iff)

section \<open>Evaluation\<close>

text \<open>
  An act of rDOT with a budget of 1000 native tokens, one for one and locked for 20 blocks, and a mint
  of 700 at block 10; then ten blocks pass.
\<close>

definition sample_claims :: "(AccountId \<Rightarrow> u128, unit) rclaim_state" where
  "sample_claims = \<lparr>block_number = 10, events = [], native = (\<lambda>_. 5000), rbalances = empty_tokens,
     xbalances = empty_tokens, lpbalances = empty_tokens, brelayers = empty_relayers,
     rrelayers = empty_relayers, payers = empty_relayers, rates = empty_rates, bridge = empty_bridge,
     ledger = empty_ledger, votes = empty_votes, rclaim = empty_rclaim\<rparr>"

definition sample_act :: "(AccountId \<Rightarrow> u128, unit) rclaim_state" where
  "sample_act = snd (add_rtoken_reward_act Root 1 100 RDOT 1000 0 20 1000000000000 (snd (set_fund_address Root 9 sample_claims)))"

definition sample_minted :: "(AccountId \<Rightarrow> u128, unit) rclaim_state" where
  "sample_minted = (update_claim_info plain_config 5 RDOT 600 700 sample_act)\<lparr>block_number := 20\<rparr>"

lemma sample_act_eq:
  "rclaim sample_act = empty_rclaim\<lparr>FundAddress := Some 9, ActLatestCycle := (\<lambda>_. 0)(RDOT := 1),
     Acts := [(RDOT, 1) \<mapsto> new_act 1 100 1 1000 0 20 1000000000000]\<rparr>"
  "block_number sample_act = 10" "native sample_act = (\<lambda>_. 5000)"
  by (simp_all add: sample_act_def sample_claims_def set_fund_address_def add_rtoken_reward_act_def ensure_act_def
      empty_rclaim_def)

lemma sample_reward: "reward_of plain_config (new_act 1 100 1 1000 0 20 1000000000000) 700 = 700"
  by (simp add: reward_of_def new_act_def RCLAIM_RATEBASE_def)

lemma new_act_simps [simp]:
  "act_begin (new_act b e n t u l r) = b" "act_end (new_act b e n t u l r) = e" "locked_blocks (new_act b e n t u l r) = l"
  "left_amount (new_act b e n t u l r) = t" "act_total_reward (new_act b e n t u l r) = t"
  by (simp_all add: new_act_def)

lemma sample_cycles: "cycle_range 1 2 = [1]"
  by (simp add: cycle_range_def upt_rec)

lemma sample_current:
  "update_act_current_cycle 10 RDOT sample_act =
     rclaim_update (\<lambda>m. m\<lparr>ActCurrentCycle := (ActCurrentCycle m)(RDOT := 1)\<rparr>) sample_act"
  by (simp add: update_act_current_cycle_def sample_act_eq empty_rclaim_def sample_cycles)

lemma sample_minted_eq:
  "ClaimInfos (rclaim sample_minted) = [(5, RDOT, 1, 0) \<mapsto> new_claim 600 700 700 10]"
  "Acts (rclaim sample_minted) = [(RDOT, 1) \<mapsto> charged_act (new_act 1 100 1 1000 0 20 1000000000000) 700 600 700]"
  "FundAddress (rclaim sample_minted) = Some 9" "block_number sample_minted = 20" "native sample_minted = (\<lambda>_. 5000)"
  by (simp_all add: sample_minted_def update_claim_info_def sample_current sample_act_eq empty_rclaim_def sample_reward)

lemma sample_minted_reach: "rclaim_reach plain_config C sample_minted"
proof -
  have "rclaim_reach plain_config C sample_claims"
    by (rule rclaim_reach.genesis) (simp add: sample_claims_def)
  then have "rclaim_reach plain_config C (snd (set_fund_address Root 9 sample_claims))"
    by (rule rclaim_reach.fund)
  then have "rclaim_reach plain_config C sample_act"
    unfolding sample_act_def
    by (rule rclaim_reach.add) (simp add: set_fund_address_def sample_claims_def empty_rclaim_def)
  then have "rclaim_reach plain_config C (update_claim_info plain_config 5 RDOT 600 700 sample_act)"
    by (rule rclaim_reach.mint)
  then show ?thesis
    unfolding sample_minted_def
    by (rule rclaim_reach.other)
      (simp_all add: update_claim_info_def sample_current sample_act_eq empty_rclaim_def sample_reward)
qed

lemma sample_claimable: "claimable plain_config 20 20 (new_claim 600 700 700 10) = 350"
  by (simp add: claimable_def new_claim_def saturating_add_def saturating_sub_def)

lemma sample_claim:
  "\<exists>t. claim_rtoken_reward plain_config (Signed 5) RDOT 1 0 sample_minted = (Ok (), t) \<and> native t 5 = 5350"
  by (simp add: claim_rtoken_reward_def sample_minted_eq charged_act_def sample_claimable native_transfer_def
      plain_transfer_def) (simp add: new_claim_def saturating_sub_def)

section \<open>Properties\<close>



text \<open>
  A claim of an rtoken reward that succeeds moves a positive amount from the fund to the claimant
  and records exactly that amount; the total recorded stays within the promise, and once the lock is
  over it is the whole promise.
\<close>

theorem claim_pays_what_it_records:
  assumes "currency_ok X" "mul_rational_ok X" "rclaim_reach X C s"
    and run: "claim_rtoken_reward X (Signed who) y c i s = (Ok u, s')"
  shows "\<exists>d a fund v d'. ClaimInfos (rclaim s) (who, y, c, i) = Some d \<and> Acts (rclaim s) (y, c) = Some a
     \<and> FundAddress (rclaim s) = Some fund \<and> 0 < (v :: u128)
     \<and> ClaimInfos (rclaim s') (who, y, c, i) = Some d'
     \<and> unat (total_claimed d') = unat (total_claimed d) + unat v \<and> total_claimed d' \<le> claim_total_reward d
     \<and> (saturating_add (mint_block d) (locked_blocks a) \<le> block_number s \<longrightarrow> total_claimed d' = claim_total_reward d)
     \<and> (\<forall>w. unat (native_free_balance X w s') + (if w = fund then unat v else 0)
          = unat (native_free_balance X w s) + (if w = who then unat v else 0))"
proof -
  from claim_rtoken_Ok [OF run] obtain d a fund n where
    d: "ClaimInfos (rclaim s) (who, y, c, i) = Some d" and a: "Acts (rclaim s) (y, c) = Some a"
    and fund: "FundAddress (rclaim s) = Some fund"
    and pos: "0 < claimable X (block_number s) (locked_blocks a) d"
    and pay: "native_transfer X fund who (claimable X (block_number s) (locked_blocks a) d) s = (Ok (), n)"
    and post: "rclaim s' = (rclaim s)\<lparr>ClaimInfos := (ClaimInfos (rclaim s))((who, y, c, i) \<mapsto>
        claimed (block_number s) (claimable X (block_number s) (locked_blocks a) d) d)\<rparr>" "native s' = native n"
    by metis
  let ?v = "claimable X (block_number s) (locked_blocks a) d"
  note inv = rclaim_okD(1) [OF rclaim_ok_reach [OF assms(2,3)]]
  have x: "rtoken_infos (rclaim s) (who, (y, c), i) = Some d" using d by (simp add: rtoken_infos_def)
  have le: "total_claimed d \<le> claim_total_reward d" by (rule budget_okD(3) [OF inv x])
  have sum: "unat (total_claimed d) + unat ?v \<le> unat (claim_total_reward d)"
    using claimable_le [OF assms(2) budget_okD(4) [OF inv x], of "locked_blocks a"] le by (simp add: word_le_nat_alt)
  then have rec: "unat (saturating_add (total_claimed d) ?v) = unat (total_claimed d) + unat ?v"
    using unat_less_pow [of "claim_total_reward d"] by (simp add: word_nat)
  have whole: "saturating_add (total_claimed d) ?v = claim_total_reward d"
    if "saturating_add (mint_block d) (locked_blocks a) \<le> block_number s"
  proof -
    have "?v = saturating_sub (claim_total_reward d) (total_claimed d)"
      using that by (simp add: claimable_def Let_def not_less [symmetric])
    then have "unat (saturating_add (total_claimed d) ?v) = unat (claim_total_reward d)"
      using rec le by (simp add: unat_saturating_sub word_le_nat_alt)
    then show ?thesis by (simp only: word_unat_eq_iff)
  qed
  have bal: "native_free_balance X w s' = native_free_balance X w n" for w
    using post(2) by (simp add: native_free_balance_def)
  let ?d' = "claimed (block_number s) ?v d"
  have tot: "total_claimed ?d' = saturating_add (total_claimed d) ?v" by (simp add: claimed_def)
  show ?thesis
  proof (intro exI conjI impI)
    show "ClaimInfos (rclaim s) (who, y, c, i) = Some d" "Acts (rclaim s) (y, c) = Some a"
      "FundAddress (rclaim s) = Some fund" "0 < ?v" by (fact d a fund pos)+
    show "ClaimInfos (rclaim s') (who, y, c, i) = Some ?d'" by (simp add: post(1))
    show "unat (total_claimed ?d') = unat (total_claimed d) + unat ?v" using rec tot by simp
    show "total_claimed ?d' \<le> claim_total_reward d" using rec sum tot by (simp add: word_le_nat_alt)
    show "total_claimed ?d' = claim_total_reward d" if "saturating_add (mint_block d) (locked_blocks a) \<le> block_number s"
      using whole [OF that] tot by simp
    show "\<forall>w. unat (native_free_balance X w s') + (if w = fund then unat ?v else 0)
        = unat (native_free_balance X w s) + (if w = who then unat ?v else 0)"
      using native_transfer_balance(1) [OF assms(1) pay] by (simp only: bal) blast
  qed
qed

theorem claim_pays_what_it_records_witness:
  "\<exists>t d'. claim_rtoken_reward plain_config (Signed 5) RDOT 1 0 sample_minted = (Ok (), t)
     \<and> ClaimInfos (rclaim t) (5, RDOT, 1, 0) = Some d' \<and> total_claimed d' \<le> 700"
proof -
  obtain t where t: "claim_rtoken_reward plain_config (Signed 5) RDOT 1 0 sample_minted = (Ok (), t)"
    using sample_claim by blast
  have "new_claim 600 700 700 10 = d \<Longrightarrow> claim_total_reward d = 700" for d by (auto simp: new_claim_def)
  with claim_pays_what_it_records [OF plain_currency_ok plain_mul_rational_ok sample_minted_reach t] t show ?thesis
    by (auto simp: sample_minted_eq new_claim_def)
qed



end
