(* ===== verification/Series.thy ===== *)
theory Series
  imports RClaim
begin

text \<open>
  \<open>rtoken/series\<close>: bonding and unbonding. A user who has sent tokens to a pool on another chain
  submits a bond record; relayers vote on it and, when it is confirmed, rtokens are minted and the
  amount joins the pipeline of the pool. Unbonding burns rtokens and queues the redemption. Signatures
  of relayers on transactions of other chains are collected here too.
\<close>

section \<open>Data\<close>

datatype (plugins only: code) BondState = Dealing | Fail | Success

record BondRecord =
  bonder :: AccountId
  rec_symbol :: RSymbol
  pubkey :: bytes
  rec_pool :: bytes
  blockhash :: bytes
  txhash :: bytes
  amount :: u128

definition BondRecord_new ::
    "AccountId \<Rightarrow> RSymbol \<Rightarrow> bytes \<Rightarrow> bytes \<Rightarrow> bytes \<Rightarrow> bytes \<Rightarrow> u128 \<Rightarrow> BondRecord" where
  "BondRecord_new bonder' symbol pubkey' pool blockhash' txhash' amount' =
     \<lparr>bonder = bonder', rec_symbol = symbol, pubkey = pubkey', rec_pool = pool,
      blockhash = blockhash', txhash = txhash', amount = amount'\<rparr>"

record UserUnlockChunk =
  chunk_pool :: bytes
  unlock_era :: u32
  chunk_value :: u128
  chunk_recipient :: bytes

record BondSwap =
  swap_bonder :: AccountId
  swap_fee :: Balance
  swap_receiver :: AccountId
  bridger :: AccountId
  swap_recipient :: bytes
  swap_dest_id :: ChainId
  expire :: BlockNumber
  bond_state :: BondState
  refunded :: bool

definition refundable :: "BondSwap \<Rightarrow> BlockNumber \<Rightarrow> bool" where
  "refundable swap now \<longleftrightarrow> \<not> refunded swap \<and> bond_state swap = BondState.Fail \<and> expire swap > now"

definition MAX_UNLOCKING_CHUNKS :: nat where "MAX_UNLOCKING_CHUNKS = 32"

definition MIN_UNLOCKING_CHUNKS :: nat where "MIN_UNLOCKING_CHUNKS = 16"

section \<open>Storage\<close>

text \<open>The storage item \<open>Signatures\<close> is \<open>TxSignatures\<close> here.\<close>

record series_store =
  BondSwitch :: bool
  RtokenBondSwitch :: "RSymbol \<Rightarrow> bool"
  BondRecords :: "RSymbol \<Rightarrow> Hash \<Rightarrow> BondRecord option"
  BondReasons :: "RSymbol \<Rightarrow> Hash \<Rightarrow> BondReason option"
  AccountBondCount :: "RSymbol \<Rightarrow> AccountId \<Rightarrow> u64"
  AccountBondRecords :: "RSymbol \<Rightarrow> AccountId \<times> u64 \<Rightarrow> Hash option"
  BondStates :: "RSymbol \<Rightarrow> bytes \<times> bytes \<Rightarrow> BondState option"
  BondSwapRefundExpire :: "RSymbol \<Rightarrow> BlockNumber option"
  BondSwaps :: "RSymbol \<Rightarrow> Hash \<Rightarrow> BondSwap option"
  RelayFeesReceiver :: "AccountId option"
  SeriesProxyAccounts :: "AccountId \<Rightarrow> u8 option"
  BondFees :: "RSymbol \<Rightarrow> Balance"
  UnbondFees :: "RSymbol \<Rightarrow> Balance"
  PoolBalanceLimit :: "RSymbol \<Rightarrow> u128"
  UnbondCommission :: Perbill
  AccountUnbonds :: "AccountId \<Rightarrow> RSymbol \<Rightarrow> UserUnlockChunk list option"
  TxSignatures :: "RSymbol \<Rightarrow> u32 \<times> bytes \<times> OriginalTxType \<times> bytes \<Rightarrow> bytes list option"
  AccountSignature :: "AccountId \<times> RSymbol \<times> u32 \<times> bytes \<times> OriginalTxType \<times> bytes \<Rightarrow> bytes option"
  Nominated :: "RSymbol \<Rightarrow> bytes \<Rightarrow> bytes list option"
  EraNominated :: "RSymbol \<Rightarrow> bytes \<times> u32 \<Rightarrow> bytes list option"

definition empty_series :: series_store where
  "empty_series = \<lparr>BondSwitch = True, RtokenBondSwitch = (\<lambda>_. True), BondRecords = (\<lambda>_ _. None),
     BondReasons = (\<lambda>_ _. None), AccountBondCount = (\<lambda>_ _. 0), AccountBondRecords = (\<lambda>_ _. None),
     BondStates = (\<lambda>_ _. None), BondSwapRefundExpire = (\<lambda>_. None), BondSwaps = (\<lambda>_ _. None),
     RelayFeesReceiver = None, SeriesProxyAccounts = (\<lambda>_. None), BondFees = (\<lambda>_. 1500000000000),
     UnbondFees = (\<lambda>_. 3000000000000), PoolBalanceLimit = (\<lambda>_. 0), UnbondCommission = 2000000,
     AccountUnbonds = (\<lambda>_ _. None), TxSignatures = (\<lambda>_ _. None), AccountSignature = (\<lambda>_. None),
     Nominated = (\<lambda>_ _. None), EraNominated = (\<lambda>_ _. None)\<rparr>"

record ('c, 'call) series_state = "('c, 'call) rclaim_state" +
  series :: series_store

type_synonym ('c, 'call, 'z) series_run =
  "(dispatch_error, unit, ('c, 'call, 'z) series_state_scheme) run"

section \<open>Administration\<close>

definition toggle_bond_switch ::
    "origin \<Rightarrow> ('c, 'call, 'z) series_state_scheme \<Rightarrow> ('c, 'call, 'z) series_run" where
  "toggle_bond_switch o' s =
     ensure_root o' s (Ok (), series_update (\<lambda>m. m\<lparr>BondSwitch := \<not> BondSwitch m\<rparr>) s)"

definition toggle_rtoken_bond_switch ::
    "origin \<Rightarrow> RSymbol \<Rightarrow> ('c, 'call, 'z) series_state_scheme \<Rightarrow> ('c, 'call, 'z) series_run" where
  "toggle_rtoken_bond_switch o' symbol s =
     ensure_root o' s (Ok (), series_update (\<lambda>m. m\<lparr>
       RtokenBondSwitch := (RtokenBondSwitch m)(symbol := \<not> RtokenBondSwitch m symbol)\<rparr>) s)"

definition set_relay_fees_receiver ::
    "origin \<Rightarrow> AccountId \<Rightarrow> ('c, 'call, 'z) series_state_scheme \<Rightarrow> ('c, 'call, 'z) series_run" where
  "set_relay_fees_receiver o' new_receiver s =
     ensure_root o' s (Ok (), series_update (\<lambda>m. m\<lparr>RelayFeesReceiver := Some new_receiver\<rparr>) s)"

definition series_set_proxy_accounts ::
    "origin \<Rightarrow> AccountId \<Rightarrow> ('c, 'call, 'z) series_state_scheme \<Rightarrow> ('c, 'call, 'z) series_run" where
  "series_set_proxy_accounts o' account s =
     ensure_root o' s (Ok (), series_update (\<lambda>m. m\<lparr>SeriesProxyAccounts := (SeriesProxyAccounts m)(account \<mapsto> 0)\<rparr>) s)"

definition series_remove_proxy_accounts ::
    "origin \<Rightarrow> AccountId \<Rightarrow> ('c, 'call, 'z) series_state_scheme \<Rightarrow> ('c, 'call, 'z) series_run" where
  "series_remove_proxy_accounts o' account s =
     ensure_root o' s (Ok (), series_update (\<lambda>m. m\<lparr>SeriesProxyAccounts := (SeriesProxyAccounts m)(account := None)\<rparr>) s)"

definition set_bond_fees ::
    "origin \<Rightarrow> RSymbol \<Rightarrow> Balance \<Rightarrow> ('c, 'call, 'z) series_state_scheme \<Rightarrow> ('c, 'call, 'z) series_run" where
  "set_bond_fees o' symbol fees s =
     ensure_signed o' s (\<lambda>who.
     ensure (SeriesProxyAccounts (series s) who \<noteq> None) (SeriesErr series_error.InvalidProxyAccount) s
       (Ok (), deposit_event (SeriesEv (BondFeesSet symbol fees))
          (series_update (\<lambda>m. m\<lparr>BondFees := (BondFees m)(symbol := fees)\<rparr>) s)))"

definition set_unbond_fees ::
    "origin \<Rightarrow> RSymbol \<Rightarrow> Balance \<Rightarrow> ('c, 'call, 'z) series_state_scheme \<Rightarrow> ('c, 'call, 'z) series_run" where
  "set_unbond_fees o' symbol fees s =
     ensure_signed o' s (\<lambda>who.
     ensure (SeriesProxyAccounts (series s) who \<noteq> None) (SeriesErr series_error.InvalidProxyAccount) s
       (Ok (), deposit_event (SeriesEv (UnbondFeesSet symbol fees))
          (series_update (\<lambda>m. m\<lparr>UnbondFees := (UnbondFees m)(symbol := fees)\<rparr>) s)))"

definition set_balance_limit ::
    "origin \<Rightarrow> RSymbol \<Rightarrow> u128 \<Rightarrow> ('c, 'call, 'z) series_state_scheme \<Rightarrow> ('c, 'call, 'z) series_run" where
  "set_balance_limit o' symbol new_limit s =
     ensure_root o' s
       (let old_limit = PoolBalanceLimit (series s) symbol
        in (Ok (), deposit_event (SeriesEv (PoolBalanceLimitUpdated symbol old_limit new_limit))
             (series_update (\<lambda>m. m\<lparr>PoolBalanceLimit := (PoolBalanceLimit m)(symbol := new_limit)\<rparr>) s)))"

definition set_unbond_commission ::
    "'c config \<Rightarrow> origin \<Rightarrow> u32 \<Rightarrow> ('c, 'call, 'z) series_state_scheme \<Rightarrow> ('c, 'call, 'z) series_run" where
  "set_unbond_commission X o' new_part s =
     ensure_root o' s
      (ensure (new_part < 1000000000) (SeriesErr series_error.OverFlow) s
        (let old_commission = UnbondCommission (series s);
             new_commission = perbill_from_parts X new_part
         in (Ok (), deposit_event (SeriesEv (UnbondCommissionUpdated old_commission new_commission))
              (series_update (\<lambda>m. m\<lparr>UnbondCommission := new_commission\<rparr>) s))))"

definition init_nominations ::
    "origin \<Rightarrow> RSymbol \<Rightarrow> bytes \<Rightarrow> bytes list \<Rightarrow> ('c, 'call, 'z) series_state_scheme \<Rightarrow> ('c, 'call, 'z) series_run" where
  "init_nominations o' symbol pool validators s =
     ensure_root o' s
      (ensure (pool \<in> set (BondedPools (ledger s) symbol)) (LedgerErr PoolNotBonded) s
      (ensure (Nominated (series s) symbol pool = None) (SeriesErr NominationsInitialized) s
        (Ok (), series_update (\<lambda>m. m\<lparr>Nominated := put2 symbol pool (Some validators) (Nominated m)\<rparr>) s)))"

definition update_nominations ::
    "origin \<Rightarrow> RSymbol \<Rightarrow> bytes \<Rightarrow> bytes list \<Rightarrow> u32 \<Rightarrow> ('c, 'call, 'z) series_state_scheme
     \<Rightarrow> ('c, 'call, 'z) series_run" where
  "update_nominations o' symbol pool new_validators era s =
     ensure_root o' s
      (ensure (pool \<in> set (BondedPools (ledger s) symbol)) (LedgerErr PoolNotBonded) s
      (ok_or (LastVoter (ledger s) symbol) (LedgerErr LastVoterNobody) s (\<lambda>voter.
        let old_validators = unwrap_or (Nominated (series s) symbol pool) [];
            s1 = if length old_validators > 0
                 then let current_era = unwrap_or (ChainEras (ledger s) symbol) era
                      in series_update (\<lambda>m. m\<lparr>EraNominated :=
                           put2 symbol (pool, current_era) (Some old_validators) (EraNominated m)\<rparr>) s
                 else s
        in (Ok (), deposit_event (SeriesEv (NominationUpdated symbol pool new_validators era voter))
             (series_update (\<lambda>m. m\<lparr>Nominated := put2 symbol pool (Some new_validators) (Nominated m)\<rparr>) s1)))))"

definition update_validator ::
    "origin \<Rightarrow> RSymbol \<Rightarrow> bytes \<Rightarrow> bytes \<Rightarrow> bytes \<Rightarrow> u32 \<Rightarrow> ('c, 'call, 'z) series_state_scheme
     \<Rightarrow> ('c, 'call, 'z) series_run" where
  "update_validator o' symbol pool old_validator new_validator era s =
     ensure_root o' s
      (ensure (pool \<in> set (BondedPools (ledger s) symbol)) (LedgerErr PoolNotBonded) s
       (let validators = unwrap_or (Nominated (series s) symbol pool) [];
            validators1 = (case position (\<lambda>v. v = old_validator) validators of
                None \<Rightarrow> validators | Some i \<Rightarrow> remove_nth i validators)
        in (Ok (), deposit_event (SeriesEv (ValidatorUpdated symbol pool old_validator new_validator era))
             (series_update (\<lambda>m. m\<lparr>Nominated :=
                put2 symbol pool (Some (validators1 @ [new_validator])) (Nominated m)\<rparr>) s))))"

definition swap_refund_expire ::
    "origin \<Rightarrow> RSymbol \<Rightarrow> BlockNumber \<Rightarrow> ('c, 'call, 'z) series_state_scheme \<Rightarrow> ('c, 'call, 'z) series_run" where
  "swap_refund_expire o' symbol number s =
     ensure_root o' s (Ok (), series_update (\<lambda>m. m\<lparr>
       BondSwapRefundExpire := (BondSwapRefundExpire m)(symbol \<mapsto> number)\<rparr>) s)"

section \<open>Bonding\<close>

definition is_txhash_available :: "RSymbol \<Rightarrow> bytes \<Rightarrow> bytes \<Rightarrow> ('c, 'call, 'z) series_state_scheme \<Rightarrow> bool" where
  "is_txhash_available symbol blockhash' txhash' s =
     (case BondStates (series s) symbol (blockhash', txhash') of
        None \<Rightarrow> True
      | Some state \<Rightarrow> state = BondState.Fail)"

definition is_txhash_executable :: "RSymbol \<Rightarrow> bytes \<Rightarrow> bytes \<Rightarrow> ('c, 'call, 'z) series_state_scheme \<Rightarrow> bool" where
  "is_txhash_executable symbol blockhash' txhash' s =
     (case BondStates (series s) symbol (blockhash', txhash') of
        None \<Rightarrow> False
      | Some state \<Rightarrow> state = Dealing \<or> state = BondState.Fail)"

definition protocol_unbond_fee :: "'c config \<Rightarrow> u128 \<Rightarrow> ('c, 'call, 'z) series_state_scheme \<Rightarrow> u128" where
  "protocol_unbond_fee X value s = perbill_mul X (UnbondCommission (series s)) value"

definition bondable ::
    "crypto \<Rightarrow> AccountId \<Rightarrow> bytes \<Rightarrow> bytes \<Rightarrow> bytes \<Rightarrow> bytes \<Rightarrow> bytes \<Rightarrow> u128 \<Rightarrow> RSymbol
     \<Rightarrow> ('c, 'call, 'z) series_state_scheme \<Rightarrow> ('c, 'call, 'z) series_run" where
  "bondable C who pubkey' signature pool blockhash' txhash' amount' symbol s =
     ensure (BondSwitch (series s)) (SeriesErr BondSwitchClosed) s
    (ensure (RtokenBondSwitch (series s) symbol) (SeriesErr BondSwitchClosed) s
    (ensure (amount' > 0) (SeriesErr LiquidityBondZero) s
    (ensure (is_txhash_available symbol blockhash' txhash' s) (SeriesErr TxhashUnavailable) s
    (ensure (pool \<in> set (BondedPools (ledger s) symbol)) (LedgerErr PoolNotBonded) s
      (let sig_msg = if chain_type symbol = Ethereum then to_ascii_hex (account_bytes who) else account_bytes who
       in unwrap (verify_signature C symbol pubkey' signature sig_msg) s (\<lambda>result.
            case result of
              SigVerifyResult.InvalidPubkey \<Rightarrow> (Err (SeriesErr series_error.InvalidPubkey), s)
            | SigVerifyResult.Fail \<Rightarrow> (Err (SeriesErr InvalidSignature), s)
            | SigVerifyResult.Pass \<Rightarrow> (Ok (), s)))))))"

text \<open>What both ways of bonding write once the fees are paid.\<close>

definition book_bond ::
    "AccountId \<Rightarrow> Hash \<Rightarrow> BondRecord \<Rightarrow> u64 \<Rightarrow> u64 \<Rightarrow> ('c, 'call, 'z) series_state_scheme
     \<Rightarrow> ('c, 'call, 'z) series_state_scheme" where
  "book_bond who bond_id rec old_count new_count s =
     deposit_event (SeriesEv (LiquidityBond who (rec_symbol rec) bond_id))
      (series_update (\<lambda>m. m\<lparr>
         BondStates := put2 (rec_symbol rec) (blockhash rec, txhash rec) (Some Dealing) (BondStates m),
         AccountBondCount := put2 (rec_symbol rec) who new_count (AccountBondCount m),
         AccountBondRecords := put2 (rec_symbol rec) (who, old_count) (Some bond_id) (AccountBondRecords m),
         BondRecords := put2 (rec_symbol rec) bond_id (Some rec) (BondRecords m)\<rparr>) s)"

definition liquidity_bond ::
    "'c config \<Rightarrow> crypto \<Rightarrow> (BondRecord \<Rightarrow> Hash) \<Rightarrow> origin \<Rightarrow> bytes \<Rightarrow> bytes \<Rightarrow> bytes \<Rightarrow> bytes \<Rightarrow> bytes \<Rightarrow> u128
     \<Rightarrow> RSymbol \<Rightarrow> ('c, 'call, 'z) series_state_scheme \<Rightarrow> ('c, 'call, 'z) series_run" where
  "liquidity_bond X C hash_of o' pubkey' signature pool blockhash' txhash' amount' symbol s =
     ensure_signed o' s (\<lambda>who.
     and_then (bondable C who pubkey' signature pool blockhash' txhash' amount' symbol s) (\<lambda>_ s.
     ok_or (RelayFeesReceiver (series s)) (SeriesErr NoRelayFeesReceiver) s (\<lambda>receiver.
     let rec = BondRecord_new who symbol pubkey' pool blockhash' txhash' amount';
         bond_id = hash_of rec
     in ensure (BondRecords (series s) symbol bond_id = None) (SeriesErr BondRepeated) s
       (let old_count = AccountBondCount (series s) symbol who
        in ok_or (checked_add old_count 1) (SeriesErr series_error.OverFlow) s (\<lambda>new_count.
           let bond_fee = BondFees (series s) symbol
           in and_then (run_if (bond_fee > 0) (native_transfer X who receiver bond_fee) s) (\<lambda>_ s1.
                (Ok (), book_bond who bond_id rec old_count new_count s1)))))))"

definition liquidity_bond_and_swap ::
    "'c config \<Rightarrow> crypto \<Rightarrow> (BondRecord \<Rightarrow> Hash) \<Rightarrow> origin \<Rightarrow> bytes \<Rightarrow> bytes \<Rightarrow> bytes \<Rightarrow> bytes \<Rightarrow> bytes \<Rightarrow> u128
     \<Rightarrow> RSymbol \<Rightarrow> bytes \<Rightarrow> ChainId \<Rightarrow> ('c, 'call, 'z) series_state_scheme \<Rightarrow> ('c, 'call, 'z) series_run" where
  "liquidity_bond_and_swap X C hash_of o' pubkey' signature pool blockhash' txhash' amount' symbol recipient dest_id s =
     ensure_signed o' s (\<lambda>who.
     and_then (bondable C who pubkey' signature pool blockhash' txhash' amount' symbol s) (\<lambda>_ s.
     ok_or (RelayFeesReceiver (series s)) (SeriesErr NoRelayFeesReceiver) s (\<lambda>bond_receiver.
     let rec = BondRecord_new who symbol pubkey' pool blockhash' txhash' amount';
         bond_id = hash_of rec
     in ensure (BondRecords (series s) symbol bond_id = None) (SeriesErr BondRepeated) s
       (let old_count = AccountBondCount (series s) symbol who
        in ok_or (checked_add old_count 1) (SeriesErr series_error.OverFlow) s (\<lambda>new_count.
           let bond_fee = BondFees (series s) symbol
           in and_then
             (if dest_id \<noteq> ChainIdentity X
              then swapable X recipient dest_id s (\<lambda>(fee, receiver, bridger').
                   ok_or (RsymbolResource (bridge s) symbol) (BridgeErr bridge_error.RsymbolNotMapped) s (\<lambda>_.
                   and_then
                     (if fee > 0 \<and> bond_fee > 0
                      then and_then (native_transfer X who bridger' (saturating_add fee bond_fee) s)
                             (\<lambda>_ s1. native_transfer X bridger' bond_receiver bond_fee s1)
                      else if fee > 0 then native_transfer X who bridger' fee s
                      else if bond_fee > 0 then native_transfer X who bond_receiver bond_fee s
                      else (Ok (), s))
                     (\<lambda>_ s1.
                      (Ok (), series_update (\<lambda>m. m\<lparr>BondSwaps := put2 symbol bond_id
                         (Some \<lparr>swap_bonder = who, swap_fee = fee, swap_receiver = receiver, bridger = bridger',
                            swap_recipient = recipient, swap_dest_id = dest_id, expire = 0, bond_state = Dealing,
                            refunded = False\<rparr>) (BondSwaps m)\<rparr>) s1))))
              else run_if (bond_fee > 0) (native_transfer X who bond_receiver bond_fee) s)
             (\<lambda>_ s1. (Ok (), book_bond who bond_id rec old_count new_count s1)))))))"

text \<open>The expiry of a refund, like every sum of block numbers here, wraps.\<close>

definition execute_bond_record ::
    "'c config \<Rightarrow> origin \<Rightarrow> RSymbol \<Rightarrow> Hash \<Rightarrow> BondReason \<Rightarrow> ('c, 'call, 'z) series_state_scheme
     \<Rightarrow> ('c, 'call, 'z) series_run" where
  "execute_bond_record X o' symbol bond_id reason s =
     ensure_voter X o' s
    (ok_or (BondRecords (series s) symbol bond_id) (SeriesErr BondNotFound) s (\<lambda>rec.
     ensure (is_txhash_executable symbol (blockhash rec) (txhash rec) s) (SeriesErr TxhashUnexecutable) s
      (let op_swap = BondSwaps (series s) symbol bond_id in
       if reason \<noteq> BondReason.Pass then
         and_then
           (case op_swap of
              None \<Rightarrow> (Ok (), s)
            | Some swap \<Rightarrow>
                if \<not> refunded swap
                then ok_or (BondSwapRefundExpire (series s) symbol) (SeriesErr ExpireNotSet) s (\<lambda>expire0.
                       (Ok (), series_update (\<lambda>m. m\<lparr>BondSwaps := put2 symbol bond_id
                          (Some (swap\<lparr>expire := expire0 + block_number s, bond_state := BondState.Fail\<rparr>)) (BondSwaps m)\<rparr>) s))
                else (Ok (), s))
           (\<lambda>_ s1. (Ok (), series_update (\<lambda>m. m\<lparr>
              BondReasons := put2 symbol bond_id (Some reason) (BondReasons m),
              BondStates := put2 symbol (blockhash rec, txhash rec) (Some BondState.Fail) (BondStates m)\<rparr>) s1))
       else
         let pipe = get_pipeline symbol (rec_pool rec) s in
         ok_or (checked_add (pipe_bond pipe) (amount rec)) (SeriesErr series_error.OverFlow) s (\<lambda>bond'.
         ok_or (checked_add (pipe_active pipe) (amount rec)) (SeriesErr series_error.OverFlow) s (\<lambda>active'.
         let pipe1 = pipe\<lparr>pipe_bond := bond', pipe_active := active'\<rparr>;
             rbalance = token_to_rtoken X symbol (amount rec) s
         in and_then
           (case op_swap of
              Some swap \<Rightarrow>
                ok_or (RsymbolResource (bridge s) symbol) (BridgeErr bridge_error.RsymbolNotMapped) s (\<lambda>resource.
                and_then (native_transfer X (bridger swap) (swap_receiver swap) (swap_fee swap) s) (\<lambda>_ s1.
                and_then (rbal_mint (bridger swap) symbol rbalance s1) (\<lambda>_ s2.
                and_then (transfer_fungible (swap_bonder swap) (swap_dest_id swap) resource (swap_recipient swap)
                   (ucast rbalance) s2) (\<lambda>_ s3.
                (Ok (), series_update (\<lambda>m. m\<lparr>BondSwaps := put2 symbol bond_id
                   (Some (swap\<lparr>bond_state := Success\<rparr>)) (BondSwaps m)\<rparr>) s3)))))
            | None \<Rightarrow> rbal_mint (bonder rec) symbol rbalance s)
           (\<lambda>_ s1.
            let s2 = series_update (\<lambda>m. m\<lparr>
                  BondReasons := put2 symbol bond_id (Some reason) (BondReasons m),
                  BondStates := put2 symbol (blockhash rec, txhash rec) (Some Success) (BondStates m)\<rparr>) s1;
                s3 = put_pipeline symbol (rec_pool rec) pipe1 s2
            in (Ok (), update_claim_info X (bonder rec) symbol rbalance (amount rec) s3)))))))"

section \<open>Unbonding\<close>

text \<open>The list of a user's unbonding chunks with room made for one more.\<close>

definition trim_chunks :: "u32 \<Rightarrow> UserUnlockChunk list \<Rightarrow> UserUnlockChunk list" where
  "trim_chunks current_era user_unlocking =
     (if length user_unlocking \<ge> MAX_UNLOCKING_CHUNKS
      then let pending = filter (\<lambda>chunk. unlock_era chunk \<ge> current_era) user_unlocking
           in if length pending < MIN_UNLOCKING_CHUNKS
              then drop (MAX_UNLOCKING_CHUNKS - MIN_UNLOCKING_CHUNKS + 1) user_unlocking
              else pending
      else user_unlocking)"

definition liquidity_unbond ::
    "'c config \<Rightarrow> crypto \<Rightarrow> origin \<Rightarrow> RSymbol \<Rightarrow> bytes \<Rightarrow> u128 \<Rightarrow> bytes
     \<Rightarrow> ('c, 'call, 'z) series_state_scheme \<Rightarrow> ('c, 'call, 'z) series_run" where
  "liquidity_unbond X C o' symbol pool value recipient s =
     ensure_signed o' s (\<lambda>who.
     ensure (value > 0) (SeriesErr LiquidityUnbondZero) s
    (ensure (RtokenBondSwitch (series s) symbol) (SeriesErr BondSwitchClosed) s
    (ensure (pool \<in> set (BondedPools (ledger s) symbol)) (LedgerErr ledger_error.PoolNotFound) s
    (ensure (verify_recipient C symbol recipient) (SeriesErr series_error.InvalidPubkey) s
    (ok_or (ChainEras (ledger s) symbol) (SeriesErr NoCurrentEra) s (\<lambda>current_era.
     ok_or (ChainBondingDuration (ledger s) symbol) (SeriesErr BondingDurationNotSet) s (\<lambda>bonding_duration.
     let unlock_era' = current_era + bonding_duration in
     ok_or (Receiver (ledger s)) (LedgerErr NoReceiver) s (\<lambda>receiver.
     ok_or (RelayFeesReceiver (series s)) (SeriesErr NoRelayFeesReceiver) s (\<lambda>relay_fees_receiver.
     ok_or (checked_sub (rbal_free_balance who symbol s) value) (SeriesErr Insufficient) s (\<lambda>_.
     let fee = protocol_unbond_fee X value s in
     ok_or (checked_sub value fee) (SeriesErr Insufficient) s (\<lambda>left_value.
     ensure (left_value > 0) (SeriesErr Insufficient) s
      (let balance = rtoken_to_token X symbol left_value s;
           pipe = get_pipeline symbol pool s
       in ok_or (checked_add (pipe_unbond pipe) balance) (SeriesErr series_error.OverFlow) s (\<lambda>unbond'.
          ok_or (checked_sub (pipe_active pipe) balance) (SeriesErr Insufficient) s (\<lambda>active'.
          let pipe1 = pipe\<lparr>pipe_unbond := unbond', pipe_active := active'\<rparr>;
              ac_unbonds = trim_chunks current_era (unwrap_or (AccountUnbonds (series s) who symbol) [])
          in ensure (length ac_unbonds < MAX_UNLOCKING_CHUNKS) (SeriesErr NoMoreUnbondingChunks) s
            (let pool_unbonds = unwrap_or (PoolUnbonds (ledger s) symbol (pool, unlock_era')) [];
                 limit = EraUnbondLimit (ledger s) symbol
             in ensure (limit = 0 \<or> length pool_unbonds \<le> unat limit) (SeriesErr PoolLimitReached) s
               (let ac_unbonds1 = ac_unbonds @ [\<lparr>chunk_pool = pool, unlock_era = unlock_era', chunk_value = balance,
                      chunk_recipient = recipient\<rparr>];
                    pool_unbonds1 = pool_unbonds @ [\<lparr>unbond_who = who, unbond_value = balance, unbond_recipient = recipient\<rparr>];
                    fees = UnbondFees (series s) symbol
                in and_then (run_if (fees > 0) (native_transfer X who relay_fees_receiver fees) s) (\<lambda>_ s1.
                   and_then (rbal_transfer who receiver symbol fee s1) (\<lambda>_ s2.
                   and_then (rbal_burn who symbol left_value s2) (\<lambda>_ s3.
                   (Ok (), deposit_event (SeriesEv (LiquidityUnBond who symbol pool value left_value balance recipient))
                      (ledger_update (\<lambda>l. l\<lparr>PoolUnbonds := put2 symbol (pool, unlock_era') (Some pool_unbonds1) (PoolUnbonds l)\<rparr>)
                      (series_update (\<lambda>m. m\<lparr>AccountUnbonds := put2 who symbol (Some ac_unbonds1) (AccountUnbonds m)\<rparr>)
                      (put_pipeline symbol pool pipe1 s3)))))))))))))))))))))))"

section \<open>Signatures and refunds\<close>

definition submit_signatures ::
    "origin \<Rightarrow> RSymbol \<Rightarrow> u32 \<Rightarrow> bytes \<Rightarrow> OriginalTxType \<Rightarrow> bytes \<Rightarrow> bytes
     \<Rightarrow> ('c, 'call, 'z) series_state_scheme \<Rightarrow> ('c, 'call, 'z) series_run" where
  "submit_signatures o' symbol era pool tx_type proposal_id signature s =
     ensure_signed o' s (\<lambda>who.
     ensure (chain_type symbol \<noteq> Substrate) (SeriesErr series_error.InvalidRSymbol) s
    (ensure (rrelayers_is_relayer symbol who s) (RTokenRelayersErr relayers_error.MustBeRelayer) s
    (ensure (pool \<in> set (BondedPools (ledger s) symbol)) (LedgerErr ledger_error.PoolNotFound) s
    (ok_or (ChainEras (ledger s) symbol) (SeriesErr NoCurrentEra) s (\<lambda>current_era.
     ensure (era \<le> current_era) (SeriesErr InvalidEra) s
    (ensure (AccountSignature (series s) (who, symbol, era, pool, tx_type, proposal_id) = None)
       (SeriesErr series_error.SignatureRepeated) s
      (let signatures = unwrap_or (TxSignatures (series s) symbol (era, pool, tx_type, proposal_id)) [] in
       ensure (signature \<notin> set signatures) (SeriesErr series_error.SignatureRepeated) s
        (let signatures1 = signatures @ [signature];
             s1 = series_update (\<lambda>m. m\<lparr>
                TxSignatures := put2 symbol (era, pool, tx_type, proposal_id) (Some signatures1) (TxSignatures m),
                AccountSignature := (AccountSignature m)((who, symbol, era, pool, tx_type, proposal_id) \<mapsto> signature)\<rparr>) s;
             s2 = if length signatures1 = unat (unwrap_or (MultiThresholds (ledger s) symbol pool) 0)
                  then deposit_event (SeriesEv (SignaturesEnough symbol era pool tx_type proposal_id)) s1
                  else s1
         in (Ok (), deposit_event (SeriesEv (series_event.SubmitSignatures who symbol era pool tx_type proposal_id signature)) s2)))))))))"

definition refund_swap_fee ::
    "'c config \<Rightarrow> origin \<Rightarrow> RSymbol \<Rightarrow> Hash \<Rightarrow> ('c, 'call, 'z) series_state_scheme \<Rightarrow> ('c, 'call, 'z) series_run" where
  "refund_swap_fee X o' symbol bond_id s =
     ensure_signed o' s (\<lambda>_.
     ok_or (BondSwaps (series s) symbol bond_id) (SeriesErr SwapNotExist) s (\<lambda>swap.
     ensure (refundable swap (block_number s)) (Other ''not refundable'') s
      (and_then (native_transfer X (bridger swap) (swap_bonder swap) (swap_fee swap) s) (\<lambda>_ s1.
         (Ok (), deposit_event (SeriesEv (SwapFeeRefunded symbol bond_id))
            (series_update (\<lambda>m. m\<lparr>BondSwaps := put2 symbol bond_id (Some (swap\<lparr>refunded := True\<rparr>)) (BondSwaps m)\<rparr>) s1))))))"

section \<open>Frame lemmas\<close>

text \<open>What the calls into the other pallets leave alone.\<close>

lemma native_transfer_frame:
  assumes "native_transfer X a b v s = (r, s')"
  shows "series s' = series s" "ledger s' = ledger s" "rates s' = rates s" "rbalances s' = rbalances s"
    "rclaim s' = rclaim s" "bridge s' = bridge s" "block_number s' = block_number s"
  using assms by (auto simp: native_transfer_def split: prod.splits)

lemma rbal_frame:
  assumes "rbal_lift m s = (r, s')"
  shows "series s' = series s" "ledger s' = ledger s" "rates s' = rates s" "native s' = native s"
    "rclaim s' = rclaim s" "bridge s' = bridge s" "block_number s' = block_number s"
proof -
  obtain st evs where "s' = s\<lparr>rbalances := st, events := evs\<rparr>"
    using rbal_lift_state [of m s] assms by auto
  then show "series s' = series s" "ledger s' = ledger s" "rates s' = rates s" "native s' = native s"
    "rclaim s' = rclaim s" "bridge s' = bridge s" "block_number s' = block_number s" by simp_all
qed

lemmas rbal_mint_frame = rbal_frame [of "token_mint a y v" for a y v, folded rbal_mint_def]
  and rbal_burn_frame = rbal_frame [of "token_burn a y v" for a y v, folded rbal_burn_def]
  and rbal_transfer_frame = rbal_frame [of "token_transfer a b y v" for a b y v, folded rbal_transfer_def]

lemma transfer_fungible_series:
  assumes "transfer_fungible a d rid to v s = (r, s')"
  shows "series s' = series s" "ledger s' = ledger s" "rates s' = rates s" "rbalances s' = rbalances s"
    "native s' = native s" "rclaim s' = rclaim s"
  using assms
  by (auto simp: transfer_fungible_def bump_nonce_def Let_def ensure_def deposit_event_def split: if_splits)

lemma series_deposit [simp]:
  "series (deposit_event e s) = series s" "ledger (deposit_event e s) = ledger s" "rates (deposit_event e s) = rates s"
  "rbalances (deposit_event e s) = rbalances s"
  by (simp_all add: deposit_event_def)

lemma update_act_current_cycle_frame [simp]:
  "series (update_act_current_cycle now y s) = series s" "ledger (update_act_current_cycle now y s) = ledger s"
  "rates (update_act_current_cycle now y s) = rates s" "rbalances (update_act_current_cycle now y s) = rbalances s"
  "native (update_act_current_cycle now y s) = native s"
  using current_cycle_state [of now y s] by auto

lemma update_claim_info_frame [simp]:
  "series (update_claim_info X w y a b s) = series s" "ledger (update_claim_info X w y a b s) = ledger s"
  "rates (update_claim_info X w y a b s) = rates s" "rbalances (update_claim_info X w y a b s) = rbalances s"
  "native (update_claim_info X w y a b s) = native s"
  by (simp_all add: update_claim_info_def Let_def split: option.splits)

lemma put_pipeline_frame [simp]:
  "series (put_pipeline y p c s) = series s" "rates (put_pipeline y p c s) = rates s"
  "rbalances (put_pipeline y p c s) = rbalances s" "native (put_pipeline y p c s) = native s"
  "rclaim (put_pipeline y p c s) = rclaim s"
  "BondPipelines (ledger (put_pipeline y p c s)) = put2 y p (Some c) (BondPipelines (ledger s))"
  by (simp_all add: put_pipeline_def)

lemma rbal_observers_cong:
  "rbalances s = rbalances t \<Longrightarrow> rbal_free_balance w y s = rbal_free_balance w y t"
  "rbalances s = rbalances t \<Longrightarrow> rbal_total_issuance y s = rbal_total_issuance y t"
  by (simp_all add: rbal_free_balance_def rbal_total_issuance_def)

section \<open>Execution of bond records\<close>

text \<open>A successful execution of a confirmed record: who is credited, and what is written.\<close>

lemma execute_pass_Ok:
  fixes s s' :: "('c, 'call, 'z) series_state_scheme"
  assumes "execute_bond_record X o' y i BondReason.Pass s = (Ok u, s')"
  obtains rec and s1 s2 :: "('c, 'call, 'z) series_state_scheme" where "BondRecords (series s) y i = Some rec"
    "is_txhash_executable y (blockhash rec) (txhash rec) s"
    "unat (pipe_active (get_pipeline y (rec_pool rec) s)) + unat (amount rec) < 2 ^ 128"
    "rbal_mint (case BondSwaps (series s) y i of Some swap \<Rightarrow> bridger swap | None \<Rightarrow> bonder rec) y
       (token_to_rtoken X y (amount rec) s) s1 = (Ok (), s2)"
    "rbalances s1 = rbalances s" "rbalances s' = rbalances s2" "rates s' = rates s"
    "BondPipelines (ledger s') = put2 y (rec_pool rec) (Some ((get_pipeline y (rec_pool rec) s)
       \<lparr>pipe_bond := pipe_bond (get_pipeline y (rec_pool rec) s) + amount rec,
        pipe_active := pipe_active (get_pipeline y (rec_pool rec) s) + amount rec\<rparr>)) (BondPipelines (ledger s))"
    "BondStates (series s') = put2 y (blockhash rec, txhash rec) (Some Success) (BondStates (series s))"
proof (cases "BondSwaps (series s) y i")
  case None
  with assms obtain rec t where "BondRecords (series s) y i = Some rec"
    "is_txhash_executable y (blockhash rec) (txhash rec) s"
    "unat (pipe_active (get_pipeline y (rec_pool rec) s)) + unat (amount rec) < 2 ^ 128"
    and mint: "rbal_mint (bonder rec) y (token_to_rtoken X y (amount rec) s) s = (Ok (), t)"
    and "s' = update_claim_info X (bonder rec) y (token_to_rtoken X y (amount rec) s) (amount rec)
      (put_pipeline y (rec_pool rec) ((get_pipeline y (rec_pool rec) s)
         \<lparr>pipe_bond := pipe_bond (get_pipeline y (rec_pool rec) s) + amount rec,
          pipe_active := pipe_active (get_pipeline y (rec_pool rec) s) + amount rec\<rparr>)
      (series_update (\<lambda>m. m\<lparr>BondReasons := put2 y i (Some BondReason.Pass) (BondReasons m),
         BondStates := put2 y (blockhash rec, txhash rec) (Some Success) (BondStates m)\<rparr>) t))"
    by (auto simp: execute_bond_record_def ensure_voter_def run_ok Let_def)
  with None show ?thesis
    by (intro that [of rec s t]) (simp_all add: rbal_mint_frame [OF mint])
next
  case (Some swap)
  with assms obtain rec resource t0 t1 t2 where "BondRecords (series s) y i = Some rec"
    "is_txhash_executable y (blockhash rec) (txhash rec) s"
    "unat (pipe_active (get_pipeline y (rec_pool rec) s)) + unat (amount rec) < 2 ^ 128"
    and fee: "native_transfer X (bridger swap) (swap_receiver swap) (swap_fee swap) s = (Ok (), t0)"
    and mint: "rbal_mint (bridger swap) y (token_to_rtoken X y (amount rec) s) t0 = (Ok (), t1)"
    and out: "transfer_fungible (swap_bonder swap) (swap_dest_id swap) resource (swap_recipient swap)
      (ucast (token_to_rtoken X y (amount rec) s)) t1 = (Ok (), t2)"
    and "s' = update_claim_info X (bonder rec) y (token_to_rtoken X y (amount rec) s) (amount rec)
      (put_pipeline y (rec_pool rec) ((get_pipeline y (rec_pool rec) s)
         \<lparr>pipe_bond := pipe_bond (get_pipeline y (rec_pool rec) s) + amount rec,
          pipe_active := pipe_active (get_pipeline y (rec_pool rec) s) + amount rec\<rparr>)
      (series_update (\<lambda>m. m\<lparr>BondReasons := put2 y i (Some BondReason.Pass) (BondReasons m),
         BondStates := put2 y (blockhash rec, txhash rec) (Some Success) (BondStates m)\<rparr>)
      (series_update (\<lambda>m. m\<lparr>BondSwaps := put2 y i (Some (swap\<lparr>bond_state := Success\<rparr>)) (BondSwaps m)\<rparr>) t2)))"
    by (auto simp: execute_bond_record_def ensure_voter_def run_ok Let_def)
  with Some show ?thesis
    by (intro that [of rec t0 t1])
      (simp_all add: native_transfer_frame [OF fee] rbal_mint_frame [OF mint] transfer_fungible_series [OF out])
qed

section \<open>A confirmed transfer stays confirmed\<close>

lemma native_transfer_series [run_keeps]:
  "Q (series s) \<Longrightarrow> keeps (\<lambda>t. Q (series t)) (native_transfer X a b v s)"
  by (cases "native_transfer X a b v s") (simp add: keeps_def native_transfer_frame)

lemma rbal_series [run_keeps]:
  "Q (series s) \<Longrightarrow> keeps (\<lambda>t. Q (series t)) (rbal_mint a y v s)"
  "Q (series s) \<Longrightarrow> keeps (\<lambda>t. Q (series t)) (rbal_burn a y v s)"
  "Q (series s) \<Longrightarrow> keeps (\<lambda>t. Q (series t)) (rbal_transfer a b y v s)"
  by (cases "rbal_mint a y v s", simp add: keeps_def rbal_mint_frame)
    (cases "rbal_burn a y v s", simp add: keeps_def rbal_burn_frame,
     cases "rbal_transfer a b y v s", simp add: keeps_def rbal_transfer_frame)

lemma transfer_fungible_keeps_series [run_keeps]:
  "Q (series s) \<Longrightarrow> keeps (\<lambda>t. Q (series t)) (transfer_fungible a d rid to v s)"
  by (cases "transfer_fungible a d rid to v s") (simp add: keeps_def transfer_fungible_series)

lemma swapable_keeps [run_keeps]:
  "P s \<Longrightarrow> (\<And>f r b. keeps P (k f r b)) \<Longrightarrow> keeps P (swapable X recipient d s (\<lambda>(f, r, b). k f r b))"
  unfolding swapable_def by (intro run_keeps) simp_all

lemma bondable_state: "bondable C who key sig pool bh th v y s = (Ok u, t) \<Longrightarrow> t = s \<and> is_txhash_available y bh th s"
  by (auto simp: bondable_def run_ok Let_def split: SigVerifyResult.splits)
    (meson SigVerifyResult.exhaust)+

lemma bondable_keeps [run_keeps]: "P s \<Longrightarrow> keeps P (bondable C who key sig pool bh th v y s)"
  unfolding bondable_def Let_def by (intro run_keeps) (auto intro: run_keeps split: SigVerifyResult.split)

lemma book_bond_states:
  "BondStates (series (book_bond who i rec a b s)) = put2 (rec_symbol rec) (blockhash rec, txhash rec) (Some Dealing) (BondStates (series s))"
  by (simp add: book_bond_def)

lemma BondRecord_new_simps [simp]:
  "rec_symbol (BondRecord_new w y key pool bh th v) = y" "blockhash (BondRecord_new w y key pool bh th v) = bh"
  "txhash (BondRecord_new w y key pool bh th v) = th" "bonder (BondRecord_new w y key pool bh th v) = w"
  "amount (BondRecord_new w y key pool bh th v) = v" "rec_pool (BondRecord_new w y key pool bh th v) = pool"
  by (simp_all add: BondRecord_new_def)

abbreviation confirmed :: "RSymbol \<Rightarrow> bytes \<times> bytes \<Rightarrow> series_store \<Rightarrow> bool" where
  "confirmed y k m \<equiv> BondStates m y k = Some Success"

lemma not_available: "confirmed y (bh, th) (series s) \<Longrightarrow> \<not> is_txhash_available y bh th s"
  by (simp add: is_txhash_available_def)

lemma not_executable: "confirmed y (bh, th) (series s) \<Longrightarrow> \<not> is_txhash_executable y bh th s"
  by (simp add: is_txhash_executable_def)

lemma liquidity_bond_confirmed:
  assumes "confirmed z k (series s)"
  shows "keeps (\<lambda>t. confirmed z k (series t)) (liquidity_bond X C h o' key sig pool bh th v y s)"
  unfolding liquidity_bond_def Let_def
  using assms by (intro run_keeps) (auto simp: book_bond_states not_available dest: bondable_state)

lemma liquidity_bond_and_swap_confirmed:
  assumes "confirmed z k (series s)"
  shows "keeps (\<lambda>t. confirmed z k (series t)) (liquidity_bond_and_swap X C h o' key sig pool bh th v y rcp d s)"
  unfolding liquidity_bond_and_swap_def Let_def
  using assms by (intro run_keeps) (auto simp: book_bond_states not_available dest: bondable_state)

lemma execute_confirmed:
  assumes "confirmed z k (series s)"
  shows "keeps (\<lambda>t. confirmed z k (series t)) (execute_bond_record X o' y i r s)"
  unfolding execute_bond_record_def ensure_voter_def Let_def
  using assms by (intro run_keeps) (auto simp: not_executable)

text \<open>
  Runs: bonds and executions, with the transfer each successful execution credits, among steps that
  leave the states of the transfers alone (every other operation of the runtime).
\<close>

definition executed_key ::
    "RSymbol \<Rightarrow> Hash \<Rightarrow> BondReason \<Rightarrow> (dispatch_error, unit) outcome \<Rightarrow> ('c, 'call, 'z) series_state_scheme
     \<Rightarrow> (RSymbol \<times> bytes \<times> bytes) list" where
  "executed_key y i reason out s =
     (case BondRecords (series s) y i of
        Some rec \<Rightarrow> if reason = BondReason.Pass \<and> out = Ok () then [(y, blockhash rec, txhash rec)] else []
      | None \<Rightarrow> [])"

inductive series_step for X C h where
  bond: "series_step X C h s [] (snd (liquidity_bond X C h o' key sig pool bh th v y s))"
| bond_swap: "series_step X C h s [] (snd (liquidity_bond_and_swap X C h o' key sig pool bh th v y rcp d s))"
| exec: "execute_bond_record X o' y i reason s = (out, t) \<Longrightarrow> series_step X C h s (executed_key y i reason out s) t"
| other: "BondStates (series t) = BondStates (series s) \<Longrightarrow> series_step X C h s [] t"

inductive series_trace for X C h where
  start: "series_trace X C h s [] s"
| more: "series_trace X C h s ks t \<Longrightarrow> series_step X C h t k u \<Longrightarrow> series_trace X C h s (ks @ k) u"

inductive_cases series_stepE: "series_step X C h s k t"

definition confirmed_key :: "RSymbol \<times> bytes \<times> bytes \<Rightarrow> ('c, 'call, 'z) series_state_scheme \<Rightarrow> bool" where
  "confirmed_key k s \<longleftrightarrow> confirmed (fst k) (snd k) (series s)"

lemma series_step_confirmed:
  assumes "series_step X C h s ks t"
  shows "(confirmed_key k s \<longrightarrow> confirmed_key k t) \<and> (\<forall>k\<in>set ks. \<not> confirmed_key k s \<and> confirmed_key k t) \<and> distinct ks"
  using assms
proof cases
  case (bond o' key sig pool bh th v y)
  then show ?thesis
    using liquidity_bond_confirmed [of s "fst k" "snd k" X C h o' key sig pool bh th v y]
    by (auto simp: confirmed_key_def keeps_def)
next
  case (bond_swap o' key sig pool bh th v y rcp d)
  then show ?thesis
    using liquidity_bond_and_swap_confirmed [of s "fst k" "snd k" X C h o' key sig pool bh th v y rcp d]
    by (auto simp: confirmed_key_def keeps_def)
next
  case (exec o' y i reason out)
  have "confirmed_key k s \<longrightarrow> confirmed_key k t"
    using execute_confirmed [of s "fst k" "snd k" X o' y i reason] exec by (auto simp: confirmed_key_def keeps_def)
  moreover have "distinct ks" using exec by (simp add: executed_key_def split: option.split)
  moreover have "\<not> confirmed_key q s \<and> confirmed_key q t" if q: "q \<in> set ks" for q
  proof -
    from q exec obtain rec where rec: "BondRecords (series s) y i = Some rec"
      and ok: "reason = BondReason.Pass" "out = Ok ()" "q = (y, blockhash rec, txhash rec)"
      by (auto simp: executed_key_def split: option.splits if_splits)
    from exec ok have "execute_bond_record X o' y i BondReason.Pass s = (Ok (), t)" by simp
    then obtain rec' where r: "BondRecords (series s) y i = Some rec'"
      and e: "is_txhash_executable y (blockhash rec') (txhash rec') s"
      and st: "BondStates (series t) = put2 y (blockhash rec', txhash rec') (Some Success) (BondStates (series s))"
      by (rule execute_pass_Ok)
    have "\<not> confirmed y (blockhash rec, txhash rec) (series s)" using e r rec not_executable by auto
    moreover have "confirmed y (blockhash rec, txhash rec) (series t)" using st r rec by simp
    ultimately show ?thesis by (simp add: confirmed_key_def ok(3))
  qed
  ultimately show ?thesis by blast
qed (simp add: confirmed_key_def)

lemma series_trace_confirmed:
  "series_trace X C h s ks t \<Longrightarrow> distinct ks \<and> (\<forall>k\<in>set ks. confirmed_key k t)"
proof (induction rule: series_trace.induct)
  case (more s ks t k u)
  then show ?case using series_step_confirmed [OF more.hyps(2)] by fastforce
qed simp

section \<open>Unbonding\<close>

lemma liquidity_unbond_Ok:
  fixes s s' :: "('c, 'call, 'z) series_state_scheme"
  assumes "liquidity_unbond X C (Signed who) y pool value recipient s = (Ok u, s')"
    and "fee = protocol_unbond_fee X value s" and "bal = rtoken_to_token X y (value - fee) s"
    and "pipe = get_pipeline y pool s" and "chunks = unwrap_or (AccountUnbonds (series s) who y) []"
  obtains era dur receiver relay and s1 s2 s3 :: "('c, 'call, 'z) series_state_scheme" where
    "fee < value" "value \<le> rbal_free_balance who y s" "ChainEras (ledger s) y = Some era"
    "ChainBondingDuration (ledger s) y = Some dur" "Receiver (ledger s) = Some receiver"
    "unat (pipe_unbond pipe) + unat bal < 2 ^ 128" "bal \<le> pipe_active pipe"
    "length (trim_chunks era chunks) < MAX_UNLOCKING_CHUNKS"
    "rbalances s1 = rbalances s" "rbal_transfer who receiver y fee s1 = (Ok (), s2)"
    "rbal_burn who y (value - fee) s2 = (Ok (), s3)" "rbalances s' = rbalances s3" "rates s' = rates s"
    "BondPipelines (ledger s') = put2 y pool (Some (pipe\<lparr>pipe_unbond := pipe_unbond pipe + bal,
       pipe_active := pipe_active pipe - bal\<rparr>)) (BondPipelines (ledger s))"
    "AccountUnbonds (series s') = put2 who y (Some (trim_chunks era chunks @
       [\<lparr>chunk_pool = pool, unlock_era = era + dur, chunk_value = bal, chunk_recipient = recipient\<rparr>])) (AccountUnbonds (series s))"
    "PoolUnbonds (ledger s') = put2 y (pool, era + dur) (Some (unwrap_or (PoolUnbonds (ledger s) y (pool, era + dur)) []
       @ [\<lparr>unbond_who = who, unbond_value = bal, unbond_recipient = recipient\<rparr>])) (PoolUnbonds (ledger s))"
proof -
  from assms(1) obtain era dur receiver relay s1 s2 s3 where
    a: "fee \<le> value" "0 < value - fee" "value \<le> rbal_free_balance who y s" "ChainEras (ledger s) y = Some era"
    "ChainBondingDuration (ledger s) y = Some dur" "Receiver (ledger s) = Some receiver"
    "unat (pipe_unbond pipe) + unat bal < 2 ^ 128" "bal \<le> pipe_active pipe"
    "length (trim_chunks era chunks) < MAX_UNLOCKING_CHUNKS"
    and pay: "run_if (UnbondFees (series s) y > 0) (native_transfer X who relay (UnbondFees (series s) y)) s = (Ok (), s1)"
    and fee: "rbal_transfer who receiver y fee s1 = (Ok (), s2)"
    and burn: "rbal_burn who y (value - fee) s2 = (Ok (), s3)"
    and s': "s' = deposit_event (SeriesEv (LiquidityUnBond who y pool value (value - fee) bal recipient))
      (ledger_update (\<lambda>l. l\<lparr>PoolUnbonds := put2 y (pool, era + dur)
          (Some (unwrap_or (PoolUnbonds (ledger s) y (pool, era + dur)) []
             @ [\<lparr>unbond_who = who, unbond_value = bal, unbond_recipient = recipient\<rparr>])) (PoolUnbonds l)\<rparr>)
      (series_update (\<lambda>m. m\<lparr>AccountUnbonds := put2 who y (Some (trim_chunks era chunks
             @ [\<lparr>chunk_pool = pool, unlock_era = era + dur, chunk_value = bal, chunk_recipient = recipient\<rparr>])) (AccountUnbonds m)\<rparr>)
      (put_pipeline y pool (pipe\<lparr>pipe_unbond := pipe_unbond pipe + bal, pipe_active := pipe_active pipe - bal\<rparr>) s3)))"
    unfolding liquidity_unbond_def assms(2-5) by (auto simp: run_ok Let_def)
  have f1: "rbalances s1 = rbalances s" "rates s1 = rates s" "ledger s1 = ledger s" "series s1 = series s"
    using pay by (auto simp: run_if_def native_transfer_frame split: if_splits)
  have lt: "fee < value" using a(1,2) by (metis diff_self le_neq_trans less_irrefl)
  note frames = f1 rbal_transfer_frame [OF fee] rbal_burn_frame [OF burn]
  show thesis
    by (rule that [OF lt a(3-9) f1(1) fee burn]) (simp_all add: s' frames put_pipeline_def)
qed

section \<open>Backing\<close>

text \<open>
  The stake expected to be active on all pools of a token, and the claim that it covers the whole
  supply of the rtoken at the current rate (an unset rate is one to one).
\<close>

definition total_active :: "RSymbol \<Rightarrow> ('c, 'call, 'z) ledger_state_scheme \<Rightarrow> nat" where
  "total_active y s =
     (\<Sum>p\<in>dom (BondPipelines (ledger s) y). unat (pipe_active (the (BondPipelines (ledger s) y p))))"

definition rate_of :: "RSymbol \<Rightarrow> ('c, 'z) rate_state_scheme \<Rightarrow> nat" where
  "rate_of y s = (case Rate (rates s) y of None \<Rightarrow> 10 ^ 12 | Some r \<Rightarrow> unat r)"

definition backed :: "RSymbol \<Rightarrow> ('c, 'call, 'z) ledger_state_scheme \<Rightarrow> bool" where
  "backed y s \<longleftrightarrow> finite (dom (BondPipelines (ledger s) y))
     \<and> unat (rbal_total_issuance y s) * rate_of y s \<le> total_active y s * 10 ^ 12"

lemma total_active_put:
  assumes "BondPipelines (ledger t) = put2 y p (Some c) (BondPipelines (ledger s))"
    and "finite (dom (BondPipelines (ledger s) y))"
  shows "total_active y t + unat (pipe_active (get_pipeline y p s)) = total_active y s + unat (pipe_active c)"
    and "finite (dom (BondPipelines (ledger t) y))"
    and "z \<noteq> y \<Longrightarrow> total_active z t = total_active z s"
proof -
  let ?m = "BondPipelines (ledger s) y" and ?f = "\<lambda>m p. unat (pipe_active (the (m p)))"
  have t: "total_active y t = unat (pipe_active c) + (\<Sum>q\<in>dom ?m - {p}. ?f ?m q)"
    using assms by (simp add: total_active_def sum.insert_remove cong: sum.cong_simp)
  have s: "total_active y s = unat (pipe_active (get_pipeline y p s)) + (\<Sum>q\<in>dom ?m - {p}. ?f ?m q)"
  proof (cases "p \<in> dom ?m")
    case True
    then have "total_active y s = ?f ?m p + (\<Sum>q\<in>dom ?m - {p}. ?f ?m q)"
      unfolding total_active_def using assms(2) by (simp add: sum.remove)
    with True show ?thesis by (auto simp: get_pipeline_def)
  next
    case False
    then show ?thesis by (simp add: total_active_def get_pipeline_def LinkChunk_default_def domIff)
  qed
  from t s show "total_active y t + unat (pipe_active (get_pipeline y p s)) = total_active y s + unat (pipe_active c)" by simp
  show "finite (dom (BondPipelines (ledger t) y))" using assms by simp
  show "total_active z t = total_active z s" if "z \<noteq> y" using assms(1) that by (simp add: total_active_def)
qed

lemma minted_at_rate:
  assumes "mul_rational_ok X"
  shows "unat (token_to_rtoken X y v s) * rate_of y s \<le> unat v * 10 ^ 12"
proof (cases "Rate (rates s) y")
  case None
  then show ?thesis by (simp add: token_to_rtoken_def rate_of_def)
next
  case (Some r)
  show ?thesis
  proof (cases "r = 0")
    case True
    with Some show ?thesis by (simp add: rate_of_def)
  next
    case False
    then have r: "0 < unat r" by (simp add: unat_gt_0)
    have "unat v * unat r \<le> unat v * 10 ^ 12" if "\<not> unat v * 10 ^ 12 div unat r < 2 ^ 128"
    proof -
      have "unat r \<le> 10 ^ 12"
      proof (rule ccontr)
        assume "\<not> unat r \<le> 10 ^ 12"
        then have "unat v * 10 ^ 12 div unat r \<le> unat v * unat r div unat r"
          by (intro div_le_mono mult_le_mono) simp_all
        with that r unat_less_pow [of v] show False by simp
      qed
      then show ?thesis by simp
    qed
    with token_to_rtoken_value [OF assms Some False, of v] Some show ?thesis
      by (auto simp: rate_of_def div_times_less_eq_dividend)
  qed
qed

lemma redeemed_at_rate:
  assumes "mul_rational_ok X"
  shows "unat (rtoken_to_token X y v s) * 10 ^ 12 \<le> unat v * rate_of y s"
proof (cases "Rate (rates s) y")
  case None
  then show ?thesis by (simp add: rtoken_to_token_def rate_of_def)
next
  case (Some r)
  with rtoken_to_token_value [OF assms Some, of v] show ?thesis
    by (auto simp: rate_of_def div_times_less_eq_dividend simp del: mult_le_cancel2)
qed

lemma backed_cong:
  assumes "BondPipelines (ledger t) = BondPipelines (ledger s)" "rbalances t = rbalances s" "rates t = rates s"
  shows "backed y t \<longleftrightarrow> backed y s"
  using assms rbal_observers_cong(2) [OF assms(2)] by (simp add: backed_def total_active_def rate_of_def)

lemma backed_other:
  assumes "backed z s" "z \<noteq> y" "BondPipelines (ledger t) = put2 y p (Some c) (BondPipelines (ledger s))"
    and "rates t = rates s" "rbal_total_issuance z t = rbal_total_issuance z s"
  shows "backed z t"
  using assms by (simp add: backed_def total_active_def rate_of_def)

lemma execute_backed:
  fixes s s' :: "('c, 'call, 'z) series_state_scheme"
  assumes "mul_rational_ok X" "backed z s" "execute_bond_record X o' y i BondReason.Pass s = (Ok u, s')"
  shows "backed z s'"
proof -
  from assms(3) obtain rec :: BondRecord and s1 s2 :: "('c, 'call, 'z) series_state_scheme" where
    room: "unat (pipe_active (get_pipeline y (rec_pool rec) s)) + unat (amount rec) < 2 ^ 128"
    and mint: "rbal_mint (case BondSwaps (series s) y i of Some swap \<Rightarrow> bridger swap | None \<Rightarrow> bonder rec) y
       (token_to_rtoken X y (amount rec) s) s1 = (Ok (), s2)"
    and r: "rbalances s1 = rbalances s" "rbalances s' = rbalances s2" and rates: "rates s' = rates s"
    and pipes: "BondPipelines (ledger s') = put2 y (rec_pool rec) (Some ((get_pipeline y (rec_pool rec) s)
       \<lparr>pipe_bond := pipe_bond (get_pipeline y (rec_pool rec) s) + amount rec,
        pipe_active := pipe_active (get_pipeline y (rec_pool rec) s) + amount rec\<rparr>)) (BondPipelines (ledger s))"
    by (rule execute_pass_Ok)
  let ?v = "token_to_rtoken X y (amount rec) s"
  have issued: "rbal_total_issuance w s' = (if w = y then saturating_add (rbal_total_issuance y s) ?v else rbal_total_issuance w s)" for w
    using rcur.mint_issued [OF mint, of w] rbal_observers_cong(2) [OF r(1)] rbal_observers_cong(2) [OF r(2)] by simp
  show ?thesis
  proof (cases "z = y")
    case False
    show ?thesis by (rule backed_other [OF assms(2) False pipes rates]) (simp add: issued False)
  next
    case True
    with assms(2) have fin: "finite (dom (BondPipelines (ledger s) y))"
      and cov: "unat (rbal_total_issuance y s) * rate_of y s \<le> total_active y s * 10 ^ 12" by (simp_all add: backed_def)
    have act: "total_active y s' = total_active y s + unat (amount rec)"
      using total_active_put(1) [OF pipes fin] room by (simp add: unat_plus_exact)
    have "unat (rbal_total_issuance y s') * rate_of y s \<le> (unat (rbal_total_issuance y s) + unat ?v) * rate_of y s"
      by (intro mult_le_mono1) (simp add: issued unat_saturating_add)
    also have "\<dots> \<le> total_active y s * 10 ^ 12 + unat (amount rec) * 10 ^ 12"
      using cov minted_at_rate [OF assms(1), of y "amount rec" s] by (simp only: add_mult_distrib add_mono)
    finally show ?thesis
      using True total_active_put(2) [OF pipes fin] rates act by (simp add: backed_def rate_of_def add_mult_distrib)
  qed
qed

lemma unbond_backed:
  fixes s s' :: "('c, 'call, 'z) series_state_scheme"
  assumes "mul_rational_ok X" "backed z s" "liquidity_unbond X C (Signed who) y pool value recipient s = (Ok u, s')"
  shows "backed z s'"
proof -
  let ?fee = "protocol_unbond_fee X value s"
  let ?bal = "rtoken_to_token X y (value - ?fee) s" and ?pipe = "get_pipeline y pool s"
  from assms(3) refl [of ?fee] refl [of ?bal] refl [of ?pipe] refl
  obtain receiver and s1 s2 s3 :: "('c, 'call, 'z) series_state_scheme" where
    room: "?bal \<le> pipe_active ?pipe"
    and r1: "rbalances s1 = rbalances s" and fee: "rbal_transfer who receiver y ?fee s1 = (Ok (), s2)"
    and burn: "rbal_burn who y (value - ?fee) s2 = (Ok (), s3)"
    and r3: "rbalances s' = rbalances s3" and rates: "rates s' = rates s"
    and pipes: "BondPipelines (ledger s') = put2 y pool (Some (?pipe\<lparr>pipe_unbond := pipe_unbond ?pipe + ?bal,
       pipe_active := pipe_active ?pipe - ?bal\<rparr>)) (BondPipelines (ledger s))"
    by (rule liquidity_unbond_Ok)
  have issued: "rbal_total_issuance w s' =
      (if w = y then saturating_sub (rbal_total_issuance y s) (value - ?fee) else rbal_total_issuance w s)" for w
    using rcur.burn_issued [OF burn, of w] rcur.transfer_issued [OF fee] rbal_observers_cong(2) [OF r1]
      rbal_observers_cong(2) [OF r3] by simp
  show ?thesis
  proof (cases "z = y")
    case False
    show ?thesis by (rule backed_other [OF assms(2) False pipes rates]) (simp add: issued False)
  next
    case True
    with assms(2) have fin: "finite (dom (BondPipelines (ledger s) y))"
      and cov: "unat (rbal_total_issuance y s) * rate_of y s \<le> total_active y s * 10 ^ 12" by (simp_all add: backed_def)
    have act: "total_active y s = total_active y s' + unat ?bal"
      using total_active_put(1) [OF pipes fin] room by (simp add: unat_minus_exact word_le_nat_alt)
    have "unat (rbal_total_issuance y s') * rate_of y s
        = unat (rbal_total_issuance y s) * rate_of y s - unat (value - ?fee) * rate_of y s"
      by (simp add: issued unat_saturating_sub diff_mult_distrib)
    also have "\<dots> \<le> total_active y s * 10 ^ 12 - unat ?bal * 10 ^ 12"
      using cov redeemed_at_rate [OF assms(1), of y "value - ?fee" s] by (rule diff_le_mono2 [THEN le_trans, OF _ diff_le_mono, rotated])
    finally show ?thesis
      using True total_active_put(2) [OF pipes fin] rates act by (simp add: backed_def rate_of_def diff_mult_distrib [symmetric])
  qed
qed

section \<open>Unbonding chunks\<close>

abbreviation pending :: "u32 \<Rightarrow> UserUnlockChunk list \<Rightarrow> UserUnlockChunk list" where
  "pending era \<equiv> filter (\<lambda>c. unlock_era c \<ge> era)"

lemma sorted_filter_drop:
  fixes f :: "'a \<Rightarrow> 'b::linorder"
  assumes "sorted (map f xs)" "length (filter (\<lambda>x. e \<le> f x) xs) \<le> length xs - n"
  shows "filter (\<lambda>x. e \<le> f x) (drop n xs) = filter (\<lambda>x. e \<le> f x) xs"
proof -
  have "\<forall>x\<in>set (take n xs). \<not> e \<le> f x"
  proof (rule ccontr)
    assume "\<not> (\<forall>x\<in>set (take n xs). \<not> e \<le> f x)"
    then obtain i where i: "i < n" "i < length xs" "e \<le> f (xs ! i)"
      by (auto simp: in_set_conv_nth)
    have "\<forall>x\<in>set (drop i xs). e \<le> f x"
    proof
      fix x assume "x \<in> set (drop i xs)"
      then obtain j where "x = xs ! (i + j)" "i + j < length xs" by (auto simp: in_set_conv_nth)
      with assms(1) i(2,3) show "e \<le> f x" by (auto simp: sorted_iff_nth_mono intro: order_trans)
    qed
    then have "filter (\<lambda>x. e \<le> f x) (drop i xs) = drop i xs" by (simp add: filter_id_conv)
    then have "length xs - i \<le> length (filter (\<lambda>x. e \<le> f x) xs)"
      by (subst append_take_drop_id [of i xs, symmetric], simp only: filter_append length_append) simp
    with assms(2) i show False by simp
  qed
  then have "filter (\<lambda>x. e \<le> f x) (take n xs) = []" by (simp add: filter_empty_conv)
  then show ?thesis by (metis append_Nil append_take_drop_id filter_append)
qed

lemma trim_chunks_pending:
  assumes "sorted (map unlock_era chunks)" "length chunks \<le> MAX_UNLOCKING_CHUNKS"
  shows "pending era (trim_chunks era chunks) = pending era chunks" "sorted (map unlock_era (trim_chunks era chunks))"
proof -
  have "sorted (map unlock_era (pending era chunks))" using assms(1) by (rule sorted_filter)
  moreover have "sorted (map unlock_era (drop n chunks))" for n
    using sorted_wrt_drop [OF assms(1)] by (simp add: drop_map)
  ultimately show "sorted (map unlock_era (trim_chunks era chunks))"
    using assms(1) by (simp add: trim_chunks_def Let_def)
  have "pending era (drop 17 chunks) = pending era chunks"
    if "32 \<le> length chunks" "length (pending era chunks) < 16"
    using sorted_filter_drop [OF assms(1), of era 17] that by simp
  then show "pending era (trim_chunks era chunks) = pending era chunks"
    by (simp add: trim_chunks_def MAX_UNLOCKING_CHUNKS_def MIN_UNLOCKING_CHUNKS_def Let_def)
qed

section \<open>Fees of swaps\<close>

lemma execute_swap_native:
  fixes s s' :: "('c, 'call, 'z) series_state_scheme"
  assumes "execute_bond_record X o' y i BondReason.Pass s = (Ok u, s')" "BondSwaps (series s) y i = Some swap"
  obtains t :: "('c, 'call, 'z) series_state_scheme"
  where "native_transfer X (bridger swap) (swap_receiver swap) (swap_fee swap) s = (Ok (), t)" "native s' = native t"
  using assms
  by (auto simp: execute_bond_record_def ensure_voter_def run_ok Let_def dest!: rbal_mint_frame(4) transfer_fungible_series(5))

lemma refund_Ok:
  fixes s s' :: "('c, 'call, 'z) series_state_scheme"
  assumes "refund_swap_fee X o' y i s = (Ok u, s')"
  obtains swap and t :: "('c, 'call, 'z) series_state_scheme" where "BondSwaps (series s) y i = Some swap"
    "refundable swap (block_number s)" "native_transfer X (bridger swap) (swap_bonder swap) (swap_fee swap) s = (Ok (), t)"
    "native s' = native t" "BondSwaps (series s') y i = Some (swap\<lparr>refunded := True\<rparr>)"
  using assms by (cases o') (auto simp: refund_swap_fee_def run_ok)

section \<open>Evaluation\<close>

text \<open>
  A rate of 1.5 with 100 rDOT issued to account 7 against 150 staked in one pool, and two bond records
  of 150: a plain one, and one with a swap whose execution failed, still refundable.
\<close>

definition sample_record :: "bytes \<Rightarrow> BondRecord" where
  "sample_record th = BondRecord_new 5 RDOT [4] [1] [2] th 150"

definition sample_swap :: BondSwap where
  "sample_swap = \<lparr>swap_bonder = 5, swap_fee = 30, swap_receiver = 6, bridger = 8, swap_recipient = [],
     swap_dest_id = 4, expire = 20, bond_state = BondState.Fail, refunded = False\<rparr>"

definition sample_series :: "(AccountId \<Rightarrow> u128, unit) series_state" where
  "sample_series = \<lparr>block_number = 10, events = [], native = (\<lambda>_. 1000),
     rbalances = \<lparr>TotalIssuance = (\<lambda>_. 0)(RDOT := 100), Account = (\<lambda>_ _. None)(RDOT := [7 \<mapsto> \<lparr>free = 100\<rparr>])\<rparr>,
     xbalances = empty_tokens, lpbalances = empty_tokens, brelayers = empty_relayers,
     rrelayers = empty_relayers, payers = empty_relayers,
     rates = empty_rates\<lparr>Rate := [RDOT \<mapsto> 1500000000000]\<rparr>,
     bridge = empty_bridge\<lparr>ChainNonces := [4 \<mapsto> 0], RsymbolResource := [RDOT \<mapsto> [9]]\<rparr>,
     ledger = empty_ledger\<lparr>ChainEras := [RDOT \<mapsto> 5], ChainBondingDuration := [RDOT \<mapsto> 2], Receiver := Some 3,
       BondedPools := (\<lambda>_. []) (RDOT := [[1]]),
       BondPipelines := (\<lambda>_. Map.empty)(RDOT := [[1] \<mapsto> \<lparr>pipe_bond = 0, pipe_unbond = 0, pipe_active = 150\<rparr>])\<rparr>,
     votes = empty_votes, rclaim = empty_rclaim,
     series = empty_series\<lparr>RelayFeesReceiver := Some 6, UnbondFees := (\<lambda>_. 10), UnbondCommission := 100000000,
       BondRecords := (\<lambda>_. Map.empty)(RDOT := [1 \<mapsto> sample_record [3], 2 \<mapsto> sample_record [4]]),
       BondStates := (\<lambda>_. Map.empty)(RDOT := [([2], [3]) \<mapsto> Dealing, ([2], [4]) \<mapsto> BondState.Fail]),
       BondSwaps := (\<lambda>_. Map.empty)(RDOT := [2 \<mapsto> sample_swap])\<rparr>\<rparr>"

lemma sample_series_simps [simp]:
  "block_number sample_series = 10" "native sample_series = (\<lambda>_. 1000)"
  "rates sample_series = empty_rates\<lparr>Rate := [RDOT \<mapsto> 1500000000000]\<rparr>"
  "RsymbolResource (bridge sample_series) = [RDOT \<mapsto> [9]]" "ChainNonces (bridge sample_series) = [4 \<mapsto> 0]"
  "BondRecords (series sample_series) = (\<lambda>_. Map.empty)(RDOT := [1 \<mapsto> sample_record [3], 2 \<mapsto> sample_record [4]])"
  "BondStates (series sample_series) = (\<lambda>_. Map.empty)(RDOT := [([2], [3]) \<mapsto> Dealing, ([2], [4]) \<mapsto> BondState.Fail])"
  "BondSwaps (series sample_series) = (\<lambda>_. Map.empty)(RDOT := [2 \<mapsto> sample_swap])"
  "BondPipelines (ledger sample_series) = (\<lambda>_. Map.empty)(RDOT := [[1] \<mapsto> \<lparr>pipe_bond = 0, pipe_unbond = 0, pipe_active = 150\<rparr>])"
  "RtokenBondSwitch (series sample_series) RDOT" "UnbondFees (series sample_series) RDOT = 10"
  "UnbondCommission (series sample_series) = 100000000" "RelayFeesReceiver (series sample_series) = Some 6"
  "AccountUnbonds (series sample_series) = (\<lambda>_ _. None)" "BondedPools (ledger sample_series) RDOT = [[1]]"
  "ChainEras (ledger sample_series) = [RDOT \<mapsto> 5]" "ChainBondingDuration (ledger sample_series) = [RDOT \<mapsto> 2]"
  "Receiver (ledger sample_series) = Some 3" "PoolUnbonds (ledger sample_series) = (\<lambda>_ _. None)"
  "EraUnbondLimit (ledger sample_series) RDOT = 0"
  "rbalances sample_series = \<lparr>TotalIssuance = (\<lambda>_. 0)(RDOT := 100), Account = (\<lambda>_ _. None)(RDOT := [7 \<mapsto> \<lparr>free = 100\<rparr>])\<rparr>"
  by (simp_all add: sample_series_def empty_series_def empty_ledger_def)

lemma sample_record_simps [simp]:
  "blockhash (sample_record th) = [2]" "txhash (sample_record th) = th" "amount (sample_record th) = 150"
  "rec_pool (sample_record th) = [1]" "bonder (sample_record th) = 5"
  by (simp_all add: sample_record_def)

lemma sample_to_rtoken:
  "Rate (rates s) RDOT = Some 1500000000000 \<Longrightarrow> token_to_rtoken plain_config RDOT 150 s = 100"
  by (simp add: token_to_rtoken_def RATEBASE_def)

lemmas sample_series_eval = is_txhash_executable_def get_pipeline_def rbal_mint_def rbal_lift_def token_lift_def
  token_mint_eq free_balance_def ensure_voter_def is_voter_def checked_add_def checked_sub_def

lemma sample_execute:
  "\<exists>t :: (AccountId \<Rightarrow> u128, unit) series_state. execute_bond_record plain_config (Signed (voter_account_id plain_config)) RDOT 1 BondReason.Pass sample_series = (Ok (), t)"
  by (simp add: execute_bond_record_def sample_to_rtoken sample_series_eval Let_def)

lemma sample_backed: "backed RDOT sample_series"
  by (simp add: backed_def total_active_def rate_of_def rbal_total_issuance_def total_issuance_def)

lemma sample_unbond:
  "\<exists>t :: (AccountId \<Rightarrow> u128, unit) series_state. liquidity_unbond plain_config plain_crypto (Signed 7) RDOT [1] 100 (replicate 32 1) sample_series = (Ok (), t)"
  by (simp add: liquidity_unbond_def sample_series_eval verify_recipient_def plain_crypto_def rbal_free_balance_def
      protocol_unbond_fee_def rtoken_to_token_def RATEBASE_def trim_chunks_def MAX_UNLOCKING_CHUNKS_def native_transfer_def
      plain_transfer_def rbal_transfer_def rbal_burn_def token_transfer_eq token_burn_eq set_free_def)

section \<open>Properties\<close>





text \<open>
  C27. An unbonding that succeeds takes the whole value from the user: the fee goes to the receiver and
  the rest is burned; what the rest is worth at the current rate leaves the active stake of the pool,
  joins its amount to unbond and is queued, for the user and the pool, under the era in which it unlocks.
\<close>

theorem unbond_accounts_for_value:
  fixes s s' :: "('c, 'call, 'z) series_state_scheme"
  assumes run: "liquidity_unbond X C (Signed who) y pool value recipient s = (Ok u, s')"
    and "Receiver (ledger s) = Some receiver" "receiver \<noteq> who"
  shows "\<exists>fee left bal era dur.
     fee = protocol_unbond_fee X value s \<and> unat value = unat fee + unat left \<and> bal = rtoken_to_token X y left s
   \<and> ChainEras (ledger s) y = Some era \<and> ChainBondingDuration (ledger s) y = Some dur
   \<and> unat (rbal_free_balance who y s') + unat value = unat (rbal_free_balance who y s)
   \<and> unat (rbal_free_balance receiver y s') = unat (rbal_free_balance receiver y s) + unat fee
   \<and> unat (rbal_total_issuance y s') = unat (rbal_total_issuance y s) - unat left
   \<and> unat (pipe_active (get_pipeline y pool s')) + unat bal = unat (pipe_active (get_pipeline y pool s))
   \<and> unat (pipe_unbond (get_pipeline y pool s')) = unat (pipe_unbond (get_pipeline y pool s)) + unat bal
   \<and> \<lparr>chunk_pool = pool, unlock_era = era + dur, chunk_value = bal, chunk_recipient = recipient\<rparr>
       \<in> set (unwrap_or (AccountUnbonds (series s') who y) [])
   \<and> \<lparr>unbond_who = who, unbond_value = bal, unbond_recipient = recipient\<rparr>
       \<in> set (unwrap_or (PoolUnbonds (ledger s') y (pool, era + dur)) [])"
proof -
  let ?fee = "protocol_unbond_fee X value s"
  let ?bal = "rtoken_to_token X y (value - ?fee) s" and ?pipe = "get_pipeline y pool s"
  let ?chunks = "unwrap_or (AccountUnbonds (series s) who y) []"
  from run refl refl refl refl
  obtain era dur receiver' and s1 s2 s3 :: "('c, 'call, 'z) series_state_scheme" where
    lt: "?fee < value" and era: "ChainEras (ledger s) y = Some era" "ChainBondingDuration (ledger s) y = Some dur"
    and rcv: "Receiver (ledger s) = Some receiver'"
    and room: "unat (pipe_unbond ?pipe) + unat ?bal < 2 ^ 128" "?bal \<le> pipe_active ?pipe"
    and r1: "rbalances s1 = rbalances s" and fee: "rbal_transfer who receiver' y ?fee s1 = (Ok (), s2)"
    and burn: "rbal_burn who y (value - ?fee) s2 = (Ok (), s3)" and r3: "rbalances s' = rbalances s3"
    and pipes: "BondPipelines (ledger s') = put2 y pool (Some (?pipe\<lparr>pipe_unbond := pipe_unbond ?pipe + ?bal,
       pipe_active := pipe_active ?pipe - ?bal\<rparr>)) (BondPipelines (ledger s))"
    and queues: "AccountUnbonds (series s') = put2 who y (Some (trim_chunks era ?chunks @
       [\<lparr>chunk_pool = pool, unlock_era = era + dur, chunk_value = ?bal, chunk_recipient = recipient\<rparr>])) (AccountUnbonds (series s))"
      "PoolUnbonds (ledger s') = put2 y (pool, era + dur) (Some (unwrap_or (PoolUnbonds (ledger s) y (pool, era + dur)) []
       @ [\<lparr>unbond_who = who, unbond_value = ?bal, unbond_recipient = recipient\<rparr>])) (PoolUnbonds (ledger s))"
    by (rule liquidity_unbond_Ok)
  have left: "unat (value - ?fee) = unat value - unat ?fee" "unat ?fee \<le> unat value"
    using lt by (simp_all add: unat_minus_exact word_le_nat_alt word_less_nat_alt)
  note sheets = rcur.transfer_sheet [OF fee, of _ y] rcur.burn_sheet [OF burn, of _ y]
    rbal_observers_cong(1) [OF r1] rbal_observers_cong(1) [OF r3]
  have "unat (rbal_free_balance who y s') + unat value = unat (rbal_free_balance who y s)"
    "unat (rbal_free_balance receiver y s') = unat (rbal_free_balance receiver y s) + unat ?fee"
    using sheets [of who] sheets [of receiver] left assms(2,3) rcv by simp_all
  moreover have "unat (rbal_total_issuance y s') = unat (rbal_total_issuance y s) - unat (value - ?fee)"
    using rcur.burn_issued [OF burn, of y] rcur.transfer_issued [OF fee, of y] rbal_observers_cong(2) [OF r1]
      rbal_observers_cong(2) [OF r3] by (simp add: unat_saturating_sub)
  moreover have "unat (pipe_active (get_pipeline y pool s')) + unat ?bal = unat (pipe_active ?pipe)"
    "unat (pipe_unbond (get_pipeline y pool s')) = unat (pipe_unbond ?pipe) + unat ?bal"
    using pipes room by (simp_all add: get_pipeline_def unat_minus_exact unat_plus_exact word_le_nat_alt)
  ultimately show ?thesis
    using left era queues
    by - (rule exI [of _ ?fee], rule exI [of _ "value - ?fee"], rule exI [of _ ?bal], rule exI [of _ era],
        rule exI [of _ dur], simp)
qed

theorem unbond_accounts_for_value_witness:
  "\<exists>t :: (AccountId \<Rightarrow> u128, unit) series_state.
     liquidity_unbond plain_config plain_crypto (Signed 7) RDOT [1] 100 (replicate 32 1) sample_series = (Ok (), t)
   \<and> unat (rbal_free_balance 7 RDOT t) + 100 = 100"
proof -
  obtain t :: "(AccountId \<Rightarrow> u128, unit) series_state" where t:
    "liquidity_unbond plain_config plain_crypto (Signed 7) RDOT [1] 100 (replicate 32 1) sample_series = (Ok (), t)"
    using sample_unbond by blast
  have "unat (rbal_free_balance 7 RDOT t) + unat (100 :: u128) = unat (rbal_free_balance 7 RDOT sample_series)"
    using unbond_accounts_for_value [OF t, of 3] by auto
  with t show ?thesis by (auto simp: rbal_free_balance_def free_balance_def)
qed

text \<open>
  Making room for a new unbonding chunk never drops one that is still pending: while a user's chunks
  are in the order of their unlocking eras and the new one comes last, they stay so, there are at most
  32, and the pending ones are exactly those before with the new one.
\<close>

theorem pending_chunks_are_kept:
  fixes s s' :: "('c, 'call, 'z) series_state_scheme"
  assumes run: "liquidity_unbond X C (Signed who) y pool value recipient s = (Ok u, s')"
    and "chunks = unwrap_or (AccountUnbonds (series s) who y) []" "ChainEras (ledger s) y = Some era"
    and "ChainBondingDuration (ledger s) y = Some dur" "era \<le> era + dur"
    and "sorted (map unlock_era chunks)" "\<forall>c\<in>set chunks. unlock_era c \<le> era + dur" "length chunks \<le> 32"
  shows "\<exists>chunks' new. AccountUnbonds (series s') who y = Some chunks' \<and> length chunks' \<le> 32
     \<and> sorted (map unlock_era chunks') \<and> pending era chunks' = pending era chunks @ [new] \<and> unlock_era new = era + dur"
proof -
  let ?bal = "rtoken_to_token X y (value - protocol_unbond_fee X value s) s"
  from run refl refl refl assms(2) obtain era' dur' where e: "ChainEras (ledger s) y = Some era'"
    "ChainBondingDuration (ledger s) y = Some dur'" "length (trim_chunks era' chunks) < MAX_UNLOCKING_CHUNKS"
    "AccountUnbonds (series s') = put2 who y (Some (trim_chunks era' chunks @
       [\<lparr>chunk_pool = pool, unlock_era = era' + dur', chunk_value = ?bal, chunk_recipient = recipient\<rparr>])) (AccountUnbonds (series s))"
    by (rule liquidity_unbond_Ok)
  with assms(3,4) have len: "length (trim_chunks era chunks) < MAX_UNLOCKING_CHUNKS"
    and post: "AccountUnbonds (series s') = put2 who y (Some (trim_chunks era chunks @
       [\<lparr>chunk_pool = pool, unlock_era = era + dur, chunk_value = ?bal, chunk_recipient = recipient\<rparr>])) (AccountUnbonds (series s))"
    by simp_all
  have sub: "set (trim_chunks era chunks) \<subseteq> set chunks"
    by (auto simp: trim_chunks_def Let_def dest: in_set_dropD split: if_splits)
  note trim = trim_chunks_pending [OF assms(6), of era]
  have "sorted (map unlock_era (trim_chunks era chunks @
      [\<lparr>chunk_pool = pool, unlock_era = era + dur, chunk_value = ?bal, chunk_recipient = recipient\<rparr>]))"
    using trim(2) sub assms(7,8) by (auto simp: sorted_append MAX_UNLOCKING_CHUNKS_def)
  with len post trim(1) assms(5,8) show ?thesis by (auto simp: MAX_UNLOCKING_CHUNKS_def)
qed

theorem pending_chunks_are_kept_witness:
  "\<exists>(t :: (AccountId \<Rightarrow> u128, unit) series_state) chunks'.
     liquidity_unbond plain_config plain_crypto (Signed 7) RDOT [1] 100 (replicate 32 1) sample_series = (Ok (), t)
   \<and> AccountUnbonds (series t) 7 RDOT = Some chunks' \<and> length (pending 5 chunks') = 1"
proof -
  obtain t :: "(AccountId \<Rightarrow> u128, unit) series_state" where t:
    "liquidity_unbond plain_config plain_crypto (Signed 7) RDOT [1] 100 (replicate 32 1) sample_series = (Ok (), t)"
    using sample_unbond by blast
  with pending_chunks_are_kept [OF t refl, of 5 2] show ?thesis by (auto simp: word_le_nat_alt)
qed

text \<open>
  The fee of a swap can leave the bridge twice. It is refunded after a failed execution, and a later
  confirmed execution of the same record, which looks at no refund, pays it out again.
\<close>

theorem swap_fee_paid_twice:
  fixes s s1 s2 :: "('c, 'call, 'z) series_state_scheme"
  assumes "currency_ok X" "BondSwaps (series s) y i = Some swap" "swap_bonder swap \<noteq> bridger swap" "swap_receiver swap \<noteq> bridger swap"
    and refund: "refund_swap_fee X o' y i s = (Ok u, s1)"
    and execute: "execute_bond_record X o'' y i BondReason.Pass s1 = (Ok u', s2)"
  shows "unat (native_free_balance X (bridger swap) s2) + 2 * unat (swap_fee swap)
       = unat (native_free_balance X (bridger swap) s)"
proof -
  from refund obtain swap' and t :: "('c, 'call, 'z) series_state_scheme" where r: "BondSwaps (series s) y i = Some swap'"
    "native_transfer X (bridger swap') (swap_bonder swap') (swap_fee swap') s = (Ok (), t)" "native s1 = native t"
    "BondSwaps (series s1) y i = Some (swap'\<lparr>refunded := True\<rparr>)"
    by (rule refund_Ok)
  from execute r(4) obtain t' :: "('c, 'call, 'z) series_state_scheme" where
    e: "native_transfer X (bridger (swap'\<lparr>refunded := True\<rparr>)) (swap_receiver (swap'\<lparr>refunded := True\<rparr>))
       (swap_fee (swap'\<lparr>refunded := True\<rparr>)) s1 = (Ok (), t')" "native s2 = native t'"
    by (rule execute_swap_native)
  have "swap' = swap" using r(1) assms(2) by simp
  moreover have "native_free_balance X w s1 = native_free_balance X w t" "native_free_balance X w s2 = native_free_balance X w t'" for w
    using r(3) e(2) by (simp_all add: native_free_balance_def)
  ultimately show ?thesis
    using native_transfer_balance(1) [OF assms(1) r(2), of "bridger swap"]
      native_transfer_balance(1) [OF assms(1) e(1), of "bridger swap"] assms(3,4) by simp
qed

lemma sample_refund:
  "\<exists>t1 t2 :: (AccountId \<Rightarrow> u128, unit) series_state. refund_swap_fee plain_config (Signed 5) RDOT 2 sample_series = (Ok (), t1)
   \<and> execute_bond_record plain_config (Signed (voter_account_id plain_config)) RDOT 2 BondReason.Pass t1 = (Ok (), t2)"
  by (simp add: refund_swap_fee_def refundable_def sample_swap_def native_transfer_def plain_transfer_def deposit_event_def
      execute_bond_record_def sample_to_rtoken sample_series_eval transfer_fungible_def chain_whitelisted_def bump_nonce_def Let_def)

theorem swap_fee_paid_twice_witness:
  "\<exists>t1 t2 :: (AccountId \<Rightarrow> u128, unit) series_state. refund_swap_fee plain_config (Signed 5) RDOT 2 sample_series = (Ok (), t1)
   \<and> execute_bond_record plain_config (Signed (voter_account_id plain_config)) RDOT 2 BondReason.Pass t1 = (Ok (), t2)
   \<and> unat (native_free_balance plain_config 8 t2) + 60 = 1000"
proof -
  obtain t1 t2 :: "(AccountId \<Rightarrow> u128, unit) series_state" where t:
    "refund_swap_fee plain_config (Signed 5) RDOT 2 sample_series = (Ok (), t1)"
    "execute_bond_record plain_config (Signed (voter_account_id plain_config)) RDOT 2 BondReason.Pass t1 = (Ok (), t2)"
    using sample_refund by blast
  have "unat (native_free_balance plain_config (bridger sample_swap) t2) + 2 * unat (swap_fee sample_swap)
      = unat (native_free_balance plain_config (bridger sample_swap) sample_series)"
    by (rule swap_fee_paid_twice [OF plain_currency_ok _ _ _ t]) (simp_all add: sample_swap_def)
  then have "unat (native_free_balance plain_config 8 t2) + 60 = 1000"
    by (simp add: sample_swap_def native_free_balance_def)
  with t show ?thesis by blast
qed

text \<open>
  An execution that fails late has already minted. When the destination of a swap has been taken off
  the whitelist, executing the confirmed record ends with an error, but the bridge has been credited with
  the rtokens and the record is as executable as before.
\<close>

theorem failed_execution_mints:
  fixes s s1 s2 :: "('c, 'call, 'z) series_state_scheme"
  assumes "is_voter X o'" "BondRecords (series s) y i = Some rec" "BondSwaps (series s) y i = Some swap"
    and "is_txhash_executable y (blockhash rec) (txhash rec) s" "RsymbolResource (bridge s) y \<noteq> None"
    and "unat (pipe_bond (get_pipeline y (rec_pool rec) s)) + unat (amount rec) < 2 ^ 128"
    and "unat (pipe_active (get_pipeline y (rec_pool rec) s)) + unat (amount rec) < 2 ^ 128"
    and fee: "native_transfer X (bridger swap) (swap_receiver swap) (swap_fee swap) s = (Ok (), s1)"
    and mint: "rbal_mint (bridger swap) y (token_to_rtoken X y (amount rec) s) s1 = (Ok (), s2)"
    and "\<not> chain_whitelisted (swap_dest_id swap) s"
  shows "execute_bond_record X o' y i BondReason.Pass s = (Err (BridgeErr ChainNotWhitelisted), s2)
   \<and> unat (rbal_free_balance (bridger swap) y s2)
      = unat (rbal_free_balance (bridger swap) y s) + unat (token_to_rtoken X y (amount rec) s)
   \<and> is_txhash_executable y (blockhash rec) (txhash rec) s2"
proof -
  note frames = native_transfer_frame [OF fee] rbal_mint_frame [OF mint]
  have "\<not> chain_whitelisted (swap_dest_id swap) s2"
    using assms(10) by (simp add: chain_whitelisted_def frames)
  then have "transfer_fungible (swap_bonder swap) (swap_dest_id swap) r (swap_recipient swap) v s2
      = (Err (BridgeErr ChainNotWhitelisted), s2)" for r v
    by (simp add: transfer_fungible_def)
  moreover have "unat (rbal_free_balance (bridger swap) y s2)
      = unat (rbal_free_balance (bridger swap) y s) + unat (token_to_rtoken X y (amount rec) s)"
    using rcur.mint_sheet [OF mint, of "bridger swap" y] rbal_observers_cong(1) [OF frames(4)] by simp
  moreover have "is_txhash_executable y (blockhash rec) (txhash rec) s2"
    using assms(4) by (simp add: is_txhash_executable_def frames)
  ultimately show ?thesis
    using assms by (auto simp: execute_bond_record_def ensure_voter_def Let_def checked_add_def)
qed

definition sample_removed :: "(AccountId \<Rightarrow> u128, unit) series_state" where
  "sample_removed = bridge_update (\<lambda>b. b\<lparr>ChainNonces := Map.empty\<rparr>) sample_series"

theorem failed_execution_mints_witness:
  "\<exists>s2 :: (AccountId \<Rightarrow> u128, unit) series_state.
     execute_bond_record plain_config (Signed (voter_account_id plain_config)) RDOT 2 BondReason.Pass sample_removed
       = (Err (BridgeErr ChainNotWhitelisted), s2)
   \<and> unat (rbal_free_balance 8 RDOT s2) = 100"
proof -
  let ?s = sample_removed and ?o = "Signed (voter_account_id plain_config)"
  obtain s1 :: "(AccountId \<Rightarrow> u128, unit) series_state" where s1: "native_transfer plain_config 8 6 30 ?s = (Ok (), s1)"
    "rbalances s1 = rbalances sample_series"
    by (simp add: native_transfer_def plain_transfer_def sample_removed_def)
  obtain s2 :: "(AccountId \<Rightarrow> u128, unit) series_state" where s2: "rbal_mint 8 RDOT 100 s1 = (Ok (), s2)"
    using s1(2) by (simp add: rbal_mint_def rbal_lift_def token_lift_def token_mint_eq free_balance_def)
  have v: "token_to_rtoken plain_config RDOT (amount (sample_record [4])) ?s = 100"
    by (simp add: sample_to_rtoken sample_removed_def)
  have "execute_bond_record plain_config ?o RDOT 2 BondReason.Pass ?s = (Err (BridgeErr ChainNotWhitelisted), s2)
     \<and> unat (rbal_free_balance (bridger sample_swap) RDOT s2)
        = unat (rbal_free_balance (bridger sample_swap) RDOT ?s) + unat (token_to_rtoken plain_config RDOT (amount (sample_record [4])) ?s)
     \<and> is_txhash_executable RDOT (blockhash (sample_record [4])) (txhash (sample_record [4])) s2"
    by (rule failed_execution_mints [where swap = sample_swap and ?s1.0 = s1])
      (use s1 s2 v in \<open>simp_all add: sample_removed_def sample_swap_def is_voter_def is_txhash_executable_def
        get_pipeline_def chain_whitelisted_def\<close>)
  then show ?thesis
    using v by (auto simp: sample_swap_def sample_removed_def rbal_free_balance_def free_balance_def)
qed

end
