(* ===== verification/RDex_Swap.thy ===== *)
theory RDex_Swap
  imports Series
begin

text \<open>
  \<open>rdex/swap\<close>: a constant-product exchange between the native token and each rtoken. A pool keeps its
  two reserves and the units its liquidity providers hold; prices, units and withdrawals are computed
  with 512-bit integers.
\<close>

section \<open>Data and storage\<close>

record SwapPool =
  pool_symbol :: RSymbol
  fis_balance :: u128
  rtoken_balance :: u128
  total_unit :: u128

record rdex_store =
  SwapPools :: "RSymbol \<Rightarrow> SwapPool option"
  LpWhitelist :: "RSymbol \<times> AccountId \<Rightarrow> bool"
  LpSwitch :: "RSymbol \<Rightarrow> bool"

definition empty_rdex :: rdex_store where
  "empty_rdex = \<lparr>SwapPools = (\<lambda>_. None), LpWhitelist = (\<lambda>_. False), LpSwitch = (\<lambda>_. False)\<rparr>"

record ('c, 'call) rdex_state = "('c, 'call) series_state" +
  rdex :: rdex_store

type_synonym ('c, 'call, 'z) rdex_run =
  "(dispatch_error, unit, ('c, 'call, 'z) rdex_state_scheme) run"

section \<open>Arithmetic\<close>

definition safe_to_u128 :: "u512 \<Rightarrow> u128" where
  "safe_to_u128 number = (if number > ucast (- 1 :: u128) then - 1 else ucast number)"

definition cal_pool_unit :: "u128 \<Rightarrow> u128 \<Rightarrow> u128 \<Rightarrow> u128 \<Rightarrow> u128 \<Rightarrow> u128 \<times> u128" where
  "cal_pool_unit old_pool_unit fis rtoken fis_amount rtoken_amount =
     (if fis_amount = 0 \<and> rtoken_amount = 0 then (0, 0)
      else if saturating_add fis fis_amount = 0 then (0, 0)
      else if saturating_add rtoken rtoken_amount = 0 then (0, 0)
      else if fis = 0 \<or> rtoken = 0 then (fis_amount, fis_amount)
      else
        let p_capital = ucast old_pool_unit :: u512;
            f_capital = ucast fis :: u512;
            r_capital = ucast rtoken :: u512;
            f = ucast fis_amount :: u512;
            r = ucast rtoken_amount :: u512;
            numerator = saturating_add (saturating_mul f_capital r) (saturating_mul f r_capital);
            raw_unit = unwrap_or (checked_div (saturating_mul p_capital numerator)
              (saturating_mul (saturating_mul r_capital f_capital) 2)) 0
        in if raw_unit = 0 then (0, 0)
           else
             let abs' = if saturating_mul f_capital r > saturating_mul f r_capital
                   then saturating_sub (saturating_mul f_capital r) (saturating_mul f r_capital)
                   else saturating_sub (saturating_mul f r_capital) (saturating_mul f_capital r);
                 adj_unit = if abs' \<noteq> 0
                   then unwrap_or (checked_div (saturating_mul raw_unit abs')
                     (saturating_mul (saturating_add f f_capital) (saturating_add r r_capital))) 0
                   else 0;
                 add_unit = saturating_sub raw_unit adj_unit;
                 total' = saturating_add p_capital add_unit
             in (safe_to_u128 total', safe_to_u128 add_unit))"

definition cal_swap_result :: "u128 \<Rightarrow> u128 \<Rightarrow> u128 \<Rightarrow> bool \<Rightarrow> u128 \<times> u128" where
  "cal_swap_result fis rtoken input_amount input_is_fis =
     (if fis = 0 \<or> rtoken = 0 \<or> input_amount = 0 then (0, 0)
      else
        let x = ucast input_amount :: u512;
            x_capital = if input_is_fis then ucast fis else ucast rtoken;
            y_capital = if input_is_fis then ucast rtoken else ucast fis;
            t = saturating_add x x_capital;
            denominator = saturating_mul t t;
            y = unwrap_or (checked_div (saturating_mul (saturating_mul x x_capital) y_capital) denominator) 0;
            fee = unwrap_or (checked_div (saturating_mul (saturating_mul x x) y_capital) denominator) 0
        in (safe_to_u128 y, safe_to_u128 fee))"

definition cal_remove_result :: "u128 \<Rightarrow> u128 \<Rightarrow> u128 \<Rightarrow> u128 \<Rightarrow> u128 \<Rightarrow> bool \<Rightarrow> u128 \<times> u128 \<times> u128" where
  "cal_remove_result pool_unit rm_unit swap_unit fis rtoken input_is_fis =
     (if pool_unit = 0 \<or> rm_unit = 0 then (0, 0, 0)
      else
        let use_pool_unit = ucast pool_unit :: u512;
            use_fis = ucast fis :: u512;
            use_rtoken = ucast rtoken :: u512;
            use_rm_unit = if rm_unit > pool_unit then ucast pool_unit else ucast rm_unit;
            use_swap_unit = ucast swap_unit :: u512;
            fis_amount = unwrap_or (checked_div (saturating_mul use_rm_unit use_fis) use_pool_unit) 0;
            rtoken_amount = unwrap_or (checked_div (saturating_mul use_rm_unit use_rtoken) use_pool_unit) 0;
            swap_amount = if input_is_fis
              then unwrap_or (checked_div (saturating_mul use_swap_unit use_fis) use_pool_unit) 0
              else unwrap_or (checked_div (saturating_mul use_swap_unit use_rtoken) use_pool_unit) 0
        in (safe_to_u128 fis_amount, safe_to_u128 rtoken_amount, safe_to_u128 swap_amount))"

section \<open>Operations\<close>

definition rdex_account_id :: "'c config \<Rightarrow> AccountId" where
  "rdex_account_id X = into_account X ''rdx/swap''"

definition put_swap_pool ::
    "RSymbol \<Rightarrow> SwapPool \<Rightarrow> ('c, 'call, 'z) rdex_state_scheme \<Rightarrow> ('c, 'call, 'z) rdex_state_scheme" where
  "put_swap_pool symbol pool = rdex_update (\<lambda>m. m\<lparr>SwapPools := (SwapPools m)(symbol \<mapsto> pool)\<rparr>)"

definition swap ::
    "'c config \<Rightarrow> origin \<Rightarrow> RSymbol \<Rightarrow> u128 \<Rightarrow> u128 \<Rightarrow> bool \<Rightarrow> ('c, 'call, 'z) rdex_state_scheme
     \<Rightarrow> ('c, 'call, 'z) rdex_run" where
  "swap X o' symbol input_amount min_out_amount input_is_fis s =
     ensure_signed o' s (\<lambda>who.
     ok_or (SwapPools (rdex s) symbol) (RDexSwapErr rdex_swap_error.PoolNotExist) s (\<lambda>pool.
     ensure (input_amount > 0 \<and> min_out_amount > 0) (RDexSwapErr rdex_swap_error.AmountZero) s
      (case cal_swap_result (fis_balance pool) (rtoken_balance pool) input_amount input_is_fis of (result, fee) \<Rightarrow>
       ensure (result > 0) (RDexSwapErr SwapAmountTooFew) s
      (ensure (result \<ge> min_out_amount) (RDexSwapErr rdex_swap_error.LessThanMinOutAmount) s
      (and_then
        (if input_is_fis then
           ensure (native_free_balance X who s > input_amount) (RDexSwapErr UserFisAmountNotEnough) s
          (ensure (result < rtoken_balance pool) (RDexSwapErr PoolRTokenBalanceNotEnough) s
          (and_then (native_transfer X who (rdex_account_id X) input_amount s) (\<lambda>_ s1.
           and_then (rbal_transfer (rdex_account_id X) who symbol result s1) (\<lambda>_ s2.
           (Ok (pool\<lparr>fis_balance := saturating_add (fis_balance pool) input_amount,
                     rtoken_balance := saturating_sub (rtoken_balance pool) result\<rparr>), s2)))))
         else
           ensure (rbal_free_balance who symbol s \<ge> input_amount) (RDexSwapErr UserRTokenAmountNotEnough) s
          (ensure (result < fis_balance pool) (RDexSwapErr PoolFisBalanceNotEnough) s
          (and_then (native_transfer X (rdex_account_id X) who result s) (\<lambda>_ s1.
           and_then (rbal_transfer who (rdex_account_id X) symbol input_amount s1) (\<lambda>_ s2.
           (Ok (pool\<lparr>rtoken_balance := saturating_add (rtoken_balance pool) input_amount,
                     fis_balance := saturating_sub (fis_balance pool) result\<rparr>), s2))))))
        (\<lambda>pool1 s2. (Ok (), deposit_event (RDexSwapEv (Swap who symbol input_amount result fee input_is_fis
             (fis_balance pool1) (rtoken_balance pool1))) (put_swap_pool symbol pool1 s2))))))))"

definition add_liquidity ::
    "'c config \<Rightarrow> origin \<Rightarrow> RSymbol \<Rightarrow> u128 \<Rightarrow> u128 \<Rightarrow> ('c, 'call, 'z) rdex_state_scheme
     \<Rightarrow> ('c, 'call, 'z) rdex_run" where
  "add_liquidity X o' symbol rtoken_amount fis_amount s =
     ensure_signed o' s (\<lambda>who.
     ok_or (SwapPools (rdex s) symbol) (RDexSwapErr rdex_swap_error.PoolNotExist) s (\<lambda>pool.
     ensure (LpWhitelist (rdex s) (symbol, who) \<or> LpSwitch (rdex s) symbol) (RDexSwapErr AddLpNotAllowed) s
    (ensure (fis_amount > 0 \<or> rtoken_amount > 0) (RDexSwapErr AmountAllZero) s
    (ensure (rbal_free_balance who symbol s \<ge> rtoken_amount) (RDexSwapErr UserRTokenAmountNotEnough) s
    (ensure (native_free_balance X who s > fis_amount) (RDexSwapErr UserFisAmountNotEnough) s
      (case cal_pool_unit (total_unit pool) (fis_balance pool) (rtoken_balance pool) fis_amount rtoken_amount of
         (new_total_pool_unit, add_lp_unit) \<Rightarrow>
       ensure (add_lp_unit > 0) (RDexSwapErr AddLpUnitIsZero) s
      (and_then (run_if (fis_amount > 0) (native_transfer X who (rdex_account_id X) fis_amount) s) (\<lambda>_ s1.
       and_then (run_if (rtoken_amount > 0) (rbal_transfer who (rdex_account_id X) symbol rtoken_amount) s1) (\<lambda>_ s2.
       let pool1 = pool\<lparr>total_unit := new_total_pool_unit,
             fis_balance := saturating_add (fis_balance pool) fis_amount,
             rtoken_balance := saturating_add (rtoken_balance pool) rtoken_amount\<rparr>
       in and_then (lp_mint who symbol add_lp_unit s2) (\<lambda>_ s3.
            (Ok (), deposit_event (RDexSwapEv (AddLiquidity who symbol fis_amount rtoken_amount new_total_pool_unit
                add_lp_unit (fis_balance pool1) (rtoken_balance pool1))) (put_swap_pool symbol pool1 s3))))))))))))"

text \<open>
  The withdrawal with an optional swap of a part of it: the pool afterwards and the two amounts paid.
\<close>

definition remove_amounts ::
    "SwapPool \<Rightarrow> u128 \<Rightarrow> u128 \<Rightarrow> bool \<Rightarrow> 's \<Rightarrow> (dispatch_error, SwapPool \<times> u128 \<times> u128, 's) run" where
  "remove_amounts pool rm_unit swap_unit input_is_fis s =
     (case cal_remove_result (total_unit pool) rm_unit swap_unit (fis_balance pool) (rtoken_balance pool) input_is_fis of
        (rm_fis_amount, rm_rtoken_amount, swap_input_amount) \<Rightarrow>
      let pool1 = pool\<lparr>total_unit := saturating_sub (total_unit pool) rm_unit,
            fis_balance := saturating_sub (fis_balance pool) rm_fis_amount,
            rtoken_balance := saturating_sub (rtoken_balance pool) rm_rtoken_amount\<rparr>
      in if swap_input_amount > 0 then
           let swap_result = fst (cal_swap_result (fis_balance pool1) (rtoken_balance pool1) swap_input_amount input_is_fis)
           in ensure (swap_result > 0) (RDexSwapErr SwapAmountTooFew) s
             (if input_is_fis then
                ensure (swap_result < rtoken_balance pool1) (RDexSwapErr PoolRTokenBalanceNotEnough) s
                  (Ok (pool1\<lparr>fis_balance := saturating_add (fis_balance pool1) swap_input_amount,
                             rtoken_balance := saturating_sub (rtoken_balance pool1) swap_result\<rparr>,
                       saturating_sub rm_fis_amount swap_input_amount,
                       saturating_add rm_rtoken_amount swap_result), s)
              else
                ensure (swap_result < fis_balance pool1) (RDexSwapErr PoolFisBalanceNotEnough) s
                  (Ok (pool1\<lparr>rtoken_balance := saturating_add (rtoken_balance pool1) swap_input_amount,
                             fis_balance := saturating_sub (fis_balance pool1) swap_result\<rparr>,
                       saturating_add rm_fis_amount swap_result,
                       saturating_sub rm_rtoken_amount swap_input_amount), s))
         else (Ok (pool1, rm_fis_amount, rm_rtoken_amount), s))"

definition remove_liquidity ::
    "'c config \<Rightarrow> origin \<Rightarrow> RSymbol \<Rightarrow> u128 \<Rightarrow> u128 \<Rightarrow> u128 \<Rightarrow> u128 \<Rightarrow> bool
     \<Rightarrow> ('c, 'call, 'z) rdex_state_scheme \<Rightarrow> ('c, 'call, 'z) rdex_run" where
  "remove_liquidity X o' symbol rm_unit swap_unit min_fis_out_amount min_rtoken_out_amount input_is_fis s =
     ensure_signed o' s (\<lambda>who.
     ok_or (SwapPools (rdex s) symbol) (RDexSwapErr rdex_swap_error.PoolNotExist) s (\<lambda>pool.
     let lp_unit = lp_free_balance who symbol s;
         pool_fis_balance = native_free_balance X (rdex_account_id X) s;
         pool_rtoken_balance = rbal_free_balance (rdex_account_id X) symbol s
     in ensure (rm_unit > 0 \<and> rm_unit \<le> lp_unit \<and> rm_unit \<ge> swap_unit) (RDexSwapErr UnitAmountImproper) s
       (and_then (remove_amounts pool rm_unit swap_unit input_is_fis s) (\<lambda>(pool1, rm_fis_amount, rm_rtoken_amount) s.
        ensure (rm_fis_amount \<ge> min_fis_out_amount \<and> rm_rtoken_amount \<ge> min_rtoken_out_amount)
          (RDexSwapErr rdex_swap_error.LessThanMinOutAmount) s
       (ensure (\<not> (fis_balance pool1 = 0 \<and> rtoken_balance pool1 \<noteq> 0 \<or> fis_balance pool1 \<noteq> 0 \<and> rtoken_balance pool1 = 0))
          (RDexSwapErr PoolOneSideZero) s
       (ensure (pool_fis_balance \<ge> rm_fis_amount) (RDexSwapErr PoolFisBalanceNotEnough) s
       (ensure (pool_rtoken_balance \<ge> rm_rtoken_amount) (RDexSwapErr PoolRTokenBalanceNotEnough) s
       (and_then (run_if (rm_fis_amount > 0) (native_transfer X (rdex_account_id X) who rm_fis_amount) s) (\<lambda>_ s1.
        and_then (run_if (rm_rtoken_amount > 0) (rbal_transfer (rdex_account_id X) who symbol rm_rtoken_amount) s1) (\<lambda>_ s2.
        and_then (lp_burn who symbol rm_unit s2) (\<lambda>_ s3.
        (Ok (), deposit_event (RDexSwapEv (RemoveLiquidity who symbol rm_unit swap_unit rm_fis_amount rm_rtoken_amount
            input_is_fis (fis_balance pool1) (rtoken_balance pool1))) (put_swap_pool symbol pool1 s3)))))))))))))"

definition create_pool ::
    "'c config \<Rightarrow> origin \<Rightarrow> AccountId \<Rightarrow> RSymbol \<Rightarrow> u128 \<Rightarrow> u128 \<Rightarrow> ('c, 'call, 'z) rdex_state_scheme
     \<Rightarrow> ('c, 'call, 'z) rdex_run" where
  "create_pool X o' who symbol rtoken_amount fis_amount s =
     ensure_root o' s
    (ensure (SwapPools (rdex s) symbol = None) (RDexSwapErr PoolAlreadyExist) s
    (ensure (fis_amount > 0 \<and> rtoken_amount > 0) (RDexSwapErr rdex_swap_error.AmountZero) s
    (ensure (rbal_free_balance who symbol s \<ge> rtoken_amount) (RDexSwapErr UserRTokenAmountNotEnough) s
    (ensure (native_free_balance X who s > fis_amount) (RDexSwapErr UserFisAmountNotEnough) s
      (case cal_pool_unit 0 0 0 fis_amount rtoken_amount of (pool_unit, lp_unit) \<Rightarrow>
       let pool = \<lparr>pool_symbol = symbol, fis_balance = fis_amount, rtoken_balance = rtoken_amount, total_unit = pool_unit\<rparr>
       in and_then (native_transfer X who (rdex_account_id X) fis_amount s) (\<lambda>_ s1.
          and_then (rbal_transfer who (rdex_account_id X) symbol rtoken_amount s1) (\<lambda>_ s2.
          and_then (lp_mint who symbol lp_unit s2) (\<lambda>_ s3.
          (Ok (), deposit_event (RDexSwapEv (CreatePool who symbol fis_amount rtoken_amount pool_unit lp_unit))
             (put_swap_pool symbol pool s3))))))))))"

definition add_lp_to_whitelist ::
    "origin \<Rightarrow> RSymbol \<Rightarrow> AccountId \<Rightarrow> ('c, 'call, 'z) rdex_state_scheme \<Rightarrow> ('c, 'call, 'z) rdex_run" where
  "add_lp_to_whitelist o' symbol who s =
     ensure_root o' s (Ok (), rdex_update (\<lambda>m. m\<lparr>LpWhitelist := (LpWhitelist m)((symbol, who) := True)\<rparr>) s)"

definition remove_lp_from_whitelist ::
    "origin \<Rightarrow> RSymbol \<Rightarrow> AccountId \<Rightarrow> ('c, 'call, 'z) rdex_state_scheme \<Rightarrow> ('c, 'call, 'z) rdex_run" where
  "remove_lp_from_whitelist o' symbol who s =
     ensure_root o' s (Ok (), rdex_update (\<lambda>m. m\<lparr>LpWhitelist := (LpWhitelist m)((symbol, who) := False)\<rparr>) s)"

definition toggle_lp_switch ::
    "origin \<Rightarrow> RSymbol \<Rightarrow> ('c, 'call, 'z) rdex_state_scheme \<Rightarrow> ('c, 'call, 'z) rdex_run" where
  "toggle_lp_switch o' symbol s =
     ensure_root o' s (Ok (), rdex_update (\<lambda>m. m\<lparr>LpSwitch := (LpSwitch m)(symbol := \<not> LpSwitch m symbol)\<rparr>) s)"

section \<open>The formulas over the natural numbers\<close>

text \<open>The formulas of the comments, with integer division and the clamp to 128 bits.\<close>

definition clamp :: "nat \<Rightarrow> nat" where
  "clamp n = min (2 ^ 128 - 1) n"

definition swap_spec :: "nat \<Rightarrow> nat \<Rightarrow> nat \<Rightarrow> nat \<times> nat" where
  "swap_spec X Y x =
     (if X = 0 \<or> Y = 0 \<or> x = 0 then (0, 0) else (x * X * Y div (x + X)\<^sup>2, x * x * Y div (x + X)\<^sup>2))"

definition pool_unit_spec :: "nat \<Rightarrow> nat \<Rightarrow> nat \<Rightarrow> nat \<Rightarrow> nat \<Rightarrow> nat \<times> nat" where
  "pool_unit_spec P F R f r =
     (if f = 0 \<and> r = 0 \<or> F + f = 0 \<or> R + r = 0 then (0, 0)
      else if F = 0 \<or> R = 0 then (f, f)
      else
        let raw = P * (F * r + f * R) div (R * F * 2);
            slip = (if F * r > f * R then F * r - f * R else f * R - F * r);
            add = raw - raw * slip div ((f + F) * (r + R))
        in if raw = 0 then (0, 0) else (clamp (P + add), clamp add))"

definition remove_spec :: "nat \<Rightarrow> nat \<Rightarrow> nat \<Rightarrow> nat \<Rightarrow> nat \<Rightarrow> bool \<Rightarrow> nat \<times> nat \<times> nat" where
  "remove_spec P u w F R is_fis =
     (if P = 0 \<or> u = 0 then (0, 0, 0)
      else (min u P * F div P, min u P * R div P, clamp (w * (if is_fis then F else R) div P)))"

lemma mult_less_pow:
  fixes a b :: nat
  assumes "a < 2 ^ m" "b < 2 ^ n"
  shows "a * b < 2 ^ (m + n)"
  unfolding power_add using assms by (intro mult_strict_mono) simp_all

lemma unat_u128_less: "unat (a :: u128) < 2 ^ 128"
  using unat_less_pow [of a] by simp

lemma unat_u512 [simp]: "unat (ucast (a :: u128) :: u512) = unat a"
  by (rule unat_widen) simp

lemma u512_eq_0 [simp]: "(ucast (a :: u128) :: u512) = 0 \<longleftrightarrow> a = 0"
  by (metis unat_0 unat_u512 unat_eq_0)

lemma unat_safe_to_u128: "unat (safe_to_u128 n) = clamp (unat n)"
proof -
  have "n > ucast (- 1 :: u128) \<longleftrightarrow> unat n > 2 ^ 128 - 1"
    by (simp add: word_less_nat_alt unat_max)
  moreover have "unat (ucast n :: u128) = unat n mod 2 ^ 128"
    by (simp add: unsigned_ucast_eq take_bit_eq_mod)
  ultimately show ?thesis
    by (auto simp: safe_to_u128_def clamp_def unat_max)
qed

lemma unat_sat_mul_512:
  "unat a * unat b < 2 ^ 512 \<Longrightarrow> unat (saturating_mul a b :: u512) = unat a * unat b"
  by (simp add: unat_saturating_mul)

lemma unat_sat_add_512:
  "unat a + unat b < 2 ^ 512 \<Longrightarrow> unat (saturating_add a b :: u512) = unat a + unat b"
  by (simp add: unat_saturating_add)

lemma swap_out_le: "(x :: nat) * X * Y div (x + X)\<^sup>2 \<le> Y" and fee_le: "x * x * Y div (x + X)\<^sup>2 \<le> Y"
proof -
  have "x * X \<le> (x + X)\<^sup>2" "x * x \<le> (x + X)\<^sup>2" by (simp_all add: power2_eq_square algebra_simps)
  then have "x * X * Y \<le> Y * (x + X)\<^sup>2" "x * x * Y \<le> Y * (x + X)\<^sup>2" by simp_all
  then show "x * X * Y div (x + X)\<^sup>2 \<le> Y" "x * x * Y div (x + X)\<^sup>2 \<le> Y"
    by (metis div_le_mono div_mult_self_is_m div_by_0 zero_le gr0I)+
qed

lemma clamp_id: "n < 2 ^ 128 \<Longrightarrow> clamp n = n"
  by (simp add: clamp_def)

lemma cal_swap_exact:
  "map_prod unat unat (cal_swap_result F R x b)
   = swap_spec (unat (if b then F else R)) (unat (if b then R else F)) (unat x)"
proof -
  let ?X = "if b then F else R" and ?Y = "if b then R else F"
  have lt: "unat x < 2 ^ 128" "unat ?X < 2 ^ 128" "unat ?Y < 2 ^ 128" by (rule unat_u128_less)+
  have t: "unat (saturating_add (ucast x) (ucast ?X) :: u512) = unat x + unat ?X"
    using lt by (subst unat_sat_add_512) simp_all
  have "unat x + unat ?X < 2 ^ 129" using lt by simp
  from mult_less_pow [OF this this] have d: "unat (saturating_mul (saturating_add (ucast x) (ucast ?X)) (saturating_add (ucast x) (ucast ?X)) :: u512)
      = (unat x + unat ?X)\<^sup>2"
    by (subst unat_sat_mul_512) (simp_all add: t power2_eq_square)
  have p2: "unat x * unat z < 2 ^ 256" for z :: u128
    using mult_less_pow [OF lt(1) unat_less_pow [of z]] by simp
  have m2: "unat (saturating_mul (ucast x) (ucast z) :: u512) = unat x * unat z" for z :: u128
    using p2 [of z] by (subst unat_sat_mul_512) simp_all
  have m3: "unat (saturating_mul (saturating_mul (ucast x) (ucast z)) (ucast ?Y) :: u512) = unat x * unat z * unat ?Y" for z :: u128
    using mult_less_pow [OF p2 [of z] lt(3)] by (subst unat_sat_mul_512) (simp_all add: m2)
  show ?thesis
  proof (cases "F = 0 \<or> R = 0 \<or> x = 0")
    case True
    then show ?thesis by (auto simp: cal_swap_result_def swap_spec_def)
  next
    case False
    then have nz: "unat x \<noteq> 0" "unat ?X \<noteq> 0" "unat ?Y \<noteq> 0" by (auto simp: unat_eq_0)
    have y: "clamp (unat x * unat ?X * unat ?Y div (unat x + unat ?X)\<^sup>2) = unat x * unat ?X * unat ?Y div (unat x + unat ?X)\<^sup>2"
      "clamp (unat x * unat x * unat ?Y div (unat x + unat ?X)\<^sup>2) = unat x * unat x * unat ?Y div (unat x + unat ?X)\<^sup>2"
      using swap_out_le [of "unat x" "unat ?X" "unat ?Y"] fee_le [of "unat x" "unat ?Y" "unat ?X"] lt(3)
      by (intro clamp_id; linarith)+
    have fold: "(if b then ucast F else ucast R :: u512) = ucast ?X" "(if b then ucast R else ucast F :: u512) = ucast ?Y" by simp_all
    show ?thesis
      using False nz y
      unfolding cal_swap_result_def Let_def fold swap_spec_def
      by (simp only: if_False map_prod_simp unat_safe_to_u128 unat_checked_div_or_0 d m3 simp_thms)
  qed
qed

lemma unat_mul_128:
  fixes a b :: u128
  shows "unat (saturating_mul (ucast a) (ucast b) :: u512) = unat a * unat b" "unat a * unat b < 2 ^ 256"
proof -
  show lt: "unat a * unat b < 2 ^ 256"
    using mult_less_pow [OF unat_u128_less [of a] unat_u128_less [of b]] by simp
  then show "unat (saturating_mul (ucast a) (ucast b) :: u512) = unat a * unat b"
    by (subst unat_sat_mul_512) simp_all
qed

lemma share_le: "(P :: nat) \<noteq> 0 \<Longrightarrow> u \<le> P \<Longrightarrow> u * F div P \<le> F"
  by (metis div_le_mono mult_le_mono1 nonzero_mult_div_cancel_left)

lemma cal_remove_exact:
  "map_prod unat (map_prod unat unat) (cal_remove_result P u w F R b)
   = remove_spec (unat P) (unat u) (unat w) (unat F) (unat R) b"
proof (cases "P = 0 \<or> u = 0")
  case True
  then show ?thesis by (auto simp: cal_remove_result_def remove_spec_def)
next
  case False
  then have nz: "unat P \<noteq> 0" "unat u \<noteq> 0" by (auto simp: unat_eq_0)
  let ?u = "if u > P then P else u"
  have u: "unat ?u = min (unat u) (unat P)" by (auto simp: word_less_nat_alt)
  have fold: "(if u > P then ucast P else ucast u :: u512) = ucast ?u" by simp
  have cl: "clamp (min (unat u) (unat P) * unat z div unat P) = min (unat u) (unat P) * unat z div unat P" for z :: u128
    using share_le [OF nz(1), of "min (unat u) (unat P)" "unat z"] unat_u128_less [of z] by (intro clamp_id) simp
  show ?thesis
    using False nz
    by (simp add: cal_remove_result_def Let_def remove_spec_def fold unat_safe_to_u128 unat_checked_div_or_0
        unat_mul_128(1) u cl del: if_split_asm)
qed

lemma saturating_add_eq_0: "saturating_add a b = 0 \<longleftrightarrow> a = 0 \<and> b = (0 :: u128)"
proof -
  have "saturating_add a b = 0 \<longleftrightarrow> unat (saturating_add a b) = 0" by (simp only: unat_eq_0)
  also have "\<dots> \<longleftrightarrow> a = 0 \<and> b = 0" by (auto simp: unat_saturating_add min_def unat_eq_0)
  finally show ?thesis .
qed

lemma mult_less_512: "a < 2 ^ 256 \<Longrightarrow> b < 2 ^ 256 \<Longrightarrow> a * b < (2 :: nat) ^ 512"
  using mult_less_pow [of a 256 b 256] by simp

lemma adjusted_unit:
  fixes raw slip den :: u512
  assumes "unat raw < 2 ^ 256" "unat slip < 2 ^ 256"
  shows "unat (if slip \<noteq> 0 then unwrap_or (checked_div (saturating_mul raw slip) den) 0 else 0)
    = unat raw * unat slip div unat den"
  using unat_sat_mul_512 [OF mult_less_512 [OF assms]] by (simp add: unat_checked_div_or_0)

lemma summed_unit:
  fixes raw adj :: u512 and P :: u128
  assumes "unat raw < 2 ^ 256"
  shows "unat (saturating_add (ucast P) (saturating_sub raw adj) :: u512) = unat P + unat (saturating_sub raw adj)"
proof -
  have "unat P + unat (saturating_sub raw adj) < 2 ^ 512"
    using unat_u128_less [of P] assms by (simp add: unat_saturating_sub)
  then show ?thesis by (subst unat_sat_add_512) simp_all
qed

lemma raw_bound:
  fixes P F R f r :: nat
  assumes "F \<noteq> 0" "R \<noteq> 0" "P < 2 ^ 128" "f < 2 ^ 128" "r < 2 ^ 128"
  shows "P * (F * r + f * R) div (R * F * 2) < 2 ^ 256"
proof -
  have "1 * (F * r) \<le> R * (F * r)" "1 * (f * R) \<le> F * (f * R)"
    using assms(1,2) by (intro mult_le_mono1; simp)+
  then have "1 * (F * r) + 1 * (f * R) \<le> R * (F * r) + F * (f * R)" by (rule add_mono)
  also have "\<dots> = R * F * (r + f)" by (simp only: distrib_left mult_ac)
  finally have "F * r + f * R \<le> R * F * (r + f)" by simp
  then have "P * (F * r + f * R) \<le> P * (R * F * (r + f))" by (rule mult_le_mono2)
  also have "\<dots> = R * F * (P * (r + f))" by (simp only: mult_ac)
  finally have "P * (F * r + f * R) div (R * F * 2) \<le> R * F * (P * (r + f)) div (R * F * 2)" by (rule div_le_mono)
  also have "\<dots> = P * (r + f) div 2" using assms(1,2) by (metis div_mult_mult1 mult_eq_0_iff)
  also have "\<dots> < 2 ^ 256"
  proof -
    have "r + f < 2 ^ 129" using assms(4,5) by simp
    from mult_less_pow [OF assms(3) this] show ?thesis by simp
  qed
  finally show ?thesis .
qed

lemma cal_pool_unit_exact:
  "map_prod unat unat (cal_pool_unit P F R f r)
   = pool_unit_spec (unat P) (unat F) (unat R) (unat f) (unat r)"
proof (cases "f = 0 \<and> r = 0 \<or> F = 0 \<or> R = 0")
  case True
  then show ?thesis
    by (auto simp: cal_pool_unit_def pool_unit_spec_def unat_eq_0 saturating_add_eq_0)
next
  case False
  let ?P = "unat P" and ?F = "unat F" and ?R = "unat R" and ?f = "unat f" and ?r = "unat r"
  have nz: "?F \<noteq> 0" "?R \<noteq> 0" "\<not> (?f = 0 \<and> ?r = 0)" using False by (auto simp: unat_eq_0)
  note lt = unat_u128_less
  let ?Fr = "saturating_mul (ucast F) (ucast r) :: u512" and ?fR = "saturating_mul (ucast f) (ucast R) :: u512"
  have prods: "unat ?Fr = ?F * ?r" "unat ?fR = ?f * ?R" "?F * ?r < 2 ^ 256" "?f * ?R < 2 ^ 256"
    by (rule unat_mul_128)+
  have num_lt: "?F * ?r + ?f * ?R < 2 ^ 257"
    using prods(3,4) by simp
  have num: "unat (saturating_add ?Fr ?fR) = ?F * ?r + ?f * ?R"
    using num_lt prods(1,2) by (subst unat_sat_add_512) simp_all
  have pn: "unat (saturating_mul (ucast P) (saturating_add ?Fr ?fR) :: u512) = ?P * (?F * ?r + ?f * ?R)"
    using mult_less_pow [OF lt [of P] num_lt] by (subst unat_sat_mul_512) (simp_all add: num)
  have den: "unat (saturating_mul (saturating_mul (ucast R) (ucast F)) 2 :: u512) = ?R * ?F * 2"
    using unat_mul_128(1) [of R F] unat_mul_128(2) [of F R] by (subst unat_sat_mul_512) simp_all
  let ?raw = "?P * (?F * ?r + ?f * ?R) div (?R * ?F * 2)"
  have raw_lt: "?raw < 2 ^ 256" by (rule raw_bound [OF nz(1,2) lt lt lt])
  let ?rawW = "unwrap_or (checked_div (saturating_mul (ucast P) (saturating_add ?Fr ?fR)) (saturating_mul (saturating_mul (ucast R) (ucast F)) 2)) 0 :: u512"
  have rawW: "unat ?rawW = ?raw" by (simp only: unat_checked_div_or_0 pn den)
  let ?slip = "if ?F * ?r > ?f * ?R then ?F * ?r - ?f * ?R else ?f * ?R - ?F * ?r"
  let ?slipW = "if ?Fr > ?fR then saturating_sub ?Fr ?fR else saturating_sub ?fR ?Fr"
  have slipW: "unat ?slipW = ?slip" by (simp add: unat_saturating_sub word_less_nat_alt prods)
  have slip_lt: "?slip < 2 ^ 256" using prods(3,4) by auto
  let ?denW = "saturating_mul (saturating_add (ucast f) (ucast F)) (saturating_add (ucast r) (ucast R)) :: u512"
  have denW: "unat ?denW = (?f + ?F) * (?r + ?R)"
  proof -
    have s: "unat (saturating_add (ucast a) (ucast b) :: u512) = unat a + unat b" for a b :: u128
      using lt [of a] lt [of b] by (subst unat_sat_add_512) simp_all
    have "?f + ?F < 2 ^ 129" "?r + ?R < 2 ^ 129" using lt [of f] lt [of F] lt [of r] lt [of R] by simp_all
    from mult_less_pow [OF this] show ?thesis by (subst unat_sat_mul_512) (simp_all add: s)
  qed
  let ?adjW = "if ?slipW \<noteq> 0 then unwrap_or (checked_div (saturating_mul ?rawW ?slipW) ?denW) 0 else 0"
  note bounds = raw_lt [folded rawW] slip_lt [folded slipW]
  have adjW: "unat ?adjW = ?raw * ?slip div ((?f + ?F) * (?r + ?R))"
    by (rule adjusted_unit [OF bounds, of ?denW, unfolded rawW slipW denW])
  let ?add = "?raw - ?raw * ?slip div ((?f + ?F) * (?r + ?R))"
  have addW: "unat (saturating_sub ?rawW ?adjW) = ?add" by (simp only: unat_saturating_sub rawW adjW)
  have totW: "unat (saturating_add (ucast P) (saturating_sub ?rawW ?adjW) :: u512) = ?P + ?add"
    using summed_unit [OF bounds(1), of P ?adjW] by (simp only: addW)
  have g: "saturating_add F f \<noteq> 0" "saturating_add R r \<noteq> 0"
    using False by (auto simp: saturating_add_eq_0)
  have z: "?rawW = 0 \<longleftrightarrow> ?raw = 0" using rawW by (metis unat_eq_0)
  have c: "(f = 0 \<and> r = 0) = False" "(F = 0 \<or> R = 0) = False" using False by blast+
  show ?thesis
    using nz g z
    unfolding cal_pool_unit_def pool_unit_spec_def Let_def
    by (simp only: c if_False simp_thms add_is_0 map_prod_simp unat_safe_to_u128 totW addW if_distrib [of "map_prod unat unat"] unat_0)
qed

section \<open>Growth of the product\<close>

text \<open>
  The worth of a unit is measured by the product of the reserves over the square of the units: it does
  not fall from one pool to the next.
\<close>

definition no_dilution :: "SwapPool \<Rightarrow> SwapPool \<Rightarrow> bool" where
  "no_dilution p q \<longleftrightarrow>
     unat (fis_balance p) * unat (rtoken_balance p) * (unat (total_unit q))\<^sup>2
     \<le> unat (fis_balance q) * unat (rtoken_balance q) * (unat (total_unit p))\<^sup>2"

lemma swap_grows:
  fixes X Y x :: nat
  shows "X * Y \<le> (X + x) * (Y - x * X * Y div (x + X)\<^sup>2)"
proof -
  let ?y = "x * X * Y div (x + X)\<^sup>2"
  have "?y * (x + X) \<le> x * Y"
  proof (cases "x + X = 0")
    case False
    have "?y * (x + X) * (x + X) \<le> x * X * Y"
      by (metis div_times_less_eq_dividend mult.assoc power2_eq_square)
    also have "\<dots> \<le> x * Y * (x + X)" by (simp add: algebra_simps)
    finally show ?thesis using False by auto
  qed simp
  then have "(X + x) * Y - x * Y \<le> (X + x) * Y - (X + x) * ?y"
    by (intro diff_le_mono2) (simp add: mult.commute add.commute)
  then show ?thesis by (simp add: diff_mult_distrib2 algebra_simps)
qed

lemma share_left:
  fixes P u F :: nat
  assumes "u \<le> P"
  shows "F * (P - u) \<le> (F - u * F div P) * P"
proof -
  have "F * P - u * F \<le> F * P - u * F div P * P" by (intro diff_le_mono2) simp
  then show ?thesis by (simp add: diff_mult_distrib2 diff_mult_distrib mult.commute)
qed

lemma swap_result_nat:
  "unat (fst (cal_swap_result F R x b)) =
     unat x * unat (if b then F else R) * unat (if b then R else F) div (unat x + unat (if b then F else R))\<^sup>2"
  using arg_cong [OF cal_swap_exact [of F R x b], of fst] by (auto simp: swap_spec_def split: if_splits)

text \<open>A swap on a pool: the product grows while the side paid into does not overflow.\<close>

lemma swapped_product:
  assumes "r = fst (cal_swap_result F R x b)" "unat (if b then F else R) + unat x < 2 ^ 128"
  shows "unat F * unat R \<le>
    (if b then unat (saturating_add F x) * unat (saturating_sub R r) else unat (saturating_sub F r) * unat (saturating_add R x))"
  using assms swap_grows [of "unat F" "unat R" "unat x"] swap_grows [of "unat R" "unat F" "unat x"]
  by (auto simp: unat_saturating_add unat_saturating_sub swap_result_nat mult.commute)

lemma removed_parts:
  assumes "cal_remove_result P u w F R b = (a, c, v)" "u \<le> P" "w \<le> u" "u > 0"
  shows "unat F * (unat P - unat u) \<le> (unat F - unat a) * unat P"
    "unat R * (unat P - unat u) \<le> (unat R - unat c) * unat P"
    "v \<le> (if b then a else c)" "a \<le> F" "c \<le> R"
proof -
  have nz: "unat P \<noteq> 0" "unat u \<noteq> 0" and le: "unat u \<le> unat P" "unat w \<le> unat u"
    using assms(2-4) by (auto simp: word_le_nat_alt word_less_nat_alt unat_eq_0)
  have "(unat a, unat c, unat v) = remove_spec (unat P) (unat u) (unat w) (unat F) (unat R) b"
    using cal_remove_exact [of P u w F R b] assms(1) by simp
  with nz le have amounts: "unat a = unat u * unat F div unat P" "unat c = unat u * unat R div unat P"
    "unat v = clamp (unat w * (if b then unat F else unat R) div unat P)"
    by (auto simp: remove_spec_def min_def)
  show "unat F * (unat P - unat u) \<le> (unat F - unat a) * unat P" "unat R * (unat P - unat u) \<le> (unat R - unat c) * unat P"
    unfolding amounts by (rule share_left [OF le(1)])+
  show "a \<le> F" "c \<le> R"
    using share_le [OF nz(1) le(1), of "unat F"] share_le [OF nz(1) le(1), of "unat R"] amounts by (simp_all add: word_le_nat_alt)
  have "unat w * z div unat P \<le> unat u * z div unat P" for z
    by (intro div_le_mono mult_le_mono1 le(2))
  then show "v \<le> (if b then a else c)"
    using amounts by (auto simp: word_le_nat_alt clamp_def min_def intro: le_trans)
qed

lemma square_share:
  fixes F R F' R' P d :: nat
  assumes "F * d \<le> F' * P" "R * d \<le> R' * P"
  shows "F * R * d\<^sup>2 \<le> F' * R' * P\<^sup>2"
  using mult_le_mono [OF assms] by (simp add: power2_eq_square mult_ac)

lemma remove_amounts_no_dilution:
  assumes "remove_amounts p u w b s = (Ok (q, a, c), t)" "w \<le> u" "u > 0"
  shows "no_dilution p q"
proof (cases "u \<le> total_unit p")
  case False
  then have "unat (saturating_sub (total_unit p) u) = 0" by (simp add: unat_saturating_sub word_le_nat_alt)
  moreover have "total_unit q = saturating_sub (total_unit p) u"
    using assms(1) by (auto simp: remove_amounts_def Let_def run_ok split: prod.splits if_splits)
  ultimately show ?thesis by (simp add: no_dilution_def)
next
  case True
  obtain a0 c0 v where rm: "cal_remove_result (total_unit p) u w (fis_balance p) (rtoken_balance p) b = (a0, c0, v)"
    by (metis prod_cases3)
  note parts = removed_parts [OF rm True assms(2,3)]
  let ?F = "saturating_sub (fis_balance p) a0" and ?R = "saturating_sub (rtoken_balance p) c0"
  have d: "unat (saturating_sub (total_unit p) u) = unat (total_unit p) - unat u" by (simp add: unat_saturating_sub)
  have base: "unat (fis_balance p) * unat (rtoken_balance p) * (unat (total_unit p) - unat u)\<^sup>2
      \<le> unat ?F * unat ?R * (unat (total_unit p))\<^sup>2"
    unfolding unat_saturating_sub by (rule square_share [OF parts(1,2)])
  have room: "unat (if b then ?F else ?R) + unat v < 2 ^ 128"
    using parts(3-5) unat_u128_less [of "fis_balance p"] unat_u128_less [of "rtoken_balance p"]
    by (auto simp: unat_saturating_sub word_le_nat_alt)
  note grow = mult_le_mono1 [OF swapped_product [OF refl room], of "(unat (total_unit p))\<^sup>2"]
  show ?thesis
    using assms(1) base grow
    by (auto simp: remove_amounts_def rm Let_def run_ok no_dilution_def d split: if_splits intro: le_trans)
qed

section \<open>Property\<close>

text \<open>
  C17. The arithmetic of the exchange is exact: on every input the 512-bit computations with
  saturating operations of \<open>cal_swap_result\<close>, \<open>cal_remove_result\<close> and \<open>cal_pool_unit\<close> return the
  values of the formulas of their comments over the natural numbers, with integer division and a
  final clamp to 128 bits; no intermediate result saturates and no division is by zero.
\<close>

theorem exchange_arithmetic_exact:
  "map_prod unat unat (cal_swap_result F R x b)
     = swap_spec (unat (if b then F else R)) (unat (if b then R else F)) (unat x)
   \<and> map_prod unat (map_prod unat unat) (cal_remove_result P u w F R b)
     = remove_spec (unat P) (unat u) (unat w) (unat F) (unat R) b
   \<and> map_prod unat unat (cal_pool_unit P F R f r)
     = pool_unit_spec (unat P) (unat F) (unat R) (unat f) (unat r)"
  by (intro conjI cal_swap_exact cal_remove_exact cal_pool_unit_exact)

end
