(* ===== verification/RDex_Reserves.thy ===== *)
theory RDex_Reserves
  imports RDex_Swap
begin

text \<open>
  The reserves the pools of \<open>rdex/swap\<close> record and the tokens its account holds: every operation keeps
  the account able to pay what the pools record, on its failing branches too.
\<close>

section \<open>Reserves\<close>

text \<open>A predicate that holds whenever a computation ends without a value.\<close>

definition errs :: "('s \<Rightarrow> bool) \<Rightarrow> ('e, 'a, 's) run \<Rightarrow> bool" where
  "errs P r \<longleftrightarrow> (case r of (Ok _, _) \<Rightarrow> True | (_, s) \<Rightarrow> P s)"

named_theorems run_errs "states in which a computation fails"

lemma return_errs [run_errs]: "errs P (Ok x, s)" "P s \<Longrightarrow> errs P (Err e, s)"
  by (simp_all add: errs_def)

lemma ensure_errs [run_errs]: "P s \<Longrightarrow> (b \<Longrightarrow> errs P k) \<Longrightarrow> errs P (ensure b e s k)"
  by (simp add: errs_def ensure_def)

lemma ok_or_errs [run_errs]: "P s \<Longrightarrow> (\<And>y. v = Some y \<Longrightarrow> errs P (k y)) \<Longrightarrow> errs P (ok_or v e s k)"
  by (cases v) (simp_all add: errs_def)

lemma and_then_errs [run_errs]:
  "errs P r \<Longrightarrow> (\<And>y t. r = (Ok y, t) \<Longrightarrow> errs P (k y t)) \<Longrightarrow> errs P (and_then r k)"
  by (cases r; cases "fst r") (auto simp: errs_def)

lemma run_if_errs [run_errs]: "P s \<Longrightarrow> (b \<Longrightarrow> errs P (f s)) \<Longrightarrow> errs P (run_if b f s)"
  by (simp add: errs_def run_if_def)

lemma if_errs [run_errs]: "(b \<Longrightarrow> errs P x) \<Longrightarrow> (\<not> b \<Longrightarrow> errs P y) \<Longrightarrow> errs P (if b then x else y)"
  by simp

lemma and_then_keeps_errs:
  "errs P r \<Longrightarrow> (\<And>y t. r = (Ok y, t) \<Longrightarrow> keeps P (k y t)) \<Longrightarrow> keeps P (and_then r k)"
  by (cases r; cases "fst r") (auto simp: errs_def keeps_def)

lemmas guard_keeps = ensure_root_keeps ensure_signed_keeps ok_or_keeps ensure_keeps

lemma native_transfer_errs [run_errs]: "currency_ok X \<Longrightarrow> P s \<Longrightarrow> errs P (native_transfer X a b v s)"
  using native_transfer_Err [of X a b v s] native_transfer_total [of X a b v s]
  by (cases "native_transfer X a b v s"; cases "fst (native_transfer X a b v s)") (auto simp: errs_def no_panic_def)

lemma rbal_transfer_errs [run_errs]: "P s \<Longrightarrow> errs P (rbal_transfer a b y v s)"
  using rcur.transfer_fails [of a b y v s] rcur.transfer_total [of a b y v s]
  by (cases "rbal_transfer a b y v s"; cases "fst (rbal_transfer a b y v s)") (auto simp: errs_def)

lemma lp_errs [run_errs]: "P s \<Longrightarrow> errs P (lp_mint a y v s)" "P s \<Longrightarrow> errs P (lp_burn a y v s)"
  using lcur.mint_fails [of a y v s] lcur.mint_total [of a y v s] lcur.burn_fails [of a y v s] lcur.burn_total [of a y v s]
  by (cases "lp_mint a y v s"; cases "fst (lp_mint a y v s)"; cases "lp_burn a y v s"; cases "fst (lp_burn a y v s)";
      auto simp: errs_def)+

text \<open>
  What the pools record and what the account of the pallet holds.
\<close>

definition fis_reserve :: "RSymbol \<Rightarrow> ('c, 'call, 'z) rdex_state_scheme \<Rightarrow> nat" where
  "fis_reserve y s = (case SwapPools (rdex s) y of None \<Rightarrow> 0 | Some p \<Rightarrow> unat (fis_balance p))"

definition rtoken_reserve :: "RSymbol \<Rightarrow> ('c, 'call, 'z) rdex_state_scheme \<Rightarrow> nat" where
  "rtoken_reserve y s = (case SwapPools (rdex s) y of None \<Rightarrow> 0 | Some p \<Rightarrow> unat (rtoken_balance p))"

definition reserves_covered :: "'c config \<Rightarrow> ('c, 'call, 'z) rdex_state_scheme \<Rightarrow> bool" where
  "reserves_covered X s \<longleftrightarrow>
     (\<Sum>y\<in>UNIV. fis_reserve y s) \<le> unat (native_free_balance X (rdex_account_id X) s)
   \<and> (\<forall>y. rtoken_reserve y s \<le> unat (rbal_free_balance (rdex_account_id X) y s))"

text \<open>The rtoken balances of two accounts add up within 128 bits, as they do while the issuance is exact.\<close>

definition balances_fit :: "('c, 'z) tokens_state_scheme \<Rightarrow> bool" where
  "balances_fit s \<longleftrightarrow> (\<forall>a b y. a \<noteq> b \<longrightarrow> unat (rbal_free_balance a y s) + unat (rbal_free_balance b y s) < 2 ^ 128)"

inductive rdex_reach for X where
  genesis: "SwapPools (rdex s) = (\<lambda>_. None) \<Longrightarrow> rdex_reach X s"
| swap: "rdex_reach X s \<Longrightarrow> balances_fit s \<Longrightarrow> o' \<noteq> Signed (rdex_account_id X) \<Longrightarrow> rdex_reach X (snd (swap X o' y v m b s))"
| add: "rdex_reach X s \<Longrightarrow> o' \<noteq> Signed (rdex_account_id X) \<Longrightarrow> rdex_reach X (snd (add_liquidity X o' y r f s))"
| remove: "rdex_reach X s \<Longrightarrow> balances_fit s \<Longrightarrow> o' \<noteq> Signed (rdex_account_id X)
    \<Longrightarrow> rdex_reach X (snd (remove_liquidity X o' y u w mf mr b s))"
| create: "rdex_reach X s \<Longrightarrow> who \<noteq> rdex_account_id X \<Longrightarrow> rdex_reach X (snd (create_pool X o' who y r f s))"
| other: "rdex_reach X s \<Longrightarrow> SwapPools (rdex t) = SwapPools (rdex s)
    \<Longrightarrow> native_free_balance X (rdex_account_id X) s \<le> native_free_balance X (rdex_account_id X) t
    \<Longrightarrow> (\<And>y. rbal_free_balance (rdex_account_id X) y s \<le> rbal_free_balance (rdex_account_id X) y t) \<Longrightarrow> rdex_reach X t"

lemma finite_RSymbol: "finite (UNIV :: RSymbol set)"
proof -
  have "(UNIV :: RSymbol set) = {RFIS, RDOT, RKSM, RATOM, RSOL, RMATIC, RBNB, RETH}"
    using RSymbol.exhaust by blast
  then show ?thesis by (metis finite.emptyI finite.insertI)
qed

lemma fis_total_put:
  assumes "SwapPools (rdex t) = (SwapPools (rdex s))(y \<mapsto> p)"
  shows "(\<Sum>y\<in>UNIV. fis_reserve y t) + fis_reserve y s = (\<Sum>y\<in>UNIV. fis_reserve y s) + unat (fis_balance p)"
proof -
  have "(\<Sum>z\<in>UNIV - {y}. fis_reserve z t) = (\<Sum>z\<in>UNIV - {y}. fis_reserve z s)"
    using assms by (intro sum.cong) (auto simp: fis_reserve_def)
  moreover have "fis_reserve y t = unat (fis_balance p)" using assms by (simp add: fis_reserve_def)
  ultimately show ?thesis
    using sum.remove [OF finite_RSymbol UNIV_I, of "\<lambda>y. fis_reserve y t" y]
      sum.remove [OF finite_RSymbol UNIV_I, of "\<lambda>y. fis_reserve y s" y] by simp
qed

lemma put_swap_pool_frame [simp]:
  "SwapPools (rdex (put_swap_pool y p s)) = (SwapPools (rdex s))(y \<mapsto> p)"
  "native (put_swap_pool y p s) = native s" "rbalances (put_swap_pool y p s) = rbalances s"
  "rdex (deposit_event e s) = rdex s"
  by (simp_all add: put_swap_pool_def deposit_event_def)

text \<open>A pool is written after its account has been credited or debited.\<close>

lemma covered_put:
  assumes "reserves_covered X s" "SwapPools (rdex t) = (SwapPools (rdex s))(y \<mapsto> p)"
    and "(\<Sum>y\<in>UNIV. fis_reserve y s) + unat (fis_balance p) \<le> unat (native_free_balance X (rdex_account_id X) t) + fis_reserve y s"
    and "unat (rtoken_balance p) \<le> unat (rbal_free_balance (rdex_account_id X) y t)"
    and "\<And>z. z \<noteq> y \<Longrightarrow> unat (rbal_free_balance (rdex_account_id X) z s) \<le> unat (rbal_free_balance (rdex_account_id X) z t)"
  shows "reserves_covered X t"
  unfolding reserves_covered_def
proof (intro conjI allI)
  show "(\<Sum>y\<in>UNIV. fis_reserve y t) \<le> unat (native_free_balance X (rdex_account_id X) t)"
    using fis_total_put [OF assms(2)] assms(3) by linarith
  show "rtoken_reserve z t \<le> unat (rbal_free_balance (rdex_account_id X) z t)" for z
    using assms by (cases "z = y") (auto simp: rtoken_reserve_def reserves_covered_def intro: le_trans)
qed

lemma covered_mono:
  assumes "reserves_covered X s" "SwapPools (rdex t) = SwapPools (rdex s)"
    and "native_free_balance X (rdex_account_id X) s \<le> native_free_balance X (rdex_account_id X) t"
    and "\<And>y. rbal_free_balance (rdex_account_id X) y s \<le> rbal_free_balance (rdex_account_id X) y t"
  shows "reserves_covered X t"
  using assms unfolding reserves_covered_def fis_reserve_def rtoken_reserve_def
  by (auto simp: word_le_nat_alt intro: le_trans)

lemma native_transfer_rdex:
  assumes "native_transfer X a b v s = (r, t)"
  shows "rdex t = rdex s" "rbalances t = rbalances s" "lpbalances t = lpbalances s"
  using assms by (auto simp: native_transfer_def split: prod.splits)

lemma rbal_transfer_rdex:
  assumes "rbal_transfer a b y v s = (r, t)"
  shows "rdex t = rdex s" "native t = native s" "lpbalances t = lpbalances s"
  using rbal_lift_state [of "token_transfer a b y v" s] assms by (auto simp: rbal_transfer_def)

lemma lp_rdex:
  assumes "lp_lift m s = (r, t)"
  shows "rdex t = rdex s" "native t = native s" "rbalances t = rbalances s"
  using lp_lift_state [of m s] assms by auto

lemmas lp_mint_rdex = lp_rdex [of "token_mint a y v" for a y v, folded lp_mint_def]
  and lp_burn_rdex = lp_rdex [of "token_burn a y v" for a y v, folded lp_burn_def]

lemma rbal_transfer_succeeds:
  assumes "v \<le> rbal_free_balance a y s" "a \<noteq> b \<Longrightarrow> unat (rbal_free_balance b y s) + unat v < 2 ^ 128"
  shows "\<exists>t. rbal_transfer a b y v s = (Ok (), t)"
  using assms
  by (auto simp: rbal_transfer_def rbal_lift_def token_lift_Ok token_transfer_eq rbal_free_balance_def word_order_nat)

lemma lp_burn_succeeds:
  assumes "v \<le> lp_free_balance a y s"
  shows "\<exists>t. lp_burn a y v s = (Ok (), t)"
  using assms by (auto simp: lp_burn_def lp_lift_def token_lift_Ok token_burn_eq lp_free_balance_def word_order_nat)

text \<open>Tokens that enter and leave the account of the pallet.\<close>

lemma native_moves:
  assumes "currency_ok X" "native_transfer X a b v s = (Ok u, t)" "a \<noteq> b"
  shows "unat (native_free_balance X b t) = unat (native_free_balance X b s) + unat v"
    and "unat (native_free_balance X a t) + unat v = unat (native_free_balance X a s)"
  using native_transfer_balance(1) [OF assms(1,2), of b] native_transfer_balance(1) [OF assms(1,2), of a] assms(3)
  by simp_all

lemma rbal_moves:
  assumes "rbal_transfer a b y v s = (Ok u, t)" "a \<noteq> b"
  shows "unat (rbal_free_balance b y t) = unat (rbal_free_balance b y s) + unat v"
    and "unat (rbal_free_balance a y t) + unat v = unat (rbal_free_balance a y s)"
    and "z \<noteq> y \<Longrightarrow> rbal_free_balance w z t = rbal_free_balance w z s"
  using rcur.transfer_sheet [OF assms(1), of b y] rcur.transfer_sheet [OF assms(1), of a y]
    rcur.transfer_sheet [OF assms(1), of w z] assms(2)
  by (simp_all add: word_unat_eq_iff)

lemma rbal_free_balance_cong: "rbalances t = rbalances s \<Longrightarrow> rbal_free_balance a y t = rbal_free_balance a y s"
  and native_free_balance_cong: "native t = native s \<Longrightarrow> native_free_balance X a t = native_free_balance X a s"
  and lp_free_balance_cong: "lpbalances t = lpbalances s \<Longrightarrow> lp_free_balance a y t = lp_free_balance a y s"
  by (simp_all add: rbal_free_balance_def native_free_balance_def lp_free_balance_def)

text \<open>
  The last step of an operation: the pool of \<open>y\<close> becomes \<open>q\<close> in a state \<open>t\<close> that differs from the covered
  state \<open>s\<close> by \<open>fi\<close> and \<open>ri\<close> tokens received and \<open>fo\<close> and \<open>ro\<close> tokens paid.
\<close>

lemma covered_after:
  assumes "reserves_covered X s" "rdex t = rdex s"
    and "unat (native_free_balance X (rdex_account_id X) t) + fo = unat (native_free_balance X (rdex_account_id X) s) + fi"
    and "unat (rbal_free_balance (rdex_account_id X) y t) + ro = unat (rbal_free_balance (rdex_account_id X) y s) + ri"
    and "\<And>z. z \<noteq> y \<Longrightarrow> rbal_free_balance (rdex_account_id X) z t = rbal_free_balance (rdex_account_id X) z s"
    and "unat (fis_balance q) + fo \<le> fis_reserve y s + fi" "unat (rtoken_balance q) + ro \<le> rtoken_reserve y s + ri"
  shows "reserves_covered X (deposit_event e (put_swap_pool y q t))"
proof (rule covered_put [OF assms(1)])
  let ?t = "deposit_event e (put_swap_pool y q t)"
  have nat: "native_free_balance X (rdex_account_id X) ?t = native_free_balance X (rdex_account_id X) t"
    and rb: "rbal_free_balance (rdex_account_id X) z ?t = rbal_free_balance (rdex_account_id X) z t" for z
    by (simp_all add: native_free_balance_def rbal_free_balance_def)
  show "SwapPools (rdex ?t) = (SwapPools (rdex s))(y \<mapsto> q)" using assms(2) by simp
  show "(\<Sum>y\<in>UNIV. fis_reserve y s) + unat (fis_balance q) \<le> unat (native_free_balance X (rdex_account_id X) ?t) + fis_reserve y s"
    using assms(1,3,6) nat by (simp add: reserves_covered_def)
  have "rtoken_reserve y s \<le> unat (rbal_free_balance (rdex_account_id X) y s)"
    using assms(1) by (simp add: reserves_covered_def)
  then show "unat (rtoken_balance q) \<le> unat (rbal_free_balance (rdex_account_id X) y ?t)"
    using assms(4,7) rb [of y] by simp
  show "z \<noteq> y \<Longrightarrow> unat (rbal_free_balance (rdex_account_id X) z s) \<le> unat (rbal_free_balance (rdex_account_id X) z ?t)" for z
    using assms(5) rb by simp
qed

text \<open>The transfers that are made only for a positive amount.\<close>

lemma run_if_pos:
  assumes "run_if ((v :: u128) > 0) f s = (Ok u, t)"
  obtains "v = 0" "t = s" | "f s = (Ok u, t)"
  using assms by (cases "v = 0") (auto simp: run_if_def word_gt_0 split: if_splits)

lemma native_if_moves:
  assumes "currency_ok X" "run_if (v > 0) (native_transfer X a b v) s = (Ok u, t)" "a \<noteq> b"
  shows "unat (native_free_balance X b t) = unat (native_free_balance X b s) + unat v"
    and "unat (native_free_balance X a t) + unat v = unat (native_free_balance X a s)"
    and "rdex t = rdex s" "rbalances t = rbalances s" "lpbalances t = lpbalances s"
  using assms(2)
  by (rule run_if_pos; simp add: native_moves [OF assms(1) _ assms(3)] native_transfer_rdex)+

lemma rbal_if_moves:
  assumes "run_if (v > 0) (rbal_transfer a b y v) s = (Ok u, t)" "a \<noteq> b"
  shows "unat (rbal_free_balance b y t) = unat (rbal_free_balance b y s) + unat v"
    and "unat (rbal_free_balance a y t) + unat v = unat (rbal_free_balance a y s)"
    and "z \<noteq> y \<Longrightarrow> rbal_free_balance w z t = rbal_free_balance w z s"
    and "rdex t = rdex s" "native t = native s" "lpbalances t = lpbalances s"
  using assms(1)
  by (rule run_if_pos; auto dest: rbal_moves [OF _ assms(2)] rbal_transfer_rdex)+

text \<open>Receiving tokens keeps the pools covered.\<close>

lemma covered_receives:
  assumes "currency_ok X" "reserves_covered X s" "native_transfer X a (rdex_account_id X) v s = (Ok u, t)" "a \<noteq> rdex_account_id X"
  shows "reserves_covered X t"
  using native_moves(1) [OF assms(1,3,4)]
  by (intro covered_mono [OF assms(2)])
    (simp_all add: word_le_nat_alt native_transfer_rdex [OF assms(3)] rbal_free_balance_cong [OF native_transfer_rdex(2) [OF assms(3)]])

lemma covered_receives_rtoken:
  assumes "reserves_covered X s" "rbal_transfer a (rdex_account_id X) y v s = (Ok u, t)" "a \<noteq> rdex_account_id X"
  shows "reserves_covered X t"
proof (rule covered_mono [OF assms(1)])
  show "rbal_free_balance (rdex_account_id X) z s \<le> rbal_free_balance (rdex_account_id X) z t" for z
    using rbal_moves(1) [OF assms(2,3)] rbal_moves(3) [OF assms(2,3), of z "rdex_account_id X"]
    by (cases "z = y") (auto simp: word_le_nat_alt)
qed (simp_all add: rbal_transfer_rdex [OF assms(2)] native_free_balance_cong [OF rbal_transfer_rdex(2) [OF assms(2)]])


section \<open>Every operation keeps the reserves covered\<close>

lemma reserve_of:
  assumes "SwapPools (rdex s) y = Some p"
  shows "fis_reserve y s = unat (fis_balance p)" "rtoken_reserve y s = unat (rtoken_balance p)"
  using assms by (simp_all add: fis_reserve_def rtoken_reserve_def)

lemma sat_add_le: "unat (saturating_add (a :: u128) b) \<le> unat a + unat b"
  by (simp add: unat_saturating_add)

lemma add_liquidity_covered:
  assumes "currency_ok X" "reserves_covered X s" "o' \<noteq> Signed (rdex_account_id X)"
  shows "keeps (reserves_covered X) (add_liquidity X o' y r f s)"
proof -
  have last: "reserves_covered X (deposit_event e (put_swap_pool y q t3))"
    if pool: "SwapPools (rdex s) y = Some p" and who: "who \<noteq> rdex_account_id X"
      and n: "run_if (f > 0) (native_transfer X who (rdex_account_id X) f) s = (Ok u, t1)"
      and b: "run_if (r > 0) (rbal_transfer who (rdex_account_id X) y r) t1 = (Ok u', t2)"
      and m: "lp_mint who y v t2 = (Ok u'', t3)"
      and q: "fis_balance q = saturating_add (fis_balance p) f" "rtoken_balance q = saturating_add (rtoken_balance p) r"
    for who p q e u u' u'' v t1 t2 t3
  proof (rule covered_after [OF assms(2), where fi = "unat f" and ri = "unat r" and fo = 0 and ro = 0])
    note 1 = native_if_moves [OF assms(1) n who] and 2 = rbal_if_moves [OF b who] and 3 = lp_mint_rdex [OF m]
    show "rdex t3 = rdex s" using 1(3) 2(4) 3(1) by simp
    show "unat (native_free_balance X (rdex_account_id X) t3) + 0 = unat (native_free_balance X (rdex_account_id X) s) + unat f"
      using 1(1) 2(5) 3(2) by (simp add: native_free_balance_def)
    show "unat (rbal_free_balance (rdex_account_id X) y t3) + 0 = unat (rbal_free_balance (rdex_account_id X) y s) + unat r"
      using 1(4) 2(1) 3(3) by (simp add: rbal_free_balance_def)
    show "z \<noteq> y \<Longrightarrow> rbal_free_balance (rdex_account_id X) z t3 = rbal_free_balance (rdex_account_id X) z s" for z
      using 1(4) 2(3) 3(3) by (simp add: rbal_free_balance_def)
  qed (simp_all add: q reserve_of [OF pool] sat_add_le)
  show ?thesis
    unfolding add_liquidity_def Let_def case_prod_beta
    using assms
    by (intro run_keeps and_then_keeps_errs run_errs last; simp?;
        auto intro: covered_receives covered_receives_rtoken simp: run_if_def split: if_splits)
qed

lemma create_pool_covered:
  assumes "currency_ok X" "reserves_covered X s" "who \<noteq> rdex_account_id X"
  shows "keeps (reserves_covered X) (create_pool X o' who y r f s)"
proof -
  have last: "reserves_covered X (deposit_event e (put_swap_pool y q t3))"
    if pool: "SwapPools (rdex s) y = None"
      and n: "native_transfer X who (rdex_account_id X) f s = (Ok u, t1)"
      and b: "rbal_transfer who (rdex_account_id X) y r t1 = (Ok u', t2)"
      and m: "lp_mint who y v t2 = (Ok u'', t3)"
      and q: "fis_balance q = f" "rtoken_balance q = r"
    for q e u u' u'' v t1 t2 t3
  proof (rule covered_after [OF assms(2), where fi = "unat f" and ri = "unat r" and fo = 0 and ro = 0])
    note 1 = native_transfer_rdex [OF n] native_moves(1) [OF assms(1) n assms(3)]
      and 2 = rbal_transfer_rdex [OF b] rbal_moves(1,3) [OF b assms(3)] and 3 = lp_mint_rdex [OF m]
    show "rdex t3 = rdex s" using 1(1) 2(1) 3(1) by simp
    show "unat (native_free_balance X (rdex_account_id X) t3) + 0 = unat (native_free_balance X (rdex_account_id X) s) + unat f"
      using 1(4) 2(2) 3(2) by (simp add: native_free_balance_def)
    show "unat (rbal_free_balance (rdex_account_id X) y t3) + 0 = unat (rbal_free_balance (rdex_account_id X) y s) + unat r"
      using 1(2) 2(4) 3(3) by (simp add: rbal_free_balance_def)
    show "z \<noteq> y \<Longrightarrow> rbal_free_balance (rdex_account_id X) z t3 = rbal_free_balance (rdex_account_id X) z s" for z
      using 1(2) 2(5) 3(3) by (simp add: rbal_free_balance_def)
  qed (simp_all add: q)
  show ?thesis
    unfolding create_pool_def Let_def case_prod_beta
    using assms
    by (intro run_keeps and_then_keeps_errs run_errs last; simp?;
        auto intro: covered_receives covered_receives_rtoken)
qed

text \<open>A swap of the native token: the account receives before it pays.\<close>

lemma swap_in_covered:
  assumes "currency_ok X" "reserves_covered X s" "SwapPools (rdex s) y = Some p" "who \<noteq> rdex_account_id X"
    and "native_transfer X who (rdex_account_id X) v s = (Ok u, t1)"
    and "rbal_transfer (rdex_account_id X) who y r t1 = (Ok u', t2)" "r < rtoken_balance p"
  shows "reserves_covered X (deposit_event e (put_swap_pool y
    (p\<lparr>fis_balance := saturating_add (fis_balance p) v, rtoken_balance := saturating_sub (rtoken_balance p) r\<rparr>) t2))"
proof (rule covered_after [OF assms(2), where fi = "unat v" and ri = 0 and fo = 0 and ro = "unat r"])
  note 1 = native_transfer_rdex [OF assms(5)] native_moves(1) [OF assms(1,5,4)]
    and 2 = rbal_transfer_rdex [OF assms(6)] rbal_moves(2,3) [OF assms(6) assms(4) [symmetric]]
  show "rdex t2 = rdex s" using 1(1) 2(1) by simp
  show "unat (native_free_balance X (rdex_account_id X) t2) + 0 = unat (native_free_balance X (rdex_account_id X) s) + unat v"
    using 1(4) 2(2) by (simp add: native_free_balance_def)
  show "unat (rbal_free_balance (rdex_account_id X) y t2) + unat r = unat (rbal_free_balance (rdex_account_id X) y s) + 0"
    using 1(2) 2(4) by (simp add: rbal_free_balance_def)
  show "z \<noteq> y \<Longrightarrow> rbal_free_balance (rdex_account_id X) z t2 = rbal_free_balance (rdex_account_id X) z s" for z
    using 1(2) 2(5) by (simp add: rbal_free_balance_def)
qed (use assms(7) in \<open>simp_all add: reserve_of [OF assms(3)] sat_add_le unat_saturating_sub word_less_nat_alt\<close>)

text \<open>A swap of the rtoken: the account pays before it receives, so the second transfer has to succeed.\<close>

lemma swap_out_covered:
  assumes "currency_ok X" "reserves_covered X s" "SwapPools (rdex s) y = Some p" "who \<noteq> rdex_account_id X"
    and "native_transfer X (rdex_account_id X) who r s = (Ok u, t1)"
    and "rbal_transfer who (rdex_account_id X) y v t1 = (Ok u', t2)" "r < fis_balance p"
  shows "reserves_covered X (deposit_event e (put_swap_pool y
    (p\<lparr>rtoken_balance := saturating_add (rtoken_balance p) v, fis_balance := saturating_sub (fis_balance p) r\<rparr>) t2))"
proof (rule covered_after [OF assms(2), where fi = 0 and ri = "unat v" and fo = "unat r" and ro = 0])
  note 1 = native_transfer_rdex [OF assms(5)] native_moves(2) [OF assms(1,5) assms(4) [symmetric]]
    and 2 = rbal_transfer_rdex [OF assms(6)] rbal_moves(1,3) [OF assms(6,4)]
  show "rdex t2 = rdex s" using 1(1) 2(1) by simp
  show "unat (native_free_balance X (rdex_account_id X) t2) + unat r = unat (native_free_balance X (rdex_account_id X) s) + 0"
    using 1(4) 2(2) by (simp add: native_free_balance_def)
  show "unat (rbal_free_balance (rdex_account_id X) y t2) + 0 = unat (rbal_free_balance (rdex_account_id X) y s) + unat v"
    using 1(2) 2(4) by (simp add: rbal_free_balance_def)
  show "z \<noteq> y \<Longrightarrow> rbal_free_balance (rdex_account_id X) z t2 = rbal_free_balance (rdex_account_id X) z s" for z
    using 1(2) 2(5) by (simp add: rbal_free_balance_def)
qed (use assms(7) in \<open>simp_all add: reserve_of [OF assms(3)] sat_add_le unat_saturating_sub word_less_nat_alt\<close>)

lemma transfer_fits:
  fixes s t :: "('c, 'z) tokens_state_scheme"
  assumes "balances_fit s" "a \<noteq> b" "v \<le> rbal_free_balance a y s" "rbalances t = rbalances s"
  shows "\<exists>t'. rbal_transfer a b y v t = (Ok (), t')"
proof (rule rbal_transfer_succeeds)
  have "unat (rbal_free_balance a y s) + unat (rbal_free_balance b y s) < 2 ^ 128"
    using assms(1,2) by (simp add: balances_fit_def)
  then show "unat (rbal_free_balance b y t) + unat v < 2 ^ 128"
    using assms(3) unfolding rbal_free_balance_cong [OF assms(4)] word_le_nat_alt by linarith
  show "v \<le> rbal_free_balance a y t" using assms(3) unfolding rbal_free_balance_cong [OF assms(4)] .
qed

lemma swap_covered:
  assumes "currency_ok X" "reserves_covered X s" "balances_fit s" "o' \<noteq> Signed (rdex_account_id X)"
  shows "keeps (reserves_covered X) (swap X o' y v m b s)"
proof -
  have out: "errs (reserves_covered X) (and_then (native_transfer X (rdex_account_id X) who r s) (\<lambda>_ s1.
           and_then (rbal_transfer who (rdex_account_id X) y v s1) (\<lambda>_ s2. (Ok q, s2))))"
    if "who \<noteq> rdex_account_id X" "v \<le> rbal_free_balance who y s" for who r q
  proof (rule and_then_errs [OF native_transfer_errs [of _ "reserves_covered X", OF assms(1,2)]])
    fix u t assume "native_transfer X (rdex_account_id X) who r s = (Ok u, t)"
    from transfer_fits [OF assms(3) that native_transfer_rdex(2) [OF this]]
    show "errs (reserves_covered X) (and_then (rbal_transfer who (rdex_account_id X) y v t) (\<lambda>_ s2. (Ok q, s2)))"
      by (auto simp: errs_def)
  qed
  show ?thesis
    unfolding swap_def Let_def case_prod_beta
    using assms
    by (intro guard_keeps)
      (auto intro!: and_then_keeps_errs run_errs out return_keeps
        intro: covered_receives swap_in_covered swap_out_covered simp: run_ok split: if_splits)
qed

lemma remove_amounts_pays:
  assumes "remove_amounts p u w b s = (Ok (q, a, c), t)" "w \<le> u" "u > 0"
  shows "unat (fis_balance q) + unat a \<le> unat (fis_balance p)"
    and "unat (rtoken_balance q) + unat c \<le> unat (rtoken_balance p)"
proof -
  obtain a0 c0 v where rm: "cal_remove_result (total_unit p) u w (fis_balance p) (rtoken_balance p) b = (a0, c0, v)"
    by (metis prod_cases3)
  let ?F = "saturating_sub (fis_balance p) a0" and ?R = "saturating_sub (rtoken_balance p) c0"
  have amounts: "unat a0 \<le> unat (fis_balance p)" "unat c0 \<le> unat (rtoken_balance p)"
    "v > 0 \<Longrightarrow> fst (cal_swap_result ?F ?R v b) > 0 \<Longrightarrow> unat v \<le> unat (if b then a0 else c0)"
  proof -
    have "(unat a0, unat c0, unat v) = remove_spec (unat (total_unit p)) (unat u) (unat w) (unat (fis_balance p)) (unat (rtoken_balance p)) b"
      using cal_remove_exact [of "total_unit p" u w "fis_balance p" "rtoken_balance p" b] rm by simp
    note spec = this [unfolded remove_spec_def]
    show "unat a0 \<le> unat (fis_balance p)" "unat c0 \<le> unat (rtoken_balance p)"
      using spec share_le [of "unat (total_unit p)" "min (unat u) (unat (total_unit p))"] by (auto split: if_splits)
    assume "v > 0" "fst (cal_swap_result ?F ?R v b) > 0"
    then have "?F \<noteq> 0" by (auto simp: cal_swap_result_def)
    then have "unat a0 < unat (fis_balance p)" by (auto simp: word_unat_eq_iff unat_saturating_sub)
    moreover have "unat v \<noteq> 0" using \<open>v > 0\<close> by (simp add: word_less_nat_alt)
    ultimately have "u \<le> total_unit p" using spec by (auto simp: word_le_nat_alt min_def split: if_splits)
    from removed_parts(3) [OF rm this assms(2,3)] show "unat v \<le> unat (if b then a0 else c0)"
      by (simp add: word_le_nat_alt)
  qed
  have "unat (fis_balance q) + unat a \<le> unat (fis_balance p) \<and> unat (rtoken_balance q) + unat c \<le> unat (rtoken_balance p)"
    using assms(1) amounts
    by (auto simp: remove_amounts_def rm Let_def run_ok unat_saturating_sub unat_saturating_add word_less_nat_alt split: if_splits)
  then show "unat (fis_balance q) + unat a \<le> unat (fis_balance p)"
    "unat (rtoken_balance q) + unat c \<le> unat (rtoken_balance p)" by simp_all
qed

lemma remove_liquidity_covered:
  assumes "currency_ok X" "reserves_covered X s" "balances_fit s" "o' \<noteq> Signed (rdex_account_id X)"
  shows "keeps (reserves_covered X) (remove_liquidity X o' y u w mf mr b s)"
proof -
  let ?M = "rdex_account_id X"
  have last: "keeps (reserves_covered X)
      (and_then (run_if (a > 0) (native_transfer X ?M who a) s) (\<lambda>_ s1.
       and_then (run_if (c > 0) (rbal_transfer ?M who y c) s1) (\<lambda>_ s2.
       and_then (lp_burn who y u s2) (\<lambda>_ s3. (Ok (), deposit_event e (put_swap_pool y q s3))))))"
    if p: "SwapPools (rdex s) y = Some p" and who: "who \<noteq> ?M" and u: "u \<le> lp_free_balance who y s" "w \<le> u" "u > 0"
      and rm: "remove_amounts p u w b s = (Ok (q, a, c), t0)" and c: "c \<le> rbal_free_balance ?M y s"
    for p who q a c t0 e
  proof (rule and_then_keeps_errs)
    show "errs (reserves_covered X) (run_if (a > 0) (native_transfer X ?M who a) s)"
      using assms(1,2) by (intro run_errs)
    fix x t1 assume n: "run_if (a > 0) (native_transfer X ?M who a) s = (Ok x, t1)"
    note 1 = native_if_moves [OF assms(1) n who [symmetric]]
    from transfer_fits [OF assms(3) who [symmetric] c 1(4)]
    obtain t2 where r: "run_if (c > 0) (rbal_transfer ?M who y c) t1 = (Ok (), t2)"
      by (cases "c > 0") auto
    note 2 = rbal_if_moves [OF r who [symmetric]]
    have "u \<le> lp_free_balance who y t2" using u(1) 1(5) 2(6) by (simp add: lp_free_balance_def)
    from lp_burn_succeeds [OF this] obtain t3 where l: "lp_burn who y u t2 = (Ok (), t3)" by blast
    note 3 = lp_burn_rdex [OF l]
    have "reserves_covered X (deposit_event e (put_swap_pool y q t3))"
    proof (rule covered_after [OF assms(2), where fi = 0 and ri = 0 and fo = "unat a" and ro = "unat c"])
      show "rdex t3 = rdex s" using 1(3) 2(4) 3(1) by simp
      show "unat (native_free_balance X ?M t3) + unat a = unat (native_free_balance X ?M s) + 0"
        using 1(2) 2(5) 3(2) by (simp add: native_free_balance_def)
      show "unat (rbal_free_balance ?M y t3) + unat c = unat (rbal_free_balance ?M y s) + 0"
        using 1(4) 2(2) 3(3) by (simp add: rbal_free_balance_def)
      show "z \<noteq> y \<Longrightarrow> rbal_free_balance ?M z t3 = rbal_free_balance ?M z s" for z
        using 1(4) 2(3) 3(3) by (simp add: rbal_free_balance_def)
    qed (use remove_amounts_pays [OF rm u(2,3)] in \<open>simp_all add: reserve_of [OF p]\<close>)
    with r l show "keeps (reserves_covered X) (and_then (run_if (c > 0) (rbal_transfer ?M who y c) t1) (\<lambda>_ s2.
       and_then (lp_burn who y u s2) (\<lambda>_ s3. (Ok (), deposit_event e (put_swap_pool y q s3)))))"
      by (simp add: keeps_def)
  qed
  have errs: "errs (reserves_covered X) (remove_amounts p u w b s)" for p
    using assms(2) unfolding remove_amounts_def Let_def case_prod_beta by (intro run_errs)
  have same: "remove_amounts p u w b s = (Ok r, t) \<Longrightarrow> t = s" for p r t
    by (auto simp: remove_amounts_def Let_def run_ok split: prod.splits if_splits)
  show ?thesis
    unfolding remove_liquidity_def Let_def
    by (insert assms, intro guard_keeps and_then_keeps_errs [OF errs]; (frule same)?; auto intro!: guard_keeps last split: prod.splits)
qed

section \<open>A trade\<close>

definition sample_rdex :: "(AccountId \<Rightarrow> u128, unit) rdex_state" where
  "sample_rdex = series_state.extend (sample_series\<lparr>
       native := (\<lambda>_. 2000),
       rbalances := \<lparr>TotalIssuance = (\<lambda>_. 0)(RDOT := 1000), Account = (\<lambda>_ _. None)(RDOT := [7 \<mapsto> \<lparr>free = 1000\<rparr>])\<rparr>\<rparr>)
     \<lparr>rdex = empty_rdex\<rparr>"

definition sample_pool :: SwapPool where
  "sample_pool = \<lparr>pool_symbol = RDOT, fis_balance = 600, rtoken_balance = 300, total_unit = 600\<rparr>"

lemma sample_lp: "lpbalances sample_series = empty_tokens"
  by (simp add: sample_series_def)

lemma sample_create:
  "\<exists>t :: (AccountId \<Rightarrow> u128, unit) rdex_state. create_pool plain_config Root 7 RDOT 300 600 sample_rdex = (Ok (), t)
   \<and> SwapPools (rdex t) = [RDOT \<mapsto> sample_pool]"
  by (simp add: create_pool_def sample_rdex_def sample_lp empty_rdex_def cal_pool_unit_def rbal_free_balance_def
      native_free_balance_def free_balance_def native_transfer_def plain_transfer_def rdex_account_id_def
      plain_number_def rbal_transfer_def rbal_lift_def token_lift_def token_transfer_eq lp_mint_def lp_lift_def token_mint_eq empty_tokens_def
      series_state.defs sample_pool_def saturating_add_def checked_add_def deposit_event_def put_swap_pool_def)

text \<open>What a successful swap and a successful withdrawal do to the pool.\<close>

lemma swap_pool:
  assumes "swap X o' y v m b s = (Ok (), t)" "SwapPools (rdex s) y = Some p"
  defines "r \<equiv> fst (cal_swap_result (fis_balance p) (rtoken_balance p) v b)"
  shows "\<exists>who t1 t2. o' = Signed who
    \<and> (if b then native_transfer X who (rdex_account_id X) v s = (Ok (), t1)
       else native_transfer X (rdex_account_id X) who r s = (Ok (), t1) \<and> rbal_transfer who (rdex_account_id X) y v t1 = (Ok (), t2))
    \<and> SwapPools (rdex t) y = Some
        (if b then p\<lparr>fis_balance := saturating_add (fis_balance p) v, rtoken_balance := saturating_sub (rtoken_balance p) r\<rparr>
         else p\<lparr>rtoken_balance := saturating_add (rtoken_balance p) v, fis_balance := saturating_sub (fis_balance p) r\<rparr>)"
  using assms unfolding swap_def case_prod_beta Let_def
  by (cases b) (auto simp: run_ok)

lemma remove_pool:
  assumes "remove_liquidity X o' y u w mf mr b s = (Ok (), t)" "SwapPools (rdex s) y = Some p"
  shows "\<exists>q a c t0. remove_amounts p u w b s = (Ok (q, a, c), t0) \<and> w \<le> u \<and> u > 0 \<and> SwapPools (rdex t) y = Some q"
  using assms unfolding remove_liquidity_def case_prod_beta Let_def
  by (auto simp: run_ok)

lemma swap_no_dilution:
  fixes s t :: "('c, 'call, 'z) rdex_state_scheme"
  assumes "currency_ok X" "reserves_covered X s" "SwapPools (rdex s) y = Some p" "o' \<noteq> Signed (rdex_account_id X)"
    and "swap X o' y v m b s = (Ok (), t)"
  shows "\<exists>q. SwapPools (rdex t) y = Some q \<and> no_dilution p q"
proof -
  let ?F = "fis_balance p" and ?R = "rtoken_balance p" and ?M = "rdex_account_id X"
  let ?r = "fst (cal_swap_result ?F ?R v b)"
  from swap_pool [OF assms(5,3)] obtain who and t1 t2 :: "('c, 'call, 'z) rdex_state_scheme" where o: "o' = Signed who"
    and moved: "if b then native_transfer X who ?M v s = (Ok (), t1)
        else native_transfer X ?M who ?r s = (Ok (), t1) \<and> rbal_transfer who ?M y v t1 = (Ok (), t2)"
    and q: "SwapPools (rdex t) y = Some (if b then p\<lparr>fis_balance := saturating_add ?F v, rtoken_balance := saturating_sub ?R ?r\<rparr>
         else p\<lparr>rtoken_balance := saturating_add ?R v, fis_balance := saturating_sub ?F ?r\<rparr>)"
    by blast
  have who: "who \<noteq> ?M" using o assms(4) by simp
  have room: "unat (if b then ?F else ?R) + unat v < 2 ^ 128"
  proof (cases b)
    case True
    have "unat ?F \<le> (\<Sum>z\<in>UNIV. fis_reserve z s)"
      using member_le_sum [of y UNIV "\<lambda>z. fis_reserve z s"] finite_RSymbol reserve_of(1) [OF assms(3)] by simp
    also have "\<dots> \<le> unat (native_free_balance X ?M s)" using assms(2) by (simp add: reserves_covered_def)
    finally show ?thesis
      using True moved native_moves(1) [OF assms(1) _ who, of v s "()" t1] unat_u128_less [of "native_free_balance X ?M t1"] by simp
  next
    case False
    have "unat ?R \<le> unat (rbal_free_balance ?M y s)"
      using assms(2) reserve_of(2) [OF assms(3)] by (auto simp: reserves_covered_def dest: spec [of _ y])
    then show ?thesis
      using False moved rbal_moves(1) [OF _ who, of y v t1 "()" t2] unat_u128_less [of "rbal_free_balance ?M y t2"]
      native_transfer_rdex(2) [of X ?M who ?r s "Ok ()" t1]
      by (simp add: rbal_free_balance_def)
  qed
  show ?thesis
    using q swapped_product [OF refl room] by (auto simp: no_dilution_def intro: mult_le_mono1)
qed

section \<open>Properties\<close>

text \<open>
  C11. The account of the exchange can pay the reserves of all its pools: after any history of pool
  creations, deposits, withdrawals and swaps by other accounts, successful or failing, the recorded
  reserves of the native token add up to at most what the account holds, and so does the reserve of
  each rtoken.
\<close>

theorem dex_reserves_covered:
  assumes "currency_ok X" "rdex_reach X s"
  shows "reserves_covered X s"
  using assms(2)
proof induction
  case (genesis s)
  then show ?case by (simp add: reserves_covered_def fis_reserve_def rtoken_reserve_def)
next
  case (other s t)
  then show ?case by (intro covered_mono [of X s t])
qed (use swap_covered add_liquidity_covered remove_liquidity_covered create_pool_covered assms(1) in \<open>auto simp: keeps_def\<close>)

theorem dex_reserves_covered_witness:
  "\<exists>t :: (AccountId \<Rightarrow> u128, unit) rdex_state. SwapPools (rdex t) = [RDOT \<mapsto> sample_pool] \<and> reserves_covered plain_config t"
proof -
  obtain t :: "(AccountId \<Rightarrow> u128, unit) rdex_state" where t: "create_pool plain_config Root 7 RDOT 300 600 sample_rdex = (Ok (), t)"
    "SwapPools (rdex t) = [RDOT \<mapsto> sample_pool]"
    using sample_create by blast
  have "rdex_reach plain_config sample_rdex"
    by (rule rdex_reach.genesis) (simp add: sample_rdex_def empty_rdex_def series_state.defs)
  then have "rdex_reach plain_config (snd (create_pool plain_config Root 7 RDOT 300 600 sample_rdex))"
    by (rule rdex_reach.create) (simp add: rdex_account_id_def plain_number_def)
  with t(1) have "rdex_reach plain_config t" by simp
  from dex_reserves_covered [OF plain_currency_ok this] t(2) show ?thesis by blast
qed

text \<open>
  C12. A swap or a withdrawal never takes value from the providers that stay: the product of the two
  reserves per squared unit of liquidity does not fall, whatever the amounts and the roundings, while
  the reserves are covered.
\<close>

theorem trading_never_dilutes:
  assumes "currency_ok X" "reserves_covered X s" "SwapPools (rdex s) y = Some p" "o' \<noteq> Signed (rdex_account_id X)"
    and "swap X o' y v m b s = (Ok (), t) \<or> remove_liquidity X o' y u w mf mr b s = (Ok (), t)"
  shows "\<exists>q. SwapPools (rdex t) y = Some q \<and> no_dilution p q"
  using assms(5)
proof
  assume "swap X o' y v m b s = (Ok (), t)"
  then show ?thesis by (rule swap_no_dilution [OF assms(1-4)])
next
  assume "remove_liquidity X o' y u w mf mr b s = (Ok (), t)"
  from remove_pool [OF this assms(3)] show ?thesis
    by (auto dest: remove_amounts_no_dilution)
qed

definition sample_trading :: "(AccountId \<Rightarrow> u128, unit) rdex_state" where
  "sample_trading = sample_rdex\<lparr>
     rbalances := \<lparr>TotalIssuance = (\<lambda>_. 0)(RDOT := 1000),
       Account = (\<lambda>_ _. None)(RDOT := [7 \<mapsto> \<lparr>free = 700\<rparr>, rdex_account_id plain_config \<mapsto> \<lparr>free = 300\<rparr>])\<rparr>,
     rdex := empty_rdex\<lparr>SwapPools := [RDOT \<mapsto> sample_pool]\<rparr>\<rparr>"

lemma sample_trading_covered: "reserves_covered plain_config sample_trading"
proof -
  have "(\<Sum>y\<in>UNIV. fis_reserve y sample_trading) = (\<Sum>y\<in>UNIV. if y = RDOT then 600 else 0)"
    by (rule sum.cong) (simp_all add: fis_reserve_def sample_trading_def sample_pool_def empty_rdex_def)
  then show ?thesis
    by (simp add: reserves_covered_def finite_RSymbol rtoken_reserve_def sample_trading_def sample_rdex_def empty_rdex_def
        sample_pool_def native_free_balance_def rbal_free_balance_def free_balance_def series_state.defs)
qed

lemma sample_swap_amount: "unat (fst (cal_swap_result 600 300 100 True)) = 36"
  by (simp add: swap_result_nat)

lemma sample_swap_word: "fst (cal_swap_result 600 300 100 True) = 36"
  using sample_swap_amount by (simp add: word_unat_eq_iff)

theorem trading_never_dilutes_witness:
  "\<exists>(t :: (AccountId \<Rightarrow> u128, unit) rdex_state) q. swap plain_config (Signed 7) RDOT 100 30 True sample_trading = (Ok (), t)
   \<and> SwapPools (rdex t) RDOT = Some q \<and> no_dilution sample_pool q"
proof -
  have "\<exists>t :: (AccountId \<Rightarrow> u128, unit) rdex_state. swap plain_config (Signed 7) RDOT 100 30 True sample_trading = (Ok (), t)"
    by (simp add: swap_def case_prod_beta Let_def sample_trading_def sample_rdex_def empty_rdex_def sample_pool_def
        sample_swap_word native_free_balance_def native_transfer_def plain_transfer_def rdex_account_id_def plain_number_def
        rbal_transfer_def rbal_lift_def token_lift_def token_transfer_eq free_balance_def series_state.defs)
  then obtain t :: "(AccountId \<Rightarrow> u128, unit) rdex_state" where
    t: "swap plain_config (Signed 7) RDOT 100 30 True sample_trading = (Ok (), t)" by blast
  have "SwapPools (rdex sample_trading) RDOT = Some sample_pool" "Signed 7 \<noteq> Signed (rdex_account_id plain_config)"
    by (simp_all add: sample_trading_def rdex_account_id_def plain_number_def)
  from trading_never_dilutes [OF plain_currency_ok sample_trading_covered this disjI1 [OF t]] t show ?thesis by blast
qed

end
