(* ===== verification/Mining.thy ===== *)
theory Mining
  imports RDex_Reserves
begin

text \<open>
  \<open>rdex/mining\<close>: providers of liquidity stake their units of a swap pool and earn the native token. A
  stake pool is a vector of grades; each grade accrues a reward per staked unit, block by block, out of
  a budget, and a stake records the reward it has been paid in a debt.
\<close>

section \<open>Data and storage\<close>

record StakePool =
  stake_symbol :: RSymbol
  emergency :: bool
  total_stake_lp :: u128
  start_block :: u32
  reward_per_block :: u128
  total_reward :: u128
  left_reward :: u128
  lp_locked_blocks :: u32
  last_reward_block :: u32
  reward_per_share :: u128
  guard_impermanent_loss :: bool

record StakeUser =
  stake_account :: AccountId
  lp_amount :: u128
  reward_debt :: u128
  reserved_lp_reward :: u128
  total_fis_value :: u128
  total_rtoken_value :: u128
  deposit_height :: u32
  stake_grade :: u32
  claimed_reward :: u128

definition REWARD_FACTOR :: u128 where
  "REWARD_FACTOR = 1000000000000"

record mining_store =
  StakePools :: "RSymbol \<times> u32 \<Rightarrow> StakePool list option"
  PoolCount :: "RSymbol \<Rightarrow> u32"
  StakeUsers :: "RSymbol \<times> u32 \<times> AccountId \<times> u32 \<Rightarrow> StakeUser option"
  UserStakeCount :: "RSymbol \<times> u32 \<times> AccountId \<Rightarrow> u32"
  GuardLine :: "RSymbol \<times> u32 \<Rightarrow> u32"
  GuardReserve :: "RSymbol \<Rightarrow> u128"
  MiningWhitelist :: "RSymbol \<times> AccountId \<Rightarrow> bool"
  MiningSwitch :: "RSymbol \<Rightarrow> bool"

definition empty_mining :: mining_store where
  "empty_mining = \<lparr>StakePools = (\<lambda>_. None), PoolCount = (\<lambda>_. 0), StakeUsers = (\<lambda>_. None), UserStakeCount = (\<lambda>_. 0),
     GuardLine = (\<lambda>_. 1440000), GuardReserve = (\<lambda>_. 0), MiningWhitelist = (\<lambda>_. False), MiningSwitch = (\<lambda>_. False)\<rparr>"

record ('c, 'call) mining_state = "('c, 'call) rdex_state" +
  mining :: mining_store

type_synonym ('c, 'call, 'z) mining_run =
  "(dispatch_error, unit, ('c, 'call, 'z) mining_state_scheme) run"

section \<open>Rewards\<close>

text \<open>\<open>v.get(i as usize)\<close>.\<close>

definition vec_get :: "'a list \<Rightarrow> u32 \<Rightarrow> 'a option" where
  "vec_get v i = (if unat i < length v then Some (v ! unat i) else None)"

definition mining_account_id :: "'c config \<Rightarrow> AccountId" where
  "mining_account_id X = into_account X ''rdx/mine''"

definition get_pool_reward :: "u32 \<Rightarrow> u32 \<Rightarrow> u128 \<Rightarrow> u128 \<Rightarrow> u128" where
  "get_pool_reward from to per_block left_over =
     (let duration = ucast (saturating_sub to from) :: u128;
          reward = saturating_mul duration per_block
      in if reward < left_over then reward else left_over)"

definition accrue :: "u32 \<Rightarrow> StakePool \<Rightarrow> StakePool" where
  "accrue now p =
     (if now \<le> last_reward_block p then p
      else if total_stake_lp p = 0 then p\<lparr>last_reward_block := now\<rparr>
      else
        let reward = get_pool_reward (last_reward_block p) now (reward_per_block p) (left_reward p);
            p1 = (if reward > 0 then
                p\<lparr>left_reward := saturating_sub (left_reward p) reward,
                  reward_per_share := saturating_add (reward_per_share p)
                    (unwrap_or (checked_div (saturating_mul reward REWARD_FACTOR) (total_stake_lp p)) 0)\<rparr>
              else p)
        in p1\<lparr>last_reward_block := now\<rparr>)"

definition update_pool ::
    "RSymbol \<Rightarrow> u32 \<Rightarrow> u32 \<Rightarrow> ('c, 'call, 'z) mining_state_scheme
     \<Rightarrow> (dispatch_error, StakePool, ('c, 'call, 'z) mining_state_scheme) run" where
  "update_pool symbol index grade s =
     unwrap (StakePools (mining s) (symbol, index)) s (\<lambda>v.
     unwrap (vec_get v grade) s (\<lambda>p. (Ok (accrue (block_number s) p), s)))"

definition cal_share_amount :: "u128 \<Rightarrow> u128 \<Rightarrow> u128 \<Rightarrow> u128" where
  "cal_share_amount pool_unit share_unit amt =
     (if pool_unit = 0 \<or> share_unit = 0 \<or> amt = 0 then 0
      else safe_to_u128 (unwrap_or (checked_div (saturating_mul (ucast amt :: u512) (ucast share_unit)) (ucast pool_unit)) 0))"

definition share_of :: "u128 \<Rightarrow> u128 \<Rightarrow> u128" where
  "share_of lp per_share = unwrap_or (checked_div (saturating_mul lp per_share) REWARD_FACTOR) 0"

section \<open>Staking\<close>

definition put_stake ::
    "RSymbol \<times> u32 \<times> AccountId \<times> u32 \<Rightarrow> StakeUser \<Rightarrow> StakePool list
     \<Rightarrow> ('c, 'call, 'z) mining_state_scheme \<Rightarrow> ('c, 'call, 'z) mining_state_scheme" where
  "put_stake k u v = (case k of (symbol, index, who, i) \<Rightarrow> mining_update (\<lambda>m. m\<lparr>
     StakeUsers := (StakeUsers m)((symbol, index, who, i) \<mapsto> u),
     StakePools := (StakePools m)((symbol, index) \<mapsto> v)\<rparr>))"

definition deposit ::
    "'c config \<Rightarrow> origin \<Rightarrow> RSymbol \<Rightarrow> u32 \<Rightarrow> u32 \<Rightarrow> u128 \<Rightarrow> ('c, 'call, 'z) mining_state_scheme
     \<Rightarrow> ('c, 'call, 'z) mining_run" where
  "deposit X o' symbol pool_index grade lp s =
     ensure_signed o' s (\<lambda>who.
     ensure (MiningWhitelist (mining s) (symbol, who) \<or> MiningSwitch (mining s) symbol) (RDexMiningErr DepositNotAllowed) s
    (ok_or (StakePools (mining s) (symbol, pool_index)) (RDexMiningErr StakePoolNotExist) s (\<lambda>pools.
     ok_or (vec_get pools grade) (RDexMiningErr GradeIndexOverflow) s (\<lambda>pool.
     ok_or (SwapPools (rdex s) symbol) (RDexMiningErr SwapPoolNotExist) s (\<lambda>swap_pool.
     let now = block_number s;
         stake_count = UserStakeCount (mining s) (symbol, pool_index, who)
     in ok_or (checked_div (total_reward pool) (reward_per_block pool)) (RDexMiningErr CalPoolDuBlockErr) s (\<lambda>pool_du_block.
        ensure (lp > 0) (RDexMiningErr mining_error.AmountZero) s
       (ensure (\<not> emergency pool) (RDexMiningErr EmergencySwitchIsOpen) s
       (ensure (lp_free_balance who symbol s \<ge> lp) (RDexMiningErr LpBalanceNotEnough) s
       (ensure (now + lp_locked_blocks pool < saturating_add (start_block pool) (ucast pool_du_block))
          (RDexMiningErr UnLockWillAfterEndErr) s
       (and_then (lp_transfer who (mining_account_id X) symbol lp s) (\<lambda>_ s1.
        and_then (update_pool symbol pool_index grade s1) (\<lambda>p s1.
        let p1 = p\<lparr>total_stake_lp := saturating_add (total_stake_lp p) lp\<rparr>;
            user = \<lparr>stake_account = who, lp_amount = lp, reward_debt = share_of lp (reward_per_share p1),
              reserved_lp_reward = 0,
              total_fis_value = cal_share_amount (total_unit swap_pool) lp (fis_balance swap_pool),
              total_rtoken_value = cal_share_amount (total_unit swap_pool) lp (rtoken_balance swap_pool),
              deposit_height = now, stake_grade = grade, claimed_reward = 0\<rparr>
        in (Ok (), deposit_event (RDexMiningEv (Deposit who symbol pool_index grade stake_count lp))
             (mining_update (\<lambda>m. m\<lparr>UserStakeCount := (UserStakeCount m)((symbol, pool_index, who) := stake_count + 1)\<rparr>)
               (put_stake (symbol, pool_index, who, stake_count) user (pools[unat grade := p1]) s1)))))))))))))))"

text \<open>The reward a stake has earned since its debt was last set.\<close>

definition earned :: "StakeUser \<Rightarrow> StakePool \<Rightarrow> u128" where
  "earned u p = saturating_sub (share_of (lp_amount u) (reward_per_share p)) (reward_debt u)"

definition withdrawn_user :: "StakeUser \<Rightarrow> StakePool \<Rightarrow> u128 \<Rightarrow> u128 \<Rightarrow> StakeUser" where
  "withdrawn_user u p lp reward =
     (let reserved_lp_total_reward = saturating_add (reserved_lp_reward u) reward;
          reserved_lp = saturating_sub (lp_amount u) lp
      in u\<lparr>total_fis_value := cal_share_amount (lp_amount u) reserved_lp (total_fis_value u),
           total_rtoken_value := cal_share_amount (lp_amount u) reserved_lp (total_rtoken_value u),
           reserved_lp_reward := cal_share_amount (lp_amount u) reserved_lp reserved_lp_total_reward,
           lp_amount := reserved_lp,
           reward_debt := share_of reserved_lp (reward_per_share p),
           claimed_reward := saturating_add (claimed_reward u) reward\<rparr>)"

definition mining_withdraw ::
    "'c config \<Rightarrow> origin \<Rightarrow> RSymbol \<Rightarrow> u32 \<Rightarrow> u32 \<Rightarrow> u128 \<Rightarrow> ('c, 'call, 'z) mining_state_scheme
     \<Rightarrow> ('c, 'call, 'z) mining_run" where
  "mining_withdraw X o' symbol pool_index stake_index lp s =
     ensure_signed o' s (\<lambda>who.
     ok_or (StakeUsers (mining s) (symbol, pool_index, who, stake_index)) (RDexMiningErr StakeUserNotExist) s (\<lambda>user.
     ok_or (StakePools (mining s) (symbol, pool_index)) (RDexMiningErr StakePoolNotExist) s (\<lambda>pools.
     ok_or (vec_get pools (stake_grade user)) (RDexMiningErr GradeIndexOverflow) s (\<lambda>pool.
     ensure (block_number s > saturating_add (lp_locked_blocks pool) (deposit_height user)) (RDexMiningErr LpStillLocked) s
    (ensure (\<not> emergency pool) (RDexMiningErr EmergencySwitchIsOpen) s
    (ensure (lp > 0) (RDexMiningErr mining_error.AmountZero) s
    (ensure (lp_amount user \<ge> lp) (RDexMiningErr StakeLpNotEnough) s
    (ensure (total_stake_lp pool \<ge> lp_amount user) (RDexMiningErr LpBalanceNotEnough) s
    (and_then (update_pool symbol pool_index (stake_grade user) s) (\<lambda>p s.
     let p1 = p\<lparr>total_stake_lp := saturating_sub (total_stake_lp p) lp\<rparr>;
         withdraw_reward = earned user p1;
         guard_amount = 0;
         user1 = withdrawn_user user p1 lp withdraw_reward;
         total_transfer_amount = saturating_add withdraw_reward guard_amount
     in and_then (run_if (total_transfer_amount > 0) (native_transfer X (mining_account_id X) who total_transfer_amount) s) (\<lambda>_ s1.
        and_then (lp_transfer (mining_account_id X) who symbol lp s1) (\<lambda>_ s2.
        (Ok (), deposit_event (RDexMiningEv (Withdraw who symbol pool_index (stake_grade user) stake_index lp withdraw_reward guard_amount))
           (put_stake (symbol, pool_index, who, stake_index) user1 (pools[unat (stake_grade user) := p1]) s2))))))))))))))"

definition claim_reward ::
    "'c config \<Rightarrow> origin \<Rightarrow> RSymbol \<Rightarrow> u32 \<Rightarrow> u32 \<Rightarrow> ('c, 'call, 'z) mining_state_scheme
     \<Rightarrow> ('c, 'call, 'z) mining_run" where
  "claim_reward X o' symbol pool_index stake_index s =
     ensure_signed o' s (\<lambda>who.
     ok_or (StakeUsers (mining s) (symbol, pool_index, who, stake_index)) (RDexMiningErr StakeUserNotExist) s (\<lambda>user.
     ok_or (StakePools (mining s) (symbol, pool_index)) (RDexMiningErr StakePoolNotExist) s (\<lambda>pools.
     ok_or (vec_get pools (stake_grade user)) (RDexMiningErr GradeIndexOverflow) s (\<lambda>pool.
     ensure (\<not> emergency pool) (RDexMiningErr EmergencySwitchIsOpen) s
    (and_then (update_pool symbol pool_index (stake_grade user) s) (\<lambda>p s.
     let withdraw_reward = earned user p;
         user1 = user\<lparr>reserved_lp_reward := saturating_add (reserved_lp_reward user) withdraw_reward,
           claimed_reward := saturating_add (claimed_reward user) withdraw_reward,
           reward_debt := share_of (lp_amount user) (reward_per_share p)\<rparr>
     in and_then (run_if (withdraw_reward > 0) (native_transfer X (mining_account_id X) who withdraw_reward) s) (\<lambda>_ s1.
        (Ok (), deposit_event (RDexMiningEv (ClaimReward who symbol pool_index (stake_grade user) stake_index withdraw_reward))
           (put_stake (symbol, pool_index, who, stake_index) user1 (pools[unat (stake_grade user) := p]) s1)))))))))"

definition emergency_withdraw ::
    "'c config \<Rightarrow> origin \<Rightarrow> RSymbol \<Rightarrow> u32 \<Rightarrow> u32 \<Rightarrow> ('c, 'call, 'z) mining_state_scheme
     \<Rightarrow> ('c, 'call, 'z) mining_run" where
  "emergency_withdraw X o' symbol pool_index stake_index s =
     ensure_signed o' s (\<lambda>who.
     ok_or (StakeUsers (mining s) (symbol, pool_index, who, stake_index)) (RDexMiningErr StakeUserNotExist) s (\<lambda>user.
     ok_or (StakePools (mining s) (symbol, pool_index)) (RDexMiningErr StakePoolNotExist) s (\<lambda>pools.
     ok_or (vec_get pools (stake_grade user)) (RDexMiningErr GradeIndexOverflow) s (\<lambda>pool.
     ensure (emergency pool) (RDexMiningErr EmergencySwitchIsClose) s
    (ensure (lp_amount user > 0) (RDexMiningErr mining_error.AmountZero) s
    (let lp = lp_amount user;
         p1 = pool\<lparr>total_stake_lp := saturating_sub (total_stake_lp pool) lp\<rparr>;
         user1 = user\<lparr>lp_amount := 0, reward_debt := 0, total_fis_value := 0, total_rtoken_value := 0, reserved_lp_reward := 0\<rparr>
     in and_then (lp_transfer (mining_account_id X) who symbol lp s) (\<lambda>_ s1.
        (Ok (), deposit_event (RDexMiningEv (EmergencyWithdraw who symbol pool_index (stake_grade user) stake_index lp))
           (put_stake (symbol, pool_index, who, stake_index) user1 (pools[unat (stake_grade user) := p1]) s1)))))))))"

section \<open>Administration\<close>

definition put_pools ::
    "RSymbol \<times> u32 \<Rightarrow> StakePool list \<Rightarrow> ('c, 'call, 'z) mining_state_scheme \<Rightarrow> ('c, 'call, 'z) mining_state_scheme" where
  "put_pools k v = mining_update (\<lambda>m. m\<lparr>StakePools := (StakePools m)(k \<mapsto> v)\<rparr>)"

definition add_pool ::
    "origin \<Rightarrow> RSymbol \<Rightarrow> u32 \<Rightarrow> u32 \<Rightarrow> u32 \<Rightarrow> u128 \<Rightarrow> u128 \<Rightarrow> bool \<Rightarrow> ('c, 'call, 'z) mining_state_scheme
     \<Rightarrow> ('c, 'call, 'z) mining_run" where
  "add_pool o' symbol pool_index start locked per_block budget guard s =
     ensure_root o' s
    (ok_or (StakePools (mining s) (symbol, pool_index)) (RDexMiningErr StakePoolNotExist) s (\<lambda>pools.
     let current = block_number s;
         last_block = (if current < start then start else current);
         p = \<lparr>stake_symbol = symbol, emergency = False, total_stake_lp = 0, start_block = start, reward_per_block = per_block,
           total_reward = budget, left_reward = budget, lp_locked_blocks = locked, last_reward_block = last_block,
           reward_per_share = 0, guard_impermanent_loss = guard\<rparr>;
         pools1 = pools @ [p];
         grade = word_of_nat (length pools1) - 1
     in (Ok (), deposit_event (RDexMiningEv (AddPool symbol pool_index grade start locked per_block budget guard))
          (put_pools (symbol, pool_index) pools1 s))))"

definition update_stake_pool ::
    "origin \<Rightarrow> RSymbol \<Rightarrow> u32 \<Rightarrow> u32 \<Rightarrow> u128 \<Rightarrow> u128 \<Rightarrow> ('c, 'call, 'z) mining_state_scheme
     \<Rightarrow> ('c, 'call, 'z) mining_run" where
  "update_stake_pool o' symbol pool_index grade per_block budget s =
     ensure_root o' s
    (ok_or (StakePools (mining s) (symbol, pool_index)) (RDexMiningErr StakePoolNotExist) s (\<lambda>pools.
     ok_or (vec_get pools grade) (RDexMiningErr GradeIndexOverflow) s (\<lambda>p.
     let left_over = (if budget > total_reward p
           then saturating_add (saturating_sub budget (total_reward p)) (left_reward p)
           else saturating_sub (left_reward p) (saturating_sub (total_reward p) budget))
     in (Ok (), put_pools (symbol, pool_index)
          (pools[unat grade := p\<lparr>reward_per_block := per_block, total_reward := budget, left_reward := left_over\<rparr>]) s))))"

definition rm_pool ::
    "origin \<Rightarrow> RSymbol \<Rightarrow> u32 \<Rightarrow> u32 \<Rightarrow> ('c, 'call, 'z) mining_state_scheme \<Rightarrow> ('c, 'call, 'z) mining_run" where
  "rm_pool o' symbol pool_index grade s =
     ensure_root o' s
    (ok_or (StakePools (mining s) (symbol, pool_index)) (RDexMiningErr StakePoolNotExist) s (\<lambda>pools.
     ok_or (vec_get pools grade) (RDexMiningErr GradeIndexOverflow) s (\<lambda>p.
     ensure (total_stake_lp p = 0) (RDexMiningErr LpBalanceNotEmpty) s
       (Ok (), deposit_event (RDexMiningEv (RmPool symbol pool_index grade))
          (put_pools (symbol, pool_index) (remove_nth (unat grade) pools) s)))))"

definition increase_pool_index ::
    "origin \<Rightarrow> RSymbol \<Rightarrow> ('c, 'call, 'z) mining_state_scheme \<Rightarrow> ('c, 'call, 'z) mining_run" where
  "increase_pool_index o' symbol s =
     ensure_root o' s
       (let pool_count = PoolCount (mining s) symbol
        in (Ok (), mining_update (\<lambda>m. m\<lparr>StakePools := (StakePools m)((symbol, pool_count) \<mapsto> []),
              PoolCount := (PoolCount m)(symbol := pool_count + 1)\<rparr>) s))"

definition emergency_switch ::
    "origin \<Rightarrow> RSymbol \<Rightarrow> u32 \<Rightarrow> u32 \<Rightarrow> ('c, 'call, 'z) mining_state_scheme \<Rightarrow> ('c, 'call, 'z) mining_run" where
  "emergency_switch o' symbol pool_index grade s =
     ensure_root o' s
    (ok_or (StakePools (mining s) (symbol, pool_index)) (RDexMiningErr StakePoolNotExist) s (\<lambda>pools.
     ok_or (vec_get pools grade) (RDexMiningErr GradeIndexOverflow) s (\<lambda>p.
       (Ok (), put_pools (symbol, pool_index) (pools[unat grade := p\<lparr>emergency := \<not> emergency p\<rparr>]) s))))"

definition withdraw_guard_fund ::
    "'c config \<Rightarrow> origin \<Rightarrow> RSymbol \<Rightarrow> AccountId \<Rightarrow> u128 \<Rightarrow> ('c, 'call, 'z) mining_state_scheme
     \<Rightarrow> ('c, 'call, 'z) mining_run" where
  "withdraw_guard_fund X o' symbol to_address amt s =
     ensure_root o' s
    (let guard_reserve = GuardReserve (mining s) symbol;
         w1 = (if amt > guard_reserve then guard_reserve else amt);
         module_free_balance = native_free_balance X (mining_account_id X) s;
         w2 = (if w1 > module_free_balance then module_free_balance else w1)
     in and_then (run_if (w2 > 0) (native_transfer X (mining_account_id X) to_address w2) s) (\<lambda>_ s1.
        (Ok (), mining_update (\<lambda>m. m\<lparr>GuardReserve := (GuardReserve m)(symbol := saturating_sub guard_reserve w2)\<rparr>) s1)))"

definition set_guard_line ::
    "origin \<Rightarrow> RSymbol \<Rightarrow> u32 \<Rightarrow> u32 \<Rightarrow> ('c, 'call, 'z) mining_state_scheme \<Rightarrow> ('c, 'call, 'z) mining_run" where
  "set_guard_line o' symbol pool_index line s =
     ensure_root o' s (Ok (), mining_update (\<lambda>m. m\<lparr>GuardLine := (GuardLine m)((symbol, pool_index) := line)\<rparr>) s)"

definition set_guard_reserve ::
    "origin \<Rightarrow> RSymbol \<Rightarrow> u128 \<Rightarrow> ('c, 'call, 'z) mining_state_scheme \<Rightarrow> ('c, 'call, 'z) mining_run" where
  "set_guard_reserve o' symbol amt s =
     ensure_root o' s (Ok (), mining_update (\<lambda>m. m\<lparr>GuardReserve := (GuardReserve m)(symbol := amt)\<rparr>) s)"

definition mining_add_lp_to_whitelist ::
    "origin \<Rightarrow> RSymbol \<Rightarrow> AccountId \<Rightarrow> ('c, 'call, 'z) mining_state_scheme \<Rightarrow> ('c, 'call, 'z) mining_run" where
  "mining_add_lp_to_whitelist o' symbol who s =
     ensure_root o' s (Ok (), mining_update (\<lambda>m. m\<lparr>MiningWhitelist := (MiningWhitelist m)((symbol, who) := True)\<rparr>) s)"

definition mining_remove_lp_from_whitelist ::
    "origin \<Rightarrow> RSymbol \<Rightarrow> AccountId \<Rightarrow> ('c, 'call, 'z) mining_state_scheme \<Rightarrow> ('c, 'call, 'z) mining_run" where
  "mining_remove_lp_from_whitelist o' symbol who s =
     ensure_root o' s (Ok (), mining_update (\<lambda>m. m\<lparr>MiningWhitelist := (MiningWhitelist m)((symbol, who) := False)\<rparr>) s)"

definition mining_toggle_lp_switch ::
    "origin \<Rightarrow> RSymbol \<Rightarrow> ('c, 'call, 'z) mining_state_scheme \<Rightarrow> ('c, 'call, 'z) mining_run" where
  "mining_toggle_lp_switch o' symbol s =
     ensure_root o' s (Ok (), mining_update (\<lambda>m. m\<lparr>MiningSwitch := (MiningSwitch m)(symbol := \<not> MiningSwitch m symbol)\<rparr>) s)"

section \<open>Removing a grade\<close>

lemma put_pools_mining [simp]:
  "StakePools (mining (put_pools k v s)) = (StakePools (mining s))(k \<mapsto> v)"
  "StakeUsers (mining (put_pools k v s)) = StakeUsers (mining s)"
  "mining (deposit_event e s) = mining s"
  by (simp_all add: put_pools_def deposit_event_def)

text \<open>
  C38. Removing a grade that has no stake strands the stakes of the last grade: the later grades move
  down in the vector while the stakes keep their grade index, so that afterwards every attempt of such
  a staker to withdraw, to claim or to withdraw in an emergency fails with \<open>GradeIndexOverflow\<close> and
  leaves the state as it is.
\<close>

theorem removed_grade_strands_stakes:
  assumes "rm_pool o' y i g s = (Ok (), t)" "StakePools (mining s) (y, i) = Some v"
    and "StakeUsers (mining s) (y, i, who, k) = Some u" "Suc (unat (stake_grade u)) = length v"
  shows "mining_withdraw X (Signed who) y i k lp t = (Err (RDexMiningErr GradeIndexOverflow), t)
    \<and> claim_reward X (Signed who) y i k t = (Err (RDexMiningErr GradeIndexOverflow), t)
    \<and> emergency_withdraw X (Signed who) y i k t = (Err (RDexMiningErr GradeIndexOverflow), t)"
proof -
  from assms(1,2) have t: "StakeUsers (mining t) = StakeUsers (mining s)"
      "StakePools (mining t) (y, i) = Some (remove_nth (unat g) v)" and g: "unat g < length v"
    by (auto simp: rm_pool_def run_ok vec_get_def split: if_splits)
  have "vec_get (remove_nth (unat g) v) (stake_grade u) = None"
    using length_remove_nth [OF g] assms(4) by (simp add: vec_get_def)
  with t assms(3) show ?thesis
    by (simp add: mining_withdraw_def claim_reward_def emergency_withdraw_def)
qed

definition sample_grade :: StakePool where
  "sample_grade = \<lparr>stake_symbol = RDOT, emergency = False, total_stake_lp = 0, start_block = 1, reward_per_block = 2,
     total_reward = 1000, left_reward = 1000, lp_locked_blocks = 3, last_reward_block = 8, reward_per_share = 0,
     guard_impermanent_loss = False\<rparr>"

definition sample_stake :: StakeUser where
  "sample_stake = \<lparr>stake_account = 7, lp_amount = 50, reward_debt = 0, reserved_lp_reward = 0, total_fis_value = 50,
     total_rtoken_value = 25, deposit_height = 2, stake_grade = 1, claimed_reward = 0\<rparr>"

definition sample_mining :: "(AccountId \<Rightarrow> u128, unit) mining_state" where
  "sample_mining = rdex_state.extend sample_trading \<lparr>mining = empty_mining\<lparr>
     StakePools := [(RDOT, 0) \<mapsto> [sample_grade, sample_grade\<lparr>total_stake_lp := 50\<rparr>]],
     StakeUsers := [(RDOT, 0, 7, 0) \<mapsto> sample_stake]\<rparr>\<rparr>"

lemma sample_mining_simps [simp]:
  "StakePools (mining sample_mining) = [(RDOT, 0) \<mapsto> [sample_grade, sample_grade\<lparr>total_stake_lp := 50\<rparr>]]"
  "StakeUsers (mining sample_mining) = [(RDOT, 0, 7, 0) \<mapsto> sample_stake]"
  by (simp_all add: sample_mining_def rdex_state.defs)

theorem removed_grade_strands_stakes_witness:
  "\<exists>t :: (AccountId \<Rightarrow> u128, unit) mining_state. rm_pool Root RDOT 0 0 sample_mining = (Ok (), t)
     \<and> emergency_withdraw plain_config (Signed 7) RDOT 0 0 t = (Err (RDexMiningErr GradeIndexOverflow), t)"
proof -
  have "\<exists>t :: (AccountId \<Rightarrow> u128, unit) mining_state. rm_pool Root RDOT 0 0 sample_mining = (Ok (), t)"
    by (simp add: rm_pool_def vec_get_def sample_grade_def)
  then obtain t :: "(AccountId \<Rightarrow> u128, unit) mining_state" where t: "rm_pool Root RDOT 0 0 sample_mining = (Ok (), t)" by blast
  have "StakePools (mining sample_mining) (RDOT, 0) = Some [sample_grade, sample_grade\<lparr>total_stake_lp := 50\<rparr>]"
    "StakeUsers (mining sample_mining) (RDOT, 0, 7, 0) = Some sample_stake" by simp_all
  from removed_grade_strands_stakes [OF t this, where X = plain_config and lp = 1] t
  show ?thesis by (auto simp: sample_stake_def)
qed

end
