(* ===== verification/Mining_Rewards.thy ===== *)
theory Mining_Rewards
  imports Mining
begin

text \<open>
  The books of \<open>rdex/mining\<close>: the units staked in a grade, the units the account of the pallet holds, and
  the rewards paid against the rewards the grade has released.
\<close>

section \<open>What a grade owes\<close>

type_synonym grade_key = "RSymbol \<times> u32 \<times> nat"

text \<open>The units of a stake and the reward it could claim, scaled, in a grade whose reward per share is \<open>c\<close>.\<close>

definition units_in :: "nat \<Rightarrow> StakeUser option \<Rightarrow> nat" where
  "units_in g x = (case x of Some u \<Rightarrow> if unat (stake_grade u) = g then unat (lp_amount u) else 0 | None \<Rightarrow> 0)"

definition scaled :: "nat \<Rightarrow> nat \<Rightarrow> nat" where
  "scaled n c = min (2 ^ 128 - 1) (n * c)"

abbreviation factor :: nat where
  "factor \<equiv> 1000000000000"

definition pending_in :: "nat \<Rightarrow> nat \<Rightarrow> StakeUser option \<Rightarrow> nat" where
  "pending_in g c x = (case x of Some u \<Rightarrow>
     if unat (stake_grade u) = g then scaled (unat (lp_amount u)) c - factor * unat (reward_debt u) else 0 | None \<Rightarrow> 0)"

definition staked_units :: "grade_key \<Rightarrow> mining_store \<Rightarrow> nat" where
  "staked_units k m = (case k of (y, i, g) \<Rightarrow> \<Sum>x\<in>UNIV. units_in g (StakeUsers m (y, i, x)))"

definition pending :: "grade_key \<Rightarrow> nat \<Rightarrow> mining_store \<Rightarrow> nat" where
  "pending k c m = (case k of (y, i, g) \<Rightarrow> \<Sum>x\<in>UNIV. pending_in g c (StakeUsers m (y, i, x)))"

lemma share_of_nat: "unat (share_of lp c) = scaled (unat lp) (unat c) div factor"
  by (simp add: share_of_def unat_checked_div_or_0 unat_saturating_mul scaled_def REWARD_FACTOR_def)

lemma scaled_mono: "c \<le> c' \<Longrightarrow> scaled n c \<le> scaled n c'"
  unfolding scaled_def by (intro min.mono mult_le_mono2) simp_all

lemma scaled_step: "scaled n (c + d) \<le> scaled n c + n * d"
  by (auto simp: scaled_def min_def distrib_left)

text \<open>Releasing rewards: what a grade takes from its budget covers what it adds to the shares.\<close>

lemma accrue_keeps [simp]:
  "total_stake_lp (accrue now p) = total_stake_lp p" "total_reward (accrue now p) = total_reward p"
  "emergency (accrue now p) = emergency p"
  by (simp_all add: accrue_def Let_def)

lemma accrue_releases:
  "\<exists>d. unat (reward_per_share (accrue now p)) = unat (reward_per_share p) + d
    \<and> unat (left_reward (accrue now p)) \<le> unat (left_reward p)
    \<and> unat (total_stake_lp p) * d \<le> factor * (unat (left_reward p) - unat (left_reward (accrue now p)))"
proof -
  let ?r = "get_pool_reward (last_reward_block p) now (reward_per_block p) (left_reward p)"
  have r: "unat ?r \<le> unat (left_reward p)"
    by (auto simp: get_pool_reward_def Let_def word_less_nat_alt)
  define d where "d = unat (saturating_add (reward_per_share p)
      (unwrap_or (checked_div (saturating_mul ?r REWARD_FACTOR) (total_stake_lp p)) 0)) - unat (reward_per_share p)"
  have "unat (saturating_mul ?r REWARD_FACTOR) \<le> unat ?r * factor"
    by (simp add: unat_saturating_mul REWARD_FACTOR_def)
  then have "unat (unwrap_or (checked_div (saturating_mul ?r REWARD_FACTOR) (total_stake_lp p)) 0) \<le> unat ?r * factor div unat (total_stake_lp p)"
    unfolding unat_checked_div_or_0 by (rule div_le_mono)
  then have "d \<le> unat ?r * factor div unat (total_stake_lp p)"
    using sat_add_le [of "reward_per_share p" "unwrap_or (checked_div (saturating_mul ?r REWARD_FACTOR) (total_stake_lp p)) 0"] unfolding d_def by linarith
  then have "unat (total_stake_lp p) * d \<le> unat ?r * factor"
    by (rule order_trans [OF mult_le_mono2 times_div_less_eq_dividend])
  moreover have "unat (reward_per_share p) \<le> unat (saturating_add (reward_per_share p) z)" for z
    using unat_u128_less [of "reward_per_share p"] by (simp add: unat_saturating_add)
  ultimately show ?thesis
    using r by (intro exI [of _ "if now \<le> last_reward_block p \<or> total_stake_lp p = 0 \<or> ?r = 0 then 0 else d"])
      (auto simp: accrue_def Let_def d_def unat_saturating_sub word_gt_0 mult.commute)
qed

definition released :: "StakePool \<Rightarrow> StakePool \<Rightarrow> bool" where
  "released p q \<longleftrightarrow> total_stake_lp q = total_stake_lp p \<and> total_reward q = total_reward p
    \<and> unat (left_reward q) \<le> unat (left_reward p) \<and> unat (reward_per_share p) \<le> unat (reward_per_share q)
    \<and> unat (total_stake_lp p) * (unat (reward_per_share q) - unat (reward_per_share p))
        \<le> factor * (unat (left_reward p) - unat (left_reward q))"

lemma released_refl: "released p p"
  by (simp add: released_def)

lemma released_accrue: "released p (accrue now p)"
  using accrue_releases [of now p] by (auto simp: released_def)

lemma pending_in_step: "pending_in g (c + d) x \<le> pending_in g c x + units_in g x * d"
proof (cases x)
  case (Some u)
  then show ?thesis
    using scaled_step [of "unat (lp_amount u)" c d] by (auto simp: pending_in_def units_in_def)
qed (simp add: pending_in_def)

lemma pending_released:
  assumes "released p q" "unat (total_stake_lp p) = staked_units k m"
  shows "pending k (unat (reward_per_share q)) m
    \<le> pending k (unat (reward_per_share p)) m + factor * (unat (left_reward p) - unat (left_reward q))"
proof -
  obtain y i g where k: "k = (y, i, g)" by (cases k)
  obtain d where d: "unat (reward_per_share q) = unat (reward_per_share p) + d"
    using assms(1) by (auto simp: released_def dest: le_Suc_ex)
  have "pending k (unat (reward_per_share p) + d) m \<le> pending k (unat (reward_per_share p)) m + staked_units k m * d"
    unfolding k pending_def staked_units_def prod.case sum_distrib_right sum.distrib [symmetric] case_prod_beta
    by (rule sum_mono) (rule pending_in_step)
  also have "staked_units k m * d \<le> factor * (unat (left_reward p) - unat (left_reward q))"
    using assms d by (simp add: released_def)
  finally show ?thesis by (simp add: d)
qed

section \<open>The history of a pallet\<close>

text \<open>
  The successful operations of stakers: a deposit, a withdrawal and a claim, with the rewards paid.
  Deposits and withdrawals set a debt anew, rounded down.
\<close>

datatype mining_entry = Staked grade_key | Unstaked grade_key nat | Rewarded grade_key nat

fun paid_in :: "grade_key \<Rightarrow> mining_entry list \<Rightarrow> nat" where
  "paid_in k [] = 0"
| "paid_in k (Staked k' # h) = paid_in k h"
| "paid_in k (Unstaked k' r # h) = paid_in k h + (if k' = k then r else 0)"
| "paid_in k (Rewarded k' r # h) = paid_in k h + (if k' = k then r else 0)"

fun roundings :: "grade_key \<Rightarrow> mining_entry list \<Rightarrow> nat" where
  "roundings k [] = 0"
| "roundings k (Staked k' # h) = roundings k h + (if k' = k then 1 else 0)"
| "roundings k (Unstaked k' r # h) = roundings k h + (if k' = k then 1 else 0)"
| "roundings k (Rewarded k' r # h) = roundings k h"

definition grade_ok :: "mining_entry list \<Rightarrow> mining_store \<Rightarrow> grade_key \<Rightarrow> StakePool \<Rightarrow> bool" where
  "grade_ok h m k p \<longleftrightarrow>
     unat (total_stake_lp p) = staked_units k m
   \<and> unat (left_reward p) \<le> unat (total_reward p)
   \<and> factor * paid_in k h + pending k (unat (reward_per_share p)) m
     \<le> factor * (unat (total_reward p) - unat (left_reward p)) + (factor - 1) * roundings k h"

definition stake_ok :: "mining_store \<Rightarrow> RSymbol \<Rightarrow> u32 \<Rightarrow> AccountId \<Rightarrow> u32 \<Rightarrow> StakeUser \<Rightarrow> bool" where
  "stake_ok m y i w j u \<longleftrightarrow> j < UserStakeCount m (y, i, w) \<and>
     (\<exists>v. StakePools m (y, i) = Some v \<and> unat (stake_grade u) < length v
      \<and> factor * unat (reward_debt u) \<le> scaled (unat (lp_amount u)) (unat (reward_per_share (v ! unat (stake_grade u)))))"

definition grades :: "mining_store \<Rightarrow> RSymbol \<Rightarrow> u32 \<Rightarrow> StakePool list" where
  "grades m y i = (case StakePools m (y, i) of Some v \<Rightarrow> v | None \<Rightarrow> [])"

definition books_ok :: "mining_entry list \<Rightarrow> mining_store \<Rightarrow> bool" where
  "books_ok h m \<longleftrightarrow>
     (\<forall>y i g. if g < length (grades m y i) then grade_ok h m (y, i, g) (grades m y i ! g) else paid_in (y, i, g) h = 0)
   \<and> (\<forall>y i w j u. StakeUsers m (y, i, w, j) = Some u \<longrightarrow> stake_ok m y i w j u)"

section \<open>One operation of a staker\<close>

text \<open>
  The common shape of the four operations of a staker on the stake \<open>(w, j)\<close> of a grade: the grade
  releases its rewards, the stake becomes \<open>u\<close>, the staked units change by the same amount, and \<open>r\<close> is paid.
\<close>

definition stake_moves :: "StakeUser option \<Rightarrow> StakeUser \<Rightarrow> nat \<Rightarrow> StakePool \<Rightarrow> StakePool \<Rightarrow> nat \<Rightarrow> nat \<Rightarrow> bool" where
  "stake_moves old u g q p1 r c \<longleftrightarrow>
     unat (stake_grade u) = g
   \<and> (\<forall>u0. old = Some u0 \<longrightarrow> unat (stake_grade u0) = g)
   \<and> total_reward p1 = total_reward q \<and> left_reward p1 = left_reward q \<and> reward_per_share p1 = reward_per_share q
   \<and> unat (total_stake_lp p1) + units_in g old = unat (total_stake_lp q) + unat (lp_amount u)
   \<and> factor * unat (reward_debt u) \<le> scaled (unat (lp_amount u)) (unat (reward_per_share q))
   \<and> factor * r + pending_in g (unat (reward_per_share q)) (Some u)
       \<le> pending_in g (unat (reward_per_share q)) old + (factor - 1) * c"

lemma staked_put:
  assumes "StakeUsers m' = (StakeUsers m)((y, i, w, j) \<mapsto> u)"
  shows "staked_units (y, i, g) m' + units_in g (StakeUsers m (y, i, w, j)) = staked_units (y, i, g) m + units_in g (Some u)"
    and "pending (y, i, g) c m' + pending_in g c (StakeUsers m (y, i, w, j)) = pending (y, i, g) c m + pending_in g c (Some u)"
    and "(y', i') \<noteq> (y, i) \<Longrightarrow> staked_units (y', i', g) m' = staked_units (y', i', g) m"
    and "(y', i') \<noteq> (y, i) \<Longrightarrow> pending (y', i', g) c m' = pending (y', i', g) c m"
proof -
  have "StakeUsers m' (y, i, x) = StakeUsers m (y, i, x)" if "x \<noteq> (w, j)" for x
    using that by (auto simp: assms)
  from sum_change [of "(w, j)", OF arg_cong [OF this]]
  have step: "(\<Sum>x\<in>UNIV. f (StakeUsers m' (y, i, x))) + f (StakeUsers m (y, i, w, j))
      = (\<Sum>x\<in>UNIV. f (StakeUsers m (y, i, x))) + f (StakeUsers m' (y, i, w, j))" for f :: "StakeUser option \<Rightarrow> nat" .
  show "staked_units (y, i, g) m' + units_in g (StakeUsers m (y, i, w, j)) = staked_units (y, i, g) m + units_in g (Some u)"
    "pending (y, i, g) c m' + pending_in g c (StakeUsers m (y, i, w, j)) = pending (y, i, g) c m + pending_in g c (Some u)"
    using step [of "units_in g"] step [of "pending_in g c"] by (simp_all add: staked_units_def pending_def assms)
  show "staked_units (y', i', g) m' = staked_units (y', i', g) m" "pending (y', i', g) c m' = pending (y', i', g) c m"
    if "(y', i') \<noteq> (y, i)" using that unfolding staked_units_def pending_def prod.case assms
    by (intro sum.cong; auto)+
qed

lemma other_grade_0:
  assumes "\<forall>u0. old = Some u0 \<longrightarrow> unat (stake_grade u0) = g" "g' \<noteq> g"
  shows "units_in g' old = 0" "pending_in g' c old = 0"
  using assms by (auto simp: units_in_def pending_in_def split: option.splits)

lemma grade_moves:
  assumes ok: "grade_ok h m (y, i, g) p" and q: "released p q"
    and mv: "stake_moves (StakeUsers m (y, i, w, j)) u g q p1 r c"
    and m': "StakeUsers m' = (StakeUsers m)((y, i, w, j) \<mapsto> u)"
    and h': "paid_in (y, i, g) h' = paid_in (y, i, g) h + r" "roundings (y, i, g) h' = roundings (y, i, g) h + c"
  shows "grade_ok h' m' (y, i, g) p1"
proof -
  let ?k = "(y, i, g)" and ?old = "StakeUsers m (y, i, w, j)" and ?c = "unat (reward_per_share q)"
  have new: "units_in g (Some u) = unat (lp_amount u)" using mv by (simp add: stake_moves_def units_in_def)
  have bal: "factor * paid_in ?k h + pending ?k (unat (reward_per_share p)) m
      \<le> factor * (unat (total_reward p) - unat (left_reward p)) + (factor - 1) * roundings ?k h"
    and tot: "unat (total_stake_lp p) = staked_units ?k m" and le: "unat (left_reward p) \<le> unat (total_reward p)"
    using ok by (simp_all add: grade_ok_def)
  have acc: "factor * (unat (total_reward p) - unat (left_reward p)) + factor * (unat (left_reward p) - unat (left_reward q))
      = factor * (unat (total_reward q) - unat (left_reward q))"
    using q le by (simp add: released_def flip: distrib_left)
  have "pending ?k ?c m' + pending_in g ?c ?old = pending ?k ?c m + pending_in g ?c (Some u)"
    by (rule staked_put [OF m'])
  moreover have "factor * r + pending_in g ?c (Some u) \<le> pending_in g ?c ?old + (factor - 1) * c"
    using mv by (simp add: stake_moves_def)
  ultimately have "factor * (paid_in ?k h + r) + pending ?k ?c m'
      \<le> factor * (unat (total_reward q) - unat (left_reward q)) + (factor - 1) * (roundings ?k h + c)"
    using pending_released [OF q tot] bal acc unfolding distrib_left by linarith
  moreover have "unat (total_stake_lp p1) = staked_units ?k m'"
    using staked_put(1) [OF m', of g] tot q mv new by (simp add: stake_moves_def released_def)
  ultimately show ?thesis
    using mv q le by (simp add: grade_ok_def h' stake_moves_def released_def)
qed

lemma books_grade: "books_ok h m \<Longrightarrow> StakePools m (y, i) = Some v \<Longrightarrow> g < length v \<Longrightarrow> grade_ok h m (y, i, g) (v ! g)"
  by (auto simp: books_ok_def grades_def dest!: spec [of _ y] spec [of _ i] spec [of _ g])

lemma books_stake: "books_ok h m \<Longrightarrow> StakeUsers m (y, i, w, j) = Some u \<Longrightarrow> stake_ok m y i w j u"
  by (simp add: books_ok_def)

lemma books_move:
  assumes ok: "books_ok h m" and v: "StakePools m (y, i) = Some v" and g: "g < length v" and q: "released (v ! g) q"
    and mv: "stake_moves (StakeUsers m (y, i, w, j)) u g q p1 r c"
    and users: "StakeUsers m' = (StakeUsers m)((y, i, w, j) \<mapsto> u)"
    and pools: "StakePools m' = (StakePools m)((y, i) \<mapsto> v[g := p1])"
    and counts: "\<And>k. UserStakeCount m k \<le> UserStakeCount m' k" "j < UserStakeCount m' (y, i, w)"
    and h': "\<And>k. paid_in k h' = paid_in k h + (if k = (y, i, g) then r else 0)"
      "\<And>k. roundings k h' = roundings k h + (if k = (y, i, g) then c else 0)"
  shows "books_ok h' m'"
  unfolding books_ok_def
proof (intro conjI allI impI)
  fix y' i' g'
  have old: "if g' < length (grades m y' i') then grade_ok h m (y', i', g') (grades m y' i' ! g') else paid_in (y', i', g') h = 0"
    using ok by (simp add: books_ok_def)
  show "if g' < length (grades m' y' i') then grade_ok h' m' (y', i', g') (grades m' y' i' ! g') else paid_in (y', i', g') h' = 0"
  proof (cases "(y', i') = (y, i)")
    case False
    then have "grades m' y' i' = grades m y' i'" by (auto simp: grades_def pools)
    with old False staked_put(3,4) [OF users False] show ?thesis by (auto simp: grade_ok_def h')
  next
    case same: True
    show ?thesis
    proof (cases "g' = g")
      case True
      from grade_moves [OF books_grade [OF ok v g] q mv users] same True g show ?thesis
        by (simp add: grades_def pools h')
    next
      case False
      have "\<forall>u0. Some u = Some u0 \<longrightarrow> unat (stake_grade u0) = g" "\<forall>u0. StakeUsers m (y, i, w, j) = Some u0 \<longrightarrow> unat (stake_grade u0) = g"
        using mv by (simp_all add: stake_moves_def)
      note other_grade_0 [OF this(1) False] other_grade_0 [OF this(2) False]
      then show ?thesis
        using old same v False staked_put(1,2) [OF users, of g'] by (auto simp: grades_def pools h' grade_ok_def)
    qed
  qed
next
  fix y' i' w' j' u' assume u': "StakeUsers m' (y', i', w', j') = Some u'"
  show "stake_ok m' y' i' w' j' u'"
  proof (cases "(y', i', w', j') = (y, i, w, j)")
    case True
    with u' have "u' = u" by (simp add: users)
    with True mv g counts(2) show ?thesis by (auto simp: stake_ok_def pools stake_moves_def)
  next
    case False
    with u' have "StakeUsers m (y', i', w', j') = Some u'" by (auto simp: users split: if_splits)
    then have st: "stake_ok m y' i' w' j' u'" using ok by (simp add: books_ok_def)
    then have "j' < UserStakeCount m' (y', i', w')" using counts(1) by (auto simp: stake_ok_def intro: less_le_trans)
    moreover have "unat (reward_per_share (v ! g)) \<le> unat (reward_per_share p1)" using q mv by (simp add: released_def stake_moves_def)
    then have "scaled n (unat (reward_per_share (v ! g))) \<le> scaled n (unat (reward_per_share p1))" for n by (rule scaled_mono)
    ultimately show ?thesis
      using st v g by (cases "(y', i') = (y, i)"; cases "unat (stake_grade u') = g") (auto simp: stake_ok_def pools intro: le_trans)
  qed
qed

text \<open>A debt set to the current share rounds down by less than one unit of the native token.\<close>

lemma fresh_debt:
  assumes "reward_debt u = share_of (lp_amount u) c"
  shows "factor * unat (reward_debt u) \<le> scaled (unat (lp_amount u)) (unat c)"
    and "pending_in g (unat c) (Some u) \<le> factor - 1"
    and "unat (stake_grade u) = g \<Longrightarrow> pending_in g (unat c) (Some u) = scaled (unat (lp_amount u)) (unat c) mod factor"
proof -
  have eq: "scaled (unat (lp_amount u)) (unat c) - factor * unat (reward_debt u) = scaled (unat (lp_amount u)) (unat c) mod factor"
    unfolding assms share_of_nat by (rule minus_mult_div_eq_mod)
  show "factor * unat (reward_debt u) \<le> scaled (unat (lp_amount u)) (unat c)"
    unfolding assms share_of_nat by (rule times_div_less_eq_dividend)
  have "scaled (unat (lp_amount u)) (unat c) mod factor < factor" by simp
  then show "pending_in g (unat c) (Some u) \<le> factor - 1" by (auto simp: pending_in_def eq)
  show "unat (stake_grade u) = g \<Longrightarrow> pending_in g (unat c) (Some u) = scaled (unat (lp_amount u)) (unat c) mod factor"
    by (simp add: pending_in_def eq)
qed

text \<open>What a stake earns is taken from what it could claim.\<close>

lemma earned_nat:
  assumes "unat (stake_grade u) = g" "factor * unat (reward_debt u) \<le> scaled (unat (lp_amount u)) (unat (reward_per_share q))"
  shows "factor * unat (earned u q) + scaled (unat (lp_amount u)) (unat (reward_per_share q)) mod factor
    = pending_in g (unat (reward_per_share q)) (Some u)"
proof -
  let ?S = "scaled (unat (lp_amount u)) (unat (reward_per_share q))"
  have "unat (earned u q) = ?S div factor - unat (reward_debt u)"
    by (simp add: earned_def unat_saturating_sub share_of_nat)
  then have "factor * unat (earned u q) + ?S mod factor = factor * (?S div factor) + ?S mod factor - factor * unat (reward_debt u)"
    using assms(2) by (simp add: diff_mult_distrib2 less_eq_div_iff_mult_less_eq mult.commute)
  then show ?thesis using assms(1) by (simp add: pending_in_def)
qed

section \<open>The four operations\<close>

lemma lp_transfer_mining:
  assumes "lp_transfer a b y v s = (r, t)"
  shows "mining t = mining s" "native t = native s" "block_number t = block_number s"
  using lp_lift_state [of "token_transfer a b y v" s] assms by (auto simp: lp_transfer_def)

lemma native_transfer_mining:
  assumes "native_transfer X a b v s = (r, t)"
  shows "mining t = mining s" "lpbalances t = lpbalances s"
  using assms by (auto simp: native_transfer_def split: prod.splits)

lemma vec_get_Some: "vec_get v i = Some p \<longleftrightarrow> unat i < length v \<and> p = v ! unat i"
  by (auto simp: vec_get_def)

lemma update_pool_eq:
  assumes "StakePools (mining s) (y, i) = Some v" "unat g < length v"
  shows "update_pool y i g s = (Ok (accrue (block_number s) (v ! unat g)), s)"
  using assms by (simp add: update_pool_def vec_get_def)

lemma put_stake_mining [simp]:
  "StakeUsers (mining (put_stake (y, i, w, j) u v s)) = (StakeUsers (mining s))((y, i, w, j) \<mapsto> u)"
  "StakePools (mining (put_stake (y, i, w, j) u v s)) = (StakePools (mining s))((y, i) \<mapsto> v)"
  "UserStakeCount (mining (put_stake (y, i, w, j) u v s)) = UserStakeCount (mining s)"
  "lpbalances (put_stake (y, i, w, j) u v s) = lpbalances s" "native (put_stake (y, i, w, j) u v s) = native s"
  by (simp_all add: put_stake_def)

lemma deposit_event_mining [simp]:
  "mining (deposit_event e s) = mining s" "lpbalances (deposit_event e s) = lpbalances s"
  by (simp_all add: deposit_event_def)

lemma deposit_Ok:
  fixes s t :: "('c, 'call, 'z) mining_state_scheme"
  assumes "deposit X (Signed who) y i g lp s = (Ok (), t)"
  shows "\<exists>v u (s1 :: ('c, 'call, 'z) mining_state_scheme). StakePools (mining s) (y, i) = Some v \<and> unat g < length v
    \<and> lp_transfer who (mining_account_id X) y lp s = (Ok (), s1)
    \<and> (let q = accrue (block_number s) (v ! unat g); j = UserStakeCount (mining s) (y, i, who) in
        lp_amount u = lp \<and> stake_grade u = g \<and> reward_debt u = share_of lp (reward_per_share q)
      \<and> StakeUsers (mining t) = (StakeUsers (mining s))((y, i, who, j) \<mapsto> u)
      \<and> StakePools (mining t) = (StakePools (mining s))((y, i) \<mapsto> v[unat g := q\<lparr>total_stake_lp := saturating_add (total_stake_lp q) lp\<rparr>])
      \<and> UserStakeCount (mining t) = (UserStakeCount (mining s))((y, i, who) := j + 1)
      \<and> lpbalances t = lpbalances s1)"
proof -
  from assms obtain v s1 where v: "StakePools (mining s) (y, i) = Some v" "unat g < length v"
    and pay: "lp_transfer who (mining_account_id X) y lp s = (Ok (), s1)"
    by (auto simp: deposit_def Let_def run_ok vec_get_Some)
  note same = lp_transfer_mining [OF pay]
  have up: "update_pool y i g s1 = (Ok (accrue (block_number s) (v ! unat g)), s1)"
    using update_pool_eq [of s1 y i v g] v same by simp
  show ?thesis
    using assms v pay same up
    by (intro exI [of _ v] exI [of _ "the (StakeUsers (mining t) (y, i, who, UserStakeCount (mining s) (y, i, who)))"] exI [of _ s1])
      (auto simp: deposit_def Let_def run_ok vec_get_Some)
qed

text \<open>A withdrawal, a claim and an emergency withdrawal start from a stake of a grade.\<close>

lemma mining_withdraw_Ok:
  fixes s t :: "('c, 'call, 'z) mining_state_scheme"
  assumes "mining_withdraw X (Signed who) y i j lp s = (Ok (), t)"
  shows "\<exists>v u (s1 :: ('c, 'call, 'z) mining_state_scheme) s2. StakeUsers (mining s) (y, i, who, j) = Some u
    \<and> StakePools (mining s) (y, i) = Some v \<and> unat (stake_grade u) < length v \<and> lp \<le> lp_amount u
    \<and> (let q = accrue (block_number s) (v ! unat (stake_grade u)) in
       run_if (earned u q > 0) (native_transfer X (mining_account_id X) who (earned u q)) s = (Ok (), s1)
      \<and> lp_transfer (mining_account_id X) who y lp s1 = (Ok (), s2)
      \<and> StakeUsers (mining t) = (StakeUsers (mining s))((y, i, who, j) \<mapsto> withdrawn_user u q lp (earned u q))
      \<and> StakePools (mining t) = (StakePools (mining s))((y, i) \<mapsto>
          v[unat (stake_grade u) := q\<lparr>total_stake_lp := saturating_sub (total_stake_lp q) lp\<rparr>])
      \<and> UserStakeCount (mining t) = UserStakeCount (mining s) \<and> lpbalances t = lpbalances s2 \<and> native t = native s1)"
proof -
  from assms obtain v u where u: "StakeUsers (mining s) (y, i, who, j) = Some u"
    and v: "StakePools (mining s) (y, i) = Some v" "unat (stake_grade u) < length v"
    by (auto simp: mining_withdraw_def run_ok vec_get_Some)
  let ?q = "accrue (block_number s) (v ! unat (stake_grade u))"
  have e: "earned u (?q\<lparr>total_stake_lp := z\<rparr>) = earned u ?q" "withdrawn_user u (?q\<lparr>total_stake_lp := z\<rparr>) = withdrawn_user u ?q" for z
    by (simp_all add: earned_def withdrawn_user_def fun_eq_iff)
  from assms obtain s1 s2 :: "('c, 'call, 'z) mining_state_scheme" where
    1: "run_if (earned u ?q > 0) (native_transfer X (mining_account_id X) who (earned u ?q)) s = (Ok (), s1)" and lp: "lp \<le> lp_amount u"
    and 2: "lp_transfer (mining_account_id X) who y lp s1 = (Ok (), s2)"
    and t: "\<exists>e. t = deposit_event e (put_stake (y, i, who, j) (withdrawn_user u ?q lp (earned u ?q))
       (v[unat (stake_grade u) := ?q\<lparr>total_stake_lp := saturating_sub (total_stake_lp ?q) lp\<rparr>]) s2)"
    by (auto simp: mining_withdraw_def run_ok vec_get_Some u v update_pool_eq [OF v] Let_def e)
  have "mining s1 = mining s" using 1 by (auto simp: run_if_def native_transfer_mining split: if_splits)
  with u v 1 2 lp t lp_transfer_mining [OF 2] show ?thesis
    by (intro exI [of _ v] exI [of _ u] exI [of _ s1] exI [of _ s2]) auto
qed

lemma claim_reward_Ok:
  fixes s t :: "('c, 'call, 'z) mining_state_scheme"
  assumes "claim_reward X (Signed who) y i j s = (Ok (), t)"
  shows "\<exists>v u u1 (s1 :: ('c, 'call, 'z) mining_state_scheme). StakeUsers (mining s) (y, i, who, j) = Some u
    \<and> StakePools (mining s) (y, i) = Some v \<and> unat (stake_grade u) < length v
    \<and> (let q = accrue (block_number s) (v ! unat (stake_grade u)) in
       run_if (earned u q > 0) (native_transfer X (mining_account_id X) who (earned u q)) s = (Ok (), s1)
      \<and> lp_amount u1 = lp_amount u \<and> stake_grade u1 = stake_grade u \<and> reward_debt u1 = share_of (lp_amount u) (reward_per_share q)
      \<and> StakeUsers (mining t) = (StakeUsers (mining s))((y, i, who, j) \<mapsto> u1)
      \<and> StakePools (mining t) = (StakePools (mining s))((y, i) \<mapsto> v[unat (stake_grade u) := q])
      \<and> UserStakeCount (mining t) = UserStakeCount (mining s) \<and> lpbalances t = lpbalances s1 \<and> native t = native s1)"
proof -
  from assms obtain v u where u: "StakeUsers (mining s) (y, i, who, j) = Some u"
    and v: "StakePools (mining s) (y, i) = Some v" "unat (stake_grade u) < length v"
    by (auto simp: claim_reward_def run_ok vec_get_Some)
  let ?q = "accrue (block_number s) (v ! unat (stake_grade u))"
  define u1 where "u1 = u\<lparr>reserved_lp_reward := saturating_add (reserved_lp_reward u) (earned u ?q),
     claimed_reward := saturating_add (claimed_reward u) (earned u ?q), reward_debt := share_of (lp_amount u) (reward_per_share ?q)\<rparr>"
  from assms obtain s1 :: "('c, 'call, 'z) mining_state_scheme" where
    1: "run_if (earned u ?q > 0) (native_transfer X (mining_account_id X) who (earned u ?q)) s = (Ok (), s1)"
    and t: "\<exists>e. t = deposit_event e (put_stake (y, i, who, j) u1 (v[unat (stake_grade u) := ?q]) s1)"
    by (auto simp: claim_reward_def run_ok vec_get_Some u v update_pool_eq [OF v] Let_def u1_def)
  have "mining s1 = mining s" using 1 by (auto simp: run_if_def native_transfer_mining split: if_splits)
  with u v 1 t show ?thesis
    by (intro exI [of _ v] exI [of _ u] exI [of _ u1] exI [of _ s1]) (auto simp: u1_def)
qed

lemma emergency_withdraw_Ok:
  fixes s t :: "('c, 'call, 'z) mining_state_scheme"
  assumes "emergency_withdraw X (Signed who) y i j s = (Ok (), t)"
  shows "\<exists>v u u1 (s1 :: ('c, 'call, 'z) mining_state_scheme). StakeUsers (mining s) (y, i, who, j) = Some u
    \<and> StakePools (mining s) (y, i) = Some v \<and> unat (stake_grade u) < length v
    \<and> (let p = v ! unat (stake_grade u) in
       lp_transfer (mining_account_id X) who y (lp_amount u) s = (Ok (), s1)
      \<and> lp_amount u1 = 0 \<and> stake_grade u1 = stake_grade u \<and> reward_debt u1 = 0
      \<and> StakeUsers (mining t) = (StakeUsers (mining s))((y, i, who, j) \<mapsto> u1)
      \<and> StakePools (mining t) = (StakePools (mining s))((y, i) \<mapsto>
          v[unat (stake_grade u) := p\<lparr>total_stake_lp := saturating_sub (total_stake_lp p) (lp_amount u)\<rparr>])
      \<and> UserStakeCount (mining t) = UserStakeCount (mining s) \<and> lpbalances t = lpbalances s1 \<and> native t = native s)"
proof -
  from assms obtain v u where u: "StakeUsers (mining s) (y, i, who, j) = Some u"
    and v: "StakePools (mining s) (y, i) = Some v" "unat (stake_grade u) < length v"
    by (auto simp: emergency_withdraw_def run_ok vec_get_Some)
  let ?p = "v ! unat (stake_grade u)"
  define u1 where "u1 = u\<lparr>lp_amount := 0, reward_debt := 0, total_fis_value := 0, total_rtoken_value := 0, reserved_lp_reward := 0\<rparr>"
  from assms obtain s1 :: "('c, 'call, 'z) mining_state_scheme" where
    1: "lp_transfer (mining_account_id X) who y (lp_amount u) s = (Ok (), s1)"
    and t: "\<exists>e. t = deposit_event e (put_stake (y, i, who, j) u1
       (v[unat (stake_grade u) := ?p\<lparr>total_stake_lp := saturating_sub (total_stake_lp ?p) (lp_amount u)\<rparr>]) s1)"
    by (auto simp: emergency_withdraw_def run_ok vec_get_Some u v Let_def u1_def)
  with u v t lp_transfer_mining [OF 1] show ?thesis
    by (intro exI [of _ v] exI [of _ u] exI [of _ u1] exI [of _ s1]) (auto simp: u1_def)
qed

lemma moves_deposit:
  assumes "stake_grade u = g" "reward_debt u = share_of (lp_amount u) (reward_per_share q)"
    and "unat (total_stake_lp q) + unat (lp_amount u) < 2 ^ 128"
  shows "stake_moves None u (unat g) q (q\<lparr>total_stake_lp := saturating_add (total_stake_lp q) (lp_amount u)\<rparr>) 0 1"
  using assms fresh_debt(1) [OF assms(2)] fresh_debt(2) [OF assms(2), of "unat g"]
  by (simp add: stake_moves_def units_in_def unat_saturating_add)

lemma moves_withdraw:
  assumes "factor * unat (reward_debt u) \<le> scaled (unat (lp_amount u)) (unat (reward_per_share q))"
    and "lp \<le> lp_amount u" "lp_amount u \<le> total_stake_lp q"
  shows "stake_moves (Some u) (withdrawn_user u q lp r') (unat (stake_grade u)) q
     (q\<lparr>total_stake_lp := saturating_sub (total_stake_lp q) lp\<rparr>) (unat (earned u q)) 1"
proof -
  let ?u = "withdrawn_user u q lp r'" and ?c = "unat (reward_per_share q)" and ?g = "unat (stake_grade u)"
  have u: "lp_amount ?u = saturating_sub (lp_amount u) lp" "stake_grade ?u = stake_grade u"
    by (simp_all add: withdrawn_user_def Let_def)
  have d: "reward_debt ?u = share_of (lp_amount ?u) (reward_per_share q)"
    by (simp add: withdrawn_user_def Let_def)
  have "factor * unat (earned u q) \<le> pending_in ?g ?c (Some u)"
    using earned_nat [OF refl assms(1)] by linarith
  then have "factor * unat (earned u q) + pending_in ?g ?c (Some ?u) \<le> pending_in ?g ?c (Some u) + (factor - 1) * 1"
    using fresh_debt(2) [OF d, of ?g] by linarith
  then show ?thesis
    using fresh_debt(1) [OF d] assms(2,3)
    by (simp add: stake_moves_def u units_in_def unat_saturating_sub word_le_nat_alt)
qed

lemma moves_claim:
  assumes "factor * unat (reward_debt u) \<le> scaled (unat (lp_amount u)) (unat (reward_per_share q))"
    and "lp_amount u1 = lp_amount u" "stake_grade u1 = stake_grade u" "reward_debt u1 = share_of (lp_amount u) (reward_per_share q)"
  shows "stake_moves (Some u) u1 (unat (stake_grade u)) q q (unat (earned u q)) 0"
proof -
  have d: "reward_debt u1 = share_of (lp_amount u1) (reward_per_share q)" using assms by simp
  show ?thesis
    using earned_nat [OF refl assms(1)] fresh_debt(1,3) [OF d] assms(2,3)
    by (simp add: stake_moves_def units_in_def)
qed

lemma moves_emergency:
  assumes "lp_amount u1 = 0" "stake_grade u1 = stake_grade u" "reward_debt u1 = 0" "lp_amount u \<le> total_stake_lp p"
  shows "stake_moves (Some u) u1 (unat (stake_grade u)) p
     (p\<lparr>total_stake_lp := saturating_sub (total_stake_lp p) (lp_amount u)\<rparr>) 0 0"
  using assms by (simp add: stake_moves_def units_in_def pending_in_def scaled_def unat_saturating_sub word_le_nat_alt)

section \<open>Units held and units staked\<close>

definition units_of :: "StakeUser option \<Rightarrow> nat" where
  "units_of x = (case x of Some u \<Rightarrow> unat (lp_amount u) | None \<Rightarrow> 0)"

definition all_units :: "RSymbol \<Rightarrow> mining_store \<Rightarrow> nat" where
  "all_units y m = (\<Sum>x\<in>UNIV. units_of (StakeUsers m (y, x)))"

definition units_covered :: "'c config \<Rightarrow> ('c, 'call, 'z) mining_state_scheme \<Rightarrow> bool" where
  "units_covered X s \<longleftrightarrow> (\<forall>y. all_units y (mining s) \<le> unat (lp_free_balance (mining_account_id X) y s))"

lemma all_units_put:
  assumes "StakeUsers m' = (StakeUsers m)((y, i, w, j) \<mapsto> u)"
  shows "all_units y m' + units_of (StakeUsers m (y, i, w, j)) = all_units y m + unat (lp_amount u)"
    and "z \<noteq> y \<Longrightarrow> all_units z m' = all_units z m"
proof -
  have "units_of (StakeUsers m' (y, x)) = units_of (StakeUsers m (y, x))" if "x \<noteq> (i, w, j)" for x
    using that by (auto simp: assms)
  from sum_change [of "(i, w, j)" "\<lambda>x. units_of (StakeUsers m' (y, x))" "\<lambda>x. units_of (StakeUsers m (y, x))", OF this] show "all_units y m' + units_of (StakeUsers m (y, i, w, j)) = all_units y m + unat (lp_amount u)"
    by (simp add: all_units_def assms units_of_def)
  show "z \<noteq> y \<Longrightarrow> all_units z m' = all_units z m" by (simp add: all_units_def assms)
qed

lemma staked_le_all: "staked_units (y, i, g) m \<le> all_units y m"
proof -
  have "staked_units (y, i, g) m \<le> (\<Sum>x\<in>UNIV. units_of (StakeUsers m (y, i, x)))"
    unfolding staked_units_def prod.case by (intro sum_mono) (auto simp: units_in_def units_of_def split: option.splits)
  also have "\<dots> = (\<Sum>x\<in>Pair i ` UNIV. units_of (StakeUsers m (y, x)))"
    by (subst sum.reindex) (simp_all add: inj_on_def)
  also have "\<dots> \<le> all_units y m" unfolding all_units_def by (rule sum_mono2) simp_all
  finally show ?thesis .
qed

lemma unit_le_staked:
  assumes "StakeUsers m (y, i, w, j) = Some u"
  shows "unat (lp_amount u) \<le> staked_units (y, i, unat (stake_grade u)) m"
proof -
  have "units_in (unat (stake_grade u)) (StakeUsers m (y, i, w, j)) \<le> staked_units (y, i, unat (stake_grade u)) m"
    unfolding staked_units_def prod.case by (rule member_le_sum) simp_all
  then show ?thesis by (simp add: assms units_in_def)
qed

section \<open>The invariant\<close>

definition mining_inv :: "'c config \<Rightarrow> mining_entry list \<Rightarrow> ('c, 'call, 'z) mining_state_scheme \<Rightarrow> bool" where
  "mining_inv X h s \<longleftrightarrow> books_ok h (mining s) \<and> units_covered X s"

lemma lp_moves:
  assumes "lp_transfer a b y v s = (Ok u, t)" "a \<noteq> b"
  shows "unat (lp_free_balance b y t) = unat (lp_free_balance b y s) + unat v"
    and "unat (lp_free_balance a y t) + unat v = unat (lp_free_balance a y s)"
    and "z \<noteq> y \<Longrightarrow> lp_free_balance w z t = lp_free_balance w z s"
  using lcur.transfer_sheet [OF assms(1), of b y] lcur.transfer_sheet [OF assms(1), of a y]
    lcur.transfer_sheet [OF assms(1), of w z] assms(2)
  by (simp_all add: word_unat_eq_iff)

lemma less_succ:
  assumes "(w :: 'a::len word) \<noteq> - 1"
  shows "w < w + 1"
proof -
  have "unat w \<noteq> 2 ^ LENGTH('a) - 1" using assms unat_max [where 'a = 'a] by (metis word_unat_eq_iff)
  then have "unat w + 1 < 2 ^ LENGTH('a)" using unat_less_pow [of w] by linarith
  then have "unat w + unat (1 :: 'a word) < 2 ^ LENGTH('a)" by simp
  from unat_plus_exact [OF this] show ?thesis by (simp add: word_less_nat_alt)
qed

lemma deposit_inv:
  fixes s t :: "('c, 'call, 'z) mining_state_scheme"
  assumes inv: "mining_inv X h s" and run: "deposit X (Signed who) y i g lp s = (Ok (), t)"
    and who: "who \<noteq> mining_account_id X" and wrap: "UserStakeCount (mining s) (y, i, who) \<noteq> - 1"
  shows "mining_inv X (Staked (y, i, unat g) # h) t"
proof -
  let ?M = "mining_account_id X" and ?j = "UserStakeCount (mining s) (y, i, who)"
  obtain v u and s1 :: "('c, 'call, 'z) mining_state_scheme" where v: "StakePools (mining s) (y, i) = Some v" "unat g < length v"
    and pay: "lp_transfer who ?M y lp s = (Ok (), s1)"
    and rest: "let q = accrue (block_number s) (v ! unat g); j = ?j in
        lp_amount u = lp \<and> stake_grade u = g \<and> reward_debt u = share_of lp (reward_per_share q)
      \<and> StakeUsers (mining t) = (StakeUsers (mining s))((y, i, who, j) \<mapsto> u)
      \<and> StakePools (mining t) = (StakePools (mining s))((y, i) \<mapsto> v[unat g := q\<lparr>total_stake_lp := saturating_add (total_stake_lp q) lp\<rparr>])
      \<and> UserStakeCount (mining t) = (UserStakeCount (mining s))((y, i, who) := j + 1) \<and> lpbalances t = lpbalances s1"
    using deposit_Ok [OF run] by blast
  let ?q = "accrue (block_number s) (v ! unat g)"
  have u: "lp_amount u = lp" "stake_grade u = g" "reward_debt u = share_of (lp_amount u) (reward_per_share ?q)"
    and users: "StakeUsers (mining t) = (StakeUsers (mining s))((y, i, who, ?j) \<mapsto> u)"
    and pools: "StakePools (mining t) = (StakePools (mining s))((y, i) \<mapsto> v[unat g := ?q\<lparr>total_stake_lp := saturating_add (total_stake_lp ?q) (lp_amount u)\<rparr>])"
    and count: "UserStakeCount (mining t) = (UserStakeCount (mining s))((y, i, who) := ?j + 1)" and lps: "lpbalances t = lpbalances s1"
    using rest by (simp_all add: Let_def)
  have ok: "books_ok h (mining s)" and cov: "all_units z (mining s) \<le> unat (lp_free_balance ?M z s)" for z
    using inv by (simp_all add: mining_inv_def units_covered_def)
  note bal = lp_moves [OF pay who]
  have fresh: "StakeUsers (mining s) (y, i, who, ?j) = None"
    using books_stake [OF ok, of y i who ?j] by (cases "StakeUsers (mining s) (y, i, who, ?j)") (auto simp: stake_ok_def)
  have "unat (total_stake_lp ?q) = staked_units (y, i, unat g) (mining s)"
    using books_grade [OF ok v] by (simp add: grade_ok_def)
  then have fits: "unat (total_stake_lp ?q) + unat (lp_amount u) < 2 ^ 128"
    using staked_le_all [of y i "unat g" "mining s"] cov [of y] bal(1) unat_u128_less [of "lp_free_balance ?M y s1"] u(1) by simp
  have grow: "UserStakeCount (mining s) k \<le> UserStakeCount (mining t) k" "?j < UserStakeCount (mining t) (y, i, who)" for k
    using less_succ [OF wrap] by (auto simp: count less_imp_le)
  have "books_ok (Staked (y, i, unat g) # h) (mining t)"
    by (rule books_move [OF ok v released_accrue moves_deposit [OF u(2,3) fits, folded fresh] users pools grow]) auto
  moreover have "units_covered X t"
    unfolding units_covered_def
  proof
    fix z
    have b: "lp_free_balance ?M z t = lp_free_balance ?M z s1" by (rule lp_free_balance_cong [OF lps])
    show "all_units z (mining t) \<le> unat (lp_free_balance ?M z t)"
      using all_units_put [OF users] cov [of z] bal(1) bal(3) [of z ?M] u(1) fresh unfolding b
      by (cases "z = y") (auto simp: units_of_def)
  qed
  ultimately show ?thesis by (simp add: mining_inv_def)
qed

text \<open>A stake can be served by its grade after the grade has released its rewards.\<close>

lemma stake_served:
  assumes "books_ok h m" "StakeUsers m (y, i, w, j) = Some u" "StakePools m (y, i) = Some v"
    and "released (v ! unat (stake_grade u)) q"
  shows "factor * unat (reward_debt u) \<le> scaled (unat (lp_amount u)) (unat (reward_per_share q))"
    and "lp_amount u \<le> total_stake_lp q"
proof -
  let ?p = "v ! unat (stake_grade u)"
  have st: "unat (stake_grade u) < length v" "factor * unat (reward_debt u) \<le> scaled (unat (lp_amount u)) (unat (reward_per_share ?p))"
    using books_stake [OF assms(1,2)] assms(3) by (auto simp: stake_ok_def)
  moreover have "scaled (unat (lp_amount u)) (unat (reward_per_share ?p)) \<le> scaled (unat (lp_amount u)) (unat (reward_per_share q))"
    using assms(4) by (intro scaled_mono) (simp add: released_def)
  ultimately show "factor * unat (reward_debt u) \<le> scaled (unat (lp_amount u)) (unat (reward_per_share q))" by simp
  show "lp_amount u \<le> total_stake_lp q"
    using books_grade [OF assms(1,3) st(1)] unit_le_staked [OF assms(2)] assms(4)
    by (simp add: grade_ok_def released_def word_le_nat_alt)
qed

text \<open>Units paid out of the account of the pallet for units that leave a stake.\<close>

lemma covered_leave:
  fixes s t :: "('c, 'call, 'z) mining_state_scheme"
  assumes "units_covered X s" "StakeUsers (mining s) (y, i, w, j) = Some u0"
    and "StakeUsers (mining t) = (StakeUsers (mining s))((y, i, w, j) \<mapsto> u)"
    and "unat (lp_amount u) + unat lp \<le> unat (lp_amount u0)"
    and "\<And>z. unat (lp_free_balance (mining_account_id X) z s) \<le> unat (lp_free_balance (mining_account_id X) z t) + (if z = y then unat lp else 0)"
  shows "units_covered X t"
  unfolding units_covered_def
proof
  fix z
  show "all_units z (mining t) \<le> unat (lp_free_balance (mining_account_id X) z t)"
    using assms(1,2,4) assms(5) [of z] all_units_put [OF assms(3)]
    by (cases "z = y") (auto simp: units_covered_def units_of_def dest!: spec [of _ z])
qed

lemma paid_out:
  fixes s s1 t :: "('c, 'call, 'z) mining_state_scheme"
  assumes "currency_ok X" "run_if (r > 0) (native_transfer X (mining_account_id X) who r) s = (Ok (), s1)"
    and "who \<noteq> mining_account_id X" "native t = native s1"
  shows "unat (native_free_balance X (mining_account_id X) s) - unat (native_free_balance X (mining_account_id X) t) = unat r"
proof -
  from assms(2) have "unat (native_free_balance X (mining_account_id X) s1) + unat r = unat (native_free_balance X (mining_account_id X) s)"
    by (rule run_if_pos) (use native_moves(2) [OF assms(1) _ assms(3) [symmetric]] in auto)
  with native_free_balance_cong [OF assms(4), of X "mining_account_id X"] show ?thesis by simp
qed

definition paid_by ::
    "'c config \<Rightarrow> ('c, 'call, 'z) mining_state_scheme \<Rightarrow> ('c, 'call, 'z) mining_state_scheme \<Rightarrow> nat" where
  "paid_by X s t = unat (native_free_balance X (mining_account_id X) s) - unat (native_free_balance X (mining_account_id X) t)"

lemma withdraw_inv:
  fixes s t :: "('c, 'call, 'z) mining_state_scheme"
  assumes X: "currency_ok X" and inv: "mining_inv X h s" and run: "mining_withdraw X (Signed who) y i j lp s = (Ok (), t)"
    and who: "who \<noteq> mining_account_id X" and u0: "StakeUsers (mining s) (y, i, who, j) = Some u"
  shows "mining_inv X (Unstaked (y, i, unat (stake_grade u)) (paid_by X s t) # h) t"
proof -
  let ?M = "mining_account_id X"
  obtain v and s1 s2 :: "('c, 'call, 'z) mining_state_scheme" where v: "StakePools (mining s) (y, i) = Some v" "unat (stake_grade u) < length v"
    and lp: "lp \<le> lp_amount u" and rest: "let q = accrue (block_number s) (v ! unat (stake_grade u)) in
       run_if (earned u q > 0) (native_transfer X ?M who (earned u q)) s = (Ok (), s1)
      \<and> lp_transfer ?M who y lp s1 = (Ok (), s2)
      \<and> StakeUsers (mining t) = (StakeUsers (mining s))((y, i, who, j) \<mapsto> withdrawn_user u q lp (earned u q))
      \<and> StakePools (mining t) = (StakePools (mining s))((y, i) \<mapsto>
          v[unat (stake_grade u) := q\<lparr>total_stake_lp := saturating_sub (total_stake_lp q) lp\<rparr>])
      \<and> UserStakeCount (mining t) = UserStakeCount (mining s) \<and> lpbalances t = lpbalances s2 \<and> native t = native s1"
    using mining_withdraw_Ok [OF run] u0 by auto
  let ?q = "accrue (block_number s) (v ! unat (stake_grade u))"
  have n: "run_if (earned u ?q > 0) (native_transfer X ?M who (earned u ?q)) s = (Ok (), s1)" and pay: "lp_transfer ?M who y lp s1 = (Ok (), s2)"
    and users: "StakeUsers (mining t) = (StakeUsers (mining s))((y, i, who, j) \<mapsto> withdrawn_user u ?q lp (earned u ?q))"
    and pools: "StakePools (mining t) = (StakePools (mining s))((y, i) \<mapsto>
          v[unat (stake_grade u) := ?q\<lparr>total_stake_lp := saturating_sub (total_stake_lp ?q) lp\<rparr>])"
    and count: "UserStakeCount (mining t) = UserStakeCount (mining s)" and lps: "lpbalances t = lpbalances s2" and nt: "native t = native s1"
    using rest by (simp_all add: Let_def)
  have ok: "books_ok h (mining s)" and cov: "units_covered X s" using inv by (simp_all add: mining_inv_def)
  have j: "j < UserStakeCount (mining t) (y, i, who)" using books_stake [OF ok u0] by (simp add: stake_ok_def count)
  note served = stake_served [OF ok u0 v(1) released_accrue]
  have paid: "paid_by X s t = unat (earned u ?q)" unfolding paid_by_def by (rule paid_out [OF X n who nt])
  have "books_ok (Unstaked (y, i, unat (stake_grade u)) (paid_by X s t) # h) (mining t)"
    unfolding paid
    by (rule books_move [OF ok v released_accrue moves_withdraw [OF served(1) lp served(2), folded u0] users pools _ j]) (auto simp: count)
  moreover have "units_covered X t"
  proof (rule covered_leave [OF cov u0 users, of lp])
    show "unat (lp_amount (withdrawn_user u ?q lp (earned u ?q))) + unat lp \<le> unat (lp_amount u)"
      using lp by (simp add: withdrawn_user_def Let_def unat_saturating_sub word_le_nat_alt)
    have "lpbalances s1 = lpbalances s" using n by (auto simp: run_if_def native_transfer_mining split: if_splits)
    note lps1 = lp_free_balance_cong [OF this] and lpt = lp_free_balance_cong [OF lps]
    show "unat (lp_free_balance ?M z s) \<le> unat (lp_free_balance ?M z t) + (if z = y then unat lp else 0)" for z
      using lp_moves(2) [OF pay who [symmetric]] lp_moves(3) [OF pay who [symmetric], of z ?M] unfolding lps1 lpt
      by (cases "z = y") auto
  qed
  ultimately show ?thesis by (simp add: mining_inv_def)
qed

lemma claim_inv:
  fixes s t :: "('c, 'call, 'z) mining_state_scheme"
  assumes X: "currency_ok X" and inv: "mining_inv X h s" and run: "claim_reward X (Signed who) y i j s = (Ok (), t)"
    and who: "who \<noteq> mining_account_id X" and u0: "StakeUsers (mining s) (y, i, who, j) = Some u"
  shows "mining_inv X (Rewarded (y, i, unat (stake_grade u)) (paid_by X s t) # h) t"
proof -
  let ?M = "mining_account_id X"
  obtain v u1 and s1 :: "('c, 'call, 'z) mining_state_scheme" where v: "StakePools (mining s) (y, i) = Some v" "unat (stake_grade u) < length v"
    and rest: "let q = accrue (block_number s) (v ! unat (stake_grade u)) in
       run_if (earned u q > 0) (native_transfer X ?M who (earned u q)) s = (Ok (), s1)
      \<and> lp_amount u1 = lp_amount u \<and> stake_grade u1 = stake_grade u \<and> reward_debt u1 = share_of (lp_amount u) (reward_per_share q)
      \<and> StakeUsers (mining t) = (StakeUsers (mining s))((y, i, who, j) \<mapsto> u1)
      \<and> StakePools (mining t) = (StakePools (mining s))((y, i) \<mapsto> v[unat (stake_grade u) := q])
      \<and> UserStakeCount (mining t) = UserStakeCount (mining s) \<and> lpbalances t = lpbalances s1 \<and> native t = native s1"
    using claim_reward_Ok [OF run] u0 by auto
  let ?q = "accrue (block_number s) (v ! unat (stake_grade u))"
  have n: "run_if (earned u ?q > 0) (native_transfer X ?M who (earned u ?q)) s = (Ok (), s1)"
    and u1: "lp_amount u1 = lp_amount u" "stake_grade u1 = stake_grade u" "reward_debt u1 = share_of (lp_amount u) (reward_per_share ?q)"
    and users: "StakeUsers (mining t) = (StakeUsers (mining s))((y, i, who, j) \<mapsto> u1)"
    and pools: "StakePools (mining t) = (StakePools (mining s))((y, i) \<mapsto> v[unat (stake_grade u) := ?q])"
    and count: "UserStakeCount (mining t) = UserStakeCount (mining s)" and lps: "lpbalances t = lpbalances s1" and nt: "native t = native s1"
    using rest by (simp_all add: Let_def)
  have ok: "books_ok h (mining s)" and cov: "units_covered X s" using inv by (simp_all add: mining_inv_def)
  have j: "j < UserStakeCount (mining t) (y, i, who)" using books_stake [OF ok u0] by (simp add: stake_ok_def count)
  note served = stake_served(1) [OF ok u0 v(1) released_accrue]
  have paid: "paid_by X s t = unat (earned u ?q)" unfolding paid_by_def by (rule paid_out [OF X n who nt])
  have "books_ok (Rewarded (y, i, unat (stake_grade u)) (paid_by X s t) # h) (mining t)"
    unfolding paid by (rule books_move [OF ok v released_accrue moves_claim [OF served u1, folded u0] users pools _ j]) (auto simp: count)
  moreover have "lpbalances s1 = lpbalances s" using n by (auto simp: run_if_def native_transfer_mining split: if_splits)
  then have "units_covered X t"
    by (intro covered_leave [OF cov u0 users, of 0]) (simp_all add: u1 lp_free_balance_def lps)
  ultimately show ?thesis by (simp add: mining_inv_def)
qed

lemma emergency_inv:
  fixes s t :: "('c, 'call, 'z) mining_state_scheme"
  assumes inv: "mining_inv X h s" and run: "emergency_withdraw X (Signed who) y i j s = (Ok (), t)"
    and who: "who \<noteq> mining_account_id X"
  shows "mining_inv X h t"
proof -
  let ?M = "mining_account_id X"
  obtain v u u1 and s1 :: "('c, 'call, 'z) mining_state_scheme" where u0: "StakeUsers (mining s) (y, i, who, j) = Some u"
    and v: "StakePools (mining s) (y, i) = Some v" "unat (stake_grade u) < length v"
    and rest: "let p = v ! unat (stake_grade u) in
       lp_transfer ?M who y (lp_amount u) s = (Ok (), s1)
      \<and> lp_amount u1 = 0 \<and> stake_grade u1 = stake_grade u \<and> reward_debt u1 = 0
      \<and> StakeUsers (mining t) = (StakeUsers (mining s))((y, i, who, j) \<mapsto> u1)
      \<and> StakePools (mining t) = (StakePools (mining s))((y, i) \<mapsto>
          v[unat (stake_grade u) := p\<lparr>total_stake_lp := saturating_sub (total_stake_lp p) (lp_amount u)\<rparr>])
      \<and> UserStakeCount (mining t) = UserStakeCount (mining s) \<and> lpbalances t = lpbalances s1 \<and> native t = native s"
    using emergency_withdraw_Ok [OF run] by blast
  let ?p = "v ! unat (stake_grade u)"
  have pay: "lp_transfer ?M who y (lp_amount u) s = (Ok (), s1)"
    and u1: "lp_amount u1 = 0" "stake_grade u1 = stake_grade u" "reward_debt u1 = 0"
    and users: "StakeUsers (mining t) = (StakeUsers (mining s))((y, i, who, j) \<mapsto> u1)"
    and pools: "StakePools (mining t) = (StakePools (mining s))((y, i) \<mapsto>
          v[unat (stake_grade u) := ?p\<lparr>total_stake_lp := saturating_sub (total_stake_lp ?p) (lp_amount u)\<rparr>])"
    and count: "UserStakeCount (mining t) = UserStakeCount (mining s)" and lps: "lpbalances t = lpbalances s1"
    using rest by (simp_all add: Let_def)
  have ok: "books_ok h (mining s)" and cov: "units_covered X s" using inv by (simp_all add: mining_inv_def)
  have j: "j < UserStakeCount (mining t) (y, i, who)" using books_stake [OF ok u0] by (simp add: stake_ok_def count)
  note served = stake_served(2) [OF ok u0 v(1) released_refl]
  have "books_ok h (mining t)"
    by (rule books_move [OF ok v released_refl moves_emergency [OF u1 served, folded u0] users pools _ j]) (auto simp: count)
  moreover have "units_covered X t"
    using lp_moves(2) [OF pay who [symmetric]] lp_moves(3) [OF pay who [symmetric]]
    by (intro covered_leave [OF cov u0 users, of "lp_amount u"]) (auto simp: u1 lp_free_balance_cong [OF lps])
  ultimately show ?thesis by (simp add: mining_inv_def)
qed

section \<open>Administration and failing operations\<close>

text \<open>Changes of the grades of a pool that leave the stakes alone.\<close>

definition same_books :: "StakePool \<Rightarrow> StakePool \<Rightarrow> bool" where
  "same_books p q \<longleftrightarrow> total_stake_lp q = total_stake_lp p \<and> reward_per_share q = reward_per_share p
    \<and> unat (left_reward q) \<le> unat (total_reward q)
    \<and> unat (total_reward q) - unat (left_reward q) = unat (total_reward p) - unat (left_reward p)"

lemma no_stake_above:
  assumes "books_ok h m" "length (grades m y i) \<le> g"
  shows "staked_units (y, i, g) m = 0" "pending (y, i, g) c m = 0"
proof -
  have "units_in g (StakeUsers m (y, i, x)) = 0" "pending_in g c (StakeUsers m (y, i, x)) = 0" for x
    using books_stake [OF assms(1), of y i "fst x" "snd x"] assms(2)
    by (cases "StakeUsers m (y, i, x)"; auto simp: units_in_def pending_in_def stake_ok_def grades_def)+
  then show "staked_units (y, i, g) m = 0" "pending (y, i, g) c m = 0"
    by (simp_all add: staked_units_def pending_def)
qed

lemma books_pools:
  assumes ok: "books_ok h m" and users: "StakeUsers m' = StakeUsers m" "UserStakeCount m' = UserStakeCount m"
    and pools: "StakePools m' = (StakePools m)((y, i) \<mapsto> v')"
    and old: "length (grades m y i) \<le> length v'" "\<And>g. g < length (grades m y i) \<Longrightarrow> same_books (grades m y i ! g) (v' ! g)"
    and new: "\<And>g. length (grades m y i) \<le> g \<Longrightarrow> g < length v' \<Longrightarrow> total_stake_lp (v' ! g) = 0 \<and> unat (left_reward (v' ! g)) \<le> unat (total_reward (v' ! g))"
  shows "books_ok h m'"
  unfolding books_ok_def
proof (intro conjI allI impI)
  fix y' i' g'
  have sums: "staked_units k m' = staked_units k m" "pending k c m' = pending k c m" for k c
    by (auto simp: staked_units_def pending_def users split: prod.splits)
  have was: "if g' < length (grades m y' i') then grade_ok h m (y', i', g') (grades m y' i' ! g') else paid_in (y', i', g') h = 0"
    using ok by (simp add: books_ok_def)
  show "if g' < length (grades m' y' i') then grade_ok h m' (y', i', g') (grades m' y' i' ! g') else paid_in (y', i', g') h = 0"
  proof (cases "(y', i') = (y, i)")
    case False
    then have "grades m' y' i' = grades m y' i'" by (auto simp: grades_def pools)
    with was show ?thesis by (auto simp: grade_ok_def sums split: if_splits)
  next
    case True
    then have v': "grades m' y' i' = v'" by (simp add: grades_def pools)
    show ?thesis
    proof (cases "g' < length (grades m y i)")
      case in_old: True
      from old(2) [OF this] was True in_old old(1) show ?thesis unfolding v' by (auto simp: grade_ok_def sums same_books_def)
    next
      case False
      with no_stake_above [OF ok, of y i g'] new [of g'] was True show ?thesis
        unfolding v' by (auto simp: grade_ok_def sums)
    qed
  qed
next
  fix y' i' w' j' u' assume "StakeUsers m' (y', i', w', j') = Some u'"
  then have "stake_ok m y' i' w' j' u'" using ok users by (simp add: books_ok_def)
  then show "stake_ok m' y' i' w' j' u'"
    using old by (auto simp: stake_ok_def users pools grades_def same_books_def)
qed

lemma mining_inv_pools:
  fixes s t :: "('c, 'call, 'z) mining_state_scheme"
  assumes "mining_inv X h s" "StakeUsers (mining t) = StakeUsers (mining s)" "UserStakeCount (mining t) = UserStakeCount (mining s)"
    and "StakePools (mining t) = (StakePools (mining s))((y, i) \<mapsto> v')" "lpbalances t = lpbalances s"
    and "length (grades (mining s) y i) \<le> length v'"
    and "\<And>g. g < length (grades (mining s) y i) \<Longrightarrow> same_books (grades (mining s) y i ! g) (v' ! g)"
    and "\<And>g. length (grades (mining s) y i) \<le> g \<Longrightarrow> g < length v' \<Longrightarrow> total_stake_lp (v' ! g) = 0 \<and> unat (left_reward (v' ! g)) \<le> unat (total_reward (v' ! g))"
  shows "mining_inv X h t"
  using assms(1) books_pools [OF _ assms(2,3,4,6-8), of h] lp_free_balance_cong [OF assms(5)]
  by (auto simp: mining_inv_def units_covered_def all_units_def assms(2))

lemma left_le_total:
  assumes "mining_inv X h s" "StakePools (mining s) (y, i) = Some v" "g < length v"
  shows "unat (left_reward (v ! g)) \<le> unat (total_reward (v ! g))"
  using assms books_grade [of h "mining s" y i v g] by (simp add: mining_inv_def grade_ok_def)

lemma add_pool_inv:
  assumes "mining_inv X h s"
  shows "mining_inv X h (snd (add_pool o' y i start locked per_block budget guard s))"
proof (cases "o' = Root \<and> StakePools (mining s) (y, i) \<noteq> None")
  case True
  then obtain v where v: "o' = Root" "StakePools (mining s) (y, i) = Some v" by auto
  show ?thesis
    using v left_le_total [OF assms v(2)]
    by (intro mining_inv_pools [OF assms, where y = y and i = i and v' = "grades (mining s) y i @ [p]" for p])
      (auto simp: add_pool_def Let_def put_pools_def deposit_event_def grades_def nth_append same_books_def)
qed (use assms in \<open>cases o'; auto simp: add_pool_def ok_or_def split: option.splits\<close>)

lemma put_grade_inv:
  assumes "mining_inv X h s" "StakePools (mining s) (y, i) = Some v" "g < length v" "same_books (v ! g) q"
  shows "mining_inv X h (put_pools (y, i) (v[g := q]) s)"
  using assms left_le_total [OF assms(1,2)]
  by (intro mining_inv_pools [OF assms(1), where y = y and i = i and v' = "v[g := q]"])
    (auto simp: put_pools_def grades_def nth_list_update same_books_def)

lemma emergency_switch_inv:
  assumes "mining_inv X h s"
  shows "mining_inv X h (snd (emergency_switch o' y i g s))"
proof (cases "\<exists>v. o' = Root \<and> StakePools (mining s) (y, i) = Some v \<and> unat g < length v")
  case True
  then obtain v where v: "o' = Root" "StakePools (mining s) (y, i) = Some v" "unat g < length v" by auto
  have "same_books (v ! unat g) ((v ! unat g)\<lparr>emergency := \<not> emergency (v ! unat g)\<rparr>)"
    using left_le_total [OF assms v(2,3)] by (simp add: same_books_def)
  from put_grade_inv [OF assms v(2,3) this] v show ?thesis by (simp add: emergency_switch_def vec_get_def)
qed (use assms in \<open>cases o'; auto simp: emergency_switch_def ok_or_def vec_get_def split: option.splits\<close>)

text \<open>A change of the budget of a grade that does not cut below what has been released.\<close>

lemma update_stake_pool_inv:
  assumes "mining_inv X h s"
    and "\<And>v. StakePools (mining s) (y, i) = Some v \<Longrightarrow> unat g < length v \<Longrightarrow>
      unat (total_reward (v ! unat g)) - unat (left_reward (v ! unat g)) \<le> unat budget"
  shows "mining_inv X h (snd (update_stake_pool o' y i g per_block budget s))"
proof (cases "\<exists>v. o' = Root \<and> StakePools (mining s) (y, i) = Some v \<and> unat g < length v")
  case True
  then obtain v where v: "o' = Root" "StakePools (mining s) (y, i) = Some v" "unat g < length v" by auto
  let ?p = "v ! unat g"
  define left_over where "left_over = (if budget > total_reward ?p then saturating_add (saturating_sub budget (total_reward ?p)) (left_reward ?p)
     else saturating_sub (left_reward ?p) (saturating_sub (total_reward ?p) budget))"
  have "same_books ?p (?p\<lparr>reward_per_block := per_block, total_reward := budget, left_reward := left_over\<rparr>)"
    using left_le_total [OF assms(1) v(2,3)] assms(2) [OF v(2,3)] unat_u128_less [of budget]
    by (auto simp: same_books_def left_over_def unat_saturating_add unat_saturating_sub word_less_nat_alt)
  from put_grade_inv [OF assms(1) v(2,3) this] v show ?thesis
    by (simp add: update_stake_pool_def vec_get_def Let_def left_over_def)
qed (use assms in \<open>cases o'; auto simp: update_stake_pool_def ok_or_def vec_get_def split: option.splits\<close>)

lemma increase_pool_index_inv:
  assumes "mining_inv X h s" "StakePools (mining s) (y, PoolCount (mining s) y) = None"
  shows "mining_inv X h (snd (increase_pool_index o' y s))"
proof (cases "o' = Root")
  case True
  then show ?thesis using assms(2)
    by (intro mining_inv_pools [OF assms(1), where y = y and i = "PoolCount (mining s) y" and v' = "[]"])
      (auto simp: increase_pool_index_def Let_def grades_def)
qed (use assms in \<open>cases o'; auto simp: increase_pool_index_def\<close>)

text \<open>An operation of a staker that fails leaves the stakes, the grades and the units as they were.\<close>

lemma lp_transfer_errs [run_errs]: "P s \<Longrightarrow> errs P (lp_transfer a b y v s)"
  using lcur.transfer_fails [of a b y v s] lcur.transfer_total [of a b y v s]
  by (cases "lp_transfer a b y v s"; cases "fst (lp_transfer a b y v s)") (auto simp: errs_def)

lemma run_if_same:
  assumes "run_if (r > 0) (native_transfer X a b r) s = (Ok u, t)"
  shows "mining t = mining s" "lpbalances t = lpbalances s"
  using assms by (auto simp: run_if_def native_transfer_mining split: if_splits)

lemma fails_same:
  fixes s :: "('c, 'call, 'z) mining_state_scheme"
  assumes "currency_ok X"
  defines "P \<equiv> \<lambda>t :: ('c, 'call, 'z) mining_state_scheme. mining t = mining s \<and> lpbalances t = lpbalances s"
  shows "errs P (deposit X (Signed who) y i g lp s)" "errs P (mining_withdraw X (Signed who) y i j lp s)"
    "errs P (claim_reward X (Signed who) y i j s)" "errs P (emergency_withdraw X (Signed who) y i j s)"
proof -
  have same: "P s" by (simp add: P_def)
  have up: "vec_get v g = Some p \<Longrightarrow> StakePools (mining s) (y, i) = Some v \<Longrightarrow> mining t = mining s
      \<Longrightarrow> update_pool y i g t = (Ok (accrue (block_number t) p), t)" for v p g and t :: "('c, 'call, 'z) mining_state_scheme"
    by (simp add: update_pool_def)
  have after: "P t" if "run_if (r > 0) (native_transfer X a b r) s = (Ok u, t)" for r a b u and t :: "('c, 'call, 'z) mining_state_scheme"
    using run_if_same [OF that] by (simp add: P_def)
  show "errs P (deposit X (Signed who) y i g lp s)"
    unfolding deposit_def Let_def ensure_signed_simps
    by (intro run_errs same) (auto simp: up lp_transfer_mining run_errs)
  show "errs P (mining_withdraw X (Signed who) y i j lp s)"
    unfolding mining_withdraw_def Let_def ensure_signed_simps
    by (intro ok_or_errs ensure_errs same) (auto simp: up intro!: run_errs same assms(1) dest: after)
  show "errs P (claim_reward X (Signed who) y i j s)"
    unfolding claim_reward_def Let_def ensure_signed_simps
    by (intro ok_or_errs ensure_errs same) (auto simp: up intro!: run_errs same assms(1) dest: after)
  show "errs P (emergency_withdraw X (Signed who) y i j s)"
    unfolding emergency_withdraw_def Let_def ensure_signed_simps
    by (intro run_errs same)
qed

lemma mining_inv_same:
  fixes s t :: "('c, 'call, 'z) mining_state_scheme"
  assumes "mining_inv X h s" "StakePools (mining t) = StakePools (mining s)" "StakeUsers (mining t) = StakeUsers (mining s)"
    and "UserStakeCount (mining t) = UserStakeCount (mining s)"
    and "\<And>y. unat (lp_free_balance (mining_account_id X) y s) \<le> unat (lp_free_balance (mining_account_id X) y t)"
  shows "mining_inv X h t"
proof -
  have sums: "staked_units k (mining t) = staked_units k (mining s)" "pending k c (mining t) = pending k c (mining s)"
    "all_units y (mining t) = all_units y (mining s)" for k c y
    by (auto simp: staked_units_def pending_def all_units_def assms(3) split: prod.splits)
  have "grade_ok h (mining t) = grade_ok h (mining s)" "grades (mining t) = grades (mining s)" "stake_ok (mining t) = stake_ok (mining s)"
    by (simp_all add: fun_eq_iff grade_ok_def grades_def stake_ok_def sums assms(2,4))
  then have "books_ok h (mining t) = books_ok h (mining s)" by (simp add: books_ok_def assms(3))
  with assms(1,5) show ?thesis by (auto simp: mining_inv_def units_covered_def sums intro: le_trans)
qed

section \<open>Histories\<close>

text \<open>
  The states the pallet can reach, with the operations of stakers that have succeeded. Stakers are not
  the account of the pallet; no account stakes \<open>2 ^ 32 - 1\<close> times in a pool; a budget is not cut below what has
  been released, a new pool index is fresh, and no grade is removed. The last rule stands for every other
  change of the runtime (the remaining settings of the pallet, the other pallets, the passing of blocks): it
  takes no units from the account of the pallet and leaves its stakes and grades alone.
\<close>

inductive mining_reach :: "'c config \<Rightarrow> mining_entry list \<Rightarrow> ('c, 'call, 'z) mining_state_scheme \<Rightarrow> bool" for X where
  genesis: "StakePools (mining s) = (\<lambda>_. None) \<Longrightarrow> StakeUsers (mining s) = (\<lambda>_. None) \<Longrightarrow> mining_reach X [] s"
| deposit: "mining_reach X h s \<Longrightarrow> who \<noteq> mining_account_id X \<Longrightarrow> UserStakeCount (mining s) (y, i, who) \<noteq> - 1
    \<Longrightarrow> deposit X (Signed who) y i g lp s = (r, t)
    \<Longrightarrow> mining_reach X (if r = Ok () then Staked (y, i, unat g) # h else h) t"
| withdraw: "mining_reach X h s \<Longrightarrow> who \<noteq> mining_account_id X \<Longrightarrow> StakeUsers (mining s) (y, i, who, j) = Some u
    \<Longrightarrow> mining_withdraw X (Signed who) y i j lp s = (r, t)
    \<Longrightarrow> mining_reach X (if r = Ok () then Unstaked (y, i, unat (stake_grade u)) (paid_by X s t) # h else h) t"
| claim: "mining_reach X h s \<Longrightarrow> who \<noteq> mining_account_id X \<Longrightarrow> StakeUsers (mining s) (y, i, who, j) = Some u
    \<Longrightarrow> claim_reward X (Signed who) y i j s = (r, t)
    \<Longrightarrow> mining_reach X (if r = Ok () then Rewarded (y, i, unat (stake_grade u)) (paid_by X s t) # h else h) t"
| emergency: "mining_reach X h s \<Longrightarrow> who \<noteq> mining_account_id X
    \<Longrightarrow> emergency_withdraw X (Signed who) y i j s = (r, t) \<Longrightarrow> mining_reach X h t"
| add: "mining_reach X h s \<Longrightarrow> mining_reach X h (snd (add_pool o' y i start locked per_block budget guard s))"
| switch: "mining_reach X h s \<Longrightarrow> mining_reach X h (snd (emergency_switch o' y i g s))"
| update: "mining_reach X h s
    \<Longrightarrow> (\<And>v. StakePools (mining s) (y, i) = Some v \<Longrightarrow> unat g < length v \<Longrightarrow>
      unat (total_reward (v ! unat g)) - unat (left_reward (v ! unat g)) \<le> unat budget)
    \<Longrightarrow> mining_reach X h (snd (update_stake_pool o' y i g per_block budget s))"
| increase: "mining_reach X h s \<Longrightarrow> StakePools (mining s) (y, PoolCount (mining s) y) = None
    \<Longrightarrow> mining_reach X h (snd (increase_pool_index o' y s))"
| other: "mining_reach X h s \<Longrightarrow> StakePools (mining t) = StakePools (mining s) \<Longrightarrow> StakeUsers (mining t) = StakeUsers (mining s)
    \<Longrightarrow> UserStakeCount (mining t) = UserStakeCount (mining s)
    \<Longrightarrow> (\<And>y. unat (lp_free_balance (mining_account_id X) y s) \<le> unat (lp_free_balance (mining_account_id X) y t))
    \<Longrightarrow> mining_reach X h t"

lemma failed_inv:
  fixes s t :: "('c, 'call, 'z) mining_state_scheme"
  assumes "mining_inv X h s" "errs (\<lambda>t. mining t = mining s \<and> lpbalances t = lpbalances s) run" "run = (r, t)" "r \<noteq> Ok ()"
  shows "mining_inv X h t"
proof -
  have same: "mining t = mining s" "lpbalances t = lpbalances s" using assms(2-4) by (auto simp: errs_def split: outcome.splits)
  show ?thesis by (rule mining_inv_same [OF assms(1)]) (simp_all add: same lp_free_balance_cong [OF same(2)])
qed

lemma reach_inv:
  fixes s :: "('c, 'call, 'z) mining_state_scheme"
  assumes X: "currency_ok X" and "mining_reach X h s"
  shows "mining_inv X h s"
  using assms(2)
proof induction
  case (genesis s)
  then show ?case
    by (simp add: mining_inv_def books_ok_def grades_def units_covered_def all_units_def units_of_def)
next
  case (deposit h s who y i g lp r t)
  then show ?case
    using deposit_inv failed_inv [OF _ fails_same(1) [OF X]] by (cases "r = Ok ()") auto
next
  case (withdraw h s who y i j u lp r t)
  then show ?case
    using withdraw_inv [OF X] failed_inv [OF _ fails_same(2) [OF X]] by (cases "r = Ok ()") auto
next
  case (claim h s who y i j u r t)
  then show ?case
    using claim_inv [OF X] failed_inv [OF _ fails_same(3) [OF X]] by (cases "r = Ok ()") auto
next
  case (emergency h s who y i j r t)
  then show ?case
    using emergency_inv failed_inv [OF _ fails_same(4) [OF X]] by (cases "r = Ok ()") auto
next
  case (other h s t)
  then show ?case by (intro mining_inv_same [of X h s t])
qed (simp_all add: add_pool_inv emergency_switch_inv update_stake_pool_inv increase_pool_index_inv)

section \<open>A farm\<close>

definition farm0 :: "(AccountId \<Rightarrow> u128, unit) mining_state" where
  "farm0 = rdex_state.extend (sample_trading\<lparr>lpbalances := \<lparr>TotalIssuance = (\<lambda>_. 0)(RDOT := 600),
     Account = (\<lambda>_ _. None)(RDOT := [7 \<mapsto> \<lparr>free = 600\<rparr>])\<rparr>\<rparr>) \<lparr>mining = empty_mining\<lparr>MiningSwitch := \<lambda>_. True\<rparr>\<rparr>"

definition farm1 :: "(AccountId \<Rightarrow> u128, unit) mining_state" where
  "farm1 = snd (add_pool Root RDOT 0 10 3 2 1000 False (snd (increase_pool_index Root RDOT farm0)))"

lemma farm0_reach: "mining_reach plain_config [] farm0"
  by (rule mining_reach.genesis) (simp_all add: farm0_def empty_mining_def rdex_state.defs)

lemma farm1_reach: "mining_reach plain_config [] farm1"
  unfolding farm1_def
  by (rule mining_reach.add, rule mining_reach.increase [OF farm0_reach]) (simp add: farm0_def empty_mining_def rdex_state.defs)

lemma sample_trading_block: "block_number sample_trading = 10"
  by (simp add: sample_trading_def sample_rdex_def series_state.defs)

lemma sample_trading_pool: "SwapPools (rdex sample_trading) = [RDOT \<mapsto> sample_pool]"
  by (simp add: sample_trading_def empty_rdex_def)

lemma sample_trading_native: "native sample_trading = (\<lambda>_. 2000)"
  by (simp add: sample_trading_def sample_rdex_def series_state.defs)

definition farm_grade :: StakePool where
  "farm_grade = \<lparr>stake_symbol = RDOT, emergency = False, total_stake_lp = 0, start_block = 10, reward_per_block = 2,
     total_reward = 1000, left_reward = 1000, lp_locked_blocks = 3, last_reward_block = 10, reward_per_share = 0,
     guard_impermanent_loss = False\<rparr>"

lemma farm1_facts:
  "StakePools (mining farm1) = [(RDOT, 0) \<mapsto> [farm_grade]]" "StakeUsers (mining farm1) = (\<lambda>_. None)"
  "UserStakeCount (mining farm1) = (\<lambda>_. 0)" "MiningSwitch (mining farm1) = (\<lambda>_. True)" "block_number farm1 = 10"
  "SwapPools (rdex farm1) = [RDOT \<mapsto> sample_pool]" "native farm1 = (\<lambda>_. 2000)"
  "lpbalances farm1 = \<lparr>TotalIssuance = (\<lambda>_. 0)(RDOT := 600), Account = (\<lambda>_ _. None)(RDOT := [7 \<mapsto> \<lparr>free = 600\<rparr>])\<rparr>"
  by (simp_all add: farm1_def farm0_def add_pool_def increase_pool_index_def put_pools_def deposit_event_def empty_mining_def
      sample_trading_block sample_trading_pool sample_trading_native farm_grade_def rdex_state.defs Let_def)

lemma farm_deposit:
  "\<exists>t :: (AccountId \<Rightarrow> u128, unit) mining_state. deposit plain_config (Signed 7) RDOT 0 0 50 farm1 = (Ok (), t)
   \<and> StakePools (mining t) = [(RDOT, 0) \<mapsto> [farm_grade\<lparr>total_stake_lp := 50\<rparr>]] \<and> native t = (\<lambda>_. 2000)
   \<and> (\<exists>u. StakeUsers (mining t) (RDOT, 0, 7, 0) = Some u \<and> lp_amount u = 50 \<and> reward_debt u = 0 \<and> stake_grade u = 0)"
  by (simp add: deposit_def farm1_facts vec_get_def farm_grade_def Let_def lp_free_balance_def free_balance_def
      lp_transfer_def lp_lift_def token_lift_def token_transfer_eq mining_account_id_def plain_number_def update_pool_def
      accrue_def put_stake_def deposit_event_def saturating_add_def share_of_def saturating_mul_def checked_div_def REWARD_FACTOR_def unwrap_or_def)

text \<open>Ten blocks later the stake of 50 units has earned 20.\<close>

lemma farm_claim:
  fixes t :: "(AccountId \<Rightarrow> u128, unit) mining_state"
  assumes "StakePools (mining t) = [(RDOT, 0) \<mapsto> [farm_grade\<lparr>total_stake_lp := 50\<rparr>]]" "native t = (\<lambda>_. 2000)" "block_number t = 20"
    and "StakeUsers (mining t) (RDOT, 0, 7, 0) = Some u" "lp_amount u = 50" "reward_debt u = 0" "stake_grade u = 0"
  shows "\<exists>t' v. claim_reward plain_config (Signed 7) RDOT 0 0 t = (Ok (), t') \<and> paid_by plain_config t t' = 20
    \<and> StakePools (mining t') (RDOT, 0) = Some v \<and> v \<noteq> []"
proof -
  have q: "accrue 20 (farm_grade\<lparr>total_stake_lp := 50\<rparr>)
      = farm_grade\<lparr>total_stake_lp := 50, left_reward := 980, reward_per_share := 400000000000, last_reward_block := 20\<rparr>"
    by (simp add: accrue_def farm_grade_def get_pool_reward_def saturating_sub_def saturating_mul_def saturating_add_def
        checked_div_def unwrap_or_def REWARD_FACTOR_def)
  have e: "earned u (farm_grade\<lparr>total_stake_lp := 50, left_reward := 980, reward_per_share := 400000000000, last_reward_block := 20\<rparr>) = 20"
    by (simp add: earned_def assms share_of_def saturating_mul_def checked_div_def unwrap_or_def REWARD_FACTOR_def)
  have c: "emergency (farm_grade\<lparr>total_stake_lp := 50\<rparr>) = False" by (simp add: farm_grade_def)
  show ?thesis
    by (simp add: claim_reward_def assms vec_get_def update_pool_def q e c Let_def native_transfer_def plain_transfer_def
        mining_account_id_def plain_number_def put_stake_def deposit_event_def paid_by_def native_free_balance_def)
qed

lemma farm_history:
  "\<exists>(t :: (AccountId \<Rightarrow> u128, unit) mining_state) v. mining_reach plain_config [Rewarded (RDOT, 0, 0) 20, Staked (RDOT, 0, 0)] t
   \<and> StakePools (mining t) (RDOT, 0) = Some v \<and> v \<noteq> []"
proof -
  obtain t u where t: "deposit plain_config (Signed 7) RDOT 0 0 50 farm1 = (Ok (), t)"
    "StakePools (mining t) = [(RDOT, 0) \<mapsto> [farm_grade\<lparr>total_stake_lp := 50\<rparr>]]" "native t = (\<lambda>_. 2000)"
    and u: "StakeUsers (mining t) (RDOT, 0, 7, 0) = Some u" "lp_amount u = 50" "reward_debt u = 0" "stake_grade u = 0"
    using farm_deposit by blast
  have who: "(7 :: AccountId) \<noteq> mining_account_id plain_config" by (simp add: mining_account_id_def plain_number_def)
  have "mining_reach plain_config [Staked (RDOT, 0, 0)] t"
    using mining_reach.deposit [OF farm1_reach who _ t(1)] by (simp add: farm1_facts)
  then have later: "mining_reach plain_config [Staked (RDOT, 0, 0)] (t\<lparr>block_number := 20\<rparr>)"
    by (rule mining_reach.other) (simp_all add: lp_free_balance_def)
  from farm_claim [of "t\<lparr>block_number := 20\<rparr>" u] t u obtain t' v where
    t': "claim_reward plain_config (Signed 7) RDOT 0 0 (t\<lparr>block_number := 20\<rparr>) = (Ok (), t')"
    "paid_by plain_config (t\<lparr>block_number := 20\<rparr>) t' = 20" "StakePools (mining t') (RDOT, 0) = Some v" "v \<noteq> []" by auto
  have "StakeUsers (mining (t\<lparr>block_number := 20\<rparr>)) (RDOT, 0, 7, 0) = Some u" using u by simp
  from mining_reach.claim [OF later who this t'(1)] t' u(4) show ?thesis by auto
qed

section \<open>Properties\<close>





end
