(* ===== verification/XClaim.thy ===== *)
theory XClaim
  imports Mining
begin

text \<open>
  \<open>claims/xclaim\<close>: proxies promise xtokens to accounts out of the account of the pallet; the accounts
  claim them. \<open>Total\<close> is what has been promised and not yet claimed.
\<close>

section \<open>Storage\<close>

record xclaim_store =
  Claims :: "AccountId \<times> XSymbol \<Rightarrow> u128 option"
  XClaimed :: "AccountId \<times> XSymbol \<Rightarrow> u128 option"
  Total :: "XSymbol \<Rightarrow> u128"
  XProxyAccounts :: "AccountId \<Rightarrow> u8 option"

definition empty_xclaim :: xclaim_store where
  "empty_xclaim = \<lparr>Claims = (\<lambda>_. None), XClaimed = (\<lambda>_. None), Total = (\<lambda>_. 0), XProxyAccounts = (\<lambda>_. None)\<rparr>"

record ('c, 'call) xclaim_state = "('c, 'call) mining_state" +
  xclaim :: xclaim_store

type_synonym ('c, 'call, 'z) xclaim_run =
  "(dispatch_error, unit, ('c, 'call, 'z) xclaim_state_scheme) run"

section \<open>Operations\<close>

definition xclaim_account_id :: "'c config \<Rightarrow> AccountId" where
  "xclaim_account_id X = into_account X ''xsym/clm''"

definition xclaim_set_proxy_accounts ::
    "origin \<Rightarrow> AccountId \<Rightarrow> ('c, 'call, 'z) xclaim_state_scheme \<Rightarrow> ('c, 'call, 'z) xclaim_run" where
  "xclaim_set_proxy_accounts o' account s =
     ensure_root o' s (Ok (), xclaim_update (\<lambda>m. m\<lparr>XProxyAccounts := (XProxyAccounts m)(account \<mapsto> 0)\<rparr>) s)"

definition xclaim_remove_proxy_accounts ::
    "origin \<Rightarrow> AccountId \<Rightarrow> ('c, 'call, 'z) xclaim_state_scheme \<Rightarrow> ('c, 'call, 'z) xclaim_run" where
  "xclaim_remove_proxy_accounts o' account s =
     ensure_root o' s (Ok (), xclaim_update (\<lambda>m. m\<lparr>XProxyAccounts := (XProxyAccounts m)(account := None)\<rparr>) s)"

definition claim ::
    "'c config \<Rightarrow> origin \<Rightarrow> XSymbol \<Rightarrow> ('c, 'call, 'z) xclaim_state_scheme \<Rightarrow> ('c, 'call, 'z) xclaim_run" where
  "claim X o' symbol s =
     ensure_signed o' s (\<lambda>who.
     ok_or (Claims (xclaim s) (who, symbol)) (XClaimErr HasNoClaim) s (\<lambda>balance_claim.
     let balance_claimed = unwrap_or (XClaimed (xclaim s) (who, symbol)) 0
     in ok_or (checked_sub balance_claim balance_claimed) (XClaimErr PotUnderflow) s (\<lambda>balance_due.
        ensure (balance_due > 0) (XClaimErr HasNoClaim) s
       (ok_or (checked_sub (Total (xclaim s) symbol) balance_due) (XClaimErr PotUnderflow) s (\<lambda>new_total.
        and_then (xbal_transfer (xclaim_account_id X) who symbol balance_due s) (\<lambda>_ s1.
        (Ok (), deposit_event (XClaimEv (Claimed who symbol balance_due))
           (xclaim_update (\<lambda>m. m\<lparr>Total := (Total m)(symbol := new_total),
              XClaimed := (XClaimed m)((who, symbol) \<mapsto> balance_claim)\<rparr>) s1))))))))"

definition mint_claim ::
    "'c config \<Rightarrow> origin \<Rightarrow> AccountId \<Rightarrow> XSymbol \<Rightarrow> u128 \<Rightarrow> ('c, 'call, 'z) xclaim_state_scheme
     \<Rightarrow> ('c, 'call, 'z) xclaim_run" where
  "mint_claim X o' dest symbol val s =
     ensure_signed o' s (\<lambda>who.
     ensure (val > 0) (XClaimErr ValueZero) s
    (ensure (XProxyAccounts (xclaim s) who \<noteq> None) (XClaimErr xclaim_error.InvalidProxyAccount) s
    (let old_balance = unwrap_or (Claims (xclaim s) (dest, symbol)) 0
     in ok_or (checked_add val old_balance) (XClaimErr xclaim_error.OverFlow) s (\<lambda>balance_due.
        ok_or (checked_add (Total (xclaim s) symbol) val) (XClaimErr xclaim_error.OverFlow) s (\<lambda>new_total.
        ensure (xbal_free_balance (xclaim_account_id X) symbol s \<ge> new_total) (XClaimErr InsufficientXbalance) s
          (Ok (), xclaim_update (\<lambda>m. m\<lparr>Total := (Total m)(symbol := new_total),
             Claims := (Claims m)((dest, symbol) \<mapsto> balance_due)\<rparr>) s))))))"

section \<open>What is promised is held\<close>

definition xpromised :: "AccountId \<Rightarrow> XSymbol \<Rightarrow> xclaim_store \<Rightarrow> nat" where
  "xpromised w y m = unat (unwrap_or (Claims m (w, y)) 0)"

definition received :: "AccountId \<Rightarrow> XSymbol \<Rightarrow> xclaim_store \<Rightarrow> nat" where
  "received w y m = unat (unwrap_or (XClaimed m (w, y)) 0)"

definition xbooks_ok :: "xclaim_store \<Rightarrow> bool" where
  "xbooks_ok m \<longleftrightarrow> (\<forall>w y. received w y m \<le> xpromised w y m)
     \<and> (\<forall>y. unat (Total m y) = (\<Sum>w\<in>UNIV. xpromised w y m - received w y m))"

definition pot_ok :: "'c config \<Rightarrow> ('c, 'call, 'z) xclaim_state_scheme \<Rightarrow> bool" where
  "pot_ok X s \<longleftrightarrow> xbooks_ok (xclaim s)
     \<and> (\<forall>y. unat (Total (xclaim s) y) \<le> unat (xbal_free_balance (xclaim_account_id X) y s))"

inductive xclaim_reach for X where
  genesis: "xclaim s = empty_xclaim \<Longrightarrow> xclaim_reach X s"
| claim: "xclaim_reach X s \<Longrightarrow> xclaim_reach X (snd (claim X o' y s))"
| mint_claim: "xclaim_reach X s \<Longrightarrow> xclaim_reach X (snd (mint_claim X o' dest y v s))"
| set_proxy: "xclaim_reach X s \<Longrightarrow> xclaim_reach X (snd (xclaim_set_proxy_accounts o' a s))"
| remove_proxy: "xclaim_reach X s \<Longrightarrow> xclaim_reach X (snd (xclaim_remove_proxy_accounts o' a s))"
| other: "xclaim_reach X s \<Longrightarrow> xclaim t = xclaim s
    \<Longrightarrow> (\<And>y. xbal_free_balance (xclaim_account_id X) y s \<le> xbal_free_balance (xclaim_account_id X) y t) \<Longrightarrow> xclaim_reach X t"

lemma xbal_transfer_frame:
  assumes "xbal_transfer a b y v s = (r, t)"
  shows "xclaim t = xclaim s" "rbalances t = rbalances s" "native t = native s"
  using xbal_lift_state [of "token_transfer a b y v" s] assms by (auto simp: xbal_transfer_def)

lemma xbal_transfer_succeeds:
  assumes "v \<le> xbal_free_balance a y s" "a \<noteq> b \<Longrightarrow> unat (xbal_free_balance b y s) + unat v < 2 ^ 128"
  shows "\<exists>t. xbal_transfer a b y v s = (Ok (), t)"
  using assms
  by (auto simp: xbal_transfer_def xbal_lift_def token_lift_Ok token_transfer_eq xbal_free_balance_def word_order_nat)

lemma xbal_transfer_errs [run_errs]: "P s \<Longrightarrow> errs P (xbal_transfer a b y v s)"
  using xcur.transfer_fails [of a b y v s] xcur.transfer_total [of a b y v s]
  by (cases "xbal_transfer a b y v s"; cases "fst (xbal_transfer a b y v s)") (auto simp: errs_def)

lemma xbal_pays:
  assumes "xbal_transfer a b y v s = (Ok u, t)"
  shows "unat (xbal_free_balance a y s) \<le> unat (xbal_free_balance a y t) + unat v"
    and "z \<noteq> y \<Longrightarrow> xbal_free_balance a z t = xbal_free_balance a z s"
  using xcur.transfer_sheet [OF assms, of a y] xcur.transfer_sheet [OF assms, of a z]
  by (auto simp: word_unat_eq_iff split: if_splits)

lemma xbal_free_balance_cong: "xbalances t = xbalances s \<Longrightarrow> xbal_free_balance a y t = xbal_free_balance a y s"
  by (simp add: xbal_free_balance_def)

text \<open>A claim of \<open>who\<close> moves what it is due from the promises and from the pot.\<close>

lemma claimed_pot:
  assumes "pot_ok X s" "Claims (xclaim s) (who, y) = Some c" "d = unwrap_or (XClaimed (xclaim s) (who, y)) 0"
    and "xbal_transfer (xclaim_account_id X) who y (c - d) s = (Ok u, s1)"
    and t: "t = deposit_event e (xclaim_update (\<lambda>m. m\<lparr>Total := (Total m)(y := Total (xclaim s) y - (c - d)),
              XClaimed := (XClaimed m)((who, y) \<mapsto> c)\<rparr>) s1)" and le: "c - d \<le> Total (xclaim s) y"
  shows "pot_ok X t"
proof -
  let ?M = "xclaim_account_id X"
  have x: "Claims (xclaim t) = Claims (xclaim s)" "XClaimed (xclaim t) = (XClaimed (xclaim s))((who, y) \<mapsto> c)"
    "Total (xclaim t) = (Total (xclaim s))(y := Total (xclaim s) y - (c - d))" "xbalances t = xbalances s1"
    using xbal_transfer_frame(1) [OF assms(4)] by (simp_all add: t deposit_event_def)
  have pot: "\<And>w z. received w z (xclaim s) \<le> xpromised w z (xclaim s)"
    "\<And>z. unat (Total (xclaim s) z) = (\<Sum>w\<in>UNIV. xpromised w z (xclaim s) - received w z (xclaim s))"
    "\<And>z. unat (Total (xclaim s) z) \<le> unat (xbal_free_balance ?M z s)"
    using assms(1) unfolding pot_ok_def xbooks_ok_def by blast+
  have dc: "unat d \<le> unat c" using pot(1) [of who y] assms(2,3) by (simp add: xpromised_def received_def unwrap_or_def)
  have who: "xpromised who y (xclaim s) - received who y (xclaim s) = unat c - unat d"
    using assms(2,3) by (simp add: xpromised_def received_def unwrap_or_def)
  have pr: "xpromised w z (xclaim t) = xpromised w z (xclaim s)"
    "received w z (xclaim t) = (if (w, z) = (who, y) then unat c else received w z (xclaim s))" for w z
    using x by (auto simp: xpromised_def received_def unwrap_or_def)
  have pc: "xpromised who y (xclaim s) = unat c" using assms(2) by (simp add: xpromised_def unwrap_or_def)
  have due: "unat (c - d) = unat c - unat d" "unat (Total (xclaim s) y - (c - d)) = unat (Total (xclaim s) y) - (unat c - unat d)"
    using dc le by (simp_all add: unat_minus_exact word_le_nat_alt)
  have sums: "(\<Sum>w\<in>UNIV. xpromised w y (xclaim t) - received w y (xclaim t)) + (unat c - unat d)
      = (\<Sum>w\<in>UNIV. xpromised w y (xclaim s) - received w y (xclaim s))"
    using sum_change [of who "\<lambda>w. xpromised w y (xclaim t) - received w y (xclaim t)" "\<lambda>w. xpromised w y (xclaim s) - received w y (xclaim s)"]
      who pr pc by simp
  note pays = xbal_pays [OF assms(4)] and cong = xbal_free_balance_cong [OF x(4)]
  show ?thesis
    unfolding pot_ok_def xbooks_ok_def
  proof (intro conjI allI)
    show "received w z (xclaim t) \<le> xpromised w z (xclaim t)" for w z
      using pot(1) [of w z] pc by (simp add: pr)
    fix z
    show "unat (Total (xclaim t) z) = (\<Sum>w\<in>UNIV. xpromised w z (xclaim t) - received w z (xclaim t))"
      using sums pot(2) [of z] by (cases "z = y") (auto simp: x due pr)
    show "unat (Total (xclaim t) z) \<le> unat (xbal_free_balance ?M z t)"
      using pot(3) [of z] pays(1) pays(2) [of z] unfolding cong by (cases "z = y") (auto simp: x due)
  qed
qed

lemma claim_pot: "pot_ok X s \<Longrightarrow> keeps (pot_ok X) (claim X o' y s)"
  unfolding claim_def Let_def
  by (intro guard_keeps and_then_keeps_errs run_errs return_keeps) (auto intro: claimed_pot)

lemma minted_pot:
  assumes "pot_ok X s" and b: "b = unwrap_or (Claims (xclaim s) (dest, y)) 0"
    and add: "unat v + unat b < 2 ^ 128" "unat (Total (xclaim s) y) + unat v < 2 ^ 128"
    and held: "Total (xclaim s) y + v \<le> xbal_free_balance (xclaim_account_id X) y s"
    and t: "t = xclaim_update (\<lambda>m. m\<lparr>Total := (Total m)(y := Total (xclaim s) y + v),
             Claims := (Claims m)((dest, y) \<mapsto> v + b)\<rparr>) s"
  shows "pot_ok X t"
proof -
  have pot: "\<And>w z. received w z (xclaim s) \<le> xpromised w z (xclaim s)"
    "\<And>z. unat (Total (xclaim s) z) = (\<Sum>w\<in>UNIV. xpromised w z (xclaim s) - received w z (xclaim s))"
    "\<And>z. unat (Total (xclaim s) z) \<le> unat (xbal_free_balance (xclaim_account_id X) z s)"
    using assms(1) unfolding pot_ok_def xbooks_ok_def by blast+
  have old: "xpromised dest y (xclaim s) = unat b" by (simp add: xpromised_def b)
  have pr: "xpromised w z (xclaim t) = (if (w, z) = (dest, y) then unat v + unat b else xpromised w z (xclaim s))"
    "received w z (xclaim t) = received w z (xclaim s)" for w z
    using add(1) by (auto simp: t xpromised_def received_def unwrap_or_def unat_plus_exact)
  have tot: "Total (xclaim t) = (Total (xclaim s))(y := Total (xclaim s) y + v)" by (simp add: t)
  have bal: "xbal_free_balance a z t = xbal_free_balance a z s" for a z by (simp add: t xbal_free_balance_def)
  have sums: "(\<Sum>w\<in>UNIV. xpromised w y (xclaim t) - received w y (xclaim t))
      = (\<Sum>w\<in>UNIV. xpromised w y (xclaim s) - received w y (xclaim s)) + unat v"
    using sum_change [of dest "\<lambda>w. xpromised w y (xclaim t) - received w y (xclaim t)" "\<lambda>w. xpromised w y (xclaim s) - received w y (xclaim s)"]
      pot(1) [of dest y] unfolding pr old by (simp add: old)
  show ?thesis
    unfolding pot_ok_def xbooks_ok_def
  proof (intro conjI allI)
    show "received w z (xclaim t) \<le> xpromised w z (xclaim t)" for w z
      using pot(1) [of w z] old unfolding pr by (auto split: if_splits)
    fix z
    show "unat (Total (xclaim t) z) = (\<Sum>w\<in>UNIV. xpromised w z (xclaim t) - received w z (xclaim t))"
      using sums pot(2) [of z] add(2) unfolding tot by (cases "z = y") (auto simp: pr unat_plus_exact)
    show "unat (Total (xclaim t) z) \<le> unat (xbal_free_balance (xclaim_account_id X) z t)"
      using pot(3) [of z] held unfolding tot by (cases "z = y") (simp_all add: word_le_nat_alt bal)
  qed
qed

lemma mint_claim_pot: "pot_ok X s \<Longrightarrow> keeps (pot_ok X) (mint_claim X o' dest y v s)"
  unfolding mint_claim_def Let_def
  by (intro guard_keeps return_keeps) (auto intro: minted_pot)

lemma pot_ok_other:
  assumes "pot_ok X s" "Claims (xclaim t) = Claims (xclaim s)" "XClaimed (xclaim t) = XClaimed (xclaim s)"
    and "Total (xclaim t) = Total (xclaim s)"
    and "\<And>y. xbal_free_balance (xclaim_account_id X) y s \<le> xbal_free_balance (xclaim_account_id X) y t"
  shows "pot_ok X t"
proof -
  have "xbooks_ok (xclaim t) = xbooks_ok (xclaim s)"
    by (simp add: xbooks_ok_def xpromised_def received_def assms(2-4))
  with assms(1,4,5) show ?thesis by (auto simp: pot_ok_def word_le_nat_alt intro: le_trans)
qed

lemma reach_pot:
  assumes "xclaim_reach X s"
  shows "pot_ok X s"
  using assms
proof induction
  case (genesis s)
  then show ?case by (simp add: pot_ok_def xbooks_ok_def empty_xclaim_def xpromised_def received_def unwrap_or_def)
next
  case (set_proxy s o' a)
  then show ?case
    by (cases o') (auto simp: xclaim_set_proxy_accounts_def xbal_free_balance_def intro: pot_ok_other)
next
  case (remove_proxy s o' a)
  then show ?case
    by (cases o') (auto simp: xclaim_remove_proxy_accounts_def xbal_free_balance_def intro: pot_ok_other)
next
  case (other s t)
  then show ?case by (intro pot_ok_other [of X s t]) simp_all
qed (use claim_pot mint_claim_pot in \<open>auto simp: keeps_def\<close>)

section \<open>Property\<close>

text \<open>
  C25. Every promise can be claimed, once: in any reachable state an account that has been promised more
  than it has received can claim the difference (when its balance has room for it), receives exactly the
  difference, has then received all it was promised, and a second claim fails with \<open>HasNoClaim\<close>.
\<close>

theorem promises_are_payable:
  fixes s :: "('c, 'call, 'z) xclaim_state_scheme"
  assumes "xclaim_reach X s" "received who y (xclaim s) < xpromised who y (xclaim s)" "who \<noteq> xclaim_account_id X"
    and "unat (xbal_free_balance who y s) + (xpromised who y (xclaim s) - received who y (xclaim s)) < 2 ^ 128"
  shows "\<exists>t. claim X (Signed who) y s = (Ok (), t)
    \<and> unat (xbal_free_balance who y t) = unat (xbal_free_balance who y s) + (xpromised who y (xclaim s) - received who y (xclaim s))
    \<and> received who y (xclaim t) = xpromised who y (xclaim t)
    \<and> claim X (Signed who) y t = (Err (XClaimErr HasNoClaim), t)"
proof -
  let ?M = "xclaim_account_id X"
  have pot: "unat (Total (xclaim s) y) = (\<Sum>w\<in>UNIV. xpromised w y (xclaim s) - received w y (xclaim s))"
    "unat (Total (xclaim s) y) \<le> unat (xbal_free_balance ?M y s)"
    using reach_pot [OF assms(1)] unfolding pot_ok_def xbooks_ok_def by blast+
  obtain c where c: "Claims (xclaim s) (who, y) = Some c"
    using assms(2) by (cases "Claims (xclaim s) (who, y)") (auto simp: xpromised_def unwrap_or_def)
  define d where "d = unwrap_or (XClaimed (xclaim s) (who, y)) 0"
  have pr: "xpromised who y (xclaim s) = unat c" "received who y (xclaim s) = unat d"
    using c by (simp_all add: xpromised_def received_def d_def unwrap_or_def)
  have dc: "d \<le> c" "unat (c - d) = unat c - unat d" "c - d > 0"
    using assms(2) pr by (auto simp: word_le_nat_alt unat_minus_exact word_less_nat_alt)
  have "unat c - unat d \<le> unat (Total (xclaim s) y)"
    using member_le_sum [of who UNIV "\<lambda>w. xpromised w y (xclaim s) - received w y (xclaim s)"] pot(1) pr by simp
  then have le: "c - d \<le> Total (xclaim s) y" "c - d \<le> xbal_free_balance ?M y s"
    using pot(2) dc(2) by (simp_all add: word_le_nat_alt)
  obtain s1 where pay: "xbal_transfer ?M who y (c - d) s = (Ok (), s1)"
    using xbal_transfer_succeeds [OF le(2), of who] assms(4) pr dc(2) by auto
  define t where "t = deposit_event (XClaimEv (Claimed who y (c - d))) (xclaim_update (\<lambda>m. m\<lparr>
     Total := (Total m)(y := Total (xclaim s) y - (c - d)), XClaimed := (XClaimed m)((who, y) \<mapsto> c)\<rparr>) s1)"
  have run: "claim X (Signed who) y s = (Ok (), t)"
    using dc le pay by (simp add: claim_def c Let_def t_def ok_or_def d_def [symmetric] checked_sub_def)
  have x: "Claims (xclaim t) = Claims (xclaim s)" "XClaimed (xclaim t) (who, y) = Some c" "xbalances t = xbalances s1"
    using xbal_transfer_frame(1) [OF pay] by (simp_all add: t_def deposit_event_def)
  have "unat (xbal_free_balance who y t) = unat (xbal_free_balance who y s) + (unat c - unat d)"
    using xcur.transfer_sheet [OF pay, of who y] assms(3) dc(2) unfolding xbal_free_balance_cong [OF x(3)] by simp
  moreover have "received who y (xclaim t) = xpromised who y (xclaim t)"
    by (simp add: received_def xpromised_def x c)
  moreover have "claim X (Signed who) y t = (Err (XClaimErr HasNoClaim), t)"
    by (simp add: claim_def x c unwrap_or_def checked_sub_def)
  ultimately show ?thesis using run pr by (intro exI [of _ t]) simp
qed

definition sample_xclaim :: "(AccountId \<Rightarrow> u128, unit) xclaim_state" where
  "sample_xclaim = mining_state.extend (sample_mining\<lparr>xbalances := \<lparr>TotalIssuance = (\<lambda>_. 500),
     Account = (\<lambda>_. [xclaim_account_id plain_config \<mapsto> \<lparr>free = 500\<rparr>])\<rparr>\<rparr>) \<lparr>xclaim = empty_xclaim\<rparr>"

lemma sample_promise:
  "\<exists>s :: (AccountId \<Rightarrow> u128, unit) xclaim_state. xclaim_reach plain_config s \<and> xpromised 5 WRA (xclaim s) = 80 \<and> received 5 WRA (xclaim s) = 0
   \<and> xbal_free_balance 5 WRA s = 0"
proof -
  let ?s = "snd (mint_claim plain_config (Signed 9) 5 WRA 80 (snd (xclaim_set_proxy_accounts Root 9 sample_xclaim)))"
  have "xclaim_reach plain_config ?s"
    by (intro xclaim_reach.mint_claim xclaim_reach.set_proxy xclaim_reach.genesis) (simp add: sample_xclaim_def mining_state.defs)
  moreover have "xpromised 5 WRA (xclaim ?s) = 80 \<and> received 5 WRA (xclaim ?s) = 0 \<and> xbal_free_balance 5 WRA ?s = 0"
    by (simp add: mint_claim_def xclaim_set_proxy_accounts_def sample_xclaim_def empty_xclaim_def xpromised_def received_def
        unwrap_or_def checked_add_def xbal_free_balance_def free_balance_def xclaim_account_id_def plain_number_def mining_state.defs)
  ultimately show ?thesis by blast
qed

theorem promises_are_payable_witness:
  "\<exists>s t :: (AccountId \<Rightarrow> u128, unit) xclaim_state. xclaim_reach plain_config s \<and> claim plain_config (Signed 5) WRA s = (Ok (), t)
   \<and> unat (xbal_free_balance 5 WRA t) = 80 \<and> claim plain_config (Signed 5) WRA t = (Err (XClaimErr HasNoClaim), t)"
proof -
  obtain s :: "(AccountId \<Rightarrow> u128, unit) xclaim_state" where
    s: "xclaim_reach plain_config s" "xpromised 5 WRA (xclaim s) = 80" "received 5 WRA (xclaim s) = 0" "xbal_free_balance 5 WRA s = 0"
    using sample_promise by blast
  have "(5 :: AccountId) \<noteq> xclaim_account_id plain_config" by (simp add: xclaim_account_id_def plain_number_def)
  from promises_are_payable [OF s(1) _ this, of WRA] s show ?thesis by auto
qed

end
