(* ===== verification/RDexn.thy ===== *)
theory RDexn
  imports XClaim
begin

text \<open>
  \<open>rdexn/swap\<close> and \<open>rdexn/signatures\<close>: rtokens are sold for the native token of their chain. A swap takes its
  output from a reserve and queues it for the block in which it is due; the payers of the token pay it on
  the other chain and report that they have, by block or one by one, and collect signatures.
\<close>

section \<open>Data and storage\<close>

record SwapTransactionInfo =
  trans_account :: AccountId
  trans_receiver :: bytes
  trans_value :: u128
  is_deal :: bool

record SwapRate =
  lock_number :: u64
  swap_rate :: u128

definition RDEXN_RATEBASE :: u128 where
  "RDEXN_RATEBASE = 1000000000000"

record rdexn_store =
  SwapTotalSwitch :: bool
  SwapRTokenSwitch :: "RSymbol \<Rightarrow> bool"
  SwapFundAddress :: "AccountId option"
  NativePoolAddress :: "AccountId option"
  SwapFees :: "RSymbol \<Rightarrow> Balance"
  SwapRates :: "RSymbol \<times> u8 \<Rightarrow> SwapRate option"
  TransInfos :: "RSymbol \<times> u64 \<Rightarrow> SwapTransactionInfo list option"
  LatestDealBlock :: "RSymbol \<Rightarrow> u64"
  SwapLimitPerBlock :: u32
  NativeTokenReserves :: "RSymbol \<Rightarrow> u128"
  VoteInfos :: "RSymbol \<times> u64 \<Rightarrow> AccountId list option"
  VoteInfosWithIndex :: "RSymbol \<times> u64 \<times> u32 \<Rightarrow> AccountId list option"

definition empty_rdexn :: rdexn_store where
  "empty_rdexn = \<lparr>SwapTotalSwitch = False, SwapRTokenSwitch = (\<lambda>_. True), SwapFundAddress = None, NativePoolAddress = None,
     SwapFees = (\<lambda>_. 1500000000000), SwapRates = (\<lambda>_. None), TransInfos = (\<lambda>_. None), LatestDealBlock = (\<lambda>_. 0),
     SwapLimitPerBlock = 200, NativeTokenReserves = (\<lambda>_. 0), VoteInfos = (\<lambda>_. None), VoteInfosWithIndex = (\<lambda>_. None)\<rparr>"

record rdexn_signatures_store =
  RSignatures :: "RSymbol \<Rightarrow> u64 \<times> bytes \<Rightarrow> bytes list option"
  RAccountSignature :: "AccountId \<times> RSymbol \<times> u64 \<times> bytes \<Rightarrow> bytes option"

record ('c, 'call) rdexn_state = "('c, 'call) xclaim_state" +
  rdexn :: rdexn_store
  rdexn_sigs :: rdexn_signatures_store

type_synonym ('c, 'call, 'z) rdexn_run =
  "(dispatch_error, unit, ('c, 'call, 'z) rdexn_state_scheme) run"

section \<open>Swaps\<close>

definition swap_out_amount ::
    "'c config \<Rightarrow> RSymbol \<Rightarrow> u128 \<Rightarrow> u128 \<Rightarrow> ('c, 'call, 'z) rdexn_state_scheme \<Rightarrow> u128" where
  "swap_out_amount X symbol rtoken_amount rate s =
     unwrap_or (multiply_by_rational X (rtoken_to_token X symbol rtoken_amount s) rate RDEXN_RATEBASE) 0"

definition swap_rtoken_for_native_token ::
    "'c config \<Rightarrow> crypto \<Rightarrow> origin \<Rightarrow> bytes \<Rightarrow> RSymbol \<Rightarrow> u128 \<Rightarrow> u128 \<Rightarrow> u8 \<Rightarrow> ('c, 'call, 'z) rdexn_state_scheme
     \<Rightarrow> ('c, 'call, 'z) rdexn_run" where
  "swap_rtoken_for_native_token X C o' receiver symbol rtoken_amount min_out_amount grade s =
     ensure_signed o' s (\<lambda>who.
     let now_block = ucast (block_number s) :: u64
     in ok_or (SwapFundAddress (rdexn s)) (RDexnSwapErr rdexn_swap_error.NoFundAddress) s (\<lambda>fund_addr.
        ok_or (Rate (rates s) symbol) (RDexnSwapErr RTokenRateFailed) s (\<lambda>rtoken_rate.
        let fee_amount = SwapFees (rdexn s) symbol
        in ok_or (SwapRates (rdexn s) (symbol, grade)) (RDexnSwapErr SwapRateFailed) s (\<lambda>rate.
           ok_or (checked_add now_block (lock_number rate)) (RDexnSwapErr rdexn_swap_error.OverFlow) s (\<lambda>trans_block.
           let out_reserve = NativeTokenReserves (rdexn s) symbol
           in ensure (SwapTotalSwitch (rdexn s)) (RDexnSwapErr SwapTotalClosed) s
             (ensure (SwapRTokenSwitch (rdexn s) symbol) (RDexnSwapErr SwapRtokenClosed) s
             (ensure (rtoken_amount > 0) (RDexnSwapErr ParamsErr) s
             (ensure (min_out_amount > 0) (RDexnSwapErr ParamsErr) s
             (ensure (rtoken_rate > 0) (RDexnSwapErr RTokenRateFailed) s
             (ensure (swap_rate rate > 0) (RDexnSwapErr SwapRateFailed) s
             (ensure (rbal_free_balance who symbol s \<ge> rtoken_amount) (RDexnSwapErr RTokenAmountNotEnough) s
             (ensure (verify_recipient C symbol receiver) (RDexnSwapErr ReceiverInvalid) s
             (let infos = unwrap_or (TransInfos (rdexn s) (symbol, trans_block)) []
              in ensure (length infos < unat (SwapLimitPerBlock (rdexn s))) (RDexnSwapErr OverSwapLimitPerBlock) s
                (let out_amount = swap_out_amount X symbol rtoken_amount (swap_rate rate) s
                 in ensure (out_amount \<ge> min_out_amount) (RDexnSwapErr rdexn_swap_error.LessThanMinOutAmount) s
                   (ensure (out_amount < out_reserve) (RDexnSwapErr NativeTokenReserveNotEnough) s
                   (and_then (run_if (fee_amount > 0) (native_transfer X who fund_addr fee_amount) s) (\<lambda>_ s1.
                    and_then (rbal_transfer who fund_addr symbol rtoken_amount s1) (\<lambda>_ s2.
                    (Ok (), deposit_event (RDexnSwapEv (SwapRTokenToNative who receiver symbol trans_block fee_amount rtoken_amount
                         out_amount rtoken_rate (swap_rate rate)))
                      (rdexn_update (\<lambda>m. m\<lparr>
                         TransInfos := (TransInfos m)((symbol, trans_block) \<mapsto> infos @
                           [\<lparr>trans_account = who, trans_receiver = receiver, trans_value = out_amount, is_deal = False\<rparr>]),
                         NativeTokenReserves := (NativeTokenReserves m)(symbol := saturating_sub out_reserve out_amount)\<rparr>) s2))))))))))))))))))))"

definition swap_rfis_for_fis_token ::
    "'c config \<Rightarrow> origin \<Rightarrow> AccountId \<Rightarrow> u128 \<Rightarrow> u128 \<Rightarrow> u8 \<Rightarrow> ('c, 'call, 'z) rdexn_state_scheme
     \<Rightarrow> ('c, 'call, 'z) rdexn_run" where
  "swap_rfis_for_fis_token X o' receiver rtoken_amount min_out_amount grade s =
     ensure_signed o' s (\<lambda>who.
     ensure (SwapTotalSwitch (rdexn s)) (RDexnSwapErr SwapTotalClosed) s
    (ensure (SwapRTokenSwitch (rdexn s) RFIS) (RDexnSwapErr SwapRtokenClosed) s
    (ensure (rtoken_amount > 0) (RDexnSwapErr ParamsErr) s
    (ensure (min_out_amount > 0) (RDexnSwapErr ParamsErr) s
    (ok_or (SwapFundAddress (rdexn s)) (RDexnSwapErr rdexn_swap_error.NoFundAddress) s (\<lambda>fund_addr.
     ok_or (NativePoolAddress (rdexn s)) (RDexnSwapErr NoNativePoolAddress) s (\<lambda>native_pool_addr.
     ok_or (Rate (rates s) RFIS) (RDexnSwapErr RTokenRateFailed) s (\<lambda>rtoken_rate.
     ok_or (SwapRates (rdexn s) (RFIS, grade)) (RDexnSwapErr SwapRateFailed) s (\<lambda>rate.
     ensure (rtoken_rate > 0) (RDexnSwapErr RTokenRateFailed) s
    (ensure (swap_rate rate > 0) (RDexnSwapErr SwapRateFailed) s
    (ensure (rbal_free_balance who RFIS s \<ge> rtoken_amount) (RDexnSwapErr RTokenAmountNotEnough) s
    (let out_amount = swap_out_amount X RFIS rtoken_amount (swap_rate rate) s
     in ensure (out_amount \<ge> min_out_amount) (RDexnSwapErr rdexn_swap_error.LessThanMinOutAmount) s
       (and_then (native_transfer X native_pool_addr receiver out_amount s) (\<lambda>_ s1.
        and_then (rbal_transfer who fund_addr RFIS rtoken_amount s1) (\<lambda>_ s2.
        (Ok (), deposit_event (RDexnSwapEv (SwapRFisToFis who receiver rtoken_amount out_amount rtoken_rate (swap_rate rate))) s2))))))))))))))))"

section \<open>Reports of the payers\<close>

definition deal_all :: "SwapTransactionInfo list \<Rightarrow> SwapTransactionInfo list" where
  "deal_all = map (\<lambda>i. i\<lparr>is_deal := True\<rparr>)"

definition report_transfer_result_with_block ::
    "origin \<Rightarrow> RSymbol \<Rightarrow> u64 \<Rightarrow> ('c, 'call, 'z) rdexn_state_scheme \<Rightarrow> ('c, 'call, 'z) rdexn_run" where
  "report_transfer_result_with_block o' symbol block s =
     ensure_signed o' s (\<lambda>who.
     ensure (is_payer symbol who s) (RDexnPayersErr MustBePayer) s
    (let infos = unwrap_or (TransInfos (rdexn s) (symbol, block)) [];
         vote_infos = unwrap_or (VoteInfos (rdexn s) (symbol, block)) []
     in ensure (who \<notin> set vote_infos) (RDexnSwapErr VoterRepeat) s
       (let vote_infos1 = vote_infos @ [who];
            s1 = rdexn_update (\<lambda>m. m\<lparr>VoteInfos := (VoteInfos m)((symbol, block) \<mapsto> vote_infos1)\<rparr>) s
        in (Ok (), if length vote_infos1 = unat (RelayerThreshold (payers s1) symbol)
             then deposit_event (RDexnSwapEv (ReportTransResultWithBlock who symbol block))
               (rdexn_update (\<lambda>m. m\<lparr>LatestDealBlock := (LatestDealBlock m)(symbol := block),
                  TransInfos := (TransInfos m)((symbol, block) \<mapsto> deal_all infos)\<rparr>) s1)
             else s1))))"

definition report_transfer_result_with_index ::
    "origin \<Rightarrow> RSymbol \<Rightarrow> u64 \<Rightarrow> u32 \<Rightarrow> ('c, 'call, 'z) rdexn_state_scheme \<Rightarrow> ('c, 'call, 'z) rdexn_run" where
  "report_transfer_result_with_index o' symbol block index s =
     ensure_signed o' s (\<lambda>who.
     ensure (is_payer symbol who s) (RDexnPayersErr MustBePayer) s
    (let infos = unwrap_or (TransInfos (rdexn s) (symbol, block)) []
     in ensure (length infos > unat index) (RDexnSwapErr ParamsErr) s
    (let vote_infos = unwrap_or (VoteInfosWithIndex (rdexn s) (symbol, block, index)) []
     in ensure (who \<notin> set vote_infos) (RDexnSwapErr VoterRepeat) s
       (let vote_infos1 = vote_infos @ [who];
            s1 = rdexn_update (\<lambda>m. m\<lparr>VoteInfosWithIndex := (VoteInfosWithIndex m)((symbol, block, index) \<mapsto> vote_infos1)\<rparr>) s
        in if length vote_infos1 = unat (RelayerThreshold (payers s1) symbol)
           then ok_or (vec_get infos index) (RDexnSwapErr GetTransInfoFailed) s1 (\<lambda>info.
             let infos1 = infos[unat index := info\<lparr>is_deal := True\<rparr>];
                 s2 = deposit_event (RDexnSwapEv (ReportTransResultWithIndex who symbol block index))
                   (rdexn_update (\<lambda>m. m\<lparr>TransInfos := (TransInfos m)((symbol, block) \<mapsto> infos1)\<rparr>) s1)
             in (Ok (), if list_all is_deal infos1
                  then deposit_event (RDexnSwapEv (ReportTransResultWithIndexBlockEnd who symbol block))
                    (rdexn_update (\<lambda>m. m\<lparr>LatestDealBlock := (LatestDealBlock m)(symbol := block)\<rparr>) s2)
                  else s2))
           else (Ok (), s1)))))"

section \<open>Administration\<close>

definition toggle_swap_total_switch :: "origin \<Rightarrow> ('c, 'call, 'z) rdexn_state_scheme \<Rightarrow> ('c, 'call, 'z) rdexn_run" where
  "toggle_swap_total_switch o' s =
     ensure_root o' s (Ok (), rdexn_update (\<lambda>m. m\<lparr>SwapTotalSwitch := \<not> SwapTotalSwitch m\<rparr>) s)"

definition toggle_swap_rtoken_switch ::
    "origin \<Rightarrow> RSymbol \<Rightarrow> ('c, 'call, 'z) rdexn_state_scheme \<Rightarrow> ('c, 'call, 'z) rdexn_run" where
  "toggle_swap_rtoken_switch o' symbol s =
     ensure_root o' s (Ok (), rdexn_update (\<lambda>m. m\<lparr>SwapRTokenSwitch := (SwapRTokenSwitch m)(symbol := \<not> SwapRTokenSwitch m symbol)\<rparr>) s)"

definition rdexn_set_fund_address ::
    "origin \<Rightarrow> AccountId \<Rightarrow> ('c, 'call, 'z) rdexn_state_scheme \<Rightarrow> ('c, 'call, 'z) rdexn_run" where
  "rdexn_set_fund_address o' address s =
     ensure_root o' s (Ok (), rdexn_update (\<lambda>m. m\<lparr>SwapFundAddress := Some address\<rparr>) s)"

definition set_native_pool_address ::
    "origin \<Rightarrow> AccountId \<Rightarrow> ('c, 'call, 'z) rdexn_state_scheme \<Rightarrow> ('c, 'call, 'z) rdexn_run" where
  "set_native_pool_address o' address s =
     ensure_root o' s (Ok (), rdexn_update (\<lambda>m. m\<lparr>NativePoolAddress := Some address\<rparr>) s)"

definition set_native_token_reserve ::
    "origin \<Rightarrow> RSymbol \<Rightarrow> u128 \<Rightarrow> ('c, 'call, 'z) rdexn_state_scheme \<Rightarrow> ('c, 'call, 'z) rdexn_run" where
  "set_native_token_reserve o' symbol reserve s =
     ensure_root o' s (Ok (), rdexn_update (\<lambda>m. m\<lparr>NativeTokenReserves := (NativeTokenReserves m)(symbol := reserve)\<rparr>) s)"

definition set_swap_fee ::
    "origin \<Rightarrow> RSymbol \<Rightarrow> Balance \<Rightarrow> ('c, 'call, 'z) rdexn_state_scheme \<Rightarrow> ('c, 'call, 'z) rdexn_run" where
  "set_swap_fee o' symbol fee s =
     ensure_root o' s (Ok (), rdexn_update (\<lambda>m. m\<lparr>SwapFees := (SwapFees m)(symbol := fee)\<rparr>) s)"

definition set_swap_rate ::
    "origin \<Rightarrow> RSymbol \<Rightarrow> u8 \<Rightarrow> u64 \<Rightarrow> u128 \<Rightarrow> ('c, 'call, 'z) rdexn_state_scheme \<Rightarrow> ('c, 'call, 'z) rdexn_run" where
  "set_swap_rate o' symbol grade lock rate s =
     ensure_root o' s (Ok (), rdexn_update (\<lambda>m. m\<lparr>SwapRates := (SwapRates m)((symbol, grade) \<mapsto> \<lparr>lock_number = lock, swap_rate = rate\<rparr>)\<rparr>) s)"

definition set_swap_limit_per_block ::
    "origin \<Rightarrow> u32 \<Rightarrow> ('c, 'call, 'z) rdexn_state_scheme \<Rightarrow> ('c, 'call, 'z) rdexn_run" where
  "set_swap_limit_per_block o' limit s =
     ensure_root o' s (Ok (), rdexn_update (\<lambda>m. m\<lparr>SwapLimitPerBlock := limit\<rparr>) s)"

definition set_latest_deal_block ::
    "origin \<Rightarrow> RSymbol \<Rightarrow> u64 \<Rightarrow> ('c, 'call, 'z) rdexn_state_scheme \<Rightarrow> ('c, 'call, 'z) rdexn_run" where
  "set_latest_deal_block o' symbol block s =
     ensure_root o' s (Ok (), rdexn_update (\<lambda>m. m\<lparr>LatestDealBlock := (LatestDealBlock m)(symbol := block),
       TransInfos := (TransInfos m)((symbol, block) \<mapsto> deal_all (unwrap_or (TransInfos (rdexn s) (symbol, block)) []))\<rparr>) s)"

section \<open>Signatures of the payers\<close>

definition rdexn_submit_signatures ::
    "origin \<Rightarrow> RSymbol \<Rightarrow> u64 \<Rightarrow> bytes \<Rightarrow> bytes \<Rightarrow> ('c, 'call, 'z) rdexn_state_scheme \<Rightarrow> ('c, 'call, 'z) rdexn_run" where
  "rdexn_submit_signatures o' symbol block proposal_id signature s =
     ensure_signed o' s (\<lambda>who.
     ensure (chain_type symbol \<noteq> Substrate) (RDexnSignaturesErr rdexn_signatures_error.InvalidRSymbol) s
    (ensure (is_payer symbol who s) (RDexnPayersErr MustBePayer) s
    (ensure (RAccountSignature (rdexn_sigs s) (who, symbol, block, proposal_id) = None)
       (RDexnSignaturesErr rdexn_signatures_error.SignatureRepeated) s
    (let signatures = unwrap_or (RSignatures (rdexn_sigs s) symbol (block, proposal_id)) []
     in ensure (signature \<notin> set signatures) (RDexnSignaturesErr rdexn_signatures_error.SignatureRepeated) s
       (Ok (), deposit_event (RDexnSignaturesEv (SubmitSignatures who symbol block proposal_id signature))
          (rdexn_sigs_update (\<lambda>m. m\<lparr>
             RSignatures := (RSignatures m)(symbol := (RSignatures m symbol)((block, proposal_id) \<mapsto> signatures @ [signature])),
             RAccountSignature := (RAccountSignature m)((who, symbol, block, proposal_id) \<mapsto> signature)\<rparr>) s))))))"

section \<open>The queue of payments\<close>

definition queue_at :: "RSymbol \<Rightarrow> u64 \<Rightarrow> rdexn_store \<Rightarrow> SwapTransactionInfo list" where
  "queue_at y b m = unwrap_or (TransInfos m (y, b)) []"

definition value_of :: "SwapTransactionInfo list \<Rightarrow> nat" where
  "value_of q = (\<Sum>i\<leftarrow>q. unat (trans_value i))"

definition queued :: "RSymbol \<Rightarrow> rdexn_store \<Rightarrow> nat" where
  "queued y m = (\<Sum>b\<in>UNIV. value_of (queue_at y b m))"

text \<open>A payment of \<open>q\<close> is still in \<open>q'\<close>, at its place, with its receiver and value, and is not undone.\<close>

definition kept_in :: "SwapTransactionInfo list \<Rightarrow> SwapTransactionInfo list \<Rightarrow> bool" where
  "kept_in q q' \<longleftrightarrow> length q \<le> length q' \<and> (\<forall>i<length q. q' ! i = q ! i \<or> q' ! i = (q ! i)\<lparr>is_deal := True\<rparr>)"

text \<open>One operation of the pallet, successful or not, except the resetting of a reserve.\<close>

inductive rdexn_step for X C where
  swap: "rdexn_step X C s (snd (swap_rtoken_for_native_token X C o' receiver y v m g s))"
| swap_fis: "rdexn_step X C s (snd (swap_rfis_for_fis_token X o' account v m g s))"
| report_block: "rdexn_step X C s (snd (report_transfer_result_with_block o' y b s))"
| report_index: "rdexn_step X C s (snd (report_transfer_result_with_index o' y b i s))"
| set_latest: "rdexn_step X C s (snd (set_latest_deal_block o' y b s))"
| toggle_total: "rdexn_step X C s (snd (toggle_swap_total_switch o' s))"
| toggle_rtoken: "rdexn_step X C s (snd (toggle_swap_rtoken_switch o' y s))"
| fund: "rdexn_step X C s (snd (rdexn_set_fund_address o' account s))"
| native_pool: "rdexn_step X C s (snd (set_native_pool_address o' account s))"
| fee: "rdexn_step X C s (snd (set_swap_fee o' y f s))"
| rate: "rdexn_step X C s (snd (set_swap_rate o' y g l r s))"
| limit: "rdexn_step X C s (snd (set_swap_limit_per_block o' n s))"
| signatures: "rdexn_step X C s (snd (rdexn_submit_signatures o' y b pid sig s))"

definition payments_kept :: "rdexn_store \<Rightarrow> rdexn_store \<Rightarrow> bool" where
  "payments_kept m m' \<longleftrightarrow>
     (\<forall>y b. kept_in (queue_at y b m) (queue_at y b m'))
   \<and> (\<forall>y. unat (NativeTokenReserves m' y) + queued y m' = unat (NativeTokenReserves m y) + queued y m)"

lemma kept_in_refl: "kept_in q q"
  by (simp add: kept_in_def)

lemma kept_in_trans: "kept_in p q \<Longrightarrow> kept_in q r \<Longrightarrow> kept_in p r"
proof -
  assume pq: "kept_in p q" and qr: "kept_in q r"
  have "r ! i = p ! i \<or> r ! i = (p ! i)\<lparr>is_deal := True\<rparr>" if "i < length p" for i
  proof -
    have "q ! i = p ! i \<or> q ! i = (p ! i)\<lparr>is_deal := True\<rparr>" using pq that by (simp add: kept_in_def)
    moreover have "r ! i = q ! i \<or> r ! i = (q ! i)\<lparr>is_deal := True\<rparr>"
      using pq qr that less_le_trans [of i "length p" "length q"] by (simp add: kept_in_def)
    ultimately show ?thesis by auto
  qed
  moreover have "length p \<le> length r" using pq qr by (auto simp: kept_in_def)
  ultimately show ?thesis by (simp add: kept_in_def)
qed

lemma payments_kept_same:
  assumes "TransInfos m' = TransInfos m" "NativeTokenReserves m' = NativeTokenReserves m"
  shows "payments_kept m m'"
  using assms by (simp add: payments_kept_def queue_at_def queued_def kept_in_refl)

lemma payments_kept_put:
  assumes "TransInfos m' = (TransInfos m)((y, b) \<mapsto> q')" "kept_in (queue_at y b m) q'"
    and "unat (NativeTokenReserves m' y) + value_of q' = unat (NativeTokenReserves m y) + value_of (queue_at y b m)"
    and "\<And>z. z \<noteq> y \<Longrightarrow> NativeTokenReserves m' z = NativeTokenReserves m z"
  shows "payments_kept m m'"
proof -
  have q: "queue_at z c m' = (if (z, c) = (y, b) then q' else queue_at z c m)" for z c
    by (auto simp: queue_at_def assms(1) unwrap_or_def)
  have "queued y m' + value_of (queue_at y b m) = queued y m + value_of q'"
    unfolding queued_def
    using sum_change [of b "\<lambda>c. value_of (queue_at y c m')" "\<lambda>c. value_of (queue_at y c m)"] by (simp add: q)
  moreover have "z \<noteq> y \<Longrightarrow> queued z m' = queued z m" for z
    by (simp add: queued_def q)
  ultimately have "unat (NativeTokenReserves m' z) + queued z m' = unat (NativeTokenReserves m z) + queued z m" for z
    using assms(3,4) by (cases "z = y") simp_all
  moreover have "kept_in (queue_at z c m) (queue_at z c m')" for z c
    using assms(2) by (auto simp: q kept_in_refl)
  ultimately show ?thesis by (simp add: payments_kept_def)
qed

lemma kept_in_snoc: "kept_in q (q @ [i])"
  by (simp add: kept_in_def nth_append)

lemma kept_in_deal_all: "kept_in q (deal_all q)" "value_of (deal_all q) = value_of q"
  by (simp_all add: kept_in_def deal_all_def value_of_def o_def)

lemma kept_in_deal:
  assumes "i < length q"
  shows "kept_in q (q[i := (q ! i)\<lparr>is_deal := True\<rparr>])" "value_of (q[i := (q ! i)\<lparr>is_deal := True\<rparr>]) = value_of q"
proof -
  show "kept_in q (q[i := (q ! i)\<lparr>is_deal := True\<rparr>])" using assms by (auto simp: kept_in_def nth_list_update)
  have "map (\<lambda>j. unat (trans_value j)) (q[i := (q ! i)\<lparr>is_deal := True\<rparr>]) = map (\<lambda>j. unat (trans_value j)) q"
    using assms by (simp add: map_update list_update_same_conv)
  then show "value_of (q[i := (q ! i)\<lparr>is_deal := True\<rparr>]) = value_of q" by (simp only: value_of_def)
qed

lemma value_of_snoc: "value_of (q @ [i]) = value_of q + unat (trans_value i)"
  by (simp add: value_of_def)

lemma rdexn_frame:
  "native_transfer X a c v s = (r, t) \<Longrightarrow> rdexn t = rdexn s"
  "rbal_transfer a c y v s = (r, t) \<Longrightarrow> rdexn t = rdexn s"
  "rdexn (deposit_event e s) = rdexn s"
  using rbal_lift_state [of "token_transfer a c y v" s]
  by (auto simp: native_transfer_def rbal_transfer_def deposit_event_def split: prod.splits)

lemma dealt_kept:
  assumes "TransInfos m' = (TransInfos m)((y, b) \<mapsto> deal_all (queue_at y b m))" "NativeTokenReserves m' = NativeTokenReserves m"
  shows "payments_kept m m'"
  using assms by (intro payments_kept_put [OF assms(1)]) (simp_all add: kept_in_deal_all)

lemma dealt_one_kept:
  assumes "TransInfos m' = (TransInfos m)((y, b) \<mapsto> (queue_at y b m)[i := (queue_at y b m ! i)\<lparr>is_deal := True\<rparr>])"
    and "i < length (queue_at y b m)" "NativeTokenReserves m' = NativeTokenReserves m"
  shows "payments_kept m m'"
  using assms by (intro payments_kept_put [OF assms(1)]) (simp_all add: kept_in_deal)

lemma transfers_keep_rdexn [run_keeps]:
  "P (rdexn s) \<Longrightarrow> keeps (\<lambda>t. P (rdexn t)) (native_transfer X a c v s)"
  "P (rdexn s) \<Longrightarrow> keeps (\<lambda>t. P (rdexn t)) (rbal_transfer a c y v s)"
  using rdexn_frame(1) [of X a c v s] rdexn_frame(2) [of a c y v s]
  by (cases "native_transfer X a c v s"; cases "rbal_transfer a c y v s"; simp add: keeps_def)+

lemma queued_payment:
  fixes s t :: "('c, 'call, 'z) rdexn_state_scheme"
  assumes "rdexn t = rdexn s" "out < NativeTokenReserves (rdexn s) y"
  shows "payments_kept (rdexn s) ((rdexn t)\<lparr>
     TransInfos := (TransInfos (rdexn t))((y, b) \<mapsto> unwrap_or (TransInfos (rdexn s) (y, b)) [] @
       [\<lparr>trans_account = who, trans_receiver = receiver, trans_value = out, is_deal = False\<rparr>]),
     NativeTokenReserves := (NativeTokenReserves (rdexn t))(y := saturating_sub (NativeTokenReserves (rdexn s) y) out)\<rparr>)"
  using assms kept_in_snoc [of "queue_at y b (rdexn s)"]
  by (intro payments_kept_put [where y = y and b = b])
    (auto simp: queue_at_def value_of_snoc unat_saturating_sub word_less_nat_alt)

lemma swap_payments:
  fixes s :: "('c, 'call, 'z) rdexn_state_scheme"
  shows "keeps (\<lambda>t. payments_kept (rdexn s) (rdexn t)) (swap_rtoken_for_native_token X C o' receiver y v m g s)"
proof -
  let ?P = "\<lambda>t :: ('c, 'call, 'z) rdexn_state_scheme. payments_kept (rdexn s) (rdexn t)"
  have same: "payments_kept (rdexn s) (rdexn s)" by (rule payments_kept_same) simp_all
  have fee: "keeps ?P (run_if b (native_transfer X a c f) s)" for a b c f
    by (intro run_if_keeps transfers_keep_rdexn same)
  have feeD: "rdexn t = rdexn s" if "run_if b (native_transfer X a c f) s = (Ok u, t)" for a b c f u and t :: "('c, 'call, 'z) rdexn_state_scheme"
    using that by (auto simp: run_if_def rdexn_frame split: if_splits)
  show ?thesis
    unfolding swap_rtoken_for_native_token_def Let_def
    by (intro guard_keeps same and_then_keeps [OF fee] and_then_keeps return_keeps transfers_keep_rdexn)
      (auto simp: rdexn_frame feeD same intro!: queued_payment)
qed

lemma setting_kept:
  assumes "\<And>m. TransInfos (f m) = TransInfos m" "\<And>m. NativeTokenReserves (f m) = NativeTokenReserves m"
  shows "payments_kept (rdexn s) (rdexn (snd (ensure_root o' s (Ok (), rdexn_update f s))))"
  by (cases o') (auto simp: assms intro: payments_kept_same)

lemma step_payments:
  fixes s t :: "('c, 'call, 'z) rdexn_state_scheme"
  assumes "rdexn_step X C s t"
  shows "payments_kept (rdexn s) (rdexn t)"
proof -
  have same: "payments_kept (rdexn s) (rdexn s)" by (rule payments_kept_same) simp_all
  show ?thesis
    using assms
  proof cases
    case (swap o' receiver y v m g)
    with swap_payments show ?thesis by (simp add: keeps_def)
  next
    case (swap_fis o' account v m g)
    have "keeps (\<lambda>t. payments_kept (rdexn s) (rdexn t)) (swap_rfis_for_fis_token X o' account v m g s)"
      unfolding swap_rfis_for_fis_token_def Let_def
      by (intro run_keeps transfers_keep_rdexn same) (auto simp: rdexn_frame)
    with swap_fis show ?thesis by (simp add: keeps_def)
  next
    case (report_block o' y b)
    have "keeps (\<lambda>t. payments_kept (rdexn s) (rdexn t)) (report_transfer_result_with_block o' y b s)"
      unfolding report_transfer_result_with_block_def Let_def queue_at_def [symmetric]
      by (intro run_keeps same) (auto simp: rdexn_frame intro: dealt_kept [where y = y and b = b] payments_kept_same)
    with report_block show ?thesis by (simp add: keeps_def)
  next
    case (report_index o' y b i)
    have "keeps (\<lambda>t. payments_kept (rdexn s) (rdexn t)) (report_transfer_result_with_index o' y b i s)"
      unfolding report_transfer_result_with_index_def Let_def queue_at_def [symmetric] vec_get_def
      by (intro run_keeps same) (auto simp: rdexn_frame keeps_def ok_or_def
          intro: dealt_one_kept [where y = y and b = b and i = "unat i"] payments_kept_same)
    with report_index show ?thesis by (simp add: keeps_def)
  next
    case (set_latest o' y b)
    then show ?thesis by (cases o') (auto simp: set_latest_deal_block_def same simp flip: queue_at_def intro: dealt_kept [where y = y and b = b])
  next
    case (signatures o' y b pid sig)
    have "keeps (\<lambda>t. payments_kept (rdexn s) (rdexn t)) (rdexn_submit_signatures o' y b pid sig s)"
      unfolding rdexn_submit_signatures_def Let_def
      by (intro run_keeps same) (simp add: rdexn_frame same)
    with signatures show ?thesis by (simp add: keeps_def)
  qed (simp_all add: toggle_swap_total_switch_def toggle_swap_rtoken_switch_def rdexn_set_fund_address_def
      set_native_pool_address_def set_swap_fee_def set_swap_rate_def set_swap_limit_per_block_def setting_kept)
qed

section \<open>Property\<close>

text \<open>
  C26. No payment is lost or made up: over any sequence of swaps, reports, signatures and settings, failing
  ones included, every queued payment stays in its block, at its place, with its receiver and value, and a
  paid one stays paid; and the reserve of a token together with its queued payments stays the same, so that
  each swap takes exactly what it queues from the reserve.
\<close>

theorem payments_are_kept:
  fixes s t :: "('c, 'call, 'z) rdexn_state_scheme"
  assumes "(rdexn_step X C)\<^sup>*\<^sup>* s t"
  shows "kept_in (queue_at y b (rdexn s)) (queue_at y b (rdexn t))
    \<and> unat (NativeTokenReserves (rdexn t) y) + queued y (rdexn t) = unat (NativeTokenReserves (rdexn s) y) + queued y (rdexn s)"
  using assms
proof induction
  case base
  show ?case by (simp add: kept_in_refl)
next
  case (step t u)
  have "kept_in (queue_at y b (rdexn t)) (queue_at y b (rdexn u))"
    "unat (NativeTokenReserves (rdexn u) y) + queued y (rdexn u) = unat (NativeTokenReserves (rdexn t) y) + queued y (rdexn t)"
    using step_payments [OF step(2)] by (simp_all add: payments_kept_def)
  with step(3) show ?case by (auto intro: kept_in_trans)
qed

definition sample_rdexn :: "(AccountId \<Rightarrow> u128, unit) rdexn_state" where
  "sample_rdexn = xclaim_state.extend (sample_xclaim\<lparr>payers := empty_relayers\<lparr>RelayerThreshold := (\<lambda>_. 1), Relayers := (\<lambda>_ _. True)\<rparr>\<rparr>)
     \<lparr>rdexn = empty_rdexn\<lparr>TransInfos := [(RDOT, 12) \<mapsto> [\<lparr>trans_account = 5, trans_receiver = [1], trans_value = 70, is_deal = False\<rparr>]],
        NativeTokenReserves := (\<lambda>_. 30)\<rparr>, rdexn_sigs = \<lparr>RSignatures = (\<lambda>_ _. None), RAccountSignature = (\<lambda>_. None)\<rparr>\<rparr>"

lemma sample_block_report:
  "\<exists>t :: (AccountId \<Rightarrow> u128, unit) rdexn_state. report_transfer_result_with_block (Signed 3) RDOT 12 sample_rdexn = (Ok (), t)
   \<and> queue_at RDOT 12 (rdexn t) = [\<lparr>trans_account = 5, trans_receiver = [1], trans_value = 70, is_deal = True\<rparr>]"
  by (simp add: report_transfer_result_with_block_def sample_rdexn_def empty_rdexn_def is_payer_def is_relayer_def
      xclaim_state.defs Let_def unwrap_or_def deal_all_def deposit_event_def queue_at_def)

theorem payments_are_kept_witness:
  "\<exists>t :: (AccountId \<Rightarrow> u128, unit) rdexn_state. (rdexn_step plain_config plain_crypto)\<^sup>*\<^sup>* sample_rdexn t
   \<and> queue_at RDOT 12 (rdexn t) = [\<lparr>trans_account = 5, trans_receiver = [1], trans_value = 70, is_deal = True\<rparr>]
   \<and> kept_in (queue_at RDOT 12 (rdexn sample_rdexn)) (queue_at RDOT 12 (rdexn t))"
proof -
  obtain t :: "(AccountId \<Rightarrow> u128, unit) rdexn_state" where
    t: "report_transfer_result_with_block (Signed 3) RDOT 12 sample_rdexn = (Ok (), t)"
    "queue_at RDOT 12 (rdexn t) = [\<lparr>trans_account = 5, trans_receiver = [1], trans_value = 70, is_deal = True\<rparr>]"
    using sample_block_report by blast
  have "rdexn_step plain_config plain_crypto sample_rdexn t"
    using rdexn_step.report_block [of plain_config plain_crypto sample_rdexn "Signed 3" RDOT 12] t(1) by simp
  then have run: "(rdexn_step plain_config plain_crypto)\<^sup>*\<^sup>* sample_rdexn t" by blast
  from payments_are_kept [OF run, of RDOT 12] t(2) run show ?thesis by blast
qed

end
