(* ===== verification/Binary_Search.thy ===== *)
theory Binary_Search
  imports Prelude
begin

text \<open>
  Vectors kept sorted by \<open>binary_search\<close>, \<open>insert\<close> and \<open>remove\<close>, as \<open>rtoken/rfis\<close> keeps its pools and its
  validators. The search is the loop of the standard library; what its clients rely on is the locale
  \<open>sorted_vec\<close>, and the loop is shown to provide it.
\<close>

section \<open>The search\<close>

text \<open>
  \<open>slice::binary_search\<close>: the loop halves the size of the range until one element is left.
\<close>

function bsearch_base :: "'a::linorder list \<Rightarrow> 'a \<Rightarrow> nat \<Rightarrow> nat \<Rightarrow> nat" where
  "bsearch_base xs x base size' =
     (if size' > 1
      then let half = size' div 2; mid = base + half
           in bsearch_base xs x (if xs ! mid > x then base else mid) (size' - half)
      else base)"
  by pat_completeness auto
termination by (relation "measure (\<lambda>(_, _, _, n). n)") auto

declare bsearch_base.simps [simp del]

definition binary_search :: "'a::linorder list \<Rightarrow> 'a \<Rightarrow> nat + nat" where
  "binary_search xs x =
     (if xs = [] then Inr 0
      else let base = bsearch_base xs x 0 (length xs)
           in if xs ! base = x then Inl base else if xs ! base < x then Inr (base + 1) else Inr base)"

text \<open>\<open>Vec::insert(i, x)\<close>.\<close>

definition insert_nth :: "nat \<Rightarrow> 'a \<Rightarrow> 'a list \<Rightarrow> 'a list" where
  "insert_nth i x xs = take i xs @ x # drop i xs"

section \<open>What a client relies on\<close>

abbreviation strictly_sorted :: "'a::linorder list \<Rightarrow> bool" where
  "strictly_sorted \<equiv> sorted_wrt (<)"

locale sorted_vec =
  fixes search :: "'a::linorder list \<Rightarrow> 'a \<Rightarrow> nat + nat"
  assumes found: "search xs x = Inl i \<Longrightarrow> i < length xs \<and> xs ! i = x"
    and missing: "strictly_sorted xs \<Longrightarrow> search xs x = Inr i \<Longrightarrow>
        i \<le> length xs \<and> (\<forall>y\<in>set (take i xs). y < x) \<and> (\<forall>y\<in>set (drop i xs). x < y)"
begin

lemma search_mem:
  assumes "strictly_sorted xs"
  shows "(\<exists>i. search xs x = Inl i) \<longleftrightarrow> x \<in> set xs"
proof (cases "search xs x")
  case (Inl i)
  then show ?thesis using found [OF Inl] nth_mem [of i xs] by auto
next
  case (Inr i)
  have "set xs = set (take i xs) \<union> set (drop i xs)"
    by (metis append_take_drop_id set_append)
  with missing [OF assms Inr] Inr show ?thesis by auto
qed

lemma insert_at_missing:
  assumes "strictly_sorted xs" "search xs x = Inr i"
  shows "strictly_sorted (insert_nth i x xs)" "set (insert_nth i x xs) = insert x (set xs)"
    "length (insert_nth i x xs) = Suc (length xs)"
proof -
  have parts: "strictly_sorted (take i xs @ drop i xs)" using assms(1) by simp
  have mem: "set (take i xs) \<union> set (drop i xs) = set xs"
    by (metis append_take_drop_id set_append)
  note m = missing [OF assms]
  show "strictly_sorted (insert_nth i x xs)"
    using parts m unfolding insert_nth_def by (auto simp only: sorted_wrt_append sorted_wrt.simps set_simps ball_simps)
  show "set (insert_nth i x xs) = insert x (set xs)"
    using mem by (auto simp: insert_nth_def)
  show "length (insert_nth i x xs) = Suc (length xs)"
    using m by (auto simp: insert_nth_def)
qed

lemma remove_at_found:
  assumes "strictly_sorted xs" "search xs x = Inl i"
  shows "strictly_sorted (remove_nth i xs)" "set (remove_nth i xs) = set xs - {x}"
    "length (remove_nth i xs) < length xs"
proof -
  note f = found [OF assms(2)]
  then have split: "xs = take i xs @ x # drop (Suc i) xs"
    using id_take_nth_drop [of i xs] by simp
  then have s: "strictly_sorted (take i xs @ x # drop (Suc i) xs)" using assms(1) by simp
  then show "strictly_sorted (remove_nth i xs)"
    by (simp add: remove_nth_def sorted_wrt_append)
  have "set xs = set (take i xs) \<union> {x} \<union> set (drop (Suc i) xs)"
    by (subst split) auto
  with s show "set (remove_nth i xs) = set xs - {x}"
    by (auto simp: remove_nth_def sorted_wrt_append)
  show "length (remove_nth i xs) < length xs"
    using f length_remove_nth [of i xs] by linarith
qed

end

section \<open>The loop provides it\<close>

lemma bsearch_base_step:
  "bsearch_base xs x base n =
     (if n > 1 then bsearch_base xs x (if xs ! (base + n div 2) > x then base else base + n div 2) (n - n div 2)
      else base)"
  by (subst bsearch_base.simps) (simp add: Let_def)

lemma bsearch_base_bound:
  "0 < n \<Longrightarrow> base + n \<le> length xs \<Longrightarrow> bsearch_base xs x base n < length xs"
proof (induction n arbitrary: base rule: less_induct)
  case (less n)
  show ?case
  proof (cases "n > 1")
    case True
    then show ?thesis
      using less.prems by (subst bsearch_base_step) (auto intro!: less.IH)
  next
    case False
    then show ?thesis
      using less.prems by (subst bsearch_base_step) auto
  qed
qed

text \<open>
  The loop keeps \<open>xs[base] \<le> x\<close> unless the base is still 0, and everything from the end of the range on is
  greater than \<open>x\<close>.
\<close>

lemma bsearch_base_position:
  assumes "strictly_sorted xs"
  shows "0 < n \<Longrightarrow> base + n \<le> length xs \<Longrightarrow> base = 0 \<or> xs ! base \<le> x
     \<Longrightarrow> \<forall>j<length xs. base + n \<le> j \<longrightarrow> x < xs ! j \<Longrightarrow> b = bsearch_base xs x base n
     \<Longrightarrow> (b = 0 \<or> xs ! b \<le> x) \<and> (\<forall>j<length xs. b < j \<longrightarrow> x < xs ! j)"
proof (induction n arbitrary: base rule: less_induct)
  case (less n)
  show ?case
  proof (cases "n > 1")
    case True
    let ?m = "base + n div 2"
    have b: "b = bsearch_base xs x (if xs ! ?m > x then base else ?m) (n - n div 2)"
      using less.prems(5) True by (simp add: bsearch_base_step [of xs x base n])
    have above: "x < xs ! j" if "xs ! ?m > x" "j < length xs" "?m \<le> j" for j
      using that assms sorted_wrt_nth_less [of "(<)" xs ?m j] by (cases "j = ?m") auto
    show ?thesis
    proof (rule less.IH [of "n - n div 2" "if xs ! ?m > x then base else ?m"])
      show "\<forall>j<length xs. (if x < xs ! ?m then base else ?m) + (n - n div 2) \<le> j \<longrightarrow> x < xs ! j"
        using less.prems(4) above by auto
    qed (use True less.prems b in auto)
  next
    case False
    then have "n = 1" "b = base"
      using less.prems(1,5) by (auto simp: bsearch_base_step [of xs x base n])
    then show ?thesis using less.prems by auto
  qed
qed

lemma binary_search_found: "binary_search xs x = Inl i \<Longrightarrow> i < length xs \<and> xs ! i = x"
  using bsearch_base_bound [of "length xs" 0 xs x]
  by (auto simp: binary_search_def Let_def split: if_splits)

lemma binary_search_missing:
  assumes "strictly_sorted xs" "binary_search xs x = Inr i"
  shows "i \<le> length xs \<and> (\<forall>y\<in>set (take i xs). y < x) \<and> (\<forall>y\<in>set (drop i xs). x < y)"
proof (cases "xs = []")
  case True
  then show ?thesis using assms(2) by (simp add: binary_search_def)
next
  case False
  define b where "b = bsearch_base xs x 0 (length xs)"
  have b: "b < length xs" "b = 0 \<or> xs ! b \<le> x" "\<And>j. j < length xs \<Longrightarrow> b < j \<Longrightarrow> x < xs ! j"
    using False bsearch_base_bound [of "length xs" 0 xs x]
      bsearch_base_position [OF assms(1), of "length xs" 0 x b] by (auto simp: b_def)
  have i: "xs ! b \<noteq> x" "i = (if xs ! b < x then b + 1 else b)"
    using assms(2) False by (auto simp: binary_search_def Let_def b_def split: if_splits)
  have below: "xs ! j < x" if "j < i" for j
    using that i b(1,2) assms(1) sorted_wrt_nth_less [of "(<)" xs j b]
    by (cases "j = b") (auto split: if_splits)
  have above: "x < xs ! j" if "i \<le> j" "j < length xs" for j
    using that i b(3) [of j] by (cases "j = b") (auto split: if_splits)
  have len: "i \<le> length xs" using i b(1) by simp
  have "y < x" if "y \<in> set (take i xs)" for y
    using that len below by (auto simp: in_set_conv_nth)
  moreover have "x < y" if "y \<in> set (drop i xs)" for y
  proof -
    from that obtain k where "k < length xs - i" "y = xs ! (i + k)"
      using len by (auto simp: in_set_conv_nth)
    then show ?thesis using above [of "i + k"] by simp
  qed
  ultimately show ?thesis using len by blast
qed

interpretation bs: sorted_vec binary_search
  by unfold_locales (rule binary_search_found, assumption, rule binary_search_missing)

end
