(* ===== verification/RFis.thy ===== *)
theory RFis
  imports RDexn Binary_Search
begin

text \<open>
  \<open>rtoken/rfis\<close>: liquid staking of the native token. Pools of the pallet are stashes of \<open>pallet_staking\<close>; users
  bond through them for rFIS and unbond; offchain workers submit, as unsigned transactions, what the pools
  have bonded before and after the payouts of an era, and the end of a block sets the rate from it. The
  storage and functions of \<open>pallet_staking\<close> and \<open>pallet_session\<close> that the pallet uses are a parameter.
\<close>

section \<open>Data, storage and external code\<close>

record UnlockChunk =
  unlock_value :: u128
  unlock_at :: EraIndex

record StakingLedger =
  sl_stash :: AccountId
  sl_total :: u128
  sl_active :: u128
  sl_unlocking :: "UnlockChunk list"
  sl_claimed_rewards :: "EraIndex list"

text \<open>
  The state \<open>'k\<close> of the staking and session pallets is read and written through these functions; the ones that
  also lock or pay the native currency work on both states. \<open>bond_stash\<close> inserts a stash as its own
  controller with payee \<open>Staked\<close> and takes a reference on its account.
\<close>

record ('c, 'k) staking_api =
  ActiveEra :: "'k \<Rightarrow> EraIndex option"
  CurrentEra :: "'k \<Rightarrow> EraIndex option"
  election_closed :: "'k \<Rightarrow> bool"
  StakingLedgers :: "'k \<Rightarrow> AccountId \<Rightarrow> StakingLedger option"
  Bonded :: "'k \<Rightarrow> AccountId \<Rightarrow> bool"
  bond_stash :: "AccountId \<Rightarrow> 'k \<times> 'c \<Rightarrow> 'k \<times> 'c"
  update_ledger :: "AccountId \<Rightarrow> StakingLedger \<Rightarrow> 'k \<times> 'c \<Rightarrow> 'k \<times> 'c"
  consolidate_unlocked :: "EraIndex \<Rightarrow> StakingLedger \<Rightarrow> StakingLedger"
  do_payout_stakers :: "AccountId \<Rightarrow> EraIndex \<Rightarrow> 'k \<times> 'c \<Rightarrow> bool \<times> 'k \<times> 'c"
  put_nominations :: "AccountId \<Rightarrow> AccountId list \<Rightarrow> EraIndex \<Rightarrow> bool \<Rightarrow> 'k \<Rightarrow> 'k"
  validator_commission :: "'k \<Rightarrow> AccountId \<Rightarrow> Perbill option"
  eras_stakers_total :: "'k \<Rightarrow> EraIndex \<Rightarrow> AccountId \<Rightarrow> u128"
  has_reward_points :: "'k \<Rightarrow> EraIndex \<Rightarrow> AccountId \<Rightarrow> bool"
  clipped_nominators :: "'k \<Rightarrow> EraIndex \<Rightarrow> AccountId \<Rightarrow> AccountId list"
  validator_id_of :: "'k \<Rightarrow> AccountId \<Rightarrow> AccountId option"
  load_keys :: "'k \<Rightarrow> AccountId \<Rightarrow> bool"
  BondingDuration :: EraIndex
  MAX_NOMINATIONS :: nat
  UnsignedPriority :: u64

record rfis_store =
  Pools :: "AccountId list"
  OnboardValidators :: "AccountId list"
  PoolBalanceLimit :: u128
  RFisReceiver :: "AccountId option"
  RFisCommission :: Perbill
  MaxValidatorCommission :: Perbill
  NominateSwitch :: bool
  MinNominationNum :: u8
  MaxNominationNum :: u8
  BondedBeforePayout :: "EraIndex \<Rightarrow> u128 option"
  BondedAfterPayout :: "EraIndex \<Rightarrow> u128 option"
  Paidouts :: "EraIndex \<Rightarrow> AccountId \<Rightarrow> bool option"
  PoolPaidouts :: "EraIndex \<Rightarrow> AccountId \<times> AccountId \<Rightarrow> bool option"
  Unbonding :: "AccountId \<Rightarrow> AccountId \<Rightarrow> UnlockChunk list option"
  Nominated :: "EraIndex \<Rightarrow> AccountId \<Rightarrow> AccountId list option"
  NominatedValidators :: "EraIndex \<Rightarrow> AccountId list"
  UnlockedPools :: "EraIndex \<Rightarrow> AccountId list option"
  RFisUnbondCommission :: Perbill

definition empty_rfis :: rfis_store where
  "empty_rfis = \<lparr>Pools = [], OnboardValidators = [], PoolBalanceLimit = 0, RFisReceiver = None, RFisCommission = 100000000,
     MaxValidatorCommission = 100000000, NominateSwitch = False, MinNominationNum = 3, MaxNominationNum = 10,
     BondedBeforePayout = (\<lambda>_. None), BondedAfterPayout = (\<lambda>_. None), Paidouts = (\<lambda>_ _. None), PoolPaidouts = (\<lambda>_ _. None),
     Unbonding = (\<lambda>_ _. None), Nominated = (\<lambda>_ _. None), NominatedValidators = (\<lambda>_. []), UnlockedPools = (\<lambda>_. None),
     RFisUnbondCommission = 2000000\<rparr>"

definition MAX_ONBOARD_VALIDATORS :: nat where
  "MAX_ONBOARD_VALIDATORS = 300"

definition DEFAULT_LONGEVITY :: u64 where
  "DEFAULT_LONGEVITY = 600"

record ('c, 'call, 'k) rfis_state = "('c, 'call) rdexn_state" +
  rfis :: rfis_store
  staking :: 'k

type_synonym ('c, 'call, 'k, 'z) rfis_run =
  "(dispatch_error, unit, ('c, 'call, 'k, 'z) rfis_state_scheme) run"

definition ensure_none :: "origin \<Rightarrow> 's \<Rightarrow> (dispatch_error, 'a, 's) run \<Rightarrow> (dispatch_error, 'a, 's) run" where
  "ensure_none o' s k = (case o' of Unsigned \<Rightarrow> k | _ \<Rightarrow> (Err BadOrigin, s))"

text \<open>A function of the staking pallet that changes its state and the native currency.\<close>

definition on_staking ::
    "('k \<times> 'c \<Rightarrow> 'k \<times> 'c) \<Rightarrow> ('c, 'call, 'k, 'z) rfis_state_scheme \<Rightarrow> ('c, 'call, 'k, 'z) rfis_state_scheme" where
  "on_staking f s = (case f (staking s, native s) of (k, c) \<Rightarrow> s\<lparr>native := c, staking := k\<rparr>)"

section \<open>Helpers of the pallet\<close>

definition is_in_pools :: "AccountId \<Rightarrow> ('c, 'call, 'k, 'z) rfis_state_scheme \<Rightarrow> bool" where
  "is_in_pools pool s \<longleftrightarrow> pool \<in> set (Pools (rfis s))"

definition bonded_of :: "('c, 'k) staking_api \<Rightarrow> AccountId \<Rightarrow> ('c, 'call, 'k, 'z) rfis_state_scheme \<Rightarrow> u128" where
  "bonded_of K pool s = (case StakingLedgers K (staking s) pool of None \<Rightarrow> 0 | Some l \<Rightarrow> sl_active l)"

definition bond_extra ::
    "'c config \<Rightarrow> ('c, 'k) staking_api \<Rightarrow> AccountId \<Rightarrow> StakingLedger \<Rightarrow> u128
     \<Rightarrow> ('c, 'call, 'k, 'z) rfis_state_scheme \<Rightarrow> ('c, 'call, 'k, 'z) rfis_state_scheme" where
  "bond_extra X K controller l max_additional s =
     (case checked_sub (native_free_balance X controller s) (sl_total l) of
        None \<Rightarrow> s
      | Some extra0 \<Rightarrow>
          let extra = min extra0 max_additional
          in on_staking (update_ledger K controller (l\<lparr>sl_total := sl_total l + extra, sl_active := sl_active l + extra\<rparr>)) s)"

definition bonded_pools :: "('c, 'k) staking_api \<Rightarrow> ('c, 'call, 'k, 'z) rfis_state_scheme \<Rightarrow> AccountId list" where
  "bonded_pools K s = filter (\<lambda>p. StakingLedgers K (staking s) p \<noteq> None) (Pools (rfis s))"

definition total_bonded :: "('c, 'k) staking_api \<Rightarrow> ('c, 'call, 'k, 'z) rfis_state_scheme \<Rightarrow> u128" where
  "total_bonded K s = foldl (\<lambda>acc p. acc + bonded_of K p s) 0 (bonded_pools K s)"

definition validator_stake :: "('c, 'k) staking_api \<Rightarrow> EraIndex \<Rightarrow> AccountId \<Rightarrow> ('c, 'call, 'k, 'z) rfis_state_scheme \<Rightarrow> u128" where
  "validator_stake K era v s = eras_stakers_total K (staking s) era v"

text \<open>\<open>sort_by\<close> is stable; comparing the second with the first sorts downwards.\<close>

definition sort_down :: "('a \<Rightarrow> u128) \<Rightarrow> 'a list \<Rightarrow> 'a list" where
  "sort_down key xs = sort_key (\<lambda>x. - uint (key x)) xs"

definition nominatable_validators ::
    "('c, 'k) staking_api \<Rightarrow> EraIndex \<Rightarrow> EraIndex \<Rightarrow> ('c, 'call, 'k, 'z) rfis_state_scheme \<Rightarrow> AccountId list" where
  "nominatable_validators K last_era current_era s =
     (let nomee = NominatedValidators (rfis s) current_era;
          onboards = filter (\<lambda>v. (case validator_commission K (staking s) v of
              None \<Rightarrow> False | Some c \<Rightarrow> c \<le> MaxValidatorCommission (rfis s)) \<and> v \<notin> set nomee) (OnboardValidators (rfis s))
      in sort_down (\<lambda>v. validator_stake K last_era v s) onboards)"

definition is_validator :: "('c, 'k) staking_api \<Rightarrow> EraIndex \<Rightarrow> AccountId \<Rightarrow> ('c, 'call, 'k, 'z) rfis_state_scheme \<Rightarrow> bool" where
  "is_validator K era t s = has_reward_points K (staking s) era t"

definition unbond_fee :: "'c config \<Rightarrow> u128 \<Rightarrow> ('c, 'call, 'k, 'z) rfis_state_scheme \<Rightarrow> u128" where
  "unbond_fee X v s = perbill_mul X (RFisUnbondCommission (rfis s)) v"

definition is_actived ::
    "('c, 'k) staking_api \<Rightarrow> EraIndex \<Rightarrow> AccountId \<Rightarrow> AccountId \<Rightarrow> ('c, 'call, 'k, 'z) rfis_state_scheme \<Rightarrow> bool" where
  "is_actived K era validator pool s \<longleftrightarrow> pool \<in> set (clipped_nominators K (staking s) era validator)"

section \<open>Administration\<close>

definition rfis_add_new_pool ::
    "'c config \<Rightarrow> origin \<Rightarrow> bytes \<Rightarrow> ('c, 'call, 'k, 'z) rfis_state_scheme \<Rightarrow> ('c, 'call, 'k, 'z) rfis_run" where
  "rfis_add_new_pool X o' module_id s =
     ensure_root o' s
    (ensure (length module_id = 8) (RFisErr rfis_error.ModuleIDLengthNotEight) s
    (let pool = into_account X (map (\<lambda>b. char_of (unat b)) module_id)
     in case binary_search (Pools (rfis s)) pool of
          Inl _ \<Rightarrow> (Err (RFisErr rfis_error.ModuleIDRepeated), s)
        | Inr location \<Rightarrow>
            (Ok (), deposit_event (RFisEv (rfis_event.NewPool module_id pool))
               (rfis_update (\<lambda>m. m\<lparr>Pools := insert_nth location pool (Pools m)\<rparr>) s))))"

definition bond_for_pool ::
    "'c config \<Rightarrow> ('c, 'k) staking_api \<Rightarrow> origin \<Rightarrow> bytes \<Rightarrow> ('c, 'call, 'k, 'z) rfis_state_scheme \<Rightarrow> ('c, 'call, 'k, 'z) rfis_run" where
  "bond_for_pool X K o' pool s =
     ensure_root o' s
    (ok_or (lookup X pool) CannotLookup s (\<lambda>stash.
     case binary_search (Pools (rfis s)) stash of
       Inr _ \<Rightarrow> (Err (RFisErr rfis_error.PoolNotFound), s)
     | Inl _ \<Rightarrow>
         ensure (\<not> Bonded K (staking s) stash) (StakingErr AlreadyBonded) s
        (ensure (StakingLedgers K (staking s) stash = None) (StakingErr AlreadyPaired) s
          (Ok (), on_staking (update_ledger K stash \<lparr>sl_stash = stash, sl_total = 0, sl_active = 0, sl_unlocking = [], sl_claimed_rewards = []\<rparr>)
             (on_staking (bond_stash K stash) s)))))"

definition toggle_nominate_switch :: "origin \<Rightarrow> ('c, 'call, 'k, 'z) rfis_state_scheme \<Rightarrow> ('c, 'call, 'k, 'z) rfis_run" where
  "toggle_nominate_switch o' s =
     ensure_root o' s
       (let state = NominateSwitch (rfis s)
        in (Ok (), deposit_event (RFisEv (rfis_event.NominateSwitchToggle (\<not> state))) (rfis_update (\<lambda>m. m\<lparr>NominateSwitch := \<not> state\<rparr>) s)))"

definition set_min_nomination_num :: "origin \<Rightarrow> u8 \<Rightarrow> ('c, 'call, 'k, 'z) rfis_state_scheme \<Rightarrow> ('c, 'call, 'k, 'z) rfis_run" where
  "set_min_nomination_num o' new_num s =
     ensure_root o' s
    (ensure (new_num > 0 \<and> new_num \<le> MaxNominationNum (rfis s))
       (Other ''min_nomination_num should in (0, max_nomination_num]'') s
       (Ok (), deposit_event (RFisEv (rfis_event.MinNominationNumSet new_num)) (rfis_update (\<lambda>m. m\<lparr>MinNominationNum := new_num\<rparr>) s)))"

definition set_max_nomination_num ::
    "('c, 'k) staking_api \<Rightarrow> origin \<Rightarrow> u8 \<Rightarrow> ('c, 'call, 'k, 'z) rfis_state_scheme \<Rightarrow> ('c, 'call, 'k, 'z) rfis_run" where
  "set_max_nomination_num K o' new_num s =
     ensure_root o' s
    (ensure (new_num \<ge> MinNominationNum (rfis s) \<and> unat new_num \<le> MAX_NOMINATIONS K)
       (Other ''max_nomination_num should in [min_nomination_num, MAX_NOMINATIONS]'') s
       (Ok (), deposit_event (RFisEv (rfis_event.MaxNominationNumSet new_num)) (rfis_update (\<lambda>m. m\<lparr>MaxNominationNum := new_num\<rparr>) s)))"

definition rfis_set_commission ::
    "'c config \<Rightarrow> origin \<Rightarrow> u32 \<Rightarrow> ('c, 'call, 'k, 'z) rfis_state_scheme \<Rightarrow> ('c, 'call, 'k, 'z) rfis_run" where
  "rfis_set_commission X o' new_part s =
     ensure_root o' s
       (let new_commission = perbill_from_parts X new_part
        in (Ok (), deposit_event (RFisEv (rfis_event.CommissionUpdated (RFisCommission (rfis s)) new_commission))
             (rfis_update (\<lambda>m. m\<lparr>RFisCommission := new_commission\<rparr>) s)))"

definition set_max_validator_commission ::
    "'c config \<Rightarrow> origin \<Rightarrow> u32 \<Rightarrow> ('c, 'call, 'k, 'z) rfis_state_scheme \<Rightarrow> ('c, 'call, 'k, 'z) rfis_run" where
  "set_max_validator_commission X o' new_part s =
     ensure_root o' s
       (let new_commission = perbill_from_parts X new_part
        in (Ok (), deposit_event (RFisEv (rfis_event.MaxValidatorCommissionUpdated (MaxValidatorCommission (rfis s)) new_commission))
             (rfis_update (\<lambda>m. m\<lparr>MaxValidatorCommission := new_commission\<rparr>) s)))"

definition rfis_set_balance_limit ::
    "origin \<Rightarrow> u128 \<Rightarrow> ('c, 'call, 'k, 'z) rfis_state_scheme \<Rightarrow> ('c, 'call, 'k, 'z) rfis_run" where
  "rfis_set_balance_limit o' new_limit s =
     ensure_root o' s
       (Ok (), deposit_event (RFisEv (rfis_event.PoolBalanceLimitUpdated (PoolBalanceLimit (rfis s)) new_limit))
          (rfis_update (\<lambda>m. m\<lparr>PoolBalanceLimit := new_limit\<rparr>) s))"

definition rfis_set_receiver ::
    "'c config \<Rightarrow> origin \<Rightarrow> bytes \<Rightarrow> ('c, 'call, 'k, 'z) rfis_state_scheme \<Rightarrow> ('c, 'call, 'k, 'z) rfis_run" where
  "rfis_set_receiver X o' new_receiver s =
     ensure_root o' s (ok_or (lookup X new_receiver) CannotLookup s (\<lambda>dest.
       (Ok (), rfis_update (\<lambda>m. m\<lparr>RFisReceiver := Some dest\<rparr>) s)))"

definition rfis_set_unbond_commission ::
    "'c config \<Rightarrow> origin \<Rightarrow> u32 \<Rightarrow> ('c, 'call, 'k, 'z) rfis_state_scheme \<Rightarrow> ('c, 'call, 'k, 'z) rfis_run" where
  "rfis_set_unbond_commission X o' new_part s =
     ensure_root o' s (Ok (), rfis_update (\<lambda>m. m\<lparr>RFisUnbondCommission := perbill_from_parts X new_part\<rparr>) s)"

definition add_pool_unlock ::
    "'c config \<Rightarrow> ('c, 'k) staking_api \<Rightarrow> origin \<Rightarrow> bytes \<Rightarrow> UnlockChunk \<Rightarrow> ('c, 'call, 'k, 'z) rfis_state_scheme
     \<Rightarrow> ('c, 'call, 'k, 'z) rfis_run" where
  "add_pool_unlock X K o' pool chunk s =
     ensure_root o' s
    (ok_or (lookup X pool) CannotLookup s (\<lambda>controller.
     ensure (is_in_pools controller s) (RFisErr rfis_error.PoolNotFound) s
    (ok_or (StakingLedgers K (staking s) controller) (StakingErr NotController) s (\<lambda>l.
     ok_or (CurrentEra K (staking s)) (RFisErr rfis_error.NoCurrentEra) s (\<lambda>current_era.
     ensure (unlock_at chunk > current_era) (RFisErr rfis_error.UnlockChunkEraTooSmall) s
    (ensure (unlock_value chunk \<le> sl_active l) (RFisErr rfis_error.UnlockChunkValueTooBig) s
       (Ok (), on_staking (update_ledger K controller (l\<lparr>sl_unlocking := sl_unlocking l @ [chunk]\<rparr>)) s)))))))"

section \<open>The end of a block\<close>

definition rfis_on_finalize ::
    "'c config \<Rightarrow> ('c, 'k) staking_api \<Rightarrow> ('c, 'call, 'k, 'z) rfis_state_scheme \<Rightarrow> ('c, 'call, 'k, 'z) rfis_state_scheme" where
  "rfis_on_finalize X K s =
     (case ActiveEra K (staking s) of
        None \<Rightarrow> s
      | Some era \<Rightarrow>
          if EraRate (rates s) RFIS era \<noteq> None then s
          else case (BondedBeforePayout (rfis s) era, BondedAfterPayout (rfis s) era) of
            (Some before, Some after) \<Rightarrow>
              let s1 = (case RFisReceiver (rfis s) of
                    Some receiver \<Rightarrow>
                      if after > before
                      then snd (rbal_mint receiver RFIS (token_to_rtoken X RFIS (perbill_mul X (RFisCommission (rfis s)) (after - before)) s) s)
                      else s
                  | None \<Rightarrow> s);
                  rbalance = rbal_total_issuance RFIS s1
              in (case set_rate X RFIS after rbalance s1 of (rate, s2) \<Rightarrow> set_era_rate RFIS era rate s2)
          | _ \<Rightarrow> s)"

section \<open>Unsigned submissions\<close>

definition submit_unlocks ::
    "('c, 'k) staking_api \<Rightarrow> origin \<Rightarrow> EraIndex \<Rightarrow> AccountId \<Rightarrow> ('c, 'call, 'k, 'z) rfis_state_scheme \<Rightarrow> ('c, 'call, 'k, 'z) rfis_run" where
  "submit_unlocks K o' era pool s =
     ensure_none o' s
    (ok_or (CurrentEra K (staking s)) (RFisErr rfis_error.NoCurrentEra) s (\<lambda>current_era.
     ensure (era = current_era) (RFisErr rfis_error.NotCurrentEra) s
    (let unlocked = unwrap_or (UnlockedPools (rfis s) era) []
     in ensure (pool \<notin> set unlocked) (RFisErr rfis_error.PoolAlreadyUnlocked) s
       (ok_or (StakingLedgers K (staking s) pool) (StakingErr NotController) s (\<lambda>l.
        (Ok (), rfis_update (\<lambda>m. m\<lparr>UnlockedPools := (UnlockedPools m)(era \<mapsto> unlocked @ [pool])\<rparr>)
           (on_staking (update_ledger K pool (consolidate_unlocked K era l)) s)))))))"

definition submit_total_bonded_before ::
    "('c, 'k) staking_api \<Rightarrow> origin \<Rightarrow> EraIndex \<Rightarrow> u128 \<Rightarrow> ('c, 'call, 'k, 'z) rfis_state_scheme \<Rightarrow> ('c, 'call, 'k, 'z) rfis_run" where
  "submit_total_bonded_before K o' era bonded s =
     ensure_none o' s
    (ok_or (CurrentEra K (staking s)) (RFisErr rfis_error.NoCurrentEra) s (\<lambda>current_era.
     ensure (era = current_era) (RFisErr rfis_error.NotCurrentEra) s
       (Ok (), deposit_event (RFisEv (rfis_event.TotalBondedBeforePayout era bonded))
          (rfis_update (\<lambda>m. m\<lparr>BondedBeforePayout := (BondedBeforePayout m)(era \<mapsto> bonded)\<rparr>) s))))"

definition submit_paidouts ::
    "('c, 'k) staking_api \<Rightarrow> origin \<Rightarrow> EraIndex \<Rightarrow> AccountId \<Rightarrow> AccountId \<Rightarrow> ('c, 'call, 'k, 'z) rfis_state_scheme
     \<Rightarrow> ('c, 'call, 'k, 'z) rfis_run" where
  "submit_paidouts K o' era pool validator s =
     ensure_none o' s
    (ensure (PoolPaidouts (rfis s) era (validator, pool) = None) (RFisErr rfis_error.ValidatorAlreadyPaidout) s
      (case do_payout_stakers K validator era (staking s, native s) of
         (result, k, c) \<Rightarrow>
           (Ok (), deposit_event (RFisEv (rfis_event.ValidatorPaidout era pool validator result))
              (rfis_update (\<lambda>m. m\<lparr>PoolPaidouts := (PoolPaidouts m)(era := (PoolPaidouts m era)((validator, pool) \<mapsto> result))\<rparr>)
                (s\<lparr>native := c, staking := k\<rparr>)))))"

definition submit_total_bonded_after ::
    "('c, 'k) staking_api \<Rightarrow> origin \<Rightarrow> EraIndex \<Rightarrow> u128 \<Rightarrow> ('c, 'call, 'k, 'z) rfis_state_scheme \<Rightarrow> ('c, 'call, 'k, 'z) rfis_run" where
  "submit_total_bonded_after K o' era bonded s =
     ensure_none o' s
    (ok_or (CurrentEra K (staking s)) (RFisErr rfis_error.NoCurrentEra) s (\<lambda>current_era.
     ensure (era = current_era) (RFisErr rfis_error.NotCurrentEra) s
    (ensure (BondedBeforePayout (rfis s) era \<noteq> None) (RFisErr rfis_error.TotalBondedBeforeNotSubmitted) s
       (Ok (), deposit_event (RFisEv (rfis_event.TotalBondedAfterPayout era bonded))
          (rfis_update (\<lambda>m. m\<lparr>BondedAfterPayout := (BondedAfterPayout m)(era \<mapsto> bonded)\<rparr>) s)))))"

definition rfis_update_nominations ::
    "('c, 'k) staking_api \<Rightarrow> EraIndex \<Rightarrow> AccountId list \<Rightarrow> AccountId \<Rightarrow> ('c, 'call, 'k, 'z) rfis_state_scheme
     \<Rightarrow> ('c, 'call, 'k, 'z) rfis_state_scheme" where
  "rfis_update_nominations K current_era targets stash s =
     s\<lparr>staking := put_nominations K stash targets current_era False (staking s)\<rparr>"

definition submit_nomination ::
    "('c, 'k) staking_api \<Rightarrow> origin \<Rightarrow> EraIndex \<Rightarrow> AccountId \<Rightarrow> AccountId list \<Rightarrow> ('c, 'call, 'k, 'z) rfis_state_scheme
     \<Rightarrow> ('c, 'call, 'k, 'z) rfis_run" where
  "submit_nomination K o' era pool targets s =
     ensure_none o' s
    (ensure (election_closed K (staking s)) (StakingErr CallNotAllowed) s
    (ok_or (CurrentEra K (staking s)) (RFisErr rfis_error.NoCurrentEra) s (\<lambda>current_era.
     ensure (era = current_era) (RFisErr rfis_error.NotCurrentEra) s
    (ensure (Nominated (rfis s) era pool = None) (RFisErr rfis_error.PoolAlreadyNominated) s
    (ok_or (StakingLedgers K (staking s) pool) (StakingErr NotController) s (\<lambda>l.
     (Ok (), deposit_event (RFisEv (rfis_event.NominationUpdated current_era targets (sl_stash l)))
        (rfis_update (\<lambda>m. m\<lparr>
           Nominated := (Nominated m)(era := (Nominated m era)(pool \<mapsto> targets)),
           NominatedValidators := (NominatedValidators m)(era := NominatedValidators m era @ targets)\<rparr>)
          (rfis_update_nominations K current_era targets (sl_stash l) s)))))))))"

section \<open>Validators\<close>

definition onboard :: "('c, 'k) staking_api \<Rightarrow> origin \<Rightarrow> ('c, 'call, 'k, 'z) rfis_state_scheme \<Rightarrow> ('c, 'call, 'k, 'z) rfis_run" where
  "onboard K o' s =
     ensure_signed o' s (\<lambda>controller.
     ok_or (StakingLedgers K (staking s) controller) (StakingErr NotController) s (\<lambda>l.
     ok_or (validator_id_of K (staking s) controller) (RFisErr rfis_error.NoAssociatedValidatorId) s (\<lambda>validator_id.
     ensure (load_keys K (staking s) validator_id) (RFisErr rfis_error.NoSessionKey) s
    (ensure (length (OnboardValidators (rfis s)) \<le> MAX_ONBOARD_VALIDATORS) (RFisErr rfis_error.ValidatorLimitReached) s
      (case binary_search (OnboardValidators (rfis s)) (sl_stash l) of
         Inl _ \<Rightarrow> (Err (RFisErr rfis_error.AlreadyOnboard), s)
       | Inr location \<Rightarrow>
           (Ok (), deposit_event (RFisEv (rfis_event.ValidatorOnboard controller (sl_stash l)))
              (rfis_update (\<lambda>m. m\<lparr>OnboardValidators := insert_nth location (sl_stash l) (OnboardValidators m)\<rparr>) s)))))))"

definition offboard :: "('c, 'k) staking_api \<Rightarrow> origin \<Rightarrow> ('c, 'call, 'k, 'z) rfis_state_scheme \<Rightarrow> ('c, 'call, 'k, 'z) rfis_run" where
  "offboard K o' s =
     ensure_signed o' s (\<lambda>controller.
     ok_or (StakingLedgers K (staking s) controller) (StakingErr NotController) s (\<lambda>l.
     case binary_search (OnboardValidators (rfis s)) (sl_stash l) of
       Inr _ \<Rightarrow> (Err (RFisErr rfis_error.NotOnboard), s)
     | Inl location \<Rightarrow>
         (Ok (), deposit_event (RFisEv (rfis_event.ValidatorOffboard controller (sl_stash l)))
            (rfis_update (\<lambda>m. m\<lparr>OnboardValidators := remove_nth location (OnboardValidators m)\<rparr>) s))))"

section \<open>Bonding\<close>

text \<open>The guards \<open>liquidity_bond\<close> and \<open>liquidity_bond_and_swap\<close> share, with what they read.\<close>

definition rfis_bondable ::
    "'c config \<Rightarrow> ('c, 'k) staking_api \<Rightarrow> bytes \<Rightarrow> u128 \<Rightarrow> ('c, 'call, 'k, 'z) rfis_state_scheme
     \<Rightarrow> (AccountId \<Rightarrow> StakingLedger \<Rightarrow> ('c, 'call, 'k, 'z) rfis_run) \<Rightarrow> ('c, 'call, 'k, 'z) rfis_run" where
  "rfis_bondable X K pool v s k =
     ensure (NominateSwitch (rfis s)) (RFisErr rfis_error.NominateSwitchClosed) s
    (ensure (v \<noteq> 0) (RFisErr rfis_error.LiquidityBondZero) s
    (ensure (election_closed K (staking s)) (StakingErr CallNotAllowed) s
    (ok_or (lookup X pool) CannotLookup s (\<lambda>controller.
     ensure (is_in_pools controller s) (RFisErr rfis_error.PoolNotFound) s
    (ok_or (StakingLedgers K (staking s) controller) (RFisErr rfis_error.PoolUnbond) s (\<lambda>l.
     ok_or (ActiveEra K (staking s)) (RFisErr rfis_error.NoCurrentEra) s (\<lambda>active.
     ensure (EraRate (rates s) RFIS active \<noteq> None) (RFisErr rfis_error.EraRateNotUpdated) s
    (ok_or (checked_add (bonded_of K controller s) v) (RFisErr rfis_error.Overflow) s (\<lambda>bonded.
     ensure (PoolBalanceLimit (rfis s) = 0 \<or> bonded \<le> PoolBalanceLimit (rfis s)) (RFisErr rfis_error.PoolLimitReached) s
      (k controller l))))))))))"

definition rfis_liquidity_bond ::
    "'c config \<Rightarrow> ('c, 'k) staking_api \<Rightarrow> origin \<Rightarrow> bytes \<Rightarrow> u128 \<Rightarrow> ('c, 'call, 'k, 'z) rfis_state_scheme
     \<Rightarrow> ('c, 'call, 'k, 'z) rfis_run" where
  "rfis_liquidity_bond X K o' pool v s =
     ensure_signed o' s (\<lambda>who.
     rfis_bondable X K pool v s (\<lambda>controller l.
     let rbalance = token_to_rtoken X RFIS v s
     in and_then (native_transfer X who controller v s) (\<lambda>_ s1.
        and_then (rbal_mint who RFIS rbalance s1) (\<lambda>_ s2.
        let s3 = update_claim_info X who RFIS rbalance v s2;
            s4 = bond_extra X K controller l v s3
        in (Ok (), deposit_event (RFisEv (rfis_event.LiquidityBond who controller v rbalance)) s4)))))"

definition rfis_liquidity_bond_and_swap ::
    "'c config \<Rightarrow> ('c, 'k) staking_api \<Rightarrow> origin \<Rightarrow> bytes \<Rightarrow> u128 \<Rightarrow> bytes \<Rightarrow> ChainId
     \<Rightarrow> ('c, 'call, 'k, 'z) rfis_state_scheme \<Rightarrow> ('c, 'call, 'k, 'z) rfis_run" where
  "rfis_liquidity_bond_and_swap X K o' pool v recipient dest_id s =
     ensure_signed o' s (\<lambda>who.
     rfis_bondable X K pool v s (\<lambda>controller l.
     let rbalance = token_to_rtoken X RFIS v s
     in and_then
          (if dest_id \<noteq> ChainIdentity X
           then swapable X recipient dest_id s (\<lambda>(fee, receiver, bridger').
                ok_or (RsymbolResource (bridge s) RFIS) (BridgeErr bridge_error.RsymbolNotMapped) s (\<lambda>resource.
                and_then (native_transfer X who controller (saturating_add v fee) s) (\<lambda>_ s1.
                and_then (native_transfer X controller receiver fee s1) (\<lambda>_ s2.
                and_then (rbal_mint bridger' RFIS rbalance s2) (\<lambda>_ s3.
                transfer_fungible who dest_id resource recipient (ucast rbalance) s3)))))
           else and_then (native_transfer X who controller v s) (\<lambda>_ s1. rbal_mint who RFIS rbalance s1))
          (\<lambda>_ s2.
             let s3 = update_claim_info X who RFIS rbalance v s2;
                 s4 = bond_extra X K controller l v s3
             in (Ok (), deposit_event (RFisEv (rfis_event.LiquidityBond who controller v rbalance)) s4))))"

section \<open>Unbonding\<close>

text \<open>
  \<open>iter_mut().find(|chunk| chunk.era == era)\<close> changes the first chunk of that era; a new one is pushed
  when there is none. The ledger's chunk is added to with \<open>checked_add\<close>, the user's with \<open>+=\<close>.
\<close>

fun add_chunk :: "EraIndex \<Rightarrow> u128 \<Rightarrow> UnlockChunk list \<Rightarrow> UnlockChunk list" where
  "add_chunk era v [] = [\<lparr>unlock_value = v, unlock_at = era\<rparr>]"
| "add_chunk era v (c # cs) =
     (if unlock_at c = era then c\<lparr>unlock_value := unlock_value c + v\<rparr> # cs else c # add_chunk era v cs)"

fun checked_add_chunk :: "EraIndex \<Rightarrow> u128 \<Rightarrow> UnlockChunk list \<Rightarrow> UnlockChunk list option" where
  "checked_add_chunk era v [] = Some [\<lparr>unlock_value = v, unlock_at = era\<rparr>]"
| "checked_add_chunk era v (c # cs) =
     (if unlock_at c = era
      then map_option (\<lambda>w. c\<lparr>unlock_value := w\<rparr> # cs) (checked_add (unlock_value c) v)
      else map_option ((#) c) (checked_add_chunk era v cs))"

definition max_unlock_chunks :: "('c, 'k) staking_api \<Rightarrow> nat" where
  "max_unlock_chunks K = unat (ucast (BondingDuration K) :: u16) + 2"

definition put_unbonding :: "AccountId \<Rightarrow> AccountId \<Rightarrow> UnlockChunk list option \<Rightarrow> rfis_store \<Rightarrow> rfis_store" where
  "put_unbonding who pool cs m = m\<lparr>Unbonding := (Unbonding m)(who := (Unbonding m who)(pool := cs))\<rparr>"

definition rfis_liquidity_unbond ::
    "'c config \<Rightarrow> ('c, 'k) staking_api \<Rightarrow> origin \<Rightarrow> bytes \<Rightarrow> u128 \<Rightarrow> ('c, 'call, 'k, 'z) rfis_state_scheme
     \<Rightarrow> ('c, 'call, 'k, 'z) rfis_run" where
  "rfis_liquidity_unbond X K o' pool v s =
     ensure_signed o' s (\<lambda>who.
     ensure (v \<noteq> 0) (RFisErr rfis_error.LiquidityUnbondZero) s
    (ok_or (RFisReceiver (rfis s)) (Other ''No receiver to get unbond commission fee'') s (\<lambda>receiver.
     ensure (election_closed K (staking s)) (StakingErr CallNotAllowed) s
    (ok_or (lookup X pool) CannotLookup s (\<lambda>controller.
     ensure (is_in_pools controller s) (RFisErr rfis_error.PoolNotFound) s
    (ok_or (StakingLedgers K (staking s) controller) (StakingErr NotController) s (\<lambda>l.
     ok_or (ActiveEra K (staking s)) (RFisErr rfis_error.NoCurrentEra) s (\<lambda>active.
     ensure (EraRate (rates s) RFIS active \<noteq> None) (RFisErr rfis_error.EraRateNotUpdated) s
    (ok_or (checked_sub (rbal_free_balance who RFIS s) v) (RFisErr rfis_error.InsufficientBalance) s (\<lambda>_.
     ensure (length (sl_unlocking l) < max_unlock_chunks K) (StakingErr NoMoreChunks) s
    (let unbonding = unwrap_or (Unbonding (rfis s) who controller) []
     in ensure (length unbonding < max_unlock_chunks K) (StakingErr NoMoreChunks) s
    (let era = active + BondingDuration K;
         fee = unbond_fee X v s;
         left_value = v - fee;
         balance = rtoken_to_token X RFIS left_value s
     in ensure (sl_active l \<ge> balance) (RFisErr rfis_error.InsufficientBalance) s
       (ok_or (checked_add_chunk era balance (sl_unlocking l)) (RFisErr rfis_error.Overflow) s (\<lambda>unlocking'.
        and_then (rbal_transfer who receiver RFIS fee s) (\<lambda>_ s1.
        and_then (rbal_burn who RFIS left_value s1) (\<lambda>_ s2.
        let s3 = on_staking (update_ledger K controller (l\<lparr>sl_active := sl_active l - balance, sl_unlocking := unlocking'\<rparr>)) s2;
            s4 = rfis_update (put_unbonding who controller (Some (add_chunk era balance unbonding))) s3
        in (Ok (), deposit_event (RFisEv (rfis_event.LiquidityUnBond who controller v left_value balance)) s4)))))))))))))))))"

definition rfis_liquidity_withdraw_unbond ::
    "'c config \<Rightarrow> ('c, 'k) staking_api \<Rightarrow> origin \<Rightarrow> bytes \<Rightarrow> ('c, 'call, 'k, 'z) rfis_state_scheme
     \<Rightarrow> ('c, 'call, 'k, 'z) rfis_run" where
  "rfis_liquidity_withdraw_unbond X K o' pool s =
     ensure_signed o' s (\<lambda>who.
     ensure (election_closed K (staking s)) (StakingErr CallNotAllowed) s
    (ok_or (lookup X pool) CannotLookup s (\<lambda>controller.
     ensure (is_in_pools controller s) (RFisErr rfis_error.PoolNotFound) s
    (ok_or (CurrentEra K (staking s)) (RFisErr rfis_error.NoCurrentEra) s (\<lambda>current_era.
     let unbonding = unwrap_or (Unbonding (rfis s) who controller) []
     in ensure (unbonding \<noteq> []) (RFisErr rfis_error.HasNoUnbonding) s
       (let new_unbonding = filter (\<lambda>c. unlock_at c > current_era) unbonding;
            due = foldl (\<lambda>acc c. if unlock_at c > current_era then acc else saturating_add acc (unlock_value c)) 0 unbonding
        in ensure (due \<noteq> 0) (RFisErr rfis_error.NoChunkToWithdraw) s
          (and_then (native_transfer X controller who due s) (\<lambda>_ s1.
             (Ok (), deposit_event (RFisEv (rfis_event.LiquidityWithdrawUnBond who controller due))
                (rfis_update (put_unbonding who controller (if new_unbonding = [] then None else Some new_unbonding)) s1))))))))))"

section \<open>What is relied on\<close>

text \<open>
  By the documentation of \<open>pallet_staking\<close>: \<open>update_ledger\<close> stores the ledger and sets the lock, which moves no
  balance; taking a stash as bonded and storing nominations touch no ledger and no balance;
  \<open>consolidate_unlocked\<close> drops the chunks that are due and takes their sum from the total only; a payout takes
  from nobody, pays into the stash what it adds to the active part of a ledger, and neither creates nor
  removes a ledger.
\<close>

definition payout_ok :: "'c config \<Rightarrow> ('c, 'k) staking_api \<Rightarrow> bool" where
  "payout_ok X K \<longleftrightarrow> (\<forall>v e k n b k' n'. do_payout_stakers K v e (k, n) = (b, k', n') \<longrightarrow>
     (\<forall>a. currency_free_balance X n a \<le> currency_free_balance X n' a) \<and>
     (\<forall>a. case StakingLedgers K k a of
        None \<Rightarrow> StakingLedgers K k' a = None
      | Some l \<Rightarrow> \<exists>l'. StakingLedgers K k' a = Some l' \<and> sl_stash l' = sl_stash l \<and>
          unat (sl_active l') + unat (currency_free_balance X n (sl_stash l))
            \<le> unat (sl_active l) + unat (currency_free_balance X n' (sl_stash l))))"

definition staking_ok :: "'c config \<Rightarrow> ('c, 'k) staking_api \<Rightarrow> bool" where
  "staking_ok X K \<longleftrightarrow>
     (\<forall>a l k n k' n'. update_ledger K a l (k, n) = (k', n') \<longrightarrow>
        StakingLedgers K k' = (StakingLedgers K k)(a \<mapsto> l) \<and> currency_free_balance X n' = currency_free_balance X n)
   \<and> (\<forall>a k n k' n'. bond_stash K a (k, n) = (k', n') \<longrightarrow>
        StakingLedgers K k' = StakingLedgers K k \<and> currency_free_balance X n' = currency_free_balance X n)
   \<and> (\<forall>a ts e b k. StakingLedgers K (put_nominations K a ts e b k) = StakingLedgers K k)
   \<and> (\<forall>e l. sl_active (consolidate_unlocked K e l) = sl_active l \<and> sl_stash (consolidate_unlocked K e l) = sl_stash l)
   \<and> payout_ok X K"

text \<open>None of them moves the era or rewrites what the validators earned and who backed them.\<close>

definition same_era :: "('c, 'k) staking_api \<Rightarrow> 'k \<Rightarrow> 'k \<Rightarrow> bool" where
  "same_era K k k' \<longleftrightarrow> ActiveEra K k' = ActiveEra K k \<and> CurrentEra K k' = CurrentEra K k
     \<and> has_reward_points K k' = has_reward_points K k \<and> clipped_nominators K k' = clipped_nominators K k"

definition eras_ok :: "('c, 'k) staking_api \<Rightarrow> bool" where
  "eras_ok K \<longleftrightarrow>
     (\<forall>a l k n k' n'. update_ledger K a l (k, n) = (k', n') \<longrightarrow> same_era K k k')
   \<and> (\<forall>v e k n b k' n'. do_payout_stakers K v e (k, n) = (b, k', n') \<longrightarrow> same_era K k k')
   \<and> (\<forall>a ts e b k. same_era K k (put_nominations K a ts e b k))"

section \<open>A staking pallet to evaluate with\<close>

record plain_staking =
  plain_active :: "EraIndex option"
  plain_current :: "EraIndex option"
  plain_ledgers :: "AccountId \<Rightarrow> StakingLedger option"
  plain_bonded :: "AccountId \<Rightarrow> bool"
  plain_rewards :: "AccountId \<Rightarrow> (AccountId \<times> u128) option"
  plain_nominations :: "AccountId \<Rightarrow> AccountId list option"
  plain_points :: "EraIndex \<Rightarrow> AccountId \<Rightarrow> bool"
  plain_backers :: "EraIndex \<Rightarrow> AccountId \<Rightarrow> AccountId list"

definition plain_consolidate :: "EraIndex \<Rightarrow> StakingLedger \<Rightarrow> StakingLedger" where
  "plain_consolidate e l =
     l\<lparr>sl_total := foldl (\<lambda>v c. if unlock_at c > e then v else saturating_sub v (unlock_value c)) (sl_total l) (sl_unlocking l),
       sl_unlocking := filter (\<lambda>c. unlock_at c > e) (sl_unlocking l)\<rparr>"

text \<open>A validator owes one reward, to the stash that backs it.\<close>

definition plain_payout ::
    "AccountId \<Rightarrow> EraIndex \<Rightarrow> plain_staking \<times> (AccountId \<Rightarrow> u128) \<Rightarrow> bool \<times> plain_staking \<times> (AccountId \<Rightarrow> u128)" where
  "plain_payout v e = (\<lambda>(k, n).
     case plain_rewards k v of
       None \<Rightarrow> (False, k, n)
     | Some (p, r) \<Rightarrow>
         (case plain_ledgers k p of
            None \<Rightarrow> (False, k, n)
          | Some l \<Rightarrow>
              if sl_stash l = p \<and> unat (n p) + unat r < 2 ^ 128
              then (True, k\<lparr>plain_ledgers := (plain_ledgers k)(p \<mapsto> l\<lparr>sl_total := sl_total l + r, sl_active := sl_active l + r\<rparr>),
                      plain_rewards := (plain_rewards k)(v := None)\<rparr>, n(p := n p + r))
              else (False, k, n)))"

definition plain_staking_api :: "(AccountId \<Rightarrow> u128, plain_staking) staking_api" where
  "plain_staking_api = \<lparr>
     ActiveEra = plain_active, CurrentEra = plain_current, election_closed = (\<lambda>_. True),
     StakingLedgers = plain_ledgers, Bonded = plain_bonded,
     bond_stash = (\<lambda>a (k, n). (k\<lparr>plain_bonded := (plain_bonded k)(a := True)\<rparr>, n)),
     update_ledger = (\<lambda>a l (k, n). (k\<lparr>plain_ledgers := (plain_ledgers k)(a \<mapsto> l)\<rparr>, n)),
     consolidate_unlocked = plain_consolidate,
     do_payout_stakers = plain_payout,
     put_nominations = (\<lambda>a ts _ _ k. k\<lparr>plain_nominations := (plain_nominations k)(a \<mapsto> ts)\<rparr>),
     validator_commission = (\<lambda>_ _. Some 0), eras_stakers_total = (\<lambda>_ _ _. 0),
     has_reward_points = plain_points, clipped_nominators = plain_backers,
     validator_id_of = (\<lambda>_. Some), load_keys = (\<lambda>_ _. True),
     BondingDuration = 28, MAX_NOMINATIONS = 16, UnsignedPriority = 0\<rparr>"

lemma plain_staking_simps [simp]:
  "ActiveEra plain_staking_api = plain_active" "CurrentEra plain_staking_api = plain_current"
  "election_closed plain_staking_api k" "StakingLedgers plain_staking_api = plain_ledgers"
  "Bonded plain_staking_api = plain_bonded"
  "bond_stash plain_staking_api a (k, n) = (k\<lparr>plain_bonded := (plain_bonded k)(a := True)\<rparr>, n)"
  "update_ledger plain_staking_api a l (k, n) = (k\<lparr>plain_ledgers := (plain_ledgers k)(a \<mapsto> l)\<rparr>, n)"
  "consolidate_unlocked plain_staking_api = plain_consolidate"
  "do_payout_stakers plain_staking_api = plain_payout"
  "put_nominations plain_staking_api a ts e b k = k\<lparr>plain_nominations := (plain_nominations k)(a \<mapsto> ts)\<rparr>"
  "has_reward_points plain_staking_api = plain_points" "clipped_nominators plain_staking_api = plain_backers"
  "validator_commission plain_staking_api k a = Some 0" "eras_stakers_total plain_staking_api k e a = 0"
  "validator_id_of plain_staking_api k = Some" "load_keys plain_staking_api k a"
  "BondingDuration plain_staking_api = 28" "MAX_NOMINATIONS plain_staking_api = 16" "UnsignedPriority plain_staking_api = 0"
  by (simp_all add: plain_staking_api_def)

lemma plain_payout_cases:
  assumes "plain_payout v e (k, n) = (b, k', n')"
  obtains "k' = k" "n' = n"
  | q r l where "plain_ledgers k q = Some l" "sl_stash l = q" "unat (n q) + unat r < 2 ^ 128"
      "plain_ledgers k' = (plain_ledgers k)(q \<mapsto> l\<lparr>sl_total := sl_total l + r, sl_active := sl_active l + r\<rparr>)"
      "n' = n(q := n q + r)"
proof (cases "plain_rewards k v")
  case None
  then show ?thesis using assms that(1) by (simp add: plain_payout_def)
next
  case (Some pr)
  obtain q r where pr: "pr = (q, r)" by (cases pr)
  show ?thesis
  proof (cases "plain_ledgers k q")
    case None
    then show ?thesis using assms Some pr that(1) by (simp add: plain_payout_def)
  next
    case l: (Some l)
    show ?thesis
    proof (cases "sl_stash l = q \<and> unat (n q) + unat r < 2 ^ 128")
      case True
      have r: "k' = k\<lparr>plain_ledgers := (plain_ledgers k)(q \<mapsto> l\<lparr>sl_total := sl_total l + r, sl_active := sl_active l + r\<rparr>),
                      plain_rewards := (plain_rewards k)(v := None)\<rparr>" "n' = n(q := n q + r)"
        using assms Some pr l True by (simp_all add: plain_payout_def)
      then show ?thesis using that(2) [of q l r] l True by simp
    next
      case False
      then show ?thesis using assms Some pr l that(1) by (simp add: plain_payout_def split: if_splits)
    qed
  qed
qed

lemma plain_payout_ok: "payout_ok plain_config plain_staking_api"
proof -
  have pay: "(\<forall>a. n a \<le> n' a) \<and>
     (\<forall>a. case plain_ledgers k a of
        None \<Rightarrow> plain_ledgers k' a = None
      | Some l \<Rightarrow> \<exists>l'. plain_ledgers k' a = Some l' \<and> sl_stash l' = sl_stash l \<and>
          unat (sl_active l') + unat (n (sl_stash l)) \<le> unat (sl_active l) + unat (n' (sl_stash l)))"
    if p: "plain_payout v e (k, n) = (b, k', n')" for v e k n b k' n'
    using p
  proof (cases rule: plain_payout_cases)
    case 1
    then show ?thesis by (auto split: option.splits)
  next
    case q: (2 q r l)
    have n: "unat (n q + r) = unat (n q) + unat r" using q(3) by (simp add: unat_plus_exact)
    have "unat (sl_active l + r) \<le> unat (sl_active l) + unat r"
      by (simp add: unat_word_ariths)
    then have led: "plain_ledgers k a = Some l2 \<Longrightarrow> \<exists>l'. plain_ledgers k' a = Some l' \<and> sl_stash l' = sl_stash l2 \<and>
        unat (sl_active l') + unat (n (sl_stash l2)) \<le> unat (sl_active l2) + unat (n' (sl_stash l2))" for a l2
      using q n by (cases "a = q") auto
    have "n a \<le> n' a" for a
      using q(5) n by (simp add: word_le_nat_alt)
    with led q(1,4) show ?thesis
      by (auto split: option.splits)
  qed
  show ?thesis
    unfolding payout_ok_def plain_staking_simps plain_config_simps using pay by blast
qed

lemma plain_staking_ok: "staking_ok plain_config plain_staking_api"
  unfolding staking_ok_def by (simp add: plain_payout_ok plain_consolidate_def)

lemma plain_eras_ok: "eras_ok plain_staking_api"
  by (auto simp: eras_ok_def same_era_def plain_payout_def split: option.splits prod.splits if_splits)

definition sample_staking :: plain_staking where
  "sample_staking = \<lparr>plain_active = Some 5, plain_current = Some 5, plain_ledgers = (\<lambda>_. None), plain_bonded = (\<lambda>_. False),
     plain_rewards = (\<lambda>_. None), plain_nominations = (\<lambda>_. None), plain_points = (\<lambda>_ _. True), plain_backers = (\<lambda>_ _. [])\<rparr>"

definition sample_rfis :: "(AccountId \<Rightarrow> u128, unit, plain_staking) rfis_state" where
  "sample_rfis = rdexn_state.extend (sample_rdexn\<lparr>native := (\<lambda>_. 2000), rbalances := empty_tokens, rates := empty_rates\<rparr>)
     \<lparr>rfis = empty_rfis, staking = sample_staking\<rparr>"

lemma sample_rfis_simps [simp]:
  "rfis sample_rfis = empty_rfis" "staking sample_rfis = sample_staking" "native sample_rfis = (\<lambda>_. 2000)"
  "rbalances sample_rfis = empty_tokens" "rates sample_rfis = empty_rates"
  by (simp_all add: sample_rfis_def rdexn_state.defs)

lemma plain_module_account: "into_account plain_config (map (\<lambda>b. char_of (unat b)) m) = plain_number m"
proof -
  have "(of_char (char_of (unat b)) :: u8) = b" for b :: u8
  proof -
    have "(of_char (char_of (unat b)) :: u8) = of_nat (of_char (char_of (unat b)))"
      by (rule of_nat_of_char [symmetric])
    also have "\<dots> = of_nat (unat b)"
      using unat_less_pow [of b] by (simp add: of_char_of)
    finally show ?thesis by simp
  qed
  then have "map of_char (map (\<lambda>b. char_of (unat b)) m) = (m :: bytes)"
    by (induction m) simp_all
  then show ?thesis by simp
qed

end
