(* ===== verification/RFis_Worker.thy ===== *)
theory RFis_Worker
  imports RFis
begin

text \<open>
  The offchain worker of \<open>rtoken/rfis\<close>, the calls it submits without a signature, and the check the
  transaction pool makes of them. A block in which the submitted calls are dispatched brings the
  bookkeeping of an era one step further: unlocks, the total bonded before the payouts, the payouts, the
  total after them, and at the end of the block the rate of the era.
\<close>

section \<open>Calls\<close>

text \<open>The enumeration \<open>decl_module!\<close> generates from the dispatchables.\<close>

datatype (plugins only: code) rfis_call =
    SubmitUnlocks EraIndex AccountId
  | SubmitTotalBondedBefore EraIndex u128
  | SubmitPaidouts EraIndex AccountId AccountId
  | SubmitTotalBondedAfter EraIndex u128
  | SubmitNomination EraIndex AccountId "AccountId list"
  | CallAddNewPool bytes
  | CallBondForPool bytes
  | CallToggleNominateSwitch
  | CallSetMinNominationNum u8
  | CallSetMaxNominationNum u8
  | CallSetCommission u32
  | CallSetMaxValidatorCommission u32
  | CallSetBalanceLimit u128
  | CallSetReceiver bytes
  | CallSetUnbondCommission u32
  | CallAddPoolUnlock bytes UnlockChunk
  | CallOnboard
  | CallOffboard
  | CallLiquidityBond bytes u128
  | CallLiquidityBondAndSwap bytes u128 bytes ChainId
  | CallLiquidityUnbond bytes u128
  | CallLiquidityWithdrawUnbond bytes

fun rfis_dispatch ::
    "'c config \<Rightarrow> ('c, 'k) staking_api \<Rightarrow> origin \<Rightarrow> rfis_call \<Rightarrow> ('c, 'call, 'k, 'z) rfis_state_scheme
     \<Rightarrow> ('c, 'call, 'k, 'z) rfis_run" where
  "rfis_dispatch X K o' (SubmitUnlocks era pool) s = submit_unlocks K o' era pool s"
| "rfis_dispatch X K o' (SubmitTotalBondedBefore era bonded) s = submit_total_bonded_before K o' era bonded s"
| "rfis_dispatch X K o' (SubmitPaidouts era pool validator) s = submit_paidouts K o' era pool validator s"
| "rfis_dispatch X K o' (SubmitTotalBondedAfter era bonded) s = submit_total_bonded_after K o' era bonded s"
| "rfis_dispatch X K o' (SubmitNomination era pool targets) s = submit_nomination K o' era pool targets s"
| "rfis_dispatch X K o' (CallAddNewPool m) s = rfis_add_new_pool X o' m s"
| "rfis_dispatch X K o' (CallBondForPool pool) s = bond_for_pool X K o' pool s"
| "rfis_dispatch X K o' CallToggleNominateSwitch s = toggle_nominate_switch o' s"
| "rfis_dispatch X K o' (CallSetMinNominationNum n) s = set_min_nomination_num o' n s"
| "rfis_dispatch X K o' (CallSetMaxNominationNum n) s = set_max_nomination_num K o' n s"
| "rfis_dispatch X K o' (CallSetCommission part) s = rfis_set_commission X o' part s"
| "rfis_dispatch X K o' (CallSetMaxValidatorCommission part) s = set_max_validator_commission X o' part s"
| "rfis_dispatch X K o' (CallSetBalanceLimit v) s = rfis_set_balance_limit o' v s"
| "rfis_dispatch X K o' (CallSetReceiver r) s = rfis_set_receiver X o' r s"
| "rfis_dispatch X K o' (CallSetUnbondCommission part) s = rfis_set_unbond_commission X o' part s"
| "rfis_dispatch X K o' (CallAddPoolUnlock pool c) s = add_pool_unlock X K o' pool c s"
| "rfis_dispatch X K o' CallOnboard s = onboard K o' s"
| "rfis_dispatch X K o' CallOffboard s = offboard K o' s"
| "rfis_dispatch X K o' (CallLiquidityBond pool v) s = rfis_liquidity_bond X K o' pool v s"
| "rfis_dispatch X K o' (CallLiquidityBondAndSwap pool v r d) s = rfis_liquidity_bond_and_swap X K o' pool v r d s"
| "rfis_dispatch X K o' (CallLiquidityUnbond pool v) s = rfis_liquidity_unbond X K o' pool v s"
| "rfis_dispatch X K o' (CallLiquidityWithdrawUnbond pool) s = rfis_liquidity_withdraw_unbond X K o' pool s"

section \<open>Validation of unsigned transactions\<close>

text \<open>A tag of \<open>ValidTransaction\<close> is the encoding of the prefix with the era. The source is ignored.\<close>

record ValidTransaction =
  valid_priority :: u64
  valid_requires :: "(string \<times> EraIndex) list"
  valid_provides :: "(string \<times> EraIndex) list"
  valid_longevity :: u64
  valid_propagate :: bool

datatype (plugins only: code) InvalidTransaction = InvalidCall

type_synonym TransactionValidity = "InvalidTransaction + ValidTransaction"

definition rfis_valid :: "('c, 'k) staking_api \<Rightarrow> string \<Rightarrow> EraIndex \<Rightarrow> TransactionValidity" where
  "rfis_valid K prefix' era =
     Inr \<lparr>valid_priority = UnsignedPriority K, valid_requires = [], valid_provides = [(prefix', era)],
       valid_longevity = DEFAULT_LONGEVITY, valid_propagate = True\<rparr>"

datatype (plugins only: code) TransactionSource = InBlock | Local | External

fun validate_unsigned ::
    "('c, 'k) staking_api \<Rightarrow> TransactionSource \<Rightarrow> rfis_call \<Rightarrow> ('c, 'call, 'k, 'z) rfis_state_scheme \<Rightarrow> TransactionValidity" where
  "validate_unsigned K source (SubmitUnlocks era pool) s =
     (if \<not> is_in_pools pool s then Inl InvalidCall else rfis_valid K ''RfisOffchain_Unlocks'' era)"
| "validate_unsigned K source (SubmitTotalBondedBefore era bonded) s =
     (if BondedBeforePayout (rfis s) era \<noteq> None then Inl InvalidCall else rfis_valid K ''RfisOffchain_BondedBefore'' era)"
| "validate_unsigned K source (SubmitPaidouts era pool validator) s =
     (if \<not> is_in_pools pool s then Inl InvalidCall
      else if \<not> is_validator K era validator s then Inl InvalidCall
      else rfis_valid K ''RfisOffchain_Paidouts'' era)"
| "validate_unsigned K source (SubmitTotalBondedAfter era bonded) s =
     (if BondedAfterPayout (rfis s) era \<noteq> None then Inl InvalidCall else rfis_valid K ''RfisOffchain_BondedAfter'' era)"
| "validate_unsigned K source (SubmitNomination era pool targets) s =
     (if \<not> is_in_pools pool s then Inl InvalidCall
      else let l = length targets
           in if l \<noteq> 0 \<and> (l < unat (MinNominationNum (rfis s)) \<or> l > unat (MaxNominationNum (rfis s))) then Inl InvalidCall
              else rfis_valid K ''RfisOffchain_Nomination'' era)"
| "validate_unsigned K source c s = Inl InvalidCall"

definition is_valid :: "('c, 'k) staking_api \<Rightarrow> rfis_call \<Rightarrow> ('c, 'call, 'k, 'z) rfis_state_scheme \<Rightarrow> bool" where
  "is_valid K c s = (case validate_unsigned K InBlock c s of Inl _ \<Rightarrow> False | Inr _ \<Rightarrow> True)"

section \<open>The offchain worker\<close>

text \<open>
  The worker writes no storage: its result is the list of the calls it tries to submit, in order.
  \<open>accepted\<close> says which submissions the transaction pool takes. The loop over the unlocks ends with the
  first that is taken.
\<close>

fun submit_first :: "(rfis_call \<Rightarrow> bool) \<Rightarrow> rfis_call list \<Rightarrow> rfis_call list \<times> bool" where
  "submit_first accepted [] = ([], False)"
| "submit_first accepted (c # cs) =
     (if accepted c then ([c], True) else case submit_first accepted cs of (tried, done') \<Rightarrow> (c # tried, done'))"

text \<open>\<open>while targets.len() < max && op_val.is_some()\<close>, on the validators in the order they are popped.\<close>

fun fill_targets :: "nat \<Rightarrow> AccountId list \<Rightarrow> AccountId list \<Rightarrow> AccountId list" where
  "fill_targets mx targets [] = targets"
| "fill_targets mx targets (v # vs) =
     (if length targets < mx then fill_targets mx (if v \<in> set targets then targets else targets @ [v]) vs else targets)"

definition nomination_targets ::
    "('c, 'k) staking_api \<Rightarrow> EraIndex \<Rightarrow> EraIndex \<Rightarrow> AccountId \<Rightarrow> ('c, 'call, 'k, 'z) rfis_state_scheme \<Rightarrow> AccountId list" where
  "nomination_targets K last_era era p s =
     (let validators = nominatable_validators K last_era era s
      in if length validators < unat (MinNominationNum (rfis s)) then []
         else fill_targets (unat (MaxNominationNum (rfis s)))
                (filter (\<lambda>v. v \<in> set validators) (unwrap_or (Nominated (rfis s) last_era p) []))
                (rev validators))"

text \<open>The pools that still need unlocking, and the validators of a pool that are still to be paid out.\<close>

definition locked_pools :: "('c, 'k) staking_api \<Rightarrow> EraIndex \<Rightarrow> ('c, 'call, 'k, 'z) rfis_state_scheme \<Rightarrow> AccountId list" where
  "locked_pools K era s =
     (let unlocked = unwrap_or (UnlockedPools (rfis s) era) []
      in if length unlocked < length (bonded_pools K s)
         then filter (\<lambda>p. p \<notin> set unlocked \<and>
                (case StakingLedgers K (staking s) p of
                   None \<Rightarrow> False | Some l \<Rightarrow> list_ex (\<lambda>c. unlock_at c \<le> era) (sl_unlocking l))) (bonded_pools K s)
         else [])"

definition unpaid_validators ::
    "('c, 'k) staking_api \<Rightarrow> EraIndex \<Rightarrow> AccountId \<Rightarrow> ('c, 'call, 'k, 'z) rfis_state_scheme \<Rightarrow> AccountId list" where
  "unpaid_validators K last_era p s =
     (let era_before_last = saturating_sub last_era 1
      in filter (\<lambda>v. PoolPaidouts (rfis s) last_era (v, p) = None \<and> is_validator K last_era v s \<and> is_actived K last_era v p s)
           (unwrap_or (Nominated (rfis s) era_before_last p) []))"

definition nomination_call ::
    "('c, 'k) staking_api \<Rightarrow> EraIndex \<Rightarrow> EraIndex \<Rightarrow> ('c, 'call, 'k, 'z) rfis_state_scheme \<Rightarrow> rfis_call list" where
  "nomination_call K last_era era s =
     (if \<not> NominateSwitch (rfis s) then []
      else case sort_down (\<lambda>p. bonded_of K p s) (filter (\<lambda>p. Nominated (rfis s) era p = None) (bonded_pools K s)) of
             [] \<Rightarrow> []
           | p # _ \<Rightarrow> [SubmitNomination era p (nomination_targets K last_era era p s)])"

definition offchain_worker ::
    "('c, 'k) staking_api \<Rightarrow> bool \<Rightarrow> (rfis_call \<Rightarrow> bool) \<Rightarrow> ('c, 'call, 'k, 'z) rfis_state_scheme \<Rightarrow> rfis_call list" where
  "offchain_worker K runs_as_validator accepted s =
     (if \<not> runs_as_validator then []
      else case ActiveEra K (staking s) of
        None \<Rightarrow> []
      | Some era \<Rightarrow>
          let last_era = saturating_sub era 1 in
          (case submit_first accepted (map (SubmitUnlocks era) (locked_pools K era s)) of
             (tried, True) \<Rightarrow> tried
           | (tried, False) \<Rightarrow> tried @
               (if BondedBeforePayout (rfis s) era = None then [SubmitTotalBondedBefore era (total_bonded K s)]
                else case filter (\<lambda>p. unpaid_validators K last_era p s \<noteq> []) (bonded_pools K s) of
                  p # _ \<Rightarrow> map (SubmitPaidouts last_era p) (unpaid_validators K last_era p s)
                | [] \<Rightarrow>
                    if BondedAfterPayout (rfis s) era = None then [SubmitTotalBondedAfter era (total_bonded K s)]
                    else nomination_call K last_era era s)))"

section \<open>Blocks\<close>

text \<open>An unsigned call in a block: \<open>pre_dispatch\<close> validates it again, then it is dispatched with no origin.\<close>

definition apply_unsigned ::
    "'c config \<Rightarrow> ('c, 'k) staking_api \<Rightarrow> rfis_call \<Rightarrow> ('c, 'call, 'k, 'z) rfis_state_scheme \<Rightarrow> ('c, 'call, 'k, 'z) rfis_state_scheme" where
  "apply_unsigned X K c s = (if is_valid K c s then snd (rfis_dispatch X K Unsigned c s) else s)"

text \<open>A block that holds the given unsigned calls and nothing else.\<close>

definition unsigned_block ::
    "'c config \<Rightarrow> ('c, 'k) staking_api \<Rightarrow> rfis_call list \<Rightarrow> ('c, 'call, 'k, 'z) rfis_state_scheme
     \<Rightarrow> ('c, 'call, 'k, 'z) rfis_state_scheme" where
  "unsigned_block X K cs s = rfis_on_finalize X K (fold (apply_unsigned X K) cs s)"

end
