(* ===== verification/RFis_Types.thy ===== *)
theory RFis_Types
  imports RFis_Worker
begin

text \<open>
  The shape of the storage of \<open>rtoken/rfis\<close>: the pools and the validators are strictly sorted vectors, so
  the binary searches on them are meaningful; the bounds on the number of nominations are ordered; the
  chunks of a user have distinct eras, are not empty and are not more than the staking pallet allows.
\<close>

section \<open>Well-formed storage\<close>

text \<open>
  \<open>onboard\<close> refuses a validator only when there are more than \<open>MAX_ONBOARD_VALIDATORS\<close> already, so there can
  be one more than that.
\<close>

definition chunks_wf :: "nat \<Rightarrow> UnlockChunk list \<Rightarrow> bool" where
  "chunks_wf mx cs \<longleftrightarrow> cs \<noteq> [] \<and> distinct (map unlock_at cs) \<and> length cs \<le> mx"

definition rfis_wf :: "nat \<Rightarrow> rfis_store \<Rightarrow> bool" where
  "rfis_wf mx m \<longleftrightarrow>
     strictly_sorted (Pools m) \<and> strictly_sorted (OnboardValidators m)
   \<and> length (OnboardValidators m) \<le> MAX_ONBOARD_VALIDATORS + 1
   \<and> 0 < MinNominationNum m \<and> MinNominationNum m \<le> MaxNominationNum m
   \<and> (\<forall>w p cs. Unbonding m w p = Some cs \<longrightarrow> chunks_wf mx cs)
   \<and> (\<forall>e ps. UnlockedPools m e = Some ps \<longrightarrow> distinct ps)"

text \<open>
  The states the pallet reaches from its genesis: by its calls from any origin, by the end of a block, and by
  whatever the other pallets do, which do not write its storage.
\<close>

inductive rfis_reach :: "'c config \<Rightarrow> ('c, 'k) staking_api \<Rightarrow> ('c, 'call, 'k, 'z) rfis_state_scheme \<Rightarrow> bool"
  for X :: "'c config" and K :: "('c, 'k) staking_api" where
  genesis: "rfis s = empty_rfis \<Longrightarrow> rfis_reach X K s"
| call: "rfis_reach X K s \<Longrightarrow> rfis_reach X K (snd (rfis_dispatch X K o' c s))"
| block_end: "rfis_reach X K s \<Longrightarrow> rfis_reach X K (rfis_on_finalize X K s)"
| elsewhere: "rfis_reach X K s \<Longrightarrow> rfis t = rfis s \<Longrightarrow> rfis_reach X K t"

section \<open>Frame\<close>

lemma on_staking_frame [simp]:
  "rfis (on_staking f s) = rfis s" "rates (on_staking f s) = rates s" "rbalances (on_staking f s) = rbalances s"
  by (simp_all add: on_staking_def split: prod.splits)

lemma rfis_deposit [simp]:
  "rfis (deposit_event e s) = rfis s" "staking (deposit_event e s) = staking s"
  by (simp_all add: deposit_event_def)

lemma rfis_native_transfer:
  assumes "native_transfer X a b v s = (r, t)"
  shows "rfis t = rfis s" "staking t = staking s" "rates t = rates s"
  using assms by (auto simp: native_transfer_def split: prod.splits)

lemma rfis_rbal:
  assumes "rbal_lift m s = (r, t)"
  shows "rfis t = rfis s" "staking t = staking s" "native t = native s" "rates t = rates s"
proof -
  obtain st evs where "t = s\<lparr>rbalances := st, events := evs\<rparr>"
    using rbal_lift_state [of m s] assms by auto
  then show "rfis t = rfis s" "staking t = staking s" "native t = native s" "rates t = rates s" by simp_all
qed

lemmas rfis_mint = rfis_rbal [of "token_mint a y v" for a y v, folded rbal_mint_def]
  and rfis_burn = rfis_rbal [of "token_burn a y v" for a y v, folded rbal_burn_def]
  and rfis_rtransfer = rfis_rbal [of "token_transfer a b y v" for a b y v, folded rbal_transfer_def]

lemma rfis_transfer_fungible:
  assumes "transfer_fungible a d rid to v s = (r, t)"
  shows "rfis t = rfis s" "staking t = staking s" "native t = native s" "rates t = rates s"
  using assms
  by (auto simp: transfer_fungible_def bump_nonce_def Let_def ensure_def deposit_event_def split: if_splits)

lemma rfis_cycle [simp]:
  "rfis (update_act_current_cycle now y s) = rfis s" "staking (update_act_current_cycle now y s) = staking s"
  using current_cycle_state [of now y s] by auto

lemma rfis_claim_info [simp]:
  "rfis (update_claim_info X w y a b s) = rfis s" "staking (update_claim_info X w y a b s) = staking s"
  by (simp_all add: update_claim_info_def Let_def split: option.splits)

lemma rfis_bond_extra [simp]: "rfis (bond_extra X K p l v s) = rfis s"
  by (simp add: bond_extra_def Let_def split: option.splits)

lemma rfis_set_rate [simp]:
  "rfis (snd (set_rate X y a b s)) = rfis s" "staking (snd (set_rate X y a b s)) = staking s"
  "native (snd (set_rate X y a b s)) = native s"
  by (simp_all add: set_rate_def Let_def deposit_event_def split: option.splits)

lemma rfis_set_era_rate [simp]:
  "rfis (set_era_rate y e r s) = rfis s" "staking (set_era_rate y e r s) = staking s" "native (set_era_rate y e r s) = native s"
  by (simp_all add: set_era_rate_def)

lemma rfis_finalize [simp]:
  "rfis (rfis_on_finalize X K s) = rfis s" "staking (rfis_on_finalize X K s) = staking s"
  "native (rfis_on_finalize X K s) = native s"
  by (auto simp: rfis_on_finalize_def Let_def case_prod_beta rfis_mint [OF prod.collapse [symmetric]]
      split: option.splits prod.splits)

section \<open>Preservation\<close>

lemma ensure_none_keeps [run_keeps]:
  "P s \<Longrightarrow> (o' = Unsigned \<Longrightarrow> keeps P k) \<Longrightarrow> keeps P (ensure_none o' s k)"
  by (cases o') (simp_all add: keeps_def ensure_none_def)

lemma sum_keeps [run_keeps]:
  "(\<And>i. v = Inl i \<Longrightarrow> keeps P (f i)) \<Longrightarrow> (\<And>i. v = Inr i \<Longrightarrow> keeps P (g i)) \<Longrightarrow> keeps P (case_sum f g v)"
  by (cases v) simp_all

lemma set_add_chunk: "unlock_at ` set (add_chunk e v cs) = insert e (unlock_at ` set cs)"
  by (induction cs) auto

lemma distinct_add_chunk: "distinct (map unlock_at cs) \<Longrightarrow> distinct (map unlock_at (add_chunk e v cs))"
proof (induction cs)
  case (Cons c cs)
  then show ?case using set_add_chunk [of e v cs] by (auto simp del: set_map simp add: image_set [symmetric])
qed simp

lemma length_add_chunk: "length (add_chunk e v cs) \<le> Suc (length cs)"
  by (induction cs) auto

lemma chunks_wf_add:
  assumes "cs = [] \<or> chunks_wf mx cs" "length cs < mx"
  shows "chunks_wf mx (add_chunk e v cs)"
proof -
  have "add_chunk e v cs \<noteq> []" by (cases cs) auto
  then show ?thesis
    using assms distinct_add_chunk [of cs e v] length_add_chunk [of e v cs] by (auto simp: chunks_wf_def)
qed

lemma chunks_wf_filter: "chunks_wf mx cs \<Longrightarrow> filter P cs \<noteq> [] \<Longrightarrow> chunks_wf mx (filter P cs)"
  by (auto simp: chunks_wf_def distinct_map_filter intro: order_trans [OF length_filter_le])

lemma unbonding_wf: "rfis_wf mx m \<Longrightarrow> cs = unwrap_or (Unbonding m w p) [] \<Longrightarrow> cs = [] \<or> chunks_wf mx cs"
  by (cases "Unbonding m w p") (auto simp: rfis_wf_def)

lemma unbonding_wf_filter:
  "rfis_wf mx m \<Longrightarrow> filter P (unwrap_or (Unbonding m w p) []) \<noteq> [] \<Longrightarrow> chunks_wf mx (filter P (unwrap_or (Unbonding m w p) []))"
  using unbonding_wf [OF _ refl, of mx m w p] by (auto intro: chunks_wf_filter)

lemma rfis_wf_put_unbonding:
  "rfis_wf mx m \<Longrightarrow> (\<And>ds. cs = Some ds \<Longrightarrow> chunks_wf mx ds) \<Longrightarrow> rfis_wf mx (put_unbonding w p cs m)"
  by (auto simp: rfis_wf_def put_unbonding_def)

lemma rfis_wf_empty: "rfis_wf mx empty_rfis"
  by (simp add: rfis_wf_def empty_rfis_def)

abbreviation wf_in :: "nat \<Rightarrow> ('c, 'call, 'k, 'z) rfis_state_scheme \<Rightarrow> bool" where
  "wf_in mx s \<equiv> rfis_wf mx (rfis s)"

lemma wf_settings:
  assumes "wf_in mx s"
  shows "keeps (wf_in mx) (toggle_nominate_switch o' s)" "keeps (wf_in mx) (set_min_nomination_num o' n s)"
    "keeps (wf_in mx) (set_max_nomination_num K o' n s)" "keeps (wf_in mx) (rfis_set_commission X o' part s)"
    "keeps (wf_in mx) (set_max_validator_commission X o' part s)" "keeps (wf_in mx) (rfis_set_balance_limit o' v s)"
    "keeps (wf_in mx) (rfis_set_receiver X o' r s)" "keeps (wf_in mx) (rfis_set_unbond_commission X o' part s)"
  using assms
  unfolding toggle_nominate_switch_def set_min_nomination_num_def set_max_nomination_num_def rfis_set_commission_def
    set_max_validator_commission_def rfis_set_balance_limit_def rfis_set_receiver_def rfis_set_unbond_commission_def Let_def
  by - (intro run_keeps; auto simp: rfis_wf_def intro: less_le_trans)+

lemma wf_pools:
  assumes "wf_in mx s"
  shows "keeps (wf_in mx) (rfis_add_new_pool X o' m s)" "keeps (wf_in mx) (bond_for_pool X K o' pool s)"
    "keeps (wf_in mx) (add_pool_unlock X K o' pool c s)"
  using assms
  unfolding rfis_add_new_pool_def bond_for_pool_def add_pool_unlock_def Let_def
  by - (intro run_keeps; auto simp: rfis_wf_def bs.insert_at_missing)+

lemma wf_submissions:
  assumes "wf_in mx s"
  shows "keeps (wf_in mx) (submit_unlocks K o' era pool s)" "keeps (wf_in mx) (submit_total_bonded_before K o' era v s)"
    "keeps (wf_in mx) (submit_paidouts K o' era pool val s)" "keeps (wf_in mx) (submit_total_bonded_after K o' era v s)"
    "keeps (wf_in mx) (submit_nomination K o' era pool ts s)"
proof -
  have "distinct (unwrap_or (UnlockedPools (rfis s) era) [])"
    using assms by (cases "UnlockedPools (rfis s) era") (auto simp: rfis_wf_def)
  then show "keeps (wf_in mx) (submit_unlocks K o' era pool s)"
    using assms unfolding submit_unlocks_def Let_def by - (intro run_keeps; auto simp: rfis_wf_def)
  show "keeps (wf_in mx) (submit_total_bonded_before K o' era v s)"
    "keeps (wf_in mx) (submit_paidouts K o' era pool val s)" "keeps (wf_in mx) (submit_total_bonded_after K o' era v s)"
    "keeps (wf_in mx) (submit_nomination K o' era pool ts s)"
    using assms unfolding submit_total_bonded_before_def submit_paidouts_def submit_total_bonded_after_def
      submit_nomination_def rfis_update_nominations_def case_prod_beta
    by - (intro run_keeps; simp add: rfis_wf_def)+
qed

lemma wf_validators:
  assumes "wf_in mx s"
  shows "keeps (wf_in mx) (onboard K o' s)" "keeps (wf_in mx) (offboard K o' s)"
proof -
  show "keeps (wf_in mx) (onboard K o' s)"
    using assms unfolding onboard_def by - (intro run_keeps; auto simp: rfis_wf_def bs.insert_at_missing)
  show "keeps (wf_in mx) (offboard K o' s)"
    using assms unfolding offboard_def
    by - (intro run_keeps; auto simp: rfis_wf_def bs.remove_at_found intro: order_trans [OF less_imp_le [OF bs.remove_at_found(3)]])
qed

lemma wf_bonding:
  assumes "wf_in mx s"
  shows "keeps (wf_in mx) (rfis_liquidity_bond X K o' pool v s)"
    "keeps (wf_in mx) (rfis_liquidity_bond_and_swap X K o' pool v r d s)"
  using assms
  unfolding rfis_liquidity_bond_def rfis_liquidity_bond_and_swap_def rfis_bondable_def swapable_def Let_def case_prod_beta
  by - (intro run_keeps; (simp add: keeps_def rfis_native_transfer [OF prod.collapse [symmetric]]
       rfis_mint [OF prod.collapse [symmetric]] rfis_transfer_fungible [OF prod.collapse [symmetric]])?)+

lemma wf_unbonding:
  assumes "wf_in (max_unlock_chunks K) s"
  shows "keeps (wf_in (max_unlock_chunks K)) (rfis_liquidity_unbond X K o' pool v s)"
    "keeps (wf_in (max_unlock_chunks K)) (rfis_liquidity_withdraw_unbond X K o' pool s)"
proof -
  note w = unbonding_wf [OF assms refl]
  show "keeps (wf_in (max_unlock_chunks K)) (rfis_liquidity_unbond X K o' pool v s)"
    using assms unfolding rfis_liquidity_unbond_def Let_def
    by - (intro run_keeps; auto simp: keeps_def rfis_rtransfer [OF prod.collapse [symmetric]] rfis_burn [OF prod.collapse [symmetric]]
         intro!: rfis_wf_put_unbonding chunks_wf_add w)
  show "keeps (wf_in (max_unlock_chunks K)) (rfis_liquidity_withdraw_unbond X K o' pool s)"
    using assms unfolding rfis_liquidity_withdraw_unbond_def Let_def
    by - (intro run_keeps; auto simp: keeps_def rfis_native_transfer [OF prod.collapse [symmetric]]
         intro!: rfis_wf_put_unbonding unbonding_wf_filter)
qed

lemma wf_dispatch: "wf_in (max_unlock_chunks K) s \<Longrightarrow> keeps (wf_in (max_unlock_chunks K)) (rfis_dispatch X K o' c s)"
  by (cases c) (simp_all add: wf_settings wf_pools wf_submissions wf_validators wf_bonding wf_unbonding)

lemma rfis_reach_wf: "rfis_reach X K s \<Longrightarrow> wf_in (max_unlock_chunks K) s"
  by (induction rule: rfis_reach.induct) (auto simp: rfis_wf_empty dest: wf_dispatch [unfolded keeps_def])

section \<open>Properties\<close>

text \<open>
  C16. Whatever calls are made, from whatever origins, the storage of \<open>rtoken/rfis\<close> is well-formed: \<open>Pools\<close> and
  \<open>OnboardValidators\<close> are strictly sorted (so the binary searches decide membership and find the place to
  insert), at most 301 validators are on board, \<open>0 < MinNominationNum \<le> MaxNominationNum\<close>, the chunks a user
  is unbonding from a pool have distinct eras, are at most \<open>BondingDuration + 2\<close> and never an empty vector,
  and no pool is unlocked twice in an era.
\<close>

theorem rfis_storage_wf: "rfis_reach X K s \<Longrightarrow> rfis_wf (max_unlock_chunks K) (rfis s)"
  by (rule rfis_reach_wf)

lemma add_pool_eval:
  assumes "length m = 8" "binary_search (Pools (rfis s)) (plain_number m) = Inr i"
  shows "rfis (snd (rfis_dispatch plain_config K Root (CallAddNewPool m) s))
     = (rfis s)\<lparr>Pools := insert_nth i (plain_number m) (Pools (rfis s))\<rparr>"
    and "staking (snd (rfis_dispatch plain_config K Root (CallAddNewPool m) s)) = staking s"
    and "native (snd (rfis_dispatch plain_config K Root (CallAddNewPool m) s)) = native s"
  using assms by (simp_all add: rfis_add_new_pool_def plain_module_account Let_def del: plain_config_simps)

lemma plain_number_pad: "plain_number [0, 0, 0, 0, 0, 0, 0, n] = ucast n"
  by (simp add: plain_number_def)

definition two_pools :: "(AccountId \<Rightarrow> u128, unit, plain_staking) rfis_state" where
  "two_pools = fold (\<lambda>n s. snd (rfis_dispatch plain_config plain_staking_api Root (CallAddNewPool [0, 0, 0, 0, 0, 0, 0, n]) s)) [2, 1] sample_rfis"

lemma two_pools_simps [simp]:
  "rfis two_pools = empty_rfis\<lparr>Pools := [1, 2]\<rparr>" "staking two_pools = sample_staking" "native two_pools = (\<lambda>_. 2000)"
proof -
  let ?m = "\<lambda>n. [0, 0, 0, 0, 0, 0, 0, n] :: bytes"
  let ?s = "snd (rfis_dispatch plain_config plain_staking_api Root (CallAddNewPool (?m 2)) sample_rfis)"
  have "binary_search (Pools (rfis sample_rfis)) (plain_number (?m 2)) = Inr 0"
    by (simp add: empty_rfis_def binary_search_def)
  from add_pool_eval [OF _ this, of plain_staking_api]
  have s: "rfis ?s = empty_rfis\<lparr>Pools := [2]\<rparr>" "staking ?s = sample_staking" "native ?s = (\<lambda>_. 2000)"
    by (simp_all add: empty_rfis_def insert_nth_def plain_number_pad del: rfis_dispatch.simps)
  then have "binary_search (Pools (rfis ?s)) (plain_number (?m 1)) = Inr 0"
    by (simp add: plain_number_pad binary_search_def bsearch_base_step del: rfis_dispatch.simps)
  note 2 = add_pool_eval [OF _ this, of plain_staking_api]
  show "rfis two_pools = empty_rfis\<lparr>Pools := [1, 2]\<rparr>" "staking two_pools = sample_staking" "native two_pools = (\<lambda>_. 2000)"
    unfolding two_pools_def using 2 s
    by (simp_all add: insert_nth_def plain_number_pad del: rfis_dispatch.simps)
qed

lemma two_pools_reached: "rfis_reach plain_config plain_staking_api two_pools"
  unfolding two_pools_def fold_simps comp_def id_def by (intro rfis_reach.call rfis_reach.genesis) simp

theorem rfis_storage_wf_witness:
  "rfis_reach plain_config plain_staking_api two_pools \<and> Pools (rfis two_pools) = [1, 2]
     \<and> rfis_wf (max_unlock_chunks plain_staking_api) (rfis two_pools)"
  using two_pools_reached rfis_storage_wf [OF two_pools_reached] by simp

end
