(* ===== verification/RFis_Pools.thy ===== *)
theory RFis_Pools
  imports RFis_Types
begin

text \<open>
  The solvency of the pools of \<open>rtoken/rfis\<close>: what the account of a pool holds covers what its ledger has as
  active and everything its users are unbonding from it, due or not.
\<close>

section \<open>What a pool owes\<close>

definition chunks_total :: "UnlockChunk list \<Rightarrow> nat" where
  "chunks_total cs = (\<Sum>c\<leftarrow>cs. unat (unlock_value c))"

definition unbonding_of :: "AccountId \<Rightarrow> AccountId \<Rightarrow> rfis_store \<Rightarrow> UnlockChunk list" where
  "unbonding_of w p m = unwrap_or (Unbonding m w p) []"

definition unbonding_total :: "AccountId \<Rightarrow> rfis_store \<Rightarrow> nat" where
  "unbonding_total p m = (\<Sum>w\<in>UNIV. chunks_total (unbonding_of w p m))"

definition owed :: "('c, 'k) staking_api \<Rightarrow> AccountId \<Rightarrow> ('c, 'call, 'k, 'z) rfis_state_scheme \<Rightarrow> nat" where
  "owed K p s = unat (bonded_of K p s) + unbonding_total p (rfis s)"

definition pools_solvent :: "'c config \<Rightarrow> ('c, 'k) staking_api \<Rightarrow> ('c, 'call, 'k, 'z) rfis_state_scheme \<Rightarrow> bool" where
  "pools_solvent X K s \<longleftrightarrow> (\<forall>p\<in>set (Pools (rfis s)). owed K p s \<le> unat (native_free_balance X p s))"

definition pools_inv :: "'c config \<Rightarrow> ('c, 'k) staking_api \<Rightarrow> ('c, 'call, 'k, 'z) rfis_state_scheme \<Rightarrow> bool" where
  "pools_inv X K s \<longleftrightarrow> pools_solvent X K s
     \<and> (\<forall>p\<in>set (Pools (rfis s)). \<forall>l. StakingLedgers K (staking s) p = Some l \<longrightarrow> sl_stash l = p)
     \<and> (\<forall>p w. p \<notin> set (Pools (rfis s)) \<longrightarrow> Unbonding (rfis s) w p = None)"

text \<open>
  The runs considered. The account of a pool is derived from a module id, so it has no key: it signs no call, and
  it has no ledger before it becomes a pool. Elsewhere in the runtime the balance of a pool may grow and eras may pass,
  but the ledgers of the pools are left alone (there is no slashing in these runs) and the pallet's storage is not written.
\<close>

inductive pools_reach :: "'c config \<Rightarrow> ('c, 'k) staking_api \<Rightarrow> ('c, 'call, 'k, 'z) rfis_state_scheme \<Rightarrow> bool"
  for X :: "'c config" and K :: "('c, 'k) staking_api" where
  genesis: "rfis s = empty_rfis \<Longrightarrow> pools_reach X K s"
| call: "pools_reach X K s
    \<Longrightarrow> (\<And>w. o' = Signed w \<Longrightarrow> w \<notin> set (Pools (rfis s)))
    \<Longrightarrow> (\<And>m. c = CallAddNewPool m \<Longrightarrow> StakingLedgers K (staking s) (into_account X (map (\<lambda>b. char_of (unat b)) m)) = None)
    \<Longrightarrow> pools_reach X K (snd (rfis_dispatch X K o' c s))"
| block_end: "pools_reach X K s \<Longrightarrow> pools_reach X K (rfis_on_finalize X K s)"
| elsewhere: "pools_reach X K s \<Longrightarrow> rfis t = rfis s
    \<Longrightarrow> (\<And>p. p \<in> set (Pools (rfis s)) \<Longrightarrow> StakingLedgers K (staking t) p = StakingLedgers K (staking s) p
          \<and> native_free_balance X p s \<le> native_free_balance X p t)
    \<Longrightarrow> pools_reach X K t"

section \<open>Chunks\<close>

lemma chunks_total_simps [simp]:
  "chunks_total [] = 0" "chunks_total (c # cs) = unat (unlock_value c) + chunks_total cs"
  by (simp_all add: chunks_total_def)

lemma unat_plus_le: "unat (a + b) \<le> unat a + unat (b :: 'a::len word)"
  by (simp add: unat_word_ariths)

lemma chunks_total_add: "chunks_total (add_chunk e v cs) \<le> chunks_total cs + unat v"
  by (induction cs) (auto intro: order_trans [OF unat_plus_le])

lemma chunks_total_filter: "chunks_total (filter P cs) + chunks_total (filter (\<lambda>c. \<not> P c) cs) = chunks_total cs"
  by (induction cs) auto

lemma due_le:
  "unat (foldl (\<lambda>acc c. if e < unlock_at c then acc else saturating_add acc (unlock_value c)) d cs)
     \<le> unat d + chunks_total (filter (\<lambda>c. \<not> e < unlock_at c) cs)"
proof (induction cs arbitrary: d)
  case (Cons c cs)
  show ?case
  proof (cases "e < unlock_at c")
    case False
    have "unat (saturating_add d (unlock_value c)) \<le> unat d + unat (unlock_value c)" by (simp add: unat_saturating_add)
    with False Cons [of "saturating_add d (unlock_value c)"] show ?thesis by simp
  qed (use Cons [of d] in simp)
qed simp

lemma unbonding_put:
  "unbonding_of w p (put_unbonding w' p' cs m) = (if w = w' \<and> p = p' then unwrap_or cs [] else unbonding_of w p m)"
  by (auto simp: unbonding_of_def put_unbonding_def)

lemma unbonding_total_put:
  "unbonding_total p (put_unbonding w p cs m) + chunks_total (unbonding_of w p m)
     = unbonding_total p m + chunks_total (unwrap_or cs [])"
  unfolding unbonding_total_def
  by (rule sum_change [of w, THEN trans]) (simp_all add: unbonding_put)

lemma unbonding_total_put_other: "p \<noteq> p' \<Longrightarrow> unbonding_total p (put_unbonding w p' cs m) = unbonding_total p m"
  by (simp add: unbonding_total_def unbonding_put)

section \<open>The staking pallet\<close>

lemma update_ledger_effect:
  assumes "staking_ok X K" "t = on_staking (update_ledger K a l) s"
  shows "StakingLedgers K (staking t) = (StakingLedgers K (staking s))(a \<mapsto> l)"
    "native_free_balance X p t = native_free_balance X p s" "rfis t = rfis s"
  using assms unfolding staking_ok_def on_staking_def native_free_balance_def
  by (auto split: prod.splits)

lemma bond_stash_effect:
  assumes "staking_ok X K" "t = on_staking (bond_stash K a) s"
  shows "StakingLedgers K (staking t) = StakingLedgers K (staking s)"
    "native_free_balance X p t = native_free_balance X p s" "rfis t = rfis s"
  using assms unfolding staking_ok_def on_staking_def native_free_balance_def
  by (auto split: prod.splits)

section \<open>Steps that keep the pools solvent\<close>

lemma pools_invD:
  assumes "pools_inv X K s" "p \<in> set (Pools (rfis s))"
  shows "owed K p s \<le> unat (native_free_balance X p s)" "StakingLedgers K (staking s) p = Some l \<Longrightarrow> sl_stash l = p"
  using assms by (auto simp: pools_inv_def pools_solvent_def)

lemma owed_cong:
  "staking t = staking s \<Longrightarrow> rfis t = rfis s \<Longrightarrow> owed K p t = owed K p s"
  by (simp add: owed_def bonded_of_def)

lemma pools_inv_keep:
  assumes "pools_inv X K s" "Pools (rfis t) = Pools (rfis s)" "Unbonding (rfis t) = Unbonding (rfis s)"
    and "\<And>p. p \<in> set (Pools (rfis s)) \<Longrightarrow>
       map_option (\<lambda>l. (sl_active l, sl_stash l)) (StakingLedgers K (staking t) p)
         = map_option (\<lambda>l. (sl_active l, sl_stash l)) (StakingLedgers K (staking s) p)
       \<and> native_free_balance X p s \<le> native_free_balance X p t"
  shows "pools_inv X K t"
proof -
  have u: "unbonding_total p (rfis t) = unbonding_total p (rfis s)" for p
    using assms(3) by (simp add: unbonding_total_def unbonding_of_def)
  have b: "bonded_of K p t = bonded_of K p s" "native_free_balance X p s \<le> native_free_balance X p t"
    "StakingLedgers K (staking t) p = Some l \<Longrightarrow> sl_stash l = p"
    if p: "p \<in> set (Pools (rfis s))" for p l
    using assms(4) [OF p] pools_invD(2) [OF assms(1) p]
    by (cases "StakingLedgers K (staking s) p"; auto simp: bonded_of_def split: option.splits)+
  have "owed K p t \<le> unat (native_free_balance X p t)" if p: "p \<in> set (Pools (rfis s))" for p
    using pools_invD(1) [OF assms(1) p] b(1,2) [OF p] u by (auto simp: owed_def word_le_nat_alt)
  with assms(1-3) b(3) show ?thesis
    by (auto simp: pools_inv_def pools_solvent_def)
qed

lemma pools_inv_frame:
  assumes "pools_inv X K s" "rfis t = rfis s" "staking t = staking s" "native t = native s"
  shows "pools_inv X K t"
  by (rule pools_inv_keep [OF assms(1)]) (simp_all add: assms(2-4) native_free_balance_def)

lemma pools_inv_deposit [simp]: "pools_inv X K (deposit_event e s) = pools_inv X K s"
  using pools_inv_frame [of X K s "deposit_event e s"] pools_inv_frame [of X K "deposit_event e s" s] by auto

text \<open>A transfer from an account that is no pool.\<close>

lemma pools_inv_receive:
  assumes "currency_ok X" "pools_inv X K s" "native_transfer X a b v s = (Ok u, t)" "a \<notin> set (Pools (rfis s))"
  shows "pools_inv X K t"
proof (rule pools_inv_keep [OF assms(2)])
  note f = rfis_native_transfer [OF assms(3)]
  fix p assume "p \<in> set (Pools (rfis s))"
  then have "unat (native_free_balance X p s) \<le> unat (native_free_balance X p t)"
    using native_transfer_balance(1) [OF assms(1,3), of p] assms(4) by (auto split: if_splits)
  then show "map_option (\<lambda>l. (sl_active l, sl_stash l)) (StakingLedgers K (staking t) p)
         = map_option (\<lambda>l. (sl_active l, sl_stash l)) (StakingLedgers K (staking s) p)
       \<and> native_free_balance X p s \<le> native_free_balance X p t"
    by (simp add: f word_le_nat_alt)
qed (simp_all add: rfis_native_transfer [OF assms(3)])

text \<open>A ledger of a pool is replaced, and one entry of \<open>Unbonding\<close>.\<close>

lemma pools_inv_change:
  assumes "pools_inv X K s" "c \<in> set (Pools (rfis s))" "Pools (rfis t) = Pools (rfis s)"
    and "\<And>w p. p \<noteq> c \<Longrightarrow> Unbonding (rfis t) w p = Unbonding (rfis s) w p"
    and "\<And>p. p \<noteq> c \<Longrightarrow> StakingLedgers K (staking t) p = StakingLedgers K (staking s) p"
    and "\<And>p. p \<noteq> c \<Longrightarrow> p \<in> set (Pools (rfis s)) \<Longrightarrow> native_free_balance X p s \<le> native_free_balance X p t"
    and "owed K c t \<le> unat (native_free_balance X c t)"
    and "\<And>l. StakingLedgers K (staking t) c = Some l \<Longrightarrow> sl_stash l = c"
  shows "pools_inv X K t"
proof -
  have o: "owed K p t = owed K p s" if "p \<noteq> c" for p
    using assms(4,5) that by (simp add: owed_def bonded_of_def unbonding_total_def unbonding_of_def)
  have "owed K p t \<le> unat (native_free_balance X p t)" if p: "p \<in> set (Pools (rfis s))" for p
    using assms(6) [of p] assms(7) o [of p] pools_invD(1) [OF assms(1) p] p by (cases "p = c") (auto simp: word_le_nat_alt)
  moreover have "sl_stash l = p" if "p \<in> set (Pools (rfis s))" "StakingLedgers K (staking t) p = Some l" for p l
    using that assms(5,8) pools_invD(2) [OF assms(1)] by (cases "p = c") auto
  moreover have "Unbonding (rfis t) w p = None" if "p \<notin> set (Pools (rfis s))" for w p
    using that assms(1,2) assms(4) [of p w] by (auto simp: pools_inv_def)
  ultimately show ?thesis
    using assms(3) by (simp add: pools_inv_def pools_solvent_def)
qed

section \<open>Bonding\<close>

text \<open>A pool into which \<open>v\<close> has been paid and which is about to bond it.\<close>

definition bond_ready :: "'c config \<Rightarrow> ('c, 'k) staking_api \<Rightarrow> AccountId \<Rightarrow> u128 \<Rightarrow> ('c, 'call, 'k, 'z) rfis_state_scheme \<Rightarrow> bool" where
  "bond_ready X K c v s \<longleftrightarrow> pools_inv X K s \<and> (owed K c s = 0 \<or> owed K c s + unat v \<le> unat (native_free_balance X c s))"

lemma bond_ready_frame:
  assumes "bond_ready X K c v s" "rfis t = rfis s" "staking t = staking s" "native t = native s"
  shows "bond_ready X K c v t"
  using assms pools_inv_frame [OF _ assms(2-4), of X K] owed_cong [OF assms(3,2), of K c]
  by (simp add: bond_ready_def native_free_balance_def)

lemma bond_extra_inv:
  assumes "staking_ok X K" "bond_ready X K c v s" "c \<in> set (Pools (rfis s))" "StakingLedgers K (staking s) c = Some l"
  shows "pools_inv X K (bond_extra X K c l v s)"
proof (cases "checked_sub (native_free_balance X c s) (sl_total l)")
  case None
  show ?thesis using assms(2) unfolding bond_extra_def None bond_ready_def by simp
next
  case (Some d)
  let ?e = "min d v"
  let ?l = "l\<lparr>sl_total := sl_total l + ?e, sl_active := sl_active l + ?e\<rparr>"
  define t where "t = on_staking (update_ledger K c ?l) s"
  note t = update_ledger_effect [OF assms(1) t_def]
  have inv: "pools_inv X K s" using assms(2) by (simp add: bond_ready_def)
  have d: "unat ?e \<le> unat v" "unat ?e \<le> unat (native_free_balance X c s)"
    using Some by (auto simp: unat_minus_exact min_def word_le_nat_alt)
  have "owed K c t \<le> owed K c s + unat ?e"
    using unat_plus_le [of "sl_active l" ?e] assms(4) by (simp add: owed_def bonded_of_def t)
  then have "owed K c t \<le> unat (native_free_balance X c s)"
    using assms(2) d by (auto simp: bond_ready_def)
  then have "pools_inv X K t"
    using assms(4) pools_invD(2) [OF inv assms(3,4)]
    by (intro pools_inv_change [OF inv assms(3)]) (auto simp: t)
  then show ?thesis unfolding bond_extra_def Some t_def Let_def by simp
qed

lemma paid_ready:
  assumes "currency_ok X" "pools_inv X K s" "native_transfer X w c v s = (Ok u, t)" "w \<notin> set (Pools (rfis s))" "c \<in> set (Pools (rfis s))"
  shows "bond_ready X K c v t"
proof -
  have "w \<noteq> c" using assms(4,5) by blast
  from native_moves(1) [OF assms(1,3) this] pools_invD(1) [OF assms(2,5)] rfis_native_transfer [OF assms(3)]
  have "owed K c t + unat v \<le> unat (native_free_balance X c t)"
    using owed_cong [of t s K c] by simp
  with pools_inv_receive [OF assms(1-4)] show ?thesis by (simp add: bond_ready_def)
qed

text \<open>With the fee of the bridge paid on through the pool.\<close>

lemma paid_ready_swap:
  assumes "currency_ok X" "pools_inv X K s" "w \<notin> set (Pools (rfis s))" "c \<in> set (Pools (rfis s))"
    and 1: "native_transfer X w c (saturating_add v f) s = (Ok u, s1)" and 2: "native_transfer X c r f s1 = (Ok u', s2)"
  shows "bond_ready X K c v s2"
proof -
  have wc: "w \<noteq> c" using assms(3,4) by blast
  note f1 = rfis_native_transfer [OF 1] and f2 = rfis_native_transfer [OF 2]
  have inv1: "pools_inv X K s1" by (rule pools_inv_receive [OF assms(1,2) 1 assms(3)])
  have o: "owed K p s2 = owed K p s" "owed K p s1 = owed K p s" for p
    using owed_cong [of s2 s K p] owed_cong [of s1 s K p] f1 f2 by simp_all
  note m1 = native_moves(1) [OF assms(1) 1 wc] and m2 = native_transfer_balance(1) [OF assms(1) 2]
  have fits: "unat (native_free_balance X c s1) < 2 ^ 128" using unat_less_pow [of "native_free_balance X c s1"] by simp
  have paid: "unat (native_free_balance X c s) + unat (saturating_add v f) \<le> unat (native_free_balance X c s2) + unat f"
    using m1 m2 [of c] by (auto split: if_splits)
  have le: "owed K c s \<le> unat (native_free_balance X c s)" by (rule pools_invD(1) [OF assms(2,4)])
  have ready: "owed K c s = 0 \<or> owed K c s + unat v \<le> unat (native_free_balance X c s2)"
    using le paid m1 fits by (auto simp: unat_saturating_add min_def split: if_splits)
  have "unat f \<le> unat (saturating_add v f)"
    using unat_less_pow [of f] by (simp add: unat_saturating_add)
  then have "owed K c s2 \<le> unat (native_free_balance X c s2)"
    using le paid o by simp
  moreover have "native_free_balance X p s1 \<le> native_free_balance X p s2" if "p \<noteq> c" for p
    using m2 [of p] that by (auto simp: word_le_nat_alt split: if_splits)
  ultimately have "pools_inv X K s2"
    using assms(4) f1 f2 pools_invD(2) [OF inv1, of c]
    by (intro pools_inv_change [OF inv1, of c]) auto
  with ready o show ?thesis by (simp add: bond_ready_def)
qed

lemma rfis_bondable_keeps:
  assumes "P s" "\<And>c l. c \<in> set (Pools (rfis s)) \<Longrightarrow> StakingLedgers K (staking s) c = Some l \<Longrightarrow> keeps P (k c l)"
  shows "keeps P (rfis_bondable X K pool v s k)"
  using assms unfolding rfis_bondable_def is_in_pools_def by (intro run_keeps) simp_all

lemma mint_errs_inv: "pools_inv X K s \<Longrightarrow> errs (pools_inv X K) (rbal_mint a y v s)"
  using rfis_mint [of a y v s] pools_inv_frame [of X K s]
  by (cases "rbal_mint a y v s"; cases "fst (rbal_mint a y v s)") (auto simp: errs_def)

lemma bonded_inv:
  assumes "staking_ok X K" "bond_ready X K c v s2" "rfis s2 = rfis s" "staking s2 = staking s"
    and "c \<in> set (Pools (rfis s))" "StakingLedgers K (staking s) c = Some l"
  shows "pools_inv X K (deposit_event e (bond_extra X K c l v (update_claim_info X w RFIS rb v s2)))"
proof -
  have "bond_ready X K c v (update_claim_info X w RFIS rb v s2)"
    by (rule bond_ready_frame [OF assms(2)]) simp_all
  then show ?thesis using assms by (simp add: bond_extra_inv)
qed

lemma liquidity_bond_inv:
  assumes "currency_ok X" "staking_ok X K" "pools_inv X K s" "\<And>w. o' = Signed w \<Longrightarrow> w \<notin> set (Pools (rfis s))"
  shows "keeps (pools_inv X K) (rfis_liquidity_bond X K o' pool v s)"
proof -
  have "keeps (pools_inv X K) (and_then (native_transfer X w c v s) (\<lambda>_ s1. and_then (rbal_mint w RFIS rb s1) (\<lambda>_ s2.
          (Ok (), deposit_event e (bond_extra X K c l v (update_claim_info X w RFIS rb v s2))))))"
    if w: "w \<notin> set (Pools (rfis s))" and c: "c \<in> set (Pools (rfis s))" "StakingLedgers K (staking s) c = Some l" for w c l e rb
  proof (intro and_then_keeps_errs native_transfer_errs assms(1,3))
    fix u s1 assume 1: "native_transfer X w c v s = (Ok u, s1)"
    note f1 = rfis_native_transfer [OF 1] and r1 = paid_ready [OF assms(1,3) 1 w c(1)]
    show "errs (pools_inv X K) (rbal_mint w RFIS rb s1)"
      using r1 by (intro mint_errs_inv) (simp add: bond_ready_def)
    fix u' s2 assume 2: "rbal_mint w RFIS rb s1 = (Ok u', s2)"
    note f2 = rfis_mint [OF 2]
    show "keeps (pools_inv X K) (Ok (), deposit_event e (bond_extra X K c l v (update_claim_info X w RFIS rb v s2)))"
      using bonded_inv [OF assms(2) bond_ready_frame [OF r1 f2(1-3)] _ _ c] f1 f2 by (simp add: keeps_def)
  qed
  then show ?thesis
    using assms(3,4) unfolding rfis_liquidity_bond_def Let_def by (intro ensure_signed_keeps rfis_bondable_keeps) auto
qed

lemma fungible_errs_inv: "pools_inv X K s \<Longrightarrow> errs (pools_inv X K) (transfer_fungible a d r b v s)"
  using rfis_transfer_fungible [of a d r b v s] pools_inv_frame [of X K s]
  by (cases "transfer_fungible a d r b v s"; cases "fst (transfer_fungible a d r b v s)") (auto simp: errs_def)

lemma swap_payment_inv:
  fixes s t :: "('c, 'call, 'k, 'z) rfis_state_scheme"
  assumes "currency_ok X" "pools_inv X K s" "w \<notin> set (Pools (rfis s))" "c \<in> set (Pools (rfis s))"
    and r: "r = and_then (native_transfer X w c (saturating_add v f) s) (\<lambda>_ s1. and_then (native_transfer X c b f s1) (\<lambda>_ s2.
       and_then (rbal_mint g RFIS rb s2) (\<lambda>_ s3. transfer_fungible w d res rec am s3)))"
  shows "errs (pools_inv X K) r" "r = (Ok u, t) \<Longrightarrow> bond_ready X K c v t \<and> rfis t = rfis s \<and> staking t = staking s"
proof -
  have paid: "bond_ready X K c v s2 \<and> rfis s2 = rfis s \<and> staking s2 = staking s"
    if "native_transfer X w c (saturating_add v f) s = (Ok u1, s1)" "native_transfer X c b f s1 = (Ok u2, s2)" for u1 u2 s1 s2
    using paid_ready_swap [OF assms(1-4) that] rfis_native_transfer [OF that(1)] rfis_native_transfer [OF that(2)] by simp
  show "errs (pools_inv X K) r"
    unfolding r
  proof (intro and_then_errs native_transfer_errs assms(1,2))
    fix u1 s1 assume 1: "native_transfer X w c (saturating_add v f) s = (Ok u1, s1)"
    then show "pools_inv X K s1" by (rule pools_inv_receive [OF assms(1,2) _ assms(3)])
    fix u2 s2 assume 2: "native_transfer X c b f s1 = (Ok u2, s2)"
    have i2: "pools_inv X K s2" using paid [OF 1 2] by (simp add: bond_ready_def)
    then show "errs (pools_inv X K) (rbal_mint g RFIS rb s2)" by (rule mint_errs_inv)
    fix u3 s3 assume "rbal_mint g RFIS rb s2 = (Ok u3, s3)"
    from pools_inv_frame [OF i2 rfis_mint(1-3) [OF this]] show "errs (pools_inv X K) (transfer_fungible w d res rec am s3)"
      by (rule fungible_errs_inv)
  qed
  assume "r = (Ok u, t)"
  then obtain u1 s1 u2 s2 u3 and s3 :: "('c, 'call, 'k, 'z) rfis_state_scheme" where
    1: "native_transfer X w c (saturating_add v f) s = (Ok u1, s1)" "native_transfer X c b f s1 = (Ok u2, s2)" and
    3: "rbal_mint g RFIS rb s2 = (Ok u3, s3)" and 4: "transfer_fungible w d res rec am s3 = (Ok u, t)"
    unfolding r and_then_Ok by blast
  show "bond_ready X K c v t \<and> rfis t = rfis s \<and> staking t = staking s"
    using paid [OF 1] rfis_mint [OF 3] rfis_transfer_fungible [OF 4] bond_ready_frame [of X K c v s2 t] by simp
qed

lemma swapable_errs: "P s \<Longrightarrow> (\<And>x. errs P (k x)) \<Longrightarrow> errs P (swapable X rec d s k)"
  unfolding swapable_def by (simp add: ensure_def ok_or_def errs_def split: option.splits)

lemma liquidity_bond_and_swap_inv:
  assumes "currency_ok X" "staking_ok X K" "pools_inv X K s" "\<And>w. o' = Signed w \<Longrightarrow> w \<notin> set (Pools (rfis s))"
  shows "keeps (pools_inv X K) (rfis_liquidity_bond_and_swap X K o' pool v rec d s)"
proof -
  let ?pay = "\<lambda>w c rb. if d \<noteq> ChainIdentity X
           then swapable X rec d s (\<lambda>(fee, receiver, bridger').
                ok_or (RsymbolResource (bridge s) RFIS) (BridgeErr bridge_error.RsymbolNotMapped) s (\<lambda>resource.
                and_then (native_transfer X w c (saturating_add v fee) s) (\<lambda>_ s1.
                and_then (native_transfer X c receiver fee s1) (\<lambda>_ s2.
                and_then (rbal_mint bridger' RFIS rb s2) (\<lambda>_ s3.
                transfer_fungible w d resource rec (ucast rb) s3)))))
           else and_then (native_transfer X w c v s) (\<lambda>_ s1. rbal_mint w RFIS rb s1)"
  have "keeps (pools_inv X K) (and_then (?pay w c rb) (\<lambda>_ s2.
          (Ok (), deposit_event e (bond_extra X K c l v (update_claim_info X w RFIS rb v s2)))))"
    if w: "w \<notin> set (Pools (rfis s))" and c: "c \<in> set (Pools (rfis s))" "StakingLedgers K (staking s) c = Some l" for w c l e rb
  proof (intro and_then_keeps_errs)
    show "errs (pools_inv X K) (?pay w c rb)"
      unfolding case_prod_beta
      by (intro if_errs swapable_errs ok_or_errs assms(3) swap_payment_inv(1) [OF assms(1,3) w c(1) refl] and_then_errs
          native_transfer_errs assms(1) mint_errs_inv pools_inv_receive [OF assms(1,3) _ w])
    fix u s2 assume "?pay w c rb = (Ok u, s2)"
    then have "bond_ready X K c v s2 \<and> rfis s2 = rfis s \<and> staking s2 = staking s"
    proof (cases "d = ChainIdentity X")
      case True
      with \<open>?pay w c rb = (Ok u, s2)\<close> obtain u1 s1 where
        1: "native_transfer X w c v s = (Ok u1, s1)" and 2: "rbal_mint w RFIS rb s1 = (Ok u, s2)"
        by (auto simp: and_then_Ok)
      show ?thesis
        using bond_ready_frame [OF paid_ready [OF assms(1,3) 1 w c(1)] rfis_mint(1-3) [OF 2]] rfis_native_transfer [OF 1]
          rfis_mint [OF 2] by simp
    next
      case False
      with \<open>?pay w c rb = (Ok u, s2)\<close> show ?thesis
        by (auto simp: swapable_Ok ok_or_Ok dest: swap_payment_inv(2) [OF assms(1,3) w c(1) refl])
    qed
    with bonded_inv [OF assms(2) _ _ _ c]
    show "keeps (pools_inv X K) (Ok (), deposit_event e (bond_extra X K c l v (update_claim_info X w RFIS rb v s2)))"
      unfolding keeps_def snd_conv by blast
  qed
  then show ?thesis
    using assms(3,4) unfolding rfis_liquidity_bond_and_swap_def Let_def by (intro ensure_signed_keeps rfis_bondable_keeps) auto
qed

section \<open>Unbonding\<close>

lemma unbonded_inv:
  assumes "staking_ok X K" "pools_inv X K s" "c \<in> set (Pools (rfis s))" "StakingLedgers K (staking s) c = Some l" "b \<le> sl_active l"
    and "rfis s2 = rfis s" "staking s2 = staking s" "native s2 = native s"
  shows "pools_inv X K (rfis_update (put_unbonding w c (Some (add_chunk e b (unbonding_of w c (rfis s)))))
           (on_staking (update_ledger K c (l\<lparr>sl_active := sl_active l - b, sl_unlocking := us\<rparr>)) s2))" (is "pools_inv X K ?t")
proof (rule pools_inv_change [OF assms(2,3)])
  let ?u = "on_staking (update_ledger K c (l\<lparr>sl_active := sl_active l - b, sl_unlocking := us\<rparr>)) s2"
  note u = update_ledger_effect [OF assms(1), of ?u, OF refl]
  have free: "native_free_balance X p ?t = native_free_balance X p s" for p
    using u(2) [of p] assms(8) by (simp add: native_free_balance_def)
  have "owed K c ?t \<le> owed K c s"
  proof -
    have "unbonding_total c (rfis ?t) \<le> unbonding_total c (rfis s) + unat b"
      using unbonding_total_put [of c w "Some (add_chunk e b (unbonding_of w c (rfis s)))" "rfis s"]
        chunks_total_add [of e b "unbonding_of w c (rfis s)"] assms(6) by simp
    then show ?thesis
      using assms(4,5) by (simp add: owed_def bonded_of_def u(1) unat_minus_exact word_le_nat_alt)
  qed
  then show "owed K c ?t \<le> unat (native_free_balance X c ?t)"
    using pools_invD(1) [OF assms(2,3)] by (simp only: free)
  show "native_free_balance X p s \<le> native_free_balance X p ?t" for p by (simp only: free)
  show "StakingLedgers K (staking ?t) p = StakingLedgers K (staking s) p" if "p \<noteq> c" for p
    using that u(1) assms(7) by simp
  show "sl_stash l' = c" if "StakingLedgers K (staking ?t) c = Some l'" for l'
    using that u(1) pools_invD(2) [OF assms(2-4)] by auto
qed (simp_all add: assms(6) put_unbonding_def)

lemma liquidity_unbond_inv:
  assumes "staking_ok X K" "pools_inv X K s"
  shows "keeps (pools_inv X K) (rfis_liquidity_unbond X K o' pool v s)"
proof -
  have "keeps (pools_inv X K) (and_then (rbal_transfer w r RFIS f s) (\<lambda>_ s1. and_then (rbal_burn w RFIS left s1) (\<lambda>_ s2.
      (Ok (), deposit_event ev (rfis_update (put_unbonding w c (Some (add_chunk e b (unwrap_or (Unbonding (rfis s) w c) []))))
        (on_staking (update_ledger K c (l\<lparr>sl_active := sl_active l - b, sl_unlocking := us\<rparr>)) s2))))))"
    if c: "c \<in> set (Pools (rfis s))" "StakingLedgers K (staking s) c = Some l" "b \<le> sl_active l" for w r f left ev c e b l us
  proof (intro and_then_keeps)
    show "keeps (pools_inv X K) (rbal_transfer w r RFIS f s)"
      using pools_inv_frame [OF assms(2) rfis_rtransfer(1-3) [OF prod.collapse [symmetric]]] by (simp add: keeps_def)
    fix u1 s1 assume "rbal_transfer w r RFIS f s = (Ok u1, s1)" and i1: "pools_inv X K s1"
    note f1 = rfis_rtransfer [OF this(1)]
    show "keeps (pools_inv X K) (rbal_burn w RFIS left s1)"
      using pools_inv_frame [OF i1 rfis_burn(1-3) [OF prod.collapse [symmetric]]] by (simp add: keeps_def)
    fix u2 s2 assume "rbal_burn w RFIS left s1 = (Ok u2, s2)"
    note f2 = rfis_burn [OF this]
    show "keeps (pools_inv X K) (Ok (), deposit_event ev (rfis_update (put_unbonding w c (Some (add_chunk e b (unwrap_or (Unbonding (rfis s) w c) []))))
        (on_staking (update_ledger K c (l\<lparr>sl_active := sl_active l - b, sl_unlocking := us\<rparr>)) s2)))"
      using unbonded_inv [OF assms c, of s2 w e us] f1 f2 by (simp add: keeps_def unbonding_of_def)
  qed
  then show ?thesis
    using assms(2) unfolding rfis_liquidity_unbond_def is_in_pools_def Let_def
    by (intro ensure_signed_keeps ok_or_keeps ensure_keeps) auto
qed

lemma withdrawn_inv:
  assumes "currency_ok X" "pools_inv X K s" "c \<in> set (Pools (rfis s))" "w \<notin> set (Pools (rfis s))"
    and 1: "native_transfer X c w d s = (Ok u, s1)"
    and ds: "unat d + chunks_total (unwrap_or ds []) \<le> chunks_total (unbonding_of w c (rfis s))"
  shows "pools_inv X K (rfis_update (put_unbonding w c ds) s1)" (is "pools_inv X K ?t")
proof (rule pools_inv_change [OF assms(2,3)])
  note f1 = rfis_native_transfer [OF 1]
  have cw: "c \<noteq> w" using assms(3,4) by blast
  have free: "native_free_balance X p ?t = native_free_balance X p s1" for p by (simp add: native_free_balance_def)
  have "owed K c ?t + unat d \<le> owed K c s"
    using unbonding_total_put [of c w ds "rfis s"] ds f1 by (simp add: owed_def bonded_of_def)
  then show "owed K c ?t \<le> unat (native_free_balance X c ?t)"
    using pools_invD(1) [OF assms(2,3)] native_moves(2) [OF assms(1) 1 cw] by (simp add: free)
  show "native_free_balance X p s \<le> native_free_balance X p ?t" if "p \<noteq> c" "p \<in> set (Pools (rfis s))" for p
    using native_transfer_balance(1) [OF assms(1) 1, of p] that by (auto simp: free word_le_nat_alt split: if_splits)
  show "StakingLedgers K (staking ?t) p = StakingLedgers K (staking s) p" for p using f1 by simp
  show "sl_stash l = c" if "StakingLedgers K (staking ?t) c = Some l" for l
    using that pools_invD(2) [OF assms(2,3)] f1 by simp
qed (simp_all add: rfis_native_transfer [OF 1] put_unbonding_def)

lemma liquidity_withdraw_unbond_inv:
  assumes "currency_ok X" "pools_inv X K s" "\<And>w. o' = Signed w \<Longrightarrow> w \<notin> set (Pools (rfis s))"
  shows "keeps (pools_inv X K) (rfis_liquidity_withdraw_unbond X K o' pool s)"
proof -
  have fits: "unat (foldl (\<lambda>acc c. if e < unlock_at c then acc else saturating_add acc (unlock_value c)) 0 cs)
      + chunks_total (unwrap_or (if ds = [] then None else Some ds) []) \<le> chunks_total cs"
    if "ds = filter (\<lambda>c. e < unlock_at c) cs" for e cs ds
    using due_le [of e 0 cs] chunks_total_filter [of "\<lambda>c. e < unlock_at c" cs] that by (cases "ds = []") simp_all
  show ?thesis
    using assms(2,3) unfolding rfis_liquidity_withdraw_unbond_def is_in_pools_def Let_def
    by (intro ensure_signed_keeps ok_or_keeps ensure_keeps and_then_keeps_errs native_transfer_errs assms(1))
      (auto simp: keeps_def unbonding_of_def split del: if_split intro!: withdrawn_inv [OF assms(1,2)] fits)
qed

section \<open>The other operations\<close>

lemma ledger_write_inv:
  assumes "staking_ok X K" "pools_inv X K s"
    and "case StakingLedgers K (staking s) a of None \<Rightarrow> sl_active l = 0 \<and> sl_stash l = a
         | Some l0 \<Rightarrow> sl_active l = sl_active l0 \<and> sl_stash l = sl_stash l0"
  shows "pools_inv X K (on_staking (update_ledger K a l) s)" (is "pools_inv X K ?t")
proof (cases "a \<in> set (Pools (rfis s))")
  case True
  note t = update_ledger_effect [OF assms(1), of ?t, OF refl]
  have "owed K a ?t = owed K a s"
    using assms(3) by (simp add: owed_def bonded_of_def t split: option.splits)
  then show ?thesis
    using pools_invD(1) [OF assms(2) True] pools_invD(2) [OF assms(2) True] assms(3)
    by (intro pools_inv_change [OF assms(2) True]) (auto simp: t split: option.splits)
next
  case False
  note t = update_ledger_effect [OF assms(1), of ?t, OF refl]
  show ?thesis
    using False by (intro pools_inv_keep [OF assms(2)]) (auto simp: t)
qed

lemma bond_for_pool_inv:
  assumes "staking_ok X K" "pools_inv X K s"
  shows "keeps (pools_inv X K) (bond_for_pool X K o' pool s)"
proof -
  have "pools_inv X K (on_staking (bond_stash K p) s)" (is "pools_inv X K ?t")
    "StakingLedgers K (staking (on_staking (bond_stash K p) s)) = StakingLedgers K (staking s)" for p
    using bond_stash_effect [OF assms(1), of "on_staking (bond_stash K p) s", OF refl]
    by (auto intro!: pools_inv_keep [OF assms(2)])
  then show ?thesis
    using assms(2) unfolding bond_for_pool_def
    by (intro guard_keeps sum_keeps return_keeps ledger_write_inv [OF assms(1)]) auto
qed

lemma add_pool_unlock_inv:
  assumes "staking_ok X K" "pools_inv X K s"
  shows "keeps (pools_inv X K) (add_pool_unlock X K o' pool c s)"
  using assms unfolding add_pool_unlock_def
  by (intro guard_keeps return_keeps ledger_write_inv [OF assms(1)]) auto

lemma pools_inv_rfis_update:
  "pools_inv X K s \<Longrightarrow> Pools (f (rfis s)) = Pools (rfis s) \<Longrightarrow> Unbonding (f (rfis s)) = Unbonding (rfis s)
   \<Longrightarrow> pools_inv X K (rfis_update f s)"
  by (erule pools_inv_keep) (simp_all add: native_free_balance_def)

lemma submissions_inv:
  assumes "staking_ok X K" "pools_inv X K s"
  shows "keeps (pools_inv X K) (submit_unlocks K o' era pool s)" "keeps (pools_inv X K) (submit_total_bonded_before K o' era v s)"
    "keeps (pools_inv X K) (submit_total_bonded_after K o' era v s)" "keeps (pools_inv X K) (submit_nomination K o' era pool ts s)"
proof -
  have same: "sl_active (consolidate_unlocked K e l) = sl_active l" "sl_stash (consolidate_unlocked K e l) = sl_stash l"
    "StakingLedgers K (put_nominations K a ts e b k) = StakingLedgers K k" for e l a ts b k
    using assms(1) by (simp_all add: staking_ok_def)
  show "keeps (pools_inv X K) (submit_unlocks K o' era pool s)"
    using assms(2) unfolding submit_unlocks_def Let_def
    by (intro ensure_none_keeps guard_keeps return_keeps pools_inv_rfis_update ledger_write_inv [OF assms(1)]) (auto simp: same)
  show "keeps (pools_inv X K) (submit_total_bonded_before K o' era v s)" "keeps (pools_inv X K) (submit_total_bonded_after K o' era v s)"
    using assms(2) unfolding submit_total_bonded_before_def submit_total_bonded_after_def
    by - ((intro ensure_none_keeps guard_keeps return_keeps; simp add: pools_inv_rfis_update)+)
  have "pools_inv X K (rfis_update_nominations K e ts p s)" for e ts p
    by (rule pools_inv_keep [OF assms(2)]) (simp_all add: rfis_update_nominations_def same native_free_balance_def)
  then show "keeps (pools_inv X K) (submit_nomination K o' era pool ts s)"
    using assms(2) unfolding submit_nomination_def
    by (intro ensure_none_keeps guard_keeps return_keeps; simp add: pools_inv_rfis_update)
qed

lemma submit_paidouts_inv:
  assumes "staking_ok X K" "pools_inv X K s"
  shows "keeps (pools_inv X K) (submit_paidouts K o' era pool val s)"
proof -
  have paid: "pools_inv X K (s\<lparr>native := n, staking := k\<rparr>)" (is "pools_inv X K ?t")
    if p: "do_payout_stakers K val era (staking s, native s) = (b, k, n)" for b k n
  proof -
    have "payout_ok X K" using assms(1) by (simp add: staking_ok_def)
    note ok = this [unfolded payout_ok_def, rule_format, OF p]
    have nf: "native_free_balance X a s = currency_free_balance X (native s) a" "native_free_balance X a ?t = currency_free_balance X n a" for a
      by (simp_all add: native_free_balance_def)
    have free: "native_free_balance X a s \<le> native_free_balance X a ?t"
      and led: "case StakingLedgers K (staking s) a of None \<Rightarrow> StakingLedgers K k a = None
        | Some l \<Rightarrow> \<exists>l'. StakingLedgers K k a = Some l' \<and> sl_stash l' = sl_stash l \<and>
            unat (sl_active l') + unat (native_free_balance X (sl_stash l) s)
              \<le> unat (sl_active l) + unat (native_free_balance X (sl_stash l) ?t)" for a
      using ok unfolding nf by blast+
    have "owed K a ?t \<le> unat (native_free_balance X a ?t) \<and> (\<forall>l. StakingLedgers K k a = Some l \<longrightarrow> sl_stash l = a)"
      if a: "a \<in> set (Pools (rfis s))" for a
      using led [of a] free [of a] pools_invD [OF assms(2) a]
      by (cases "StakingLedgers K (staking s) a") (auto simp: owed_def bonded_of_def word_le_nat_alt)
    with assms(2) show ?thesis
      by (auto simp: pools_inv_def pools_solvent_def)
  qed
  obtain b k n where p: "do_payout_stakers K val era (staking s, native s) = (b, k, n)"
    by (metis prod.collapse)
  show ?thesis
    using assms(2) unfolding submit_paidouts_def p prod.case
    by (intro ensure_none_keeps guard_keeps return_keeps; simp add: pools_inv_rfis_update paid [OF p])
qed

lemma settings_inv:
  assumes "pools_inv X K s"
  shows "keeps (pools_inv X K) (toggle_nominate_switch o' s)" "keeps (pools_inv X K) (set_min_nomination_num o' n s)"
    "keeps (pools_inv X K) (set_max_nomination_num K o' n s)" "keeps (pools_inv X K) (rfis_set_commission X o' part s)"
    "keeps (pools_inv X K) (set_max_validator_commission X o' part s)" "keeps (pools_inv X K) (rfis_set_balance_limit o' v s)"
    "keeps (pools_inv X K) (rfis_set_receiver X o' r s)" "keeps (pools_inv X K) (rfis_set_unbond_commission X o' part s)"
    "keeps (pools_inv X K) (onboard K o' s)" "keeps (pools_inv X K) (offboard K o' s)"
  using assms
  unfolding toggle_nominate_switch_def set_min_nomination_num_def set_max_nomination_num_def rfis_set_commission_def
    set_max_validator_commission_def rfis_set_balance_limit_def rfis_set_receiver_def rfis_set_unbond_commission_def
    onboard_def offboard_def Let_def
  by - ((intro guard_keeps sum_keeps return_keeps; simp add: pools_inv_rfis_update)+)

lemma add_new_pool_inv:
  assumes "pools_inv X K s" "strictly_sorted (Pools (rfis s))"
    and "StakingLedgers K (staking s) (into_account X (map (\<lambda>b. char_of (unat b)) m)) = None"
  shows "keeps (pools_inv X K) (rfis_add_new_pool X o' m s)"
proof -
  define p where "p = into_account X (map (\<lambda>b. char_of (unat b)) m)"
  have "pools_inv X K (rfis_update (\<lambda>m. m\<lparr>Pools := insert_nth i p (Pools m)\<rparr>) s)" (is "pools_inv X K ?t")
    if i: "binary_search (Pools (rfis s)) p = Inr i" for i
  proof -
    have set: "set (Pools (rfis ?t)) = insert p (set (Pools (rfis s)))"
      using bs.insert_at_missing(2) [OF assms(2) i] by simp
    have new: "p \<notin> set (Pools (rfis s))"
      using bs.search_mem [OF assms(2), of p] i by auto
    then have "unbonding_total p (rfis ?t) = 0"
      using assms(1) by (simp add: unbonding_total_def unbonding_of_def pools_inv_def)
    then have "owed K p ?t = 0"
      using assms(3) by (simp add: owed_def bonded_of_def p_def)
    moreover have "owed K q ?t = owed K q s" "native_free_balance X q ?t = native_free_balance X q s" for q
      by (simp_all add: owed_def bonded_of_def unbonding_total_def unbonding_of_def native_free_balance_def)
    ultimately show ?thesis
      using assms(1,3) set by (auto simp: pools_inv_def pools_solvent_def p_def)
  qed
  then show ?thesis
    using assms(1) unfolding rfis_add_new_pool_def Let_def p_def
    by (intro guard_keeps sum_keeps return_keeps) simp_all
qed

lemma pools_dispatch:
  assumes "currency_ok X" "staking_ok X K" "pools_inv X K s" "strictly_sorted (Pools (rfis s))"
    and "\<And>w. o' = Signed w \<Longrightarrow> w \<notin> set (Pools (rfis s))"
    and "\<And>m. c = CallAddNewPool m \<Longrightarrow> StakingLedgers K (staking s) (into_account X (map (\<lambda>b. char_of (unat b)) m)) = None"
  shows "pools_inv X K (snd (rfis_dispatch X K o' c s))"
proof -
  have "keeps (pools_inv X K) (rfis_dispatch X K o' c s)"
    using assms
    by (cases c) (simp_all add: settings_inv add_new_pool_inv bond_for_pool_inv add_pool_unlock_inv submissions_inv
        submit_paidouts_inv liquidity_bond_inv liquidity_bond_and_swap_inv liquidity_unbond_inv liquidity_withdraw_unbond_inv)
  then show ?thesis by (simp add: keeps_def)
qed

lemma pools_inv_empty: "rfis s = empty_rfis \<Longrightarrow> pools_inv X K s"
  by (simp add: pools_inv_def pools_solvent_def empty_rfis_def)

lemma pools_reach_inv:
  assumes "currency_ok X" "staking_ok X K"
  shows "pools_reach X K s \<Longrightarrow> pools_inv X K s \<and> wf_in (max_unlock_chunks K) s"
proof (induction rule: pools_reach.induct)
  case (genesis s)
  then show ?case by (simp add: pools_inv_empty rfis_wf_empty)
next
  case (call s o' c)
  then have "strictly_sorted (Pools (rfis s))" by (simp add: rfis_wf_def)
  with call have "pools_inv X K (snd (rfis_dispatch X K o' c s))"
    by (intro pools_dispatch [OF assms]) simp_all
  with call wf_dispatch [of K s X o' c] show ?case by (simp add: keeps_def)
next
  case (block_end s)
  then show ?case by (auto intro: pools_inv_frame [of X K s])
next
  case (elsewhere s t)
  then show ?case by (auto intro: pools_inv_keep [of X K s])
qed

section \<open>Properties\<close>

text \<open>
  C13. The pools stay solvent: in every reachable state the balance of each pool covers the active stake of its
  ledger together with every chunk its users are unbonding from it, those already due included. So paying a
  user what is due never takes what belongs to another user or is still bonded.
\<close>

theorem rfis_pools_solvent:
  assumes "currency_ok X" "staking_ok X K" "pools_reach X K s" "p \<in> set (Pools (rfis s))"
  shows "unat (bonded_of K p s) + (\<Sum>w\<in>UNIV. chunks_total (unbonding_of w p (rfis s))) \<le> unat (native_free_balance X p s)"
  using pools_reach_inv [OF assms(1-3)] assms(4) by (simp add: pools_inv_def pools_solvent_def owed_def unbonding_total_def)

text \<open>A pool is bonded, a user bonds 500 through it and unbonds 200.\<close>

definition bonding_state :: "(AccountId \<Rightarrow> u128, unit, plain_staking) rfis_state" where
  "bonding_state = (fold (\<lambda>c s. snd (rfis_dispatch plain_config plain_staking_api Root c s))
     [CallBondForPool [1], CallToggleNominateSwitch, CallSetReceiver [9]] two_pools)
     \<lparr>rates := \<lparr>EraRate = (\<lambda>_ _. Some RATEBASE), Rate = (\<lambda>_. None)\<rparr>, rbalances := empty_tokens\<rparr>"

abbreviation zero_ledger :: StakingLedger where
  "zero_ledger \<equiv> \<lparr>sl_stash = 1, sl_total = 0, sl_active = 0, sl_unlocking = [], sl_claimed_rewards = []\<rparr>"

lemma plain_number_single: "plain_number [n] = ucast n"
  by (simp add: plain_number_def)

lemma bonding_state_simps [simp]:
  "rfis bonding_state = empty_rfis\<lparr>Pools := [1, 2], NominateSwitch := True, RFisReceiver := Some 9\<rparr>"
  "staking bonding_state = sample_staking\<lparr>plain_ledgers := [1 \<mapsto> zero_ledger], plain_bonded := (\<lambda>_. False)(1 := True)\<rparr>"
  "native bonding_state = (\<lambda>_. 2000)"
  "rates bonding_state = \<lparr>EraRate = (\<lambda>_ _. Some RATEBASE), Rate = (\<lambda>_. None)\<rparr>"
  "rbalances bonding_state = empty_tokens"
  by (simp_all add: bonding_state_def bond_for_pool_def toggle_nominate_switch_def rfis_set_receiver_def Let_def
      plain_number_single binary_search_def bsearch_base_step on_staking_def sample_staking_def empty_rfis_def)

lemma bonding_state_reached: "pools_reach plain_config plain_staking_api bonding_state"
proof -
  have "pools_reach plain_config plain_staking_api two_pools"
    unfolding two_pools_def fold_simps comp_def id_def
    by (intro pools_reach.call pools_reach.genesis)
      (simp_all add: sample_staking_def rfis_add_new_pool_def plain_module_account Let_def split: sum.splits del: plain_config_simps)
  then have "pools_reach plain_config plain_staking_api (fold (\<lambda>c s. snd (rfis_dispatch plain_config plain_staking_api Root c s))
     [CallBondForPool [1], CallToggleNominateSwitch, CallSetReceiver [9]] two_pools)" (is "pools_reach _ _ ?t")
    unfolding fold_simps comp_def id_def by (intro pools_reach.call) simp_all
  then show ?thesis
    by (rule pools_reach.elsewhere) (simp_all add: bonding_state_def native_free_balance_def)
qed

definition bonded_state :: "(AccountId \<Rightarrow> u128, unit, plain_staking) rfis_state" where
  "bonded_state = snd (rfis_dispatch plain_config plain_staking_api (Signed 7) (CallLiquidityBond [1] 500) bonding_state)"

lemmas rfis_eval = plain_number_single is_in_pools_def sample_staking_def empty_rfis_def bonded_of_def checked_add_def checked_sub_def
  token_to_rtoken_def rtoken_to_token_def native_transfer_def native_free_balance_def plain_transfer_def rbal_ops rbal_lift_def token_lift_def
  token_ops_eq free_balance_def rbal_free_balance_def set_free_def empty_tokens_def bond_extra_def on_staking_def Let_def

lemma bonded_state_simps [simp]:
  "rfis bonded_state = rfis bonding_state"
  "staking bonded_state = sample_staking\<lparr>plain_ledgers := [1 \<mapsto> zero_ledger\<lparr>sl_total := 500, sl_active := 500\<rparr>], plain_bonded := (\<lambda>_. False)(1 := True)\<rparr>"
  "native bonded_state = (\<lambda>_. 2000)(7 := 1500, 1 := 2500)"
  "rates bonded_state = rates bonding_state"
  "rbalances bonded_state = \<lparr>TotalIssuance = (\<lambda>_. 0)(RFIS := 500), Account = (\<lambda>_ _. None)(RFIS := [7 \<mapsto> \<lparr>free = 500\<rparr>])\<rparr>"
  unfolding bonded_state_def
  by (simp_all add: rfis_liquidity_bond_def rfis_bondable_def rfis_eval)

definition unbonded_state :: "(AccountId \<Rightarrow> u128, unit, plain_staking) rfis_state" where
  "unbonded_state = snd (rfis_dispatch plain_config plain_staking_api (Signed 7) (CallLiquidityUnbond [1] 200) bonded_state)"

lemma unbonded_state_simps [simp]:
  "rfis unbonded_state = put_unbonding 7 1 (Some [\<lparr>unlock_value = 200, unlock_at = 33\<rparr>]) (rfis bonding_state)"
  "staking unbonded_state = sample_staking\<lparr>plain_ledgers := [1 \<mapsto> zero_ledger\<lparr>sl_total := 500, sl_active := 300,
       sl_unlocking := [\<lparr>unlock_value = 200, unlock_at = 33\<rparr>]\<rparr>], plain_bonded := (\<lambda>_. False)(1 := True)\<rparr>"
  "native unbonded_state = (\<lambda>_. 2000)(7 := 1500, 1 := 2500)"
  unfolding unbonded_state_def
  by (simp_all add: rfis_liquidity_unbond_def unbond_fee_def max_unlock_chunks_def rfis_eval)

lemma unbonded_state_reached: "pools_reach plain_config plain_staking_api unbonded_state"
  unfolding unbonded_state_def bonded_state_def
  by (intro pools_reach.call bonding_state_reached) (simp_all add: bonded_state_def [symmetric] empty_rfis_def del: rfis_dispatch.simps)

theorem rfis_pools_solvent_witness:
  "pools_reach plain_config plain_staking_api unbonded_state \<and> 1 \<in> set (Pools (rfis unbonded_state))
   \<and> bonded_of plain_staking_api 1 unbonded_state = 300 \<and> native_free_balance plain_config 1 unbonded_state = 2500
   \<and> unbonding_of 7 1 (rfis unbonded_state) = [\<lparr>unlock_value = 200, unlock_at = 33\<rparr>]
   \<and> unat (bonded_of plain_staking_api 1 unbonded_state) + (\<Sum>w\<in>UNIV. chunks_total (unbonding_of w 1 (rfis unbonded_state)))
       \<le> unat (native_free_balance plain_config 1 unbonded_state)"
proof -
  have p: "1 \<in> set (Pools (rfis unbonded_state))" by (simp add: put_unbonding_def)
  have e: "bonded_of plain_staking_api 1 unbonded_state = 300" "native_free_balance plain_config 1 unbonded_state = 2500"
    "unbonding_of 7 1 (rfis unbonded_state) = [\<lparr>unlock_value = 200, unlock_at = 33\<rparr>]"
    by (simp_all add: bonded_of_def native_free_balance_def unbonding_of_def put_unbonding_def)
  from rfis_pools_solvent [OF plain_currency_ok plain_staking_ok unbonded_state_reached p]
  show ?thesis using unbonded_state_reached p e by blast
qed

lemma due_exact:
  "unat d + chunks_total (filter (\<lambda>c. \<not> e < unlock_at c) cs) < 2 ^ 128 \<Longrightarrow>
   unat (foldl (\<lambda>acc c. if e < unlock_at c then acc else saturating_add acc (unlock_value c)) d cs)
     = unat d + chunks_total (filter (\<lambda>c. \<not> e < unlock_at c) cs)"
proof (induction cs arbitrary: d)
  case (Cons c cs)
  show ?case
  proof (cases "e < unlock_at c")
    case False
    have "unat (saturating_add d (unlock_value c)) = unat d + unat (unlock_value c)"
      using Cons.prems False by (simp add: unat_saturating_add)
    with False Cons.IH [of "saturating_add d (unlock_value c)"] Cons.prems show ?thesis by simp
  qed (use Cons.IH [of d] Cons.prems in simp)
qed simp

lemma unbonding_le_total: "chunks_total (unbonding_of w p m) \<le> unbonding_total p m"
  unfolding unbonding_total_def by (rule member_le_sum) auto

text \<open>
  C31. A withdrawal pays a user exactly the chunks that are due: on success the balance of the user has grown by
  the exact sum of the chunks whose era has passed (the saturating additions never saturate), those chunks
  are gone, and the others are kept in their order.
\<close>

theorem rfis_withdraw_pays_due:
  assumes "currency_ok X" "staking_ok X K" "pools_reach X K s" "w \<notin> set (Pools (rfis s))" "lookup X pool = Some p"
    and "CurrentEra K (staking s) = Some e"
    and ok: "rfis_liquidity_withdraw_unbond X K (Signed w) pool s = (Ok (), t)"
  shows "unat (native_free_balance X w t)
       = unat (native_free_balance X w s) + chunks_total (filter (\<lambda>c. unlock_at c \<le> e) (unbonding_of w p (rfis s)))
     \<and> unbonding_of w p (rfis t) = filter (\<lambda>c. e < unlock_at c) (unbonding_of w p (rfis s))"
proof -
  let ?cs = "unbonding_of w p (rfis s)"
  let ?d = "foldl (\<lambda>acc c. if e < unlock_at c then acc else saturating_add acc (unlock_value c)) 0 ?cs"
  let ?n = "if filter (\<lambda>c. e < unlock_at c) ?cs = [] then None else Some (filter (\<lambda>c. e < unlock_at c) ?cs)"
  obtain s1 ev where p: "p \<in> set (Pools (rfis s))" and 1: "native_transfer X p w ?d s = (Ok (), s1)"
    and t: "t = deposit_event ev (rfis_update (put_unbonding w p ?n) s1)"
    using ok assms(5,6) unfolding rfis_liquidity_withdraw_unbond_def Let_def unbonding_of_def is_in_pools_def
    by (auto simp: run_ok split del: if_split)
  have inv: "pools_inv X K s" using pools_reach_inv [OF assms(1-3)] by blast
  have "chunks_total ?cs < 2 ^ 128"
    using unbonding_le_total [of w p "rfis s"] pools_invD(1) [OF inv p] unat_less_pow [of "native_free_balance X p s"]
    by (simp add: owed_def)
  then have due: "unat ?d = chunks_total (filter (\<lambda>c. unlock_at c \<le> e) ?cs)"
    using due_exact [of 0 e ?cs] chunks_total_filter [of "\<lambda>c. e < unlock_at c" ?cs] by (simp add: not_less)
  have "p \<noteq> w" using p assms(4) by blast
  from native_moves(1) [OF assms(1) 1 this]
  have "unat (native_free_balance X w t) = unat (native_free_balance X w s) + unat ?d"
    by (simp add: t native_free_balance_def)
  moreover have "unbonding_of w p (rfis t) = filter (\<lambda>c. e < unlock_at c) ?cs"
    by (simp add: t unbonding_put)
  ultimately show ?thesis using due by simp
qed

definition matured_state :: "(AccountId \<Rightarrow> u128, unit, plain_staking) rfis_state" where
  "matured_state = unbonded_state\<lparr>staking := (staking unbonded_state)\<lparr>plain_current := Some 40\<rparr>\<rparr>"

lemma matured_state_simps:
  "rfis matured_state = rfis unbonded_state" "native matured_state = native unbonded_state"
  "plain_current (staking matured_state) = Some 40"
  by (simp_all add: matured_state_def)

lemma matured_state_reached: "pools_reach plain_config plain_staking_api matured_state"
  by (rule pools_reach.elsewhere [OF unbonded_state_reached]) (simp_all add: matured_state_def native_free_balance_def)

lemma matured_withdraw:
  "\<exists>t. rfis_liquidity_withdraw_unbond plain_config plain_staking_api (Signed 7) [1] matured_state = (Ok (), t)"
  by (simp add: rfis_liquidity_withdraw_unbond_def matured_state_simps put_unbonding_def rfis_eval)

theorem rfis_withdraw_pays_due_witness:
  "\<exists>t. rfis_liquidity_withdraw_unbond plain_config plain_staking_api (Signed 7) [1] matured_state = (Ok (), t)
   \<and> unat (native_free_balance plain_config 7 t) = 1700 \<and> unbonding_of 7 1 (rfis t) = []"
proof -
  obtain t where t: "rfis_liquidity_withdraw_unbond plain_config plain_staking_api (Signed 7) [1] matured_state = (Ok (), t)"
    using matured_withdraw by blast
  have u: "unbonding_of 7 1 (rfis matured_state) = [\<lparr>unlock_value = 200, unlock_at = 33\<rparr>]"
    by (simp add: matured_state_simps unbonding_of_def put_unbonding_def)
  have "7 \<notin> set (Pools (rfis matured_state))" "lookup plain_config [1] = Some 1"
    "CurrentEra plain_staking_api (staking matured_state) = Some 40"
    by (simp_all add: matured_state_simps put_unbonding_def plain_number_single)
  from rfis_withdraw_pays_due [OF plain_currency_ok plain_staking_ok matured_state_reached this t]
  show ?thesis using t u by (auto simp: native_free_balance_def matured_state_simps)
qed

end
