(* ===== verification/RFis_Eras.thy ===== *)
theory RFis_Eras
  imports RFis_Pools
begin

text \<open>
  The bookkeeping of an era of \<open>rtoken/rfis\<close>: blocks that hold what the offchain worker submitted bring the
  era to its end, which is the rate of the era; what the worker nominates passes the validation; and what
  the validation does not check.
\<close>

section \<open>Blocks made by the worker\<close>

text \<open>
  \<open>takes s\<close> says which submissions the transaction pool takes and the next block includes when the chain is in
  state \<open>s\<close>. The pool may refuse submissions (two with the same tag, for instance), but not all of them.
\<close>

definition worker_block ::
    "'c config \<Rightarrow> ('c, 'k) staking_api \<Rightarrow> (('c, 'call, 'k, 'z) rfis_state_scheme \<Rightarrow> rfis_call \<Rightarrow> bool)
     \<Rightarrow> ('c, 'call, 'k, 'z) rfis_state_scheme \<Rightarrow> ('c, 'call, 'k, 'z) rfis_state_scheme" where
  "worker_block X K takes s = unsigned_block X K (filter (takes s) (offchain_worker K True (takes s) s)) s"

fun worker_blocks ::
    "'c config \<Rightarrow> ('c, 'k) staking_api \<Rightarrow> (('c, 'call, 'k, 'z) rfis_state_scheme \<Rightarrow> rfis_call \<Rightarrow> bool) \<Rightarrow> nat
     \<Rightarrow> ('c, 'call, 'k, 'z) rfis_state_scheme \<Rightarrow> ('c, 'call, 'k, 'z) rfis_state_scheme" where
  "worker_blocks X K takes 0 s = s"
| "worker_blocks X K takes (Suc n) s = worker_blocks X K takes n (worker_block X K takes s)"

definition fair_pool ::
    "('c, 'k) staking_api \<Rightarrow> (('c, 'call, 'k, 'z) rfis_state_scheme \<Rightarrow> rfis_call \<Rightarrow> bool) \<Rightarrow> bool" where
  "fair_pool K takes \<longleftrightarrow> (\<forall>s. (\<exists>c\<in>set (offchain_worker K True (takes s) s). is_valid K c s)
     \<longrightarrow> (\<exists>c\<in>set (offchain_worker K True (takes s) s). takes s c))"

definition in_era :: "('c, 'k) staking_api \<Rightarrow> EraIndex \<Rightarrow> ('c, 'call, 'k, 'z) rfis_state_scheme \<Rightarrow> bool" where
  "in_era K e s \<longleftrightarrow> ActiveEra K (staking s) = Some e \<and> CurrentEra K (staking s) = Some e"

text \<open>
  What is left to do in an era: pools not yet unlocked, the total before the payouts, validators not yet paid
  out, the total after them.
\<close>

definition unpaid_total :: "('c, 'k) staking_api \<Rightarrow> EraIndex \<Rightarrow> ('c, 'call, 'k, 'z) rfis_state_scheme \<Rightarrow> nat" where
  "unpaid_total K e s = (\<Sum>p\<leftarrow>bonded_pools K s. length (unpaid_validators K (saturating_sub e 1) p s))"

definition era_work :: "('c, 'k) staking_api \<Rightarrow> EraIndex \<Rightarrow> ('c, 'call, 'k, 'z) rfis_state_scheme \<Rightarrow> nat" where
  "era_work K e s =
     length (filter (\<lambda>p. p \<notin> set (unwrap_or (UnlockedPools (rfis s) e) [])) (Pools (rfis s)))
   + (if BondedBeforePayout (rfis s) e = None then 1 else 0)
   + unpaid_total K e s
   + (if BondedAfterPayout (rfis s) e = None then 1 else 0)"

section \<open>Steps within an era\<close>

text \<open>Two staking states in the same era, with ledgers for the same accounts.\<close>

definition era_frame :: "('c, 'k) staking_api \<Rightarrow> 'k \<Rightarrow> 'k \<Rightarrow> bool" where
  "era_frame K k k' \<longleftrightarrow> same_era K k k' \<and> (\<forall>a. (StakingLedgers K k' a = None) = (StakingLedgers K k a = None))"

lemma era_frame_refl [simp]: "era_frame K k k"
  by (simp add: era_frame_def same_era_def)

lemmas eras_okD =
  conjunct1 [OF eras_ok_def [THEN iffD1], rule_format]
  conjunct1 [OF conjunct2 [OF eras_ok_def [THEN iffD1]], rule_format]
  conjunct2 [OF conjunct2 [OF eras_ok_def [THEN iffD1]], rule_format]

lemma update_ledger_era:
  assumes "staking_ok X K" "eras_ok K" "StakingLedgers K (staking s) a \<noteq> None"
  shows "era_frame K (staking s) (staking (on_staking (update_ledger K a l) s))" (is "era_frame K _ (staking ?t)")
proof -
  obtain k n where u: "update_ledger K a l (staking s, native s) = (k, n)" by (cases "update_ledger K a l (staking s, native s)")
  have "same_era K (staking s) (staking ?t)"
    using eras_okD(1) [OF assms(2) u] u by (simp add: on_staking_def)
  with update_ledger_effect(1) [OF assms(1), of ?t, OF refl] assms(3) show ?thesis
    by (simp add: era_frame_def)
qed

lemma payout_era:
  assumes "staking_ok X K" "eras_ok K" "do_payout_stakers K v e (k, n) = (b, k', n')"
  shows "era_frame K k k'"
proof -
  have "payout_ok X K" using assms(1) by (simp add: staking_ok_def)
  note paid = conjunct2 [OF this [unfolded payout_ok_def, rule_format, OF assms(3)], rule_format]
  have "(StakingLedgers K k' a = None) = (StakingLedgers K k a = None)" for a
    using paid [of a] by (cases "StakingLedgers K k a") auto
  with eras_okD(2) [OF assms(2,3)] show ?thesis by (simp add: era_frame_def)
qed

lemma bonded_pools_frame:
  "era_frame K (staking s) (staking t) \<Longrightarrow> Pools (rfis t) = Pools (rfis s) \<Longrightarrow> bonded_pools K t = bonded_pools K s"
  by (simp add: bonded_pools_def era_frame_def)

lemma in_era_frame: "era_frame K (staking s) (staking t) \<Longrightarrow> in_era K e t = in_era K e s"
  by (simp add: in_era_def era_frame_def same_era_def)

lemma unpaid_frame:
  assumes "era_frame K (staking s) (staking t)" "Nominated (rfis t) = Nominated (rfis s)"
    and "\<And>v. PoolPaidouts (rfis t) l (v, p) = None \<longleftrightarrow> PoolPaidouts (rfis s) l (v, p) = None \<and> v \<notin> A"
  shows "unpaid_validators K l p t = filter (\<lambda>v. v \<notin> A) (unpaid_validators K l p s)"
  using assms by (auto simp: unpaid_validators_def is_validator_def is_actived_def era_frame_def same_era_def Let_def intro: filter_cong)

lemma unpaid_total_frame:
  assumes "era_frame K (staking s) (staking t)" "Pools (rfis t) = Pools (rfis s)" "Nominated (rfis t) = Nominated (rfis s)"
    and "PoolPaidouts (rfis t) = PoolPaidouts (rfis s)"
  shows "unpaid_total K e t = unpaid_total K e s"
  using unpaid_frame [OF assms(1,3), of _ _ "{}"] bonded_pools_frame [OF assms(1,2)] assms(4)
  by (simp add: unpaid_total_def)

definition era_step ::
    "('c, 'k) staking_api \<Rightarrow> EraIndex \<Rightarrow> ('c, 'call, 'k, 'z) rfis_state_scheme \<Rightarrow> ('c, 'call, 'k, 'z) rfis_state_scheme \<Rightarrow> bool" where
  "era_step K e s t \<longleftrightarrow> era_frame K (staking s) (staking t) \<and> rates t = rates s \<and> Pools (rfis t) = Pools (rfis s)
     \<and> (BondedBeforePayout (rfis s) e \<noteq> None \<longrightarrow> BondedBeforePayout (rfis t) e \<noteq> None)
     \<and> (BondedAfterPayout (rfis s) e \<noteq> None \<longrightarrow> BondedAfterPayout (rfis t) e \<noteq> None)"

lemma era_step_refl [simp]: "era_step K e s s"
  by (simp add: era_step_def)

lemma era_frame_trans: "era_frame K k k' \<Longrightarrow> era_frame K k' k'' \<Longrightarrow> era_frame K k k''"
  by (simp add: era_frame_def same_era_def)

lemma era_step_trans: "era_step K e s t \<Longrightarrow> era_step K e t u \<Longrightarrow> era_step K e s u"
  unfolding era_step_def by (metis era_frame_trans)

lemma era_step_in_era: "era_step K e s t \<Longrightarrow> in_era K e s \<Longrightarrow> in_era K e t"
  using in_era_frame [of K s t e] by (simp add: era_step_def)

lemma rates_deposit [simp]: "rates (deposit_event e s) = rates s"
  by (simp add: deposit_event_def)

lemma submissions_era_step:
  assumes "staking_ok X K" "eras_ok K"
  shows "keeps (era_step K e s) (submit_unlocks K o' era pool s)" "keeps (era_step K e s) (submit_total_bonded_before K o' era v s)"
    "keeps (era_step K e s) (submit_paidouts K o' era pool val s)" "keeps (era_step K e s) (submit_total_bonded_after K o' era v s)"
    "keeps (era_step K e s) (submit_nomination K o' era pool ts s)"
proof -
  show "keeps (era_step K e s) (submit_unlocks K o' era pool s)"
    unfolding submit_unlocks_def Let_def
    by (intro ensure_none_keeps guard_keeps return_keeps; simp add: era_step_def update_ledger_era [OF assms])
  obtain b k n where p: "do_payout_stakers K val era (staking s, native s) = (b, k, n)"
    by (metis prod.collapse)
  show "keeps (era_step K e s) (submit_paidouts K o' era pool val s)"
    unfolding submit_paidouts_def p prod.case
    by (intro ensure_none_keeps guard_keeps return_keeps; simp add: era_step_def payout_era [OF assms p])
  show "keeps (era_step K e s) (submit_total_bonded_before K o' era v s)" "keeps (era_step K e s) (submit_total_bonded_after K o' era v s)"
    unfolding submit_total_bonded_before_def submit_total_bonded_after_def
    by - ((intro ensure_none_keeps guard_keeps return_keeps; simp add: era_step_def)+)
  have "era_frame K k (put_nominations K a ts' e' b' k)" for a ts' e' b' k
    using eras_okD(3) [OF assms(2)] assms(1) by (simp add: era_frame_def staking_ok_def)
  then show "keeps (era_step K e s) (submit_nomination K o' era pool ts s)"
    unfolding submit_nomination_def rfis_update_nominations_def
    by (intro ensure_none_keeps guard_keeps return_keeps; simp add: era_step_def)
qed

lemma apply_era_step:
  assumes "staking_ok X K" "eras_ok K"
  shows "era_step K e s (apply_unsigned X K c s)"
  using submissions_era_step [OF assms, of e s]
  by (cases c) (simp_all add: apply_unsigned_def is_valid_def keeps_def)

lemma fold_era_step:
  assumes "staking_ok X K" "eras_ok K"
  shows "era_step K e s (fold (apply_unsigned X K) cs s)"
  by (induction cs arbitrary: s) (auto intro: era_step_trans [OF apply_era_step [OF assms]])

section \<open>Progress\<close>

text \<open>The calls by which the worker works off an era, and when one of them makes progress.\<close>

fun works_on :: "EraIndex \<Rightarrow> rfis_call \<Rightarrow> bool" where
  "works_on e (SubmitUnlocks era p) = (era = e)"
| "works_on e (SubmitTotalBondedBefore era v) = (era = e)"
| "works_on e (SubmitPaidouts era p v) = (era = saturating_sub e 1)"
| "works_on e (SubmitTotalBondedAfter era v) = (era = e)"
| "works_on e c = False"

fun progresses :: "('c, 'k) staking_api \<Rightarrow> EraIndex \<Rightarrow> rfis_call \<Rightarrow> ('c, 'call, 'k, 'z) rfis_state_scheme \<Rightarrow> bool" where
  "progresses K e (SubmitUnlocks era p) s \<longleftrightarrow> era = e \<and> p \<in> set (bonded_pools K s) \<and> p \<notin> set (unwrap_or (UnlockedPools (rfis s) e) [])"
| "progresses K e (SubmitTotalBondedBefore era v) s \<longleftrightarrow> era = e \<and> BondedBeforePayout (rfis s) e = None"
| "progresses K e (SubmitPaidouts era p v) s \<longleftrightarrow> era = saturating_sub e 1 \<and> p \<in> set (bonded_pools K s) \<and> v \<in> set (unpaid_validators K era p s)"
| "progresses K e (SubmitTotalBondedAfter era v) s \<longleftrightarrow> era = e \<and> BondedBeforePayout (rfis s) e \<noteq> None \<and> BondedAfterPayout (rfis s) e = None"
| "progresses K e c s \<longleftrightarrow> False"

lemma progresses_works: "progresses K e c s \<Longrightarrow> works_on e c"
  by (cases c) auto

lemma progresses_valid: "progresses K e c s \<Longrightarrow> is_valid K c s"
  by (cases c) (auto simp: is_valid_def rfis_valid_def is_in_pools_def bonded_pools_def unpaid_validators_def Let_def)

lemma length_filter_mono: "(\<And>y. Q y \<Longrightarrow> P y) \<Longrightarrow> length (filter Q xs) \<le> length (filter P xs)"
  by (induction xs) auto

lemma length_filter_drop:
  assumes "\<And>y. Q y \<Longrightarrow> P y" "x \<in> set xs" "P x" "\<not> Q x"
  shows "length (filter Q xs) < length (filter P xs)"
  using assms(2)
proof (induction xs)
  case (Cons y ys)
  have le: "length (filter Q ys) \<le> length (filter P ys)" using assms(1) by (rule length_filter_mono)
  show ?case
  proof (cases "x = y")
    case True
    then show ?thesis using assms(3,4) le by simp
  next
    case False
    then have "length (filter Q ys) < length (filter P ys)" using Cons by simp
    then show ?thesis using assms(1) by auto
  qed
qed simp

lemma sum_list_drop:
  fixes f h :: "'a \<Rightarrow> nat"
  assumes "\<And>x. x \<in> set xs \<Longrightarrow> f x \<le> h x" "x \<in> set xs" "f x < h x"
  shows "(\<Sum>x\<leftarrow>xs. f x) < (\<Sum>x\<leftarrow>xs. h x)"
  using assms
proof (induction xs)
  case (Cons y ys)
  have le: "(\<Sum>x\<leftarrow>ys. f x) \<le> (\<Sum>x\<leftarrow>ys. h x)" using Cons.prems(1) by (intro sum_list_mono) simp
  show ?case
  proof (cases "x = y")
    case True
    then show ?thesis using le Cons.prems(3) by simp
  next
    case False
    then show ?thesis using Cons by (auto simp: add_le_less_mono)
  qed
qed simp

text \<open>Each call of the worker takes from the work of the era, and takes something when it makes progress.\<close>

lemma unlock_work:
  assumes "staking_ok X K" "eras_ok K" "in_era K e s" "t = snd (submit_unlocks K Unsigned e p s)"
  shows "era_work K e t \<le> era_work K e s" "progresses K e (SubmitUnlocks e p) s \<Longrightarrow> era_work K e t < era_work K e s"
proof -
  let ?u = "unwrap_or (UnlockedPools (rfis s) e) []"
  have "era_work K e t \<le> era_work K e s \<and> (progresses K e (SubmitUnlocks e p) s \<longrightarrow> era_work K e t < era_work K e s)"
  proof (cases "p \<notin> set ?u \<and> StakingLedgers K (staking s) p \<noteq> None")
    case True
    then obtain l where l: "StakingLedgers K (staking s) p = Some l" by auto
    let ?f = "on_staking (update_ledger K p (consolidate_unlocked K e l)) s"
    have t: "t = rfis_update (\<lambda>m. m\<lparr>UnlockedPools := (UnlockedPools m)(e \<mapsto> ?u @ [p])\<rparr>) ?f"
      using assms(3,4) True l by (simp add: submit_unlocks_def ensure_none_def in_era_def Let_def)
    have fr: "era_frame K (staking s) (staking t)"
      using update_ledger_era [OF assms(1,2), of s p "consolidate_unlocked K e l"] l by (simp add: t)
    have w: "unpaid_total K e t = unpaid_total K e s"
      by (rule unpaid_total_frame [OF fr]) (simp_all add: t)
    have "length (filter (\<lambda>q. q \<notin> set (?u @ [p])) (Pools (rfis s))) \<le> length (filter (\<lambda>q. q \<notin> set ?u) (Pools (rfis s)))"
      by (rule length_filter_mono) auto
    moreover have "length (filter (\<lambda>q. q \<notin> set (?u @ [p])) (Pools (rfis s))) < length (filter (\<lambda>q. q \<notin> set ?u) (Pools (rfis s)))"
      if "progresses K e (SubmitUnlocks e p) s"
      by (rule length_filter_drop [of _ _ p]) (use that True in \<open>auto simp: bonded_pools_def\<close>)
    ultimately show ?thesis by (simp add: era_work_def w) (simp add: t)
  next
    case False
    then have "t = s"
      using assms(3,4) by (auto simp: submit_unlocks_def ensure_none_def in_era_def Let_def ensure_def ok_or_def)
    with False show ?thesis by (auto simp: bonded_pools_def)
  qed
  then show "era_work K e t \<le> era_work K e s" "progresses K e (SubmitUnlocks e p) s \<Longrightarrow> era_work K e t < era_work K e s" by blast+
qed

lemma paidout_work:
  assumes "staking_ok X K" "eras_ok K" "t = snd (submit_paidouts K Unsigned (saturating_sub e 1) p v s)"
  shows "era_work K e t \<le> era_work K e s"
    "progresses K e (SubmitPaidouts (saturating_sub e 1) p v) s \<Longrightarrow> era_work K e t < era_work K e s"
proof -
  let ?l = "saturating_sub e 1"
  have "era_work K e t \<le> era_work K e s \<and> (progresses K e (SubmitPaidouts ?l p v) s \<longrightarrow> era_work K e t < era_work K e s)"
  proof (cases "PoolPaidouts (rfis s) ?l (v, p) = None")
    case True
    obtain b k n where d: "do_payout_stakers K v ?l (staking s, native s) = (b, k, n)" by (metis prod.collapse)
    have t: "staking t = k" "rfis t = (rfis s)\<lparr>PoolPaidouts := (PoolPaidouts (rfis s))(?l := (PoolPaidouts (rfis s) ?l)((v, p) \<mapsto> b))\<rparr>"
      using assms(3) True d by (simp_all add: submit_paidouts_def ensure_none_def)
    have fr: "era_frame K (staking s) (staking t)"
      using payout_era [OF assms(1,2) d] by (simp add: t)
    have u: "unpaid_validators K ?l q t = filter (\<lambda>x. x \<notin> (if q = p then {v} else {})) (unpaid_validators K ?l q s)" for q
      by (rule unpaid_frame [OF fr]) (auto simp: t)
    have bp: "bonded_pools K t = bonded_pools K s" by (rule bonded_pools_frame [OF fr]) (simp add: t)
    have "unpaid_total K e t \<le> unpaid_total K e s"
      unfolding unpaid_total_def bp u by (intro sum_list_mono length_filter_le)
    moreover have "unpaid_total K e t < unpaid_total K e s" if "progresses K e (SubmitPaidouts ?l p v) s"
      unfolding unpaid_total_def bp u
    proof (rule sum_list_drop [of _ _ _ p])
      show "length (filter (\<lambda>x. x \<notin> (if p = p then {v} else {})) (unpaid_validators K ?l p s)) < length (unpaid_validators K ?l p s)"
        using that by (intro length_filter_less [of v]) simp_all
    qed (use that in auto)
    ultimately show ?thesis by (simp add: era_work_def) (simp add: t)
  next
    case False
    then have "t = s" using assms(3) by (auto simp: submit_paidouts_def ensure_none_def)
    with False show ?thesis by (auto simp: unpaid_validators_def Let_def)
  qed
  then show "era_work K e t \<le> era_work K e s"
    "progresses K e (SubmitPaidouts ?l p v) s \<Longrightarrow> era_work K e t < era_work K e s" by blast+
qed

lemma total_work:
  assumes "in_era K e s"
  shows "era_work K e (snd (submit_total_bonded_before K Unsigned e v s)) \<le> era_work K e s"
    "progresses K e (SubmitTotalBondedBefore e v) s \<Longrightarrow> era_work K e (snd (submit_total_bonded_before K Unsigned e v s)) < era_work K e s"
    "era_work K e (snd (submit_total_bonded_after K Unsigned e v s)) \<le> era_work K e s"
    "progresses K e (SubmitTotalBondedAfter e v) s \<Longrightarrow> era_work K e (snd (submit_total_bonded_after K Unsigned e v s)) < era_work K e s"
proof -
  have "unpaid_total K e (deposit_event ev (rfis_update f s)) = unpaid_total K e s"
    if "Pools (f (rfis s)) = Pools (rfis s)" "Nominated (f (rfis s)) = Nominated (rfis s)" "PoolPaidouts (f (rfis s)) = PoolPaidouts (rfis s)"
    for f ev using that by (intro unpaid_total_frame) simp_all
  then show "era_work K e (snd (submit_total_bonded_before K Unsigned e v s)) \<le> era_work K e s"
    "progresses K e (SubmitTotalBondedBefore e v) s \<Longrightarrow> era_work K e (snd (submit_total_bonded_before K Unsigned e v s)) < era_work K e s"
    "era_work K e (snd (submit_total_bonded_after K Unsigned e v s)) \<le> era_work K e s"
    "progresses K e (SubmitTotalBondedAfter e v) s \<Longrightarrow> era_work K e (snd (submit_total_bonded_after K Unsigned e v s)) < era_work K e s"
    using assms by (auto simp: submit_total_bonded_before_def submit_total_bonded_after_def ensure_none_def in_era_def era_work_def
        ensure_def)
qed

lemma apply_work:
  assumes "staking_ok X K" "eras_ok K" "in_era K e s" "works_on e c"
  shows "era_work K e (apply_unsigned X K c s) \<le> era_work K e s"
    "progresses K e c s \<Longrightarrow> era_work K e (apply_unsigned X K c s) < era_work K e s"
proof -
  have "era_work K e (snd (rfis_dispatch X K Unsigned c s)) \<le> era_work K e s
     \<and> (progresses K e c s \<longrightarrow> era_work K e (snd (rfis_dispatch X K Unsigned c s)) < era_work K e s)"
    using assms(4) unlock_work [OF assms(1-3) refl] paidout_work [OF assms(1,2) refl, of e _ _ s] total_work [OF assms(3)]
    by (cases c) (simp_all del: progresses.simps)
  then show "era_work K e (apply_unsigned X K c s) \<le> era_work K e s"
    "progresses K e c s \<Longrightarrow> era_work K e (apply_unsigned X K c s) < era_work K e s"
    using progresses_valid [of K e c s] by (auto simp: apply_unsigned_def)
qed

lemma fold_work:
  assumes "staking_ok X K" "eras_ok K" "\<forall>c\<in>set cs. works_on e c" "in_era K e s"
  shows "era_work K e (fold (apply_unsigned X K) cs s) \<le> era_work K e s"
  using assms(3,4)
proof (induction cs arbitrary: s)
  case (Cons c cs)
  have "in_era K e (apply_unsigned X K c s)"
    using apply_era_step [OF assms(1,2)] Cons.prems(2) by (rule era_step_in_era)
  with Cons apply_work(1) [OF assms(1,2), of e s c] show ?case by fastforce
qed simp

lemma fold_progress:
  assumes "staking_ok X K" "eras_ok K" "\<forall>c\<in>set cs. progresses K e c s" "cs \<noteq> []" "in_era K e s"
  shows "era_work K e (fold (apply_unsigned X K) cs s) < era_work K e s"
proof -
  obtain c ds where cs: "cs = c # ds" using assms(4) by (cases cs) auto
  have c: "progresses K e c s" "works_on e c" using assms(3) progresses_works by (auto simp: cs)
  have ds: "\<forall>d\<in>set ds. works_on e d" using assms(3) progresses_works [of K e _ s] by (auto simp: cs)
  have era: "in_era K e (apply_unsigned X K c s)"
    using apply_era_step [OF assms(1,2)] assms(5) by (rule era_step_in_era)
  show ?thesis
    using fold_work [OF assms(1,2) ds era] apply_work(2) [OF assms(1,2,5) c(2,1)] by (simp add: cs)
qed

section \<open>The worker\<close>

lemma submit_first_sub: "set (fst (submit_first acc cs)) \<subseteq> set cs"
  by (induction cs) (auto split: prod.splits)

lemma submit_first_taken: "snd (submit_first acc cs) \<Longrightarrow> fst (submit_first acc cs) \<noteq> []"
  by (cases cs) (auto split: prod.splits)

text \<open>While a total of the era is missing, all the worker submits makes progress, and it submits something.\<close>

lemma worker_progresses:
  assumes "in_era K e s" "BondedBeforePayout (rfis s) e = None \<or> BondedAfterPayout (rfis s) e = None"
  shows "\<forall>c\<in>set (offchain_worker K True acc s). progresses K e c s" "offchain_worker K True acc s \<noteq> []"
proof -
  let ?l = "saturating_sub e 1"
  obtain tried taken where f: "submit_first acc (map (SubmitUnlocks e) (locked_pools K e s)) = (tried, taken)"
    by (cases "submit_first acc (map (SubmitUnlocks e) (locked_pools K e s))")
  have tried: "progresses K e c s" if "c \<in> set tried" for c
    using submit_first_sub [of acc "map (SubmitUnlocks e) (locked_pools K e s)"] that f
    by (auto simp: locked_pools_def Let_def split: if_splits)
  define rest where "rest =
    (if BondedBeforePayout (rfis s) e = None then [SubmitTotalBondedBefore e (total_bonded K s)]
     else case filter (\<lambda>p. unpaid_validators K ?l p s \<noteq> []) (bonded_pools K s) of
        p # _ \<Rightarrow> map (SubmitPaidouts ?l p) (unpaid_validators K ?l p s)
      | [] \<Rightarrow> if BondedAfterPayout (rfis s) e = None then [SubmitTotalBondedAfter e (total_bonded K s)]
              else nomination_call K ?l e s)"
  have rest: "(\<forall>c\<in>set rest. progresses K e c s) \<and> rest \<noteq> []"
  proof (cases "filter (\<lambda>p. unpaid_validators K ?l p s \<noteq> []) (bonded_pools K s)")
    case Nil
    then show ?thesis using assms(2) by (auto simp: rest_def)
  next
    case (Cons p ps)
    have "p \<in> set (filter (\<lambda>p. unpaid_validators K ?l p s \<noteq> []) (bonded_pools K s))"
      unfolding Cons by simp
    then have "p \<in> set (bonded_pools K s)" "unpaid_validators K ?l p s \<noteq> []" by simp_all
    with Cons show ?thesis by (auto simp: rest_def)
  qed
  have w: "offchain_worker K True acc s = (if taken then tried else tried @ rest)"
    using assms(1) f by (simp add: offchain_worker_def in_era_def Let_def rest_def)
  show "\<forall>c\<in>set (offchain_worker K True acc s). progresses K e c s" using tried rest by (auto simp: w)
  show "offchain_worker K True acc s \<noteq> []"
    using rest submit_first_taken [of acc "map (SubmitUnlocks e) (locked_pools K e s)"] f by (auto simp: w)
qed

lemma finalize_sets_rate:
  assumes "ActiveEra K (staking s) = Some e" "BondedBeforePayout (rfis s) e \<noteq> None" "BondedAfterPayout (rfis s) e \<noteq> None"
  shows "EraRate (rates (rfis_on_finalize X K s)) RFIS e \<noteq> None"
  using assms by (auto simp: rfis_on_finalize_def set_era_rate_def Let_def split: prod.splits)

lemma rate_kept:
  assumes "EraRate (rates s) RFIS e \<noteq> None" "ActiveEra K (staking s) = Some e"
  shows "rfis_on_finalize X K s = s"
  using assms by (auto simp: rfis_on_finalize_def)

lemma era_work_finalize [simp]: "era_work K e (rfis_on_finalize X K s) = era_work K e s"
proof -
  have "unpaid_total K e (rfis_on_finalize X K s) = unpaid_total K e s"
    by (rule unpaid_total_frame) simp_all
  then show ?thesis by (simp add: era_work_def)
qed

lemma worker_block_progress:
  assumes "staking_ok X K" "eras_ok K" "fair_pool K takes" "in_era K e s"
  defines "t \<equiv> worker_block X K takes s"
  shows "in_era K e t \<and> (EraRate (rates t) RFIS e \<noteq> None \<or> era_work K e t < era_work K e s)"
proof -
  define cs where "cs = filter (takes s) (offchain_worker K True (takes s) s)"
  define u where "u = fold (apply_unsigned X K) cs s"
  have t: "t = rfis_on_finalize X K u" by (simp add: t_def worker_block_def unsigned_block_def cs_def u_def)
  have st: "era_step K e s u" unfolding u_def by (rule fold_era_step [OF assms(1,2)])
  then have eu: "in_era K e u" using assms(4) by (rule era_step_in_era)
  then have et: "in_era K e t" by (simp add: t in_era_def)
  show ?thesis
  proof (cases "BondedBeforePayout (rfis s) e = None \<or> BondedAfterPayout (rfis s) e = None")
    case True
    note w = worker_progresses [OF assms(4) True, of "takes s"]
    obtain c where "c \<in> set (offchain_worker K True (takes s) s)" using w(2)
      by (cases "offchain_worker K True (takes s) s") auto
    then have "\<exists>c\<in>set (offchain_worker K True (takes s) s). takes s c"
      using assms(3) w(1) progresses_valid unfolding fair_pool_def by blast
    then have "cs \<noteq> []" by (auto simp: cs_def filter_empty_conv)
    moreover have "\<forall>c\<in>set cs. progresses K e c s" using w(1) by (simp add: cs_def)
    ultimately have "era_work K e u < era_work K e s"
      using fold_progress [OF assms(1,2) _ _ assms(4)] by (simp add: u_def)
    with et show ?thesis by (simp add: t)
  next
    case False
    then have "EraRate (rates t) RFIS e \<noteq> None"
      using st eu finalize_sets_rate [of K u e X] unfolding t by (auto simp: era_step_def in_era_def)
    with et show ?thesis by simp
  qed
qed

section \<open>Properties\<close>

text \<open>
  C15. The bookkeeping of an era terminates in its rate: while the era lasts, blocks made of what the offchain
  worker submits set the rate of rFIS for the era after at most as many blocks as there are pools to unlock,
  validators to pay out and totals to submit, plus one, provided the transaction pool takes one of the
  worker's valid submissions for each block.
\<close>

theorem rfis_era_terminates:
  assumes "staking_ok X K" "eras_ok K" "fair_pool K takes" "in_era K e s"
  shows "\<exists>n \<le> Suc (era_work K e s). EraRate (rates (worker_blocks X K takes n s)) RFIS e \<noteq> None"
  using assms(4)
proof (induction "era_work K e s" arbitrary: s rule: less_induct)
  case less
  let ?t = "worker_block X K takes s"
  note p = worker_block_progress [OF assms(1-3) less.prems]
  show ?case
  proof (cases "EraRate (rates ?t) RFIS e = None")
    case True
    with p have "era_work K e ?t < era_work K e s" "in_era K e ?t" by simp_all
    from less.hyps [OF this] obtain n where "n \<le> Suc (era_work K e ?t)"
      "EraRate (rates (worker_blocks X K takes n ?t)) RFIS e \<noteq> None" by blast
    with \<open>era_work K e ?t < era_work K e s\<close> show ?thesis by (intro exI [of _ "Suc n"]) simp
  next
    case False
    then show ?thesis by (intro exI [of _ 1]) simp
  qed
qed

definition new_era_state :: "(AccountId \<Rightarrow> u128, unit, plain_staking) rfis_state" where
  "new_era_state = bonding_state\<lparr>rates := empty_rates\<rparr>"

lemma new_era_state_simps [simp]:
  "rfis new_era_state = rfis bonding_state" "staking new_era_state = staking bonding_state" "rates new_era_state = empty_rates"
  by (simp_all add: new_era_state_def)

theorem rfis_era_terminates_witness:
  "EraRate (rates new_era_state) RFIS 5 = None \<and> era_work plain_staking_api 5 new_era_state = 4
   \<and> (\<exists>n \<le> 5. EraRate (rates (worker_blocks plain_config plain_staking_api (\<lambda>_ _. True) n new_era_state)) RFIS 5 \<noteq> None)"
proof -
  have e: "in_era plain_staking_api 5 new_era_state" by (simp add: in_era_def sample_staking_def)
  have w: "era_work plain_staking_api 5 new_era_state = 4"
    by (simp add: era_work_def unpaid_total_def bonded_pools_def unpaid_validators_def empty_rfis_def)
  have f: "fair_pool plain_staking_api (\<lambda>_ _. True)" by (auto simp: fair_pool_def)
  show ?thesis
    using rfis_era_terminates [OF plain_staking_ok plain_eras_ok f e, unfolded w] w by (simp add: empty_rates_def)
qed

section \<open>Nominations\<close>

lemma fill_targets_full: "mx \<le> length ts \<Longrightarrow> fill_targets mx ts vs = ts"
  by (cases vs) auto

lemma fill_targets_le: "length ts \<le> mx \<Longrightarrow> length (fill_targets mx ts vs) \<le> mx"
  by (induction mx ts vs rule: fill_targets.induct) auto

lemma fill_targets_all: "length (fill_targets mx ts vs) < mx \<Longrightarrow> set vs \<subseteq> set (fill_targets mx ts vs) \<and> set ts \<subseteq> set (fill_targets mx ts vs)"
  by (induction mx ts vs rule: fill_targets.induct) (auto split: if_splits)

lemma distinct_nominatable:
  assumes "rfis_wf mx (rfis s)"
  shows "distinct (nominatable_validators K l e s)"
proof -
  have "distinct (OnboardValidators (rfis s))"
    using assms by (auto simp: rfis_wf_def strict_sorted_iff)
  then show ?thesis by (simp add: nominatable_validators_def sort_down_def Let_def)
qed

lemma fill_targets_enough:
  assumes "distinct vs" "k \<le> length vs" "k \<le> mx"
  shows "k \<le> length (fill_targets mx ts vs)"
proof (cases "length (fill_targets mx ts vs) < mx")
  case True
  then have "card (set vs) \<le> card (set (fill_targets mx ts vs))"
    using fill_targets_all by (intro card_mono) auto
  also have "\<dots> \<le> length (fill_targets mx ts vs)" by (rule card_length)
  finally show ?thesis using assms(1,2) by (simp add: distinct_card)
next
  case False
  then show ?thesis using assms(3) by simp
qed

text \<open>
  C35. What the offchain worker nominates for a pool passes the validation exactly when too few validators can be
  nominated (the nomination is then empty) or at most \<open>MaxNominationNum\<close> of the pool's last nomination still
  can be. So after \<open>set_max_nomination_num\<close> lowers the maximum, a pool that keeps more of its validators than
  that is refused in every block, and the worker, which submits one nomination per block, never reaches the
  pools with less stake.
\<close>

theorem worker_nomination_valid_iff:
  assumes "rfis_reach X K s" "p \<in> set (Pools (rfis s))"
  shows "is_valid K (SubmitNomination e p (nomination_targets K l e p s)) s \<longleftrightarrow>
     length (nominatable_validators K l e s) < unat (MinNominationNum (rfis s))
   \<or> length (filter (\<lambda>v. v \<in> set (nominatable_validators K l e s)) (unwrap_or (Nominated (rfis s) l p) []))
       \<le> unat (MaxNominationNum (rfis s))"
proof -
  have wf: "rfis_wf (max_unlock_chunks K) (rfis s)"
    by (rule rfis_reach_wf [OF assms(1)])
  let ?vs = "nominatable_validators K l e s"
  let ?ts = "filter (\<lambda>v. v \<in> set ?vs) (unwrap_or (Nominated (rfis s) l p) [])"
  let ?min = "unat (MinNominationNum (rfis s))" and ?max = "unat (MaxNominationNum (rfis s))"
  have mm: "0 < ?min" "?min \<le> ?max"
    using wf by (auto simp: rfis_wf_def word_less_nat_alt word_le_nat_alt)
  have pool: "is_in_pools p s" using assms(2) by (simp add: is_in_pools_def)
  show ?thesis
  proof (cases "length ?vs < ?min")
    case True
    then show ?thesis using pool by (simp add: is_valid_def nomination_targets_def rfis_valid_def)
  next
    case False
    let ?f = "fill_targets ?max ?ts (rev ?vs)"
    have f: "nomination_targets K l e p s = ?f" using False by (simp add: nomination_targets_def Let_def)
    have "?min \<le> length ?f"
      using fill_targets_enough [of "rev ?vs" ?min ?max ?ts] distinct_nominatable [OF wf, of K l e] False mm by simp
    moreover have "length ?f \<le> ?max" if "length ?ts \<le> ?max" using that by (rule fill_targets_le)
    moreover have "length ?f = length ?ts" if "\<not> length ?ts \<le> ?max" using that by (simp add: fill_targets_full)
    ultimately have "is_valid K (SubmitNomination e p ?f) s \<longleftrightarrow> length ?ts \<le> ?max"
      using pool mm by (cases "length ?ts \<le> ?max") (auto simp: is_valid_def rfis_valid_def Let_def)
    then show ?thesis using False f by simp
  qed
qed

definition nominee_state :: "(AccountId \<Rightarrow> u128, unit, plain_staking) rfis_state" where
  "nominee_state = fold (\<lambda>c s. snd (rfis_dispatch plain_config plain_staking_api (Signed c) CallOnboard s)) [23, 21, 22]
     (two_pools\<lparr>staking := sample_staking\<lparr>plain_ledgers := (\<lambda>c. Some (zero_ledger\<lparr>sl_stash := c + 10\<rparr>))\<rparr>\<rparr>)"

lemma nominee_state_reached: "rfis_reach plain_config plain_staking_api nominee_state"
  unfolding nominee_state_def fold_simps comp_def id_def
  by (intro rfis_reach.call rfis_reach.elsewhere [OF two_pools_reached]) simp

lemma nominee_state_rfis: "rfis nominee_state = empty_rfis\<lparr>Pools := [1, 2], OnboardValidators := [31, 32, 33]\<rparr>"
  unfolding nominee_state_def
  by (simp add: onboard_def empty_rfis_def binary_search_def bsearch_base_step insert_nth_def MAX_ONBOARD_VALIDATORS_def)

theorem worker_nomination_valid_iff_witness:
  "nomination_targets plain_staking_api 4 5 1 nominee_state = [33, 32, 31]
   \<and> is_valid plain_staking_api (SubmitNomination 5 1 (nomination_targets plain_staking_api 4 5 1 nominee_state)) nominee_state"
proof -
  have v: "nominatable_validators plain_staking_api 4 5 nominee_state = [31, 32, 33]"
    by (simp add: nominatable_validators_def nominee_state_rfis empty_rfis_def sort_down_def validator_stake_def Let_def)
  have "nomination_targets plain_staking_api 4 5 1 nominee_state = [33, 32, 31]"
    by (simp add: nomination_targets_def v nominee_state_rfis empty_rfis_def)
  moreover have "1 \<in> set (Pools (rfis nominee_state))" by (simp add: nominee_state_rfis)
  from worker_nomination_valid_iff [OF nominee_state_reached this, of 5 4]
  have "is_valid plain_staking_api (SubmitNomination 5 1 (nomination_targets plain_staking_api 4 5 1 nominee_state)) nominee_state"
    by (simp add: nominee_state_rfis empty_rfis_def)
  ultimately show ?thesis by blast
qed

section \<open>What the validation does not check\<close>

lemma finalize_rate:
  assumes "ActiveEra K (staking s) = Some e" "EraRate (rates s) RFIS e = None"
    and "BondedBeforePayout (rfis s) e = Some v" "BondedAfterPayout (rfis s) e = Some v"
  shows "rfis_on_finalize X K s = (case set_rate X RFIS v (rbal_total_issuance RFIS s) s of (r, t) \<Rightarrow> set_era_rate RFIS e r t)"
  using assms by (auto simp: rfis_on_finalize_def Let_def split: option.splits)

text \<open>
  C36. Anybody can choose the rate of rFIS. \<open>validate_unsigned\<close> accepts both totals of an era from any source without
  comparing them with what the pools have bonded, and the calls need no signature; so whoever is first in an era
  sets \<open>EraRate\<close> and \<open>Rate\<close> to any value he likes, relative to the issuance, whatever \<open>total_bonded\<close> is.
\<close>

theorem rfis_rate_can_be_forged:
  fixes s :: "('c, 'call, 'k, 'z) rfis_state_scheme"
  assumes "mul_rational_ok X" "in_era K e s" "EraRate (rates s) RFIS e = None"
    and "BondedBeforePayout (rfis s) e = None" "BondedAfterPayout (rfis s) e = None"
    and "v \<noteq> 0" "rbal_total_issuance RFIS s \<noteq> 0" "unat v * 10 ^ 12 div unat (rbal_total_issuance RFIS s) < 2 ^ 64"
  shows "\<exists>tag tag' r. validate_unsigned K External (SubmitTotalBondedBefore e v) s = Inr tag
     \<and> validate_unsigned K External (SubmitTotalBondedAfter e v) s = Inr tag'
     \<and> unat r = unat v * 10 ^ 12 div unat (rbal_total_issuance RFIS s)
     \<and> Rate (rates (unsigned_block X K [SubmitTotalBondedBefore e v, SubmitTotalBondedAfter e v] s)) RFIS = Some r
     \<and> EraRate (rates (unsigned_block X K [SubmitTotalBondedBefore e v, SubmitTotalBondedAfter e v] s)) RFIS e = Some r"
proof -
  let ?cs = "[SubmitTotalBondedBefore e v, SubmitTotalBondedAfter e v]"
  define u where "u = fold (apply_unsigned X K) ?cs s"
  have u: "staking u = staking s" "rates u = rates s" "rbalances u = rbalances s"
    "BondedBeforePayout (rfis u) e = Some v" "BondedAfterPayout (rfis u) e = Some v"
    using assms(2,4,5)
    by (simp_all add: u_def apply_unsigned_def is_valid_def rfis_valid_def submit_total_bonded_before_def
        submit_total_bonded_after_def ensure_none_def in_era_def)
  let ?i = "rbal_total_issuance RFIS s"
  have i: "rbal_total_issuance RFIS u = ?i" using u(3) by (simp add: rbal_total_issuance_def)
  obtain r t where r: "set_rate X RFIS v ?i u = (r, t)" by (cases "set_rate X RFIS v ?i u")
  have "unsigned_block X K ?cs s = set_era_rate RFIS e r t"
    unfolding unsigned_block_def u_def [symmetric]
    using finalize_rate [of K u e v X] u assms(2,3) i r by (simp add: in_era_def)
  with set_rate_value [OF assms(1,6,7), of RFIS u] set_rate_sets [of X RFIS v ?i u] assms(8) r have
    "unat r = unat v * 10 ^ 12 div unat ?i" "Rate (rates (unsigned_block X K ?cs s)) RFIS = Some r"
    "EraRate (rates (unsigned_block X K ?cs s)) RFIS e = Some r"
    by (simp_all add: set_era_rate_def)
  then show ?thesis using assms(4,5) by (simp add: rfis_valid_def)
qed

definition forged_state :: "(AccountId \<Rightarrow> u128, unit, plain_staking) rfis_state" where
  "forged_state = bonded_state\<lparr>rates := empty_rates\<rparr>"

theorem rfis_rate_can_be_forged_witness:
  "total_bonded plain_staking_api forged_state = 500 \<and> rbal_total_issuance RFIS forged_state = 500
   \<and> (\<exists>r. unat r = 2 * 10 ^ 15 \<and> EraRate (rates (unsigned_block plain_config plain_staking_api
        [SubmitTotalBondedBefore 5 1000000, SubmitTotalBondedAfter 5 1000000] forged_state)) RFIS 5 = Some r)"
proof -
  have e: "in_era plain_staking_api 5 forged_state" by (simp add: in_era_def forged_state_def sample_staking_def)
  have i: "rbal_total_issuance RFIS forged_state = 500"
    by (simp add: forged_state_def rbal_total_issuance_def total_issuance_def)
  have b: "total_bonded plain_staking_api forged_state = 500"
    by (simp add: total_bonded_def bonded_pools_def bonded_of_def forged_state_def)
  have n: "EraRate (rates forged_state) RFIS 5 = None" "BondedBeforePayout (rfis forged_state) 5 = None"
    "BondedAfterPayout (rfis forged_state) 5 = None"
    by (simp_all add: forged_state_def empty_rates_def empty_rfis_def)
  show ?thesis
    using rfis_rate_can_be_forged [OF plain_mul_rational_ok e n, of 1000000, unfolded i] b i by auto
qed

text \<open>
  \<open>add_pool_unlock\<close> adds a chunk to the ledger of a pool without taking it from the active part, so a ledger
  whose total is the sum of its parts no longer is.
\<close>

theorem add_pool_unlock_unbalances:
  assumes "staking_ok X K" "add_pool_unlock X K o' pool c s = (Ok (), t)" "lookup X pool = Some p"
    and "StakingLedgers K (staking s) p = Some l" "unat (sl_total l) = unat (sl_active l) + chunks_total (sl_unlocking l)"
    and "unlock_value c \<noteq> 0"
  shows "\<exists>l'. StakingLedgers K (staking t) p = Some l' \<and> unat (sl_total l') < unat (sl_active l') + chunks_total (sl_unlocking l')"
proof -
  have t: "t = on_staking (update_ledger K p (l\<lparr>sl_unlocking := sl_unlocking l @ [c]\<rparr>)) s"
    using assms(2-4) by (auto simp: add_pool_unlock_def run_ok)
  have "0 < unat (unlock_value c)" using assms(6) by (simp add: unat_gt_0)
  then show ?thesis
    using update_ledger_effect(1) [OF assms(1) t] assms(5) by (simp add: chunks_total_def)
qed

end
