(* ===== verification/RFis_Backing.thy ===== *)
theory RFis_Backing
  imports RFis_Pools
begin

text \<open>
  The backing of rFIS: the supply, at the current rate, is covered by what the pools have as active, and bonding and
  unbonding keep it so.
\<close>

section \<open>Backing\<close>

definition pools_active :: "('c, 'k) staking_api \<Rightarrow> ('c, 'call, 'k, 'z) rfis_state_scheme \<Rightarrow> nat" where
  "pools_active K s = (\<Sum>p\<in>set (Pools (rfis s)). unat (bonded_of K p s))"

definition rfis_backed :: "('c, 'k) staking_api \<Rightarrow> ('c, 'call, 'k, 'z) rfis_state_scheme \<Rightarrow> bool" where
  "rfis_backed K s \<longleftrightarrow> unat (rbal_total_issuance RFIS s) * rate_of RFIS s \<le> pools_active K s * 10 ^ 12"

text \<open>One pool bonds or unbonds.\<close>

lemma pools_active_change:
  assumes "Pools (rfis t) = Pools (rfis s)" "c \<in> set (Pools (rfis s))"
    and "\<And>p. p \<noteq> c \<Longrightarrow> bonded_of K p t = bonded_of K p s"
  shows "pools_active K t + unat (bonded_of K c s) = pools_active K s + unat (bonded_of K c t)"
proof -
  have "(\<Sum>p\<in>set (Pools (rfis s)) - {c}. unat (bonded_of K p t)) = (\<Sum>p\<in>set (Pools (rfis s)) - {c}. unat (bonded_of K p s))"
    by (rule sum.cong) (auto simp: assms(3))
  then show ?thesis
    by (simp add: pools_active_def assms(1) sum.remove [OF _ assms(2)])
qed

lemma minted_backed:
  assumes "mul_rational_ok X" "rfis_backed K s" "rates t = rates s" "pools_active K t = pools_active K s + unat v"
    and "rbal_total_issuance RFIS t = saturating_add (rbal_total_issuance RFIS s) (token_to_rtoken X RFIS v s)"
  shows "rfis_backed K t"
proof -
  have "unat (rbal_total_issuance RFIS t) * rate_of RFIS s
      \<le> (unat (rbal_total_issuance RFIS s) + unat (token_to_rtoken X RFIS v s)) * rate_of RFIS s"
    by (intro mult_le_mono1) (simp add: assms(5) unat_saturating_add)
  also have "\<dots> \<le> pools_active K s * 10 ^ 12 + unat v * 10 ^ 12"
    using assms(2) minted_at_rate [OF assms(1), of RFIS v s] by (simp only: rfis_backed_def add_mult_distrib add_mono)
  finally show ?thesis
    by (simp add: rfis_backed_def rate_of_def assms(3,4) add_mult_distrib)
qed

lemma burned_backed:
  assumes "mul_rational_ok X" "rfis_backed K s" "rates t = rates s"
    and "pools_active K t + unat (rtoken_to_token X RFIS v s) = pools_active K s"
    and "rbal_total_issuance RFIS t = saturating_sub (rbal_total_issuance RFIS s) v"
  shows "rfis_backed K t"
proof -
  have "unat (rbal_total_issuance RFIS t) * rate_of RFIS s
      = unat (rbal_total_issuance RFIS s) * rate_of RFIS s - unat v * rate_of RFIS s"
    by (simp add: assms(5) unat_saturating_sub diff_mult_distrib)
  also have "\<dots> \<le> pools_active K s * 10 ^ 12 - unat (rtoken_to_token X RFIS v s) * 10 ^ 12"
    using assms(2) redeemed_at_rate [OF assms(1), of RFIS v s] unfolding rfis_backed_def
    by (rule diff_le_mono2 [THEN le_trans, OF _ diff_le_mono, rotated])
  finally show ?thesis
    using assms(4) by (simp add: rfis_backed_def rate_of_def assms(3) diff_mult_distrib [symmetric])
qed

text \<open>A pool whose balance exceeds its total by at least the bonded amount bonds all of it.\<close>

lemma bond_extra_active:
  fixes s :: "('c, 'call, 'k, 'z) rfis_state_scheme"
  assumes "staking_ok X K" "c \<in> set (Pools (rfis s))" "StakingLedgers K (staking s) c = Some l"
    and "unat (sl_total l) + unat v \<le> unat (native_free_balance X c s)" "unat (sl_active l) + unat v < 2 ^ 128"
  shows "pools_active K (bond_extra X K c l v s) = pools_active K s + unat v"
    "rates (bond_extra X K c l v s) = rates s" "rbalances (bond_extra X K c l v s) = rbalances s"
proof -
  let ?l = "l\<lparr>sl_total := sl_total l + v, sl_active := sl_active l + v\<rparr>"
  define t where "t = on_staking (update_ledger K c ?l) s"
  note t = update_ledger_effect [OF assms(1) t_def]
  have le: "sl_total l \<le> native_free_balance X c s" "v \<le> native_free_balance X c s - sl_total l"
    using assms(4) by (simp_all add: word_le_nat_alt unat_minus_exact)
  then have e: "bond_extra X K c l v s = t"
    by (simp add: bond_extra_def t_def checked_sub_def min_absorb2)
  have "bonded_of K p t = (if p = c then sl_active l + v else bonded_of K p s)" for p
    by (simp add: bonded_of_def t(1))
  then have "pools_active K t + unat (sl_active l) = pools_active K s + unat (sl_active l + v)"
    using pools_active_change [of t s c K] assms(2,3) by (simp add: t(3) bonded_of_def [of K c s])
  then show "pools_active K (bond_extra X K c l v s) = pools_active K s + unat v"
    using assms(5) by (simp add: e unat_plus_exact)
  show "rates (bond_extra X K c l v s) = rates s" "rbalances (bond_extra X K c l v s) = rbalances s"
    by (simp_all add: e t_def on_staking_def split: prod.splits)
qed

section \<open>Bonding and unbonding\<close>

lemma pools_active_cong: "rfis t = rfis s \<Longrightarrow> staking t = staking s \<Longrightarrow> pools_active K t = pools_active K s"
  by (simp add: pools_active_def bonded_of_def)

lemma bonded_backed:
  fixes s s2 :: "('c, 'call, 'k, 'z) rfis_state_scheme"
  assumes "staking_ok X K" "mul_rational_ok X" "rfis_backed K s"
    and c: "c \<in> set (Pools (rfis s))" "StakingLedgers K (staking s) c = Some l" "unat (sl_active l) + unat v < 2 ^ 128"
    and frame: "rfis s2 = rfis s" "staking s2 = staking s" "rates s2 = rates s"
    and free: "unat (sl_total l) + unat v \<le> unat (native_free_balance X c s2)"
    and issued: "rbal_total_issuance RFIS s2 = saturating_add (rbal_total_issuance RFIS s) (token_to_rtoken X RFIS v s)"
  shows "rfis_backed K (deposit_event e (bond_extra X K c l v (update_claim_info X w RFIS rb v s2)))"
proof -
  let ?s3 = "update_claim_info X w RFIS rb v s2"
  have f: "rfis ?s3 = rfis s" "staking ?s3 = staking s" "rates ?s3 = rates s" "rbalances ?s3 = rbalances s2"
    "native ?s3 = native s2"
    by (simp_all add: frame)
  note b = bond_extra_active [of X K c ?s3 l v, OF assms(1)]
  have "rfis_backed K (bond_extra X K c l v ?s3)"
  proof (rule minted_backed [OF assms(2,3)])
    show "pools_active K (bond_extra X K c l v ?s3) = pools_active K s + unat v"
      using b(1) c free f pools_active_cong [OF f(1,2), of K] by (simp add: native_free_balance_def)
    show "rates (bond_extra X K c l v ?s3) = rates s"
      using b(2) c free f by (simp add: native_free_balance_def)
    have "rbalances (bond_extra X K c l v ?s3) = rbalances s2"
      using b(3) c free f by (simp add: native_free_balance_def)
    then show "rbal_total_issuance RFIS (bond_extra X K c l v ?s3)
        = saturating_add (rbal_total_issuance RFIS s) (token_to_rtoken X RFIS v s)"
      using issued rbal_observers_cong(2) by metis
  qed
  then show ?thesis
    by (simp add: rfis_backed_def pools_active_def bonded_of_def rate_of_def rbal_total_issuance_def deposit_event_def)
qed

lemma rfis_bondable_Ok:
  assumes "rfis_bondable X K pool v s k = (Ok u, s')"
  obtains c l where "c \<in> set (Pools (rfis s))" "StakingLedgers K (staking s) c = Some l"
    "unat (sl_active l) + unat v < 2 ^ 128" "k c l = (Ok u, s')"
  using assms by (auto simp: rfis_bondable_def run_ok is_in_pools_def bonded_of_def)

lemma liquidity_bond_backed:
  fixes s s' :: "('c, 'call, 'k, 'z) rfis_state_scheme"
  assumes "currency_ok X" "staking_ok X K" "mul_rational_ok X" "rfis_backed K s" "w \<notin> set (Pools (rfis s))"
    and total: "\<And>c l. c \<in> set (Pools (rfis s)) \<Longrightarrow> StakingLedgers K (staking s) c = Some l \<Longrightarrow> sl_total l \<le> native_free_balance X c s"
    and run: "rfis_liquidity_bond X K (Signed w) pool v s = (Ok u, s')"
  shows "rfis_backed K s'"
proof -
  from run obtain c l and s1 s2 :: "('c, 'call, 'k, 'z) rfis_state_scheme" and e where c: "c \<in> set (Pools (rfis s))" "StakingLedgers K (staking s) c = Some l"
    "unat (sl_active l) + unat v < 2 ^ 128"
    and 1: "native_transfer X w c v s = (Ok (), s1)"
    and 2: "rbal_mint w RFIS (token_to_rtoken X RFIS v s) s1 = (Ok (), s2)"
    and s': "s' = deposit_event e (bond_extra X K c l v (update_claim_info X w RFIS (token_to_rtoken X RFIS v s) v s2))"
    by (auto simp: rfis_liquidity_bond_def run_ok Let_def elim!: rfis_bondable_Ok)
  note f1 = rfis_native_transfer [OF 1] and f2 = rfis_mint [OF 2]
  have "w \<noteq> c" using assms(5) c(1) by blast
  then have "unat (sl_total l) + unat v \<le> unat (native_free_balance X c s2)"
    using native_moves(1) [OF assms(1) 1] total [OF c(1,2)] f2 by (simp add: native_free_balance_def word_le_nat_alt)
  then show ?thesis
    unfolding s' using f1 f2 rcur.mint_issued [OF 2, of RFIS] rbal_observers_cong(2) [of s1 s RFIS] 1
    by (intro bonded_backed [OF assms(2-4) c]) (auto simp: native_transfer_def split: prod.splits)
qed

lemma liquidity_unbond_backed:
  fixes s s' :: "('c, 'call, 'k, 'z) rfis_state_scheme"
  assumes "staking_ok X K" "mul_rational_ok X" "rfis_backed K s"
    and run: "rfis_liquidity_unbond X K (Signed w) pool v s = (Ok u, s')"
  shows "rfis_backed K s'"
proof -
  let ?left = "v - unbond_fee X v s"
  let ?b = "rtoken_to_token X RFIS ?left s"
  from run obtain c l r us e es ev and s1 s2 :: "('c, 'call, 'k, 'z) rfis_state_scheme"
    where c: "c \<in> set (Pools (rfis s))" "StakingLedgers K (staking s) c = Some l" "?b \<le> sl_active l"
    and 1: "rbal_transfer w r RFIS (unbond_fee X v s) s = (Ok (), s1)"
    and 2: "rbal_burn w RFIS ?left s1 = (Ok (), s2)"
    and s': "s' = deposit_event ev (rfis_update (put_unbonding w c (Some (add_chunk e ?b es)))
        (on_staking (update_ledger K c (l\<lparr>sl_active := sl_active l - ?b, sl_unlocking := us\<rparr>)) s2))"
    by (auto simp: rfis_liquidity_unbond_def run_ok is_in_pools_def Let_def)
  define t where "t = on_staking (update_ledger K c (l\<lparr>sl_active := sl_active l - ?b, sl_unlocking := us\<rparr>)) s2"
  note t = update_ledger_effect [OF assms(1) t_def] and f1 = rfis_rtransfer [OF 1] and f2 = rfis_burn [OF 2]
  have "bonded_of K p s' = (if p = c then sl_active l - ?b else bonded_of K p s)" for p
    using t(1) f1 f2 by (simp add: s' t_def [symmetric] bonded_of_def)
  then have "pools_active K s' + unat (sl_active l) = pools_active K s + unat (sl_active l - ?b)"
    using pools_active_change [of s' s c K] c(1,2) t(3) f1 f2
    by (simp add: s' t_def [symmetric] put_unbonding_def bonded_of_def [of K c s])
  then have act: "pools_active K s' + unat ?b = pools_active K s"
    using c(3) by (simp add: unat_minus_exact word_le_nat_alt)
  have fr: "rates s' = rates s" "rbalances s' = rbalances s2"
    using f1 f2 by (simp_all add: s' on_staking_def split: prod.splits)
  have "rbal_total_issuance RFIS s' = saturating_sub (rbal_total_issuance RFIS s) ?left"
    using rcur.burn_issued [OF 2, of RFIS] rcur.transfer_issued [OF 1, of RFIS] rbal_observers_cong(2) [OF fr(2)] by simp
  with fr(1) act show ?thesis by (intro burned_backed [OF assms(2,3)])
qed

text \<open>Bonding with a transfer over the bridge: the fee passes through the account of the pool.\<close>

lemma fungible_issued: "transfer_fungible a d r b v s = (x, t) \<Longrightarrow> rbalances t = rbalances s"
  by (auto simp: transfer_fungible_def bump_nonce_def Let_def ensure_def deposit_event_def split: if_splits)

lemma native_transfer_issued: "native_transfer X a b v s = (x, t) \<Longrightarrow> rbalances t = rbalances s"
  by (auto simp: native_transfer_def split: prod.splits)

lemma swap_payment_effect:
  fixes s t :: "('c, 'call, 'k, 'z) rfis_state_scheme"
  assumes "currency_ok X" "w \<noteq> c" "unat v + unat fee < 2 ^ 128"
    and "and_then (native_transfer X w c (saturating_add v fee) s) (\<lambda>_ s1. and_then (native_transfer X c r fee s1) (\<lambda>_ s2.
       and_then (rbal_mint g RFIS rb s2) (\<lambda>_ s3. transfer_fungible w d res rec am s3))) = (Ok u, t)"
  shows "rfis t = rfis s \<and> staking t = staking s \<and> rates t = rates s
       \<and> unat (native_free_balance X c s) + unat v \<le> unat (native_free_balance X c t)
       \<and> rbal_total_issuance RFIS t = saturating_add (rbal_total_issuance RFIS s) rb"
proof -
  from assms(4) obtain s1 s2 s3 :: "('c, 'call, 'k, 'z) rfis_state_scheme" where
    1: "native_transfer X w c (saturating_add v fee) s = (Ok (), s1)" and 2: "native_transfer X c r fee s1 = (Ok (), s2)"
    and 3: "rbal_mint g RFIS rb s2 = (Ok (), s3)" and 4: "transfer_fungible w d res rec am s3 = (Ok u, t)"
    by (auto simp: run_ok)
  note f = rfis_native_transfer [OF 1] rfis_native_transfer [OF 2] rfis_mint [OF 3] rfis_transfer_fungible [OF 4]
  have "native t = native s2" using f by simp
  then have "unat (native_free_balance X c s) + unat v \<le> unat (native_free_balance X c t)"
    using native_moves(1) [OF assms(1) 1 assms(2)] native_transfer_balance(1) [OF assms(1) 2, of c] assms(3)
    by (simp add: native_free_balance_def unat_saturating_add split: if_splits)
  moreover have "rbal_total_issuance RFIS t = saturating_add (rbal_total_issuance RFIS s) rb"
    using rcur.mint_issued [OF 3, of RFIS] rbal_observers_cong(2) [OF fungible_issued [OF 4], of RFIS]
      rbal_observers_cong(2) [OF native_transfer_issued [OF 1], of RFIS]
      rbal_observers_cong(2) [OF native_transfer_issued [OF 2], of RFIS] by simp
  ultimately show ?thesis using f by simp
qed

lemma plain_payment_effect:
  fixes s t :: "('c, 'call, 'k, 'z) rfis_state_scheme"
  assumes "currency_ok X" "w \<noteq> c"
    and "and_then (native_transfer X w c v s) (\<lambda>_ s1. rbal_mint w RFIS rb s1) = (Ok u, t)"
  shows "rfis t = rfis s \<and> staking t = staking s \<and> rates t = rates s
       \<and> unat (native_free_balance X c s) + unat v \<le> unat (native_free_balance X c t)
       \<and> rbal_total_issuance RFIS t = saturating_add (rbal_total_issuance RFIS s) rb"
proof -
  from assms(3) obtain s1 :: "('c, 'call, 'k, 'z) rfis_state_scheme" where
    1: "native_transfer X w c v s = (Ok (), s1)" and 2: "rbal_mint w RFIS rb s1 = (Ok u, t)"
    by (auto simp: run_ok)
  show ?thesis
    using rfis_native_transfer [OF 1] rfis_mint [OF 2] native_moves(1) [OF assms(1) 1 assms(2)]
      rcur.mint_issued [OF 2, of RFIS] rbal_observers_cong(2) [OF native_transfer_issued [OF 1], of RFIS]
    by (simp add: native_free_balance_def)
qed

lemma liquidity_bond_and_swap_backed:
  fixes s s' :: "('c, 'call, 'k, 'z) rfis_state_scheme"
  assumes "currency_ok X" "staking_ok X K" "mul_rational_ok X" "rfis_backed K s" "w \<notin> set (Pools (rfis s))"
    and total: "\<And>c l. c \<in> set (Pools (rfis s)) \<Longrightarrow> StakingLedgers K (staking s) c = Some l \<Longrightarrow> sl_total l \<le> native_free_balance X c s"
    and fits: "\<And>fee. ChainFees (bridge s) d = Some fee \<Longrightarrow> unat v + unat fee < 2 ^ 128"
    and run: "rfis_liquidity_bond_and_swap X K (Signed w) pool v rec d s = (Ok u, s')"
  shows "rfis_backed K s'"
proof -
  let ?rb = "token_to_rtoken X RFIS v s"
  from run obtain c l where c: "c \<in> set (Pools (rfis s))" "StakingLedgers K (staking s) c = Some l"
    "unat (sl_active l) + unat v < 2 ^ 128"
    and k: "and_then
          (if d \<noteq> ChainIdentity X
           then swapable X rec d s (\<lambda>(fee, receiver, bridger').
                ok_or (RsymbolResource (bridge s) RFIS) (BridgeErr bridge_error.RsymbolNotMapped) s (\<lambda>resource.
                and_then (native_transfer X w c (saturating_add v fee) s) (\<lambda>_ s1.
                and_then (native_transfer X c receiver fee s1) (\<lambda>_ s2.
                and_then (rbal_mint bridger' RFIS ?rb s2) (\<lambda>_ s3.
                transfer_fungible w d resource rec (ucast ?rb) s3)))))
           else and_then (native_transfer X w c v s) (\<lambda>_ s1. rbal_mint w RFIS ?rb s1))
          (\<lambda>_ s2. (Ok (), deposit_event (RFisEv (rfis_event.LiquidityBond w c v ?rb))
             (bond_extra X K c l v (update_claim_info X w RFIS ?rb v s2)))) = (Ok u, s')"
    unfolding rfis_liquidity_bond_and_swap_def Let_def ensure_signed_Ok by (auto elim!: rfis_bondable_Ok)
  have wc: "w \<noteq> c" using assms(5) c(1) by blast
  from k obtain t :: "('c, 'call, 'k, 'z) rfis_state_scheme" where
    s': "s' = deposit_event (RFisEv (rfis_event.LiquidityBond w c v ?rb)) (bond_extra X K c l v (update_claim_info X w RFIS ?rb v t))"
    and pay: "(if d \<noteq> ChainIdentity X
           then swapable X rec d s (\<lambda>(fee, receiver, bridger').
                ok_or (RsymbolResource (bridge s) RFIS) (BridgeErr bridge_error.RsymbolNotMapped) s (\<lambda>resource.
                and_then (native_transfer X w c (saturating_add v fee) s) (\<lambda>_ s1.
                and_then (native_transfer X c receiver fee s1) (\<lambda>_ s2.
                and_then (rbal_mint bridger' RFIS ?rb s2) (\<lambda>_ s3.
                transfer_fungible w d resource rec (ucast ?rb) s3)))))
           else and_then (native_transfer X w c v s) (\<lambda>_ s1. rbal_mint w RFIS ?rb s1)) = (Ok (), t)"
    unfolding and_then_Ok [of _ _ u] by auto
  have "rfis t = rfis s \<and> staking t = staking s \<and> rates t = rates s
       \<and> unat (native_free_balance X c s) + unat v \<le> unat (native_free_balance X c t)
       \<and> rbal_total_issuance RFIS t = saturating_add (rbal_total_issuance RFIS s) ?rb"
  proof (cases "d = ChainIdentity X")
    case True
    with pay plain_payment_effect [OF assms(1) wc, of v s ?rb "()" t] show ?thesis by simp
  next
    case False
    with pay obtain fee receiver resource where "ChainFees (bridge s) d = Some fee"
      "and_then (native_transfer X w c (saturating_add v fee) s) (\<lambda>_ s1. and_then (native_transfer X c receiver fee s1) (\<lambda>_ s2.
         and_then (rbal_mint (bridge_account_id X) RFIS ?rb s2) (\<lambda>_ s3. transfer_fungible w d resource rec (ucast ?rb) s3))) = (Ok (), t)"
      by (auto simp: swapable_Ok ok_or_Ok)
    from swap_payment_effect [OF assms(1) wc fits [OF this(1)] this(2)] show ?thesis .
  qed
  with total [OF c(1,2)] show ?thesis
    unfolding s' by (intro bonded_backed [OF assms(2-4) c]) (auto simp: word_le_nat_alt)
qed

section \<open>The property\<close>

text \<open>What the staking pallet locks on the account of a pool is there.\<close>

definition pools_locked :: "'c config \<Rightarrow> ('c, 'k) staking_api \<Rightarrow> ('c, 'call, 'k, 'z) rfis_state_scheme \<Rightarrow> bool" where
  "pools_locked X K s \<longleftrightarrow>
     (\<forall>p\<in>set (Pools (rfis s)). \<forall>l. StakingLedgers K (staking s) p = Some l \<longrightarrow> sl_total l \<le> native_free_balance X p s)"

text \<open>The calls of users that mint or burn rFIS, with the bonded amount and the fee of a transfer within the width.\<close>

fun bonding_call :: "('c, 'call, 'k, 'z) rfis_state_scheme \<Rightarrow> rfis_call \<Rightarrow> bool" where
  "bonding_call s (CallLiquidityBond pool v) = True"
| "bonding_call s (CallLiquidityBondAndSwap pool v rec d) =
     (case ChainFees (bridge s) d of None \<Rightarrow> True | Some fee \<Rightarrow> unat v + unat fee < 2 ^ 128)"
| "bonding_call s (CallLiquidityUnbond pool v) = True"
| "bonding_call s c = False"

text \<open>
  C14. Bonding, bonding with a transfer over the bridge and unbonding keep rFIS backed: when the active stake of the pools covers
  the supply at the current rate, it does so after each of them, whatever is rounded, charged or passed on.
\<close>

theorem rfis_bonding_keeps_backing:
  assumes "currency_ok X" "staking_ok X K" "mul_rational_ok X" "rfis_backed K s" "pools_locked X K s"
    and "w \<notin> set (Pools (rfis s))" "bonding_call s c" "rfis_dispatch X K (Signed w) c s = (Ok u, s')"
  shows "rfis_backed K s'"
proof -
  have total: "sl_total l \<le> native_free_balance X p s"
    if "p \<in> set (Pools (rfis s))" "StakingLedgers K (staking s) p = Some l" for p l
    using assms(5) that by (simp add: pools_locked_def)
  have swap: "rfis_backed K s'"
    if "bonding_call s (CallLiquidityBondAndSwap pool v rec d)" "rfis_liquidity_bond_and_swap X K (Signed w) pool v rec d s = (Ok u, s')"
    for pool v rec d
    using that by (intro liquidity_bond_and_swap_backed [OF assms(1-4,6) total _ that(2)]) auto
  show ?thesis
    using assms(7,8) swap
    by (cases c) (auto simp: total intro: liquidity_bond_backed [OF assms(1-4,6)] liquidity_unbond_backed [OF assms(2-4)])
qed

theorem rfis_bonding_keeps_backing_witness:
  "rfis_backed plain_staking_api bonded_state \<and> rfis_backed plain_staking_api unbonded_state
   \<and> rbal_total_issuance RFIS bonded_state = 500"
proof -
  have 1: "rfis_dispatch plain_config plain_staking_api (Signed 7) (CallLiquidityBond [1] 500) bonding_state = (Ok (), bonded_state)"
    unfolding bonded_state_def
    by (simp add: rfis_liquidity_bond_def rfis_bondable_def rfis_eval)
  have 2: "rfis_dispatch plain_config plain_staking_api (Signed 7) (CallLiquidityUnbond [1] 200) bonded_state = (Ok (), unbonded_state)"
    unfolding unbonded_state_def
    by (simp add: rfis_liquidity_unbond_def unbond_fee_def max_unlock_chunks_def rfis_eval)
  note keep = rfis_bonding_keeps_backing [OF plain_currency_ok plain_staking_ok plain_mul_rational_ok]
  have "rfis_backed plain_staking_api bonding_state"
    by (simp add: rfis_backed_def rbal_total_issuance_def total_issuance_def empty_tokens_def)
  from keep [OF this _ _ _ 1] have b: "rfis_backed plain_staking_api bonded_state"
    by (simp add: pools_locked_def native_free_balance_def empty_rfis_def)
  from keep [OF this _ _ _ 2] have "rfis_backed plain_staking_api unbonded_state"
    by (simp add: pools_locked_def native_free_balance_def empty_rfis_def)
  with b show ?thesis by (simp add: rbal_total_issuance_def total_issuance_def)
qed

end
