(* ===== verification/Runtime_Calls.thy ===== *)
theory Runtime_Calls
  imports Mining_Rewards RFis_Worker
begin

text \<open>
  The runtime as a whole: the enumeration \<open>Call\<close> that \<open>construct_runtime!\<close> builds from the dispatchables of the pallets, and its
  dispatch. A proposal of the bridge and of the rtoken relayers is a call of the same runtime, so the
  enumeration is recursive and dispatching an acknowledgement may dispatch another call.
\<close>

section \<open>Calls of the pallets\<close>

datatype (plugins only: code) relayers_call =
    BR_set_threshold ChainId u32
  | BR_add_relayer ChainId bytes
  | BR_remove_relayer ChainId bytes

datatype (plugins only: code) rrelayers_call =
    RR_set_threshold RSymbol u32
  | RR_add_relayer RSymbol bytes
  | RR_remove_relayer RSymbol bytes

datatype (plugins only: code) payers_call =
    PY_set_threshold RSymbol u32
  | PY_add_payer RSymbol bytes
  | PY_remove_payer RSymbol bytes

datatype (plugins only: code) bridge_call =
    BC_set_threshold u32
  | BC_add_resource ResourceId bytes
  | BC_remove_resource ResourceId
  | BC_add_relayer bytes
  | BC_remove_relayer bytes
  | BC_map_resource_and_rsymbol ResourceId RSymbol
  | BC_unmap_resource_and_rsymbol ResourceId RSymbol
  | BC_map_resource_and_xsymbol ResourceId XSymbol
  | BC_unmap_resource_and_xsymbol ResourceId XSymbol
  | BC_whitelist_chain ChainId
  | BC_remove_whitelist_chain ChainId
  | BC_set_proxy_accounts AccountId
  | BC_remove_proxy_accounts AccountId
  | BC_set_chain_fees ChainId Balance
  | BC_set_fees_recipient_account AccountId
  | BC_set_is_pasued bool

datatype (plugins only: code) bridge_swap_call =
    BS_transfer_native u128 bytes ChainId
  | BS_transfer_native_back AccountId u128 ResourceId
  | BS_transfer_rtoken RSymbol u128 bytes ChainId
  | BS_transfer_rtoken_back AccountId u128 ResourceId
  | BS_transfer_xtoken XSymbol u128 bytes ChainId
  | BS_transfer_xtoken_back AccountId u128 ResourceId

datatype (plugins only: code) ledger_call =
    LG_set_commission u32
  | LG_add_new_pool RSymbol bytes
  | LG_remove_pool RSymbol bytes
  | LG_set_receiver AccountId
  | LG_set_era_unbond_limit RSymbol u16
  | LG_set_init_bond RSymbol bytes AccountId u128
  | LG_set_chain_bonding_duration RSymbol u32
  | LG_add_sub_accounts_and_threshold RSymbol bytes "bytes list" u16
  | LG_clear_current_era_snap_shots RSymbol
  | LG_set_least_bond RSymbol u128
  | LG_set_chain_era RSymbol u32
  | LG_bond_report RSymbol Hash
  | LG_new_bond_report RSymbol Hash BondAction
  | LG_bond_and_report_active RSymbol Hash BondAction u128 u128
  | LG_active_report RSymbol Hash u128
  | LG_new_active_report RSymbol Hash u128 u128
  | LG_withdraw_report RSymbol Hash
  | LG_transfer_report RSymbol Hash

datatype (plugins only: code) series_call =
    SE_toggle_bond_switch
  | SE_toggle_rtoken_bond_switch RSymbol
  | SE_set_relay_fees_receiver AccountId
  | SE_set_proxy_accounts AccountId
  | SE_remove_proxy_accounts AccountId
  | SE_set_bond_fees RSymbol Balance
  | SE_set_unbond_fees RSymbol Balance
  | SE_set_balance_limit RSymbol u128
  | SE_set_unbond_commission u32
  | SE_init_nominations RSymbol bytes "bytes list"
  | SE_update_nominations RSymbol bytes "bytes list" u32
  | SE_update_validator RSymbol bytes bytes bytes u32
  | SE_swap_refund_expire RSymbol BlockNumber
  | SE_liquidity_bond bytes bytes bytes bytes bytes u128 RSymbol
  | SE_liquidity_bond_and_swap bytes bytes bytes bytes bytes u128 RSymbol bytes ChainId
  | SE_execute_bond_record RSymbol Hash BondReason
  | SE_liquidity_unbond RSymbol bytes u128 bytes
  | SE_submit_signatures RSymbol u32 bytes OriginalTxType bytes bytes
  | SE_refund_swap_fee RSymbol Hash

datatype (plugins only: code) xclaim_call =
    XC_set_proxy_accounts AccountId
  | XC_remove_proxy_accounts AccountId
  | XC_claim XSymbol
  | XC_mint_claim AccountId XSymbol u128

datatype (plugins only: code) rclaim_call =
    RC_set_reth_rewarder AccountId
  | RC_set_fund_address AccountId
  | RC_add_rtoken_reward_act BlockNumber BlockNumber RSymbol Balance Balance u32 u128
  | RC_update_rtoken_reward_act u32 BlockNumber BlockNumber RSymbol Balance Balance u32 u128
  | RC_add_reth_reward_act BlockNumber BlockNumber Balance Balance u32 u128
  | RC_update_reth_reward_act u32 BlockNumber BlockNumber Balance Balance u32 u128
  | RC_update_reth_claim_info "bytes list" "u128 list" "u128 list"
  | RC_claim_rtoken_reward RSymbol u32 u64
  | RC_claim_reth_reward bytes bytes u32 u64

datatype (plugins only: code) rdexn_call =
    RN_swap_rtoken_for_native_token bytes RSymbol u128 u128 u8
  | RN_swap_rfis_for_fis_token AccountId u128 u128 u8
  | RN_report_transfer_result_with_block RSymbol u64
  | RN_report_transfer_result_with_index RSymbol u64 u32
  | RN_toggle_swap_total_switch
  | RN_toggle_swap_rtoken_switch RSymbol
  | RN_set_fund_address AccountId
  | RN_set_native_pool_address AccountId
  | RN_set_native_token_reserve RSymbol u128
  | RN_set_swap_fee RSymbol Balance
  | RN_set_swap_rate RSymbol u8 u64 u128
  | RN_set_swap_limit_per_block u32
  | RN_set_latest_deal_block RSymbol u64

datatype (plugins only: code) rdex_call =
    RX_swap RSymbol u128 u128 bool
  | RX_add_liquidity RSymbol u128 u128
  | RX_remove_liquidity RSymbol u128 u128 u128 u128 bool
  | RX_create_pool AccountId RSymbol u128 u128
  | RX_add_lp_to_whitelist RSymbol AccountId
  | RX_remove_lp_from_whitelist RSymbol AccountId
  | RX_toggle_lp_switch RSymbol

datatype (plugins only: code) mining_call =
    MI_deposit RSymbol u32 u32 u128
  | MI_withdraw RSymbol u32 u32 u128
  | MI_claim_reward RSymbol u32 u32
  | MI_emergency_withdraw RSymbol u32 u32
  | MI_add_pool RSymbol u32 u32 u32 u128 u128 bool
  | MI_update_stake_pool RSymbol u32 u32 u128 u128
  | MI_rm_pool RSymbol u32 u32
  | MI_increase_pool_index RSymbol
  | MI_emergency_switch RSymbol u32 u32
  | MI_withdraw_guard_fund RSymbol AccountId u128
  | MI_set_guard_line RSymbol u32 u32
  | MI_set_guard_reserve RSymbol u128
  | MI_add_lp_to_whitelist RSymbol AccountId
  | MI_remove_lp_from_whitelist RSymbol AccountId
  | MI_toggle_lp_switch RSymbol

section \<open>The environment\<close>

text \<open>
  What the pallets take from outside the repository, and the resource of the native token. The calls of the pallets of
  Substrate are a type \<open>'x\<close>; they change the native currency, the staking storage (which stands for all storage of these
  pallets) and the event log only. Those that carry other calls (\<open>utility\<close>, \<open>sudo\<close>, \<open>proxy\<close>, \<open>multisig\<close>, \<open>collective\<close>,
  \<open>recovery\<close>) check first and choose the origin of the carried calls, run them in order up to the first
  that fails, and then turn its error, or none, into their own result. \<open>set_storage\<close>, \<open>kill_storage\<close>, \<open>kill_prefix\<close> and \<open>set_code\<close> of the
  system pallet, which replace the storage or the program, are not among them.
\<close>

record ('c, 'k, 'x) runtime_env =
  env_config :: "'c config"
  env_crypto :: crypto
  env_staking :: "('c, 'k) staking_api"
  env_snapshot_hash :: "BondSnapshot \<Rightarrow> Hash"
  env_bond_hash :: "BondRecord \<Rightarrow> Hash"
  env_native_token :: ResourceId
  env_substrate :: "'x \<Rightarrow> origin \<Rightarrow> 'k \<times> 'c \<times> event list \<Rightarrow> (dispatch_error, unit, 'k \<times> 'c \<times> event list) run"
  env_carrier_begin :: "'x \<Rightarrow> origin \<Rightarrow> 'k \<times> 'c \<times> event list \<Rightarrow> (dispatch_error, origin, 'k \<times> 'c \<times> event list) run"
  env_carrier_end :: "'x \<Rightarrow> dispatch_error option \<Rightarrow> 'k \<times> 'c \<times> event list \<Rightarrow> (dispatch_error, unit, 'k \<times> 'c \<times> event list) run"

section \<open>Dispatch in the pallets\<close>

definition relayers_dispatch ::
    "('c, 'k, 'x) runtime_env \<Rightarrow> origin \<Rightarrow> relayers_call \<Rightarrow> ('c, 'call, 'k, 'z) rfis_state_scheme
     \<Rightarrow> ('c, 'call, 'k, 'z) rfis_run" where
  "relayers_dispatch E o' c s =
     (case c of
        BR_set_threshold a1 a2 \<Rightarrow> brelayers_set_threshold o' a1 a2 s
      | BR_add_relayer a1 a2 \<Rightarrow> brelayers_add_relayer (env_config E) o' a1 a2 s
      | BR_remove_relayer a1 a2 \<Rightarrow> brelayers_remove_relayer (env_config E) o' a1 a2 s)"

definition rrelayers_dispatch ::
    "('c, 'k, 'x) runtime_env \<Rightarrow> origin \<Rightarrow> rrelayers_call \<Rightarrow> ('c, 'call, 'k, 'z) rfis_state_scheme
     \<Rightarrow> ('c, 'call, 'k, 'z) rfis_run" where
  "rrelayers_dispatch E o' c s =
     (case c of
        RR_set_threshold a1 a2 \<Rightarrow> rrelayers_set_threshold o' a1 a2 s
      | RR_add_relayer a1 a2 \<Rightarrow> rrelayers_add_relayer (env_config E) o' a1 a2 s
      | RR_remove_relayer a1 a2 \<Rightarrow> rrelayers_remove_relayer (env_config E) o' a1 a2 s)"

definition payers_dispatch ::
    "('c, 'k, 'x) runtime_env \<Rightarrow> origin \<Rightarrow> payers_call \<Rightarrow> ('c, 'call, 'k, 'z) rfis_state_scheme
     \<Rightarrow> ('c, 'call, 'k, 'z) rfis_run" where
  "payers_dispatch E o' c s =
     (case c of
        PY_set_threshold a1 a2 \<Rightarrow> payers_set_threshold o' a1 a2 s
      | PY_add_payer a1 a2 \<Rightarrow> payers_add_payer (env_config E) o' a1 a2 s
      | PY_remove_payer a1 a2 \<Rightarrow> payers_remove_payer (env_config E) o' a1 a2 s)"

definition bridge_dispatch ::
    "('c, 'k, 'x) runtime_env \<Rightarrow> origin \<Rightarrow> bridge_call \<Rightarrow> ('c, 'call, 'k, 'z) rfis_state_scheme
     \<Rightarrow> ('c, 'call, 'k, 'z) rfis_run" where
  "bridge_dispatch E o' c s =
     (case c of
        BC_set_threshold a1 \<Rightarrow> bridge_set_threshold (env_config E) o' a1 s
      | BC_add_resource a1 a2 \<Rightarrow> add_resource (env_config E) o' a1 a2 s
      | BC_remove_resource a1 \<Rightarrow> remove_resource (env_config E) o' a1 s
      | BC_add_relayer a1 \<Rightarrow> bridge_add_relayer (env_config E) o' a1 s
      | BC_remove_relayer a1 \<Rightarrow> bridge_remove_relayer (env_config E) o' a1 s
      | BC_map_resource_and_rsymbol a1 a2 \<Rightarrow> map_resource_and_rsymbol (env_config E) o' a1 a2 s
      | BC_unmap_resource_and_rsymbol a1 a2 \<Rightarrow> unmap_resource_and_rsymbol (env_config E) o' a1 a2 s
      | BC_map_resource_and_xsymbol a1 a2 \<Rightarrow> map_resource_and_xsymbol (env_config E) o' a1 a2 s
      | BC_unmap_resource_and_xsymbol a1 a2 \<Rightarrow> unmap_resource_and_xsymbol (env_config E) o' a1 a2 s
      | BC_whitelist_chain a1 \<Rightarrow> whitelist_chain (env_config E) o' a1 s
      | BC_remove_whitelist_chain a1 \<Rightarrow> remove_whitelist_chain (env_config E) o' a1 s
      | BC_set_proxy_accounts a1 \<Rightarrow> set_proxy_accounts (env_config E) o' a1 s
      | BC_remove_proxy_accounts a1 \<Rightarrow> remove_proxy_accounts (env_config E) o' a1 s
      | BC_set_chain_fees a1 a2 \<Rightarrow> set_chain_fees o' a1 a2 s
      | BC_set_fees_recipient_account a1 \<Rightarrow> set_fees_recipient_account (env_config E) o' a1 s
      | BC_set_is_pasued a1 \<Rightarrow> set_is_pasued (env_config E) o' a1 s)"

definition bridge_swap_dispatch ::
    "('c, 'k, 'x) runtime_env \<Rightarrow> origin \<Rightarrow> bridge_swap_call \<Rightarrow> ('c, 'call, 'k, 'z) rfis_state_scheme
     \<Rightarrow> ('c, 'call, 'k, 'z) rfis_run" where
  "bridge_swap_dispatch E o' c s =
     (case c of
        BS_transfer_native a1 a2 a3 \<Rightarrow> transfer_native (env_config E) (env_native_token E) o' a1 a2 a3 s
      | BS_transfer_native_back a1 a2 a3 \<Rightarrow> transfer_native_back (env_config E) o' a1 a2 a3 s
      | BS_transfer_rtoken a1 a2 a3 a4 \<Rightarrow> transfer_rtoken (env_config E) o' a1 a2 a3 a4 s
      | BS_transfer_rtoken_back a1 a2 a3 \<Rightarrow> transfer_rtoken_back (env_config E) o' a1 a2 a3 s
      | BS_transfer_xtoken a1 a2 a3 a4 \<Rightarrow> transfer_xtoken (env_config E) o' a1 a2 a3 a4 s
      | BS_transfer_xtoken_back a1 a2 a3 \<Rightarrow> transfer_xtoken_back (env_config E) o' a1 a2 a3 s)"

definition ledger_dispatch ::
    "('c, 'k, 'x) runtime_env \<Rightarrow> origin \<Rightarrow> ledger_call \<Rightarrow> ('c, 'call, 'k, 'z) rfis_state_scheme
     \<Rightarrow> ('c, 'call, 'k, 'z) rfis_run" where
  "ledger_dispatch E o' c s =
     (case c of
        LG_set_commission a1 \<Rightarrow> set_commission (env_config E) o' a1 s
      | LG_add_new_pool a1 a2 \<Rightarrow> add_new_pool o' a1 a2 s
      | LG_remove_pool a1 a2 \<Rightarrow> remove_pool o' a1 a2 s
      | LG_set_receiver a1 \<Rightarrow> set_receiver o' a1 s
      | LG_set_era_unbond_limit a1 a2 \<Rightarrow> set_era_unbond_limit o' a1 a2 s
      | LG_set_init_bond a1 a2 a3 a4 \<Rightarrow> set_init_bond (env_config E) o' a1 a2 a3 a4 s
      | LG_set_chain_bonding_duration a1 a2 \<Rightarrow> set_chain_bonding_duration o' a1 a2 s
      | LG_add_sub_accounts_and_threshold a1 a2 a3 a4 \<Rightarrow> add_sub_accounts_and_threshold o' a1 a2 a3 a4 s
      | LG_clear_current_era_snap_shots a1 \<Rightarrow> clear_current_era_snap_shots o' a1 s
      | LG_set_least_bond a1 a2 \<Rightarrow> set_least_bond o' a1 a2 s
      | LG_set_chain_era a1 a2 \<Rightarrow> set_chain_era (env_config E) (env_snapshot_hash E) o' a1 a2 s
      | LG_bond_report a1 a2 \<Rightarrow> bond_report (env_config E) o' a1 a2 s
      | LG_new_bond_report a1 a2 a3 \<Rightarrow> new_bond_report (env_config E) o' a1 a2 a3 s
      | LG_bond_and_report_active a1 a2 a3 a4 a5 \<Rightarrow> bond_and_report_active (env_config E) o' a1 a2 a3 a4 a5 s
      | LG_active_report a1 a2 a3 \<Rightarrow> active_report (env_config E) o' a1 a2 a3 s
      | LG_new_active_report a1 a2 a3 a4 \<Rightarrow> new_active_report (env_config E) o' a1 a2 a3 a4 s
      | LG_withdraw_report a1 a2 \<Rightarrow> withdraw_report (env_config E) o' a1 a2 s
      | LG_transfer_report a1 a2 \<Rightarrow> transfer_report (env_config E) o' a1 a2 s)"

definition series_dispatch ::
    "('c, 'k, 'x) runtime_env \<Rightarrow> origin \<Rightarrow> series_call \<Rightarrow> ('c, 'call, 'k, 'z) rfis_state_scheme
     \<Rightarrow> ('c, 'call, 'k, 'z) rfis_run" where
  "series_dispatch E o' c s =
     (case c of
        SE_toggle_bond_switch \<Rightarrow> toggle_bond_switch o' s
      | SE_toggle_rtoken_bond_switch a1 \<Rightarrow> toggle_rtoken_bond_switch o' a1 s
      | SE_set_relay_fees_receiver a1 \<Rightarrow> set_relay_fees_receiver o' a1 s
      | SE_set_proxy_accounts a1 \<Rightarrow> series_set_proxy_accounts o' a1 s
      | SE_remove_proxy_accounts a1 \<Rightarrow> series_remove_proxy_accounts o' a1 s
      | SE_set_bond_fees a1 a2 \<Rightarrow> set_bond_fees o' a1 a2 s
      | SE_set_unbond_fees a1 a2 \<Rightarrow> set_unbond_fees o' a1 a2 s
      | SE_set_balance_limit a1 a2 \<Rightarrow> set_balance_limit o' a1 a2 s
      | SE_set_unbond_commission a1 \<Rightarrow> set_unbond_commission (env_config E) o' a1 s
      | SE_init_nominations a1 a2 a3 \<Rightarrow> init_nominations o' a1 a2 a3 s
      | SE_update_nominations a1 a2 a3 a4 \<Rightarrow> update_nominations o' a1 a2 a3 a4 s
      | SE_update_validator a1 a2 a3 a4 a5 \<Rightarrow> update_validator o' a1 a2 a3 a4 a5 s
      | SE_swap_refund_expire a1 a2 \<Rightarrow> swap_refund_expire o' a1 a2 s
      | SE_liquidity_bond a1 a2 a3 a4 a5 a6 a7 \<Rightarrow> liquidity_bond (env_config E) (env_crypto E) (env_bond_hash E) o' a1 a2 a3 a4 a5 a6 a7 s
      | SE_liquidity_bond_and_swap a1 a2 a3 a4 a5 a6 a7 a8 a9 \<Rightarrow> liquidity_bond_and_swap (env_config E) (env_crypto E) (env_bond_hash E) o' a1 a2 a3 a4 a5 a6 a7 a8 a9 s
      | SE_execute_bond_record a1 a2 a3 \<Rightarrow> execute_bond_record (env_config E) o' a1 a2 a3 s
      | SE_liquidity_unbond a1 a2 a3 a4 \<Rightarrow> liquidity_unbond (env_config E) (env_crypto E) o' a1 a2 a3 a4 s
      | SE_submit_signatures a1 a2 a3 a4 a5 a6 \<Rightarrow> submit_signatures o' a1 a2 a3 a4 a5 a6 s
      | SE_refund_swap_fee a1 a2 \<Rightarrow> refund_swap_fee (env_config E) o' a1 a2 s)"

definition xclaim_dispatch ::
    "('c, 'k, 'x) runtime_env \<Rightarrow> origin \<Rightarrow> xclaim_call \<Rightarrow> ('c, 'call, 'k, 'z) rfis_state_scheme
     \<Rightarrow> ('c, 'call, 'k, 'z) rfis_run" where
  "xclaim_dispatch E o' c s =
     (case c of
        XC_set_proxy_accounts a1 \<Rightarrow> xclaim_set_proxy_accounts o' a1 s
      | XC_remove_proxy_accounts a1 \<Rightarrow> xclaim_remove_proxy_accounts o' a1 s
      | XC_claim a1 \<Rightarrow> claim (env_config E) o' a1 s
      | XC_mint_claim a1 a2 a3 \<Rightarrow> mint_claim (env_config E) o' a1 a2 a3 s)"

definition rclaim_dispatch ::
    "('c, 'k, 'x) runtime_env \<Rightarrow> origin \<Rightarrow> rclaim_call \<Rightarrow> ('c, 'call, 'k, 'z) rfis_state_scheme
     \<Rightarrow> ('c, 'call, 'k, 'z) rfis_run" where
  "rclaim_dispatch E o' c s =
     (case c of
        RC_set_reth_rewarder a1 \<Rightarrow> set_reth_rewarder o' a1 s
      | RC_set_fund_address a1 \<Rightarrow> set_fund_address o' a1 s
      | RC_add_rtoken_reward_act a1 a2 a3 a4 a5 a6 a7 \<Rightarrow> add_rtoken_reward_act o' a1 a2 a3 a4 a5 a6 a7 s
      | RC_update_rtoken_reward_act a1 a2 a3 a4 a5 a6 a7 a8 \<Rightarrow> update_rtoken_reward_act o' a1 a2 a3 a4 a5 a6 a7 a8 s
      | RC_add_reth_reward_act a1 a2 a3 a4 a5 a6 \<Rightarrow> add_reth_reward_act o' a1 a2 a3 a4 a5 a6 s
      | RC_update_reth_reward_act a1 a2 a3 a4 a5 a6 a7 \<Rightarrow> update_reth_reward_act o' a1 a2 a3 a4 a5 a6 a7 s
      | RC_update_reth_claim_info a1 a2 a3 \<Rightarrow> update_reth_claim_info (env_config E) o' a1 a2 a3 s
      | RC_claim_rtoken_reward a1 a2 a3 \<Rightarrow> claim_rtoken_reward (env_config E) o' a1 a2 a3 s
      | RC_claim_reth_reward a1 a2 a3 a4 \<Rightarrow> claim_reth_reward (env_config E) (env_crypto E) o' a1 a2 a3 a4 s)"

definition rdexn_dispatch ::
    "('c, 'k, 'x) runtime_env \<Rightarrow> origin \<Rightarrow> rdexn_call \<Rightarrow> ('c, 'call, 'k, 'z) rfis_state_scheme
     \<Rightarrow> ('c, 'call, 'k, 'z) rfis_run" where
  "rdexn_dispatch E o' c s =
     (case c of
        RN_swap_rtoken_for_native_token a1 a2 a3 a4 a5 \<Rightarrow> swap_rtoken_for_native_token (env_config E) (env_crypto E) o' a1 a2 a3 a4 a5 s
      | RN_swap_rfis_for_fis_token a1 a2 a3 a4 \<Rightarrow> swap_rfis_for_fis_token (env_config E) o' a1 a2 a3 a4 s
      | RN_report_transfer_result_with_block a1 a2 \<Rightarrow> report_transfer_result_with_block o' a1 a2 s
      | RN_report_transfer_result_with_index a1 a2 a3 \<Rightarrow> report_transfer_result_with_index o' a1 a2 a3 s
      | RN_toggle_swap_total_switch \<Rightarrow> toggle_swap_total_switch o' s
      | RN_toggle_swap_rtoken_switch a1 \<Rightarrow> toggle_swap_rtoken_switch o' a1 s
      | RN_set_fund_address a1 \<Rightarrow> rdexn_set_fund_address o' a1 s
      | RN_set_native_pool_address a1 \<Rightarrow> set_native_pool_address o' a1 s
      | RN_set_native_token_reserve a1 a2 \<Rightarrow> set_native_token_reserve o' a1 a2 s
      | RN_set_swap_fee a1 a2 \<Rightarrow> set_swap_fee o' a1 a2 s
      | RN_set_swap_rate a1 a2 a3 a4 \<Rightarrow> set_swap_rate o' a1 a2 a3 a4 s
      | RN_set_swap_limit_per_block a1 \<Rightarrow> set_swap_limit_per_block o' a1 s
      | RN_set_latest_deal_block a1 a2 \<Rightarrow> set_latest_deal_block o' a1 a2 s)"

definition rdex_dispatch ::
    "('c, 'k, 'x) runtime_env \<Rightarrow> origin \<Rightarrow> rdex_call \<Rightarrow> ('c, 'call, 'k, 'z) rfis_state_scheme
     \<Rightarrow> ('c, 'call, 'k, 'z) rfis_run" where
  "rdex_dispatch E o' c s =
     (case c of
        RX_swap a1 a2 a3 a4 \<Rightarrow> swap (env_config E) o' a1 a2 a3 a4 s
      | RX_add_liquidity a1 a2 a3 \<Rightarrow> add_liquidity (env_config E) o' a1 a2 a3 s
      | RX_remove_liquidity a1 a2 a3 a4 a5 a6 \<Rightarrow> remove_liquidity (env_config E) o' a1 a2 a3 a4 a5 a6 s
      | RX_create_pool a1 a2 a3 a4 \<Rightarrow> create_pool (env_config E) o' a1 a2 a3 a4 s
      | RX_add_lp_to_whitelist a1 a2 \<Rightarrow> add_lp_to_whitelist o' a1 a2 s
      | RX_remove_lp_from_whitelist a1 a2 \<Rightarrow> remove_lp_from_whitelist o' a1 a2 s
      | RX_toggle_lp_switch a1 \<Rightarrow> toggle_lp_switch o' a1 s)"

definition mining_dispatch ::
    "('c, 'k, 'x) runtime_env \<Rightarrow> origin \<Rightarrow> mining_call \<Rightarrow> ('c, 'call, 'k, 'z) rfis_state_scheme
     \<Rightarrow> ('c, 'call, 'k, 'z) rfis_run" where
  "mining_dispatch E o' c s =
     (case c of
        MI_deposit a1 a2 a3 a4 \<Rightarrow> deposit (env_config E) o' a1 a2 a3 a4 s
      | MI_withdraw a1 a2 a3 a4 \<Rightarrow> mining_withdraw (env_config E) o' a1 a2 a3 a4 s
      | MI_claim_reward a1 a2 a3 \<Rightarrow> claim_reward (env_config E) o' a1 a2 a3 s
      | MI_emergency_withdraw a1 a2 a3 \<Rightarrow> emergency_withdraw (env_config E) o' a1 a2 a3 s
      | MI_add_pool a1 a2 a3 a4 a5 a6 a7 \<Rightarrow> add_pool o' a1 a2 a3 a4 a5 a6 a7 s
      | MI_update_stake_pool a1 a2 a3 a4 a5 \<Rightarrow> update_stake_pool o' a1 a2 a3 a4 a5 s
      | MI_rm_pool a1 a2 a3 \<Rightarrow> rm_pool o' a1 a2 a3 s
      | MI_increase_pool_index a1 \<Rightarrow> increase_pool_index o' a1 s
      | MI_emergency_switch a1 a2 a3 \<Rightarrow> emergency_switch o' a1 a2 a3 s
      | MI_withdraw_guard_fund a1 a2 a3 \<Rightarrow> withdraw_guard_fund (env_config E) o' a1 a2 a3 s
      | MI_set_guard_line a1 a2 a3 \<Rightarrow> set_guard_line o' a1 a2 a3 s
      | MI_set_guard_reserve a1 a2 \<Rightarrow> set_guard_reserve o' a1 a2 s
      | MI_add_lp_to_whitelist a1 a2 \<Rightarrow> mining_add_lp_to_whitelist o' a1 a2 s
      | MI_remove_lp_from_whitelist a1 a2 \<Rightarrow> mining_remove_lp_from_whitelist o' a1 a2 s
      | MI_toggle_lp_switch a1 \<Rightarrow> mining_toggle_lp_switch o' a1 s)"

section \<open>Dispatch in the runtime\<close>

datatype (plugins only: code) 'x runtime_call =
    SubstrateCall 'x
  | SubstrateCarrier 'x "'x runtime_call list"
  | XBalances_transfer bytes XSymbol u128
  | RBalances_transfer bytes RSymbol u128
  | RFisCall rfis_call
  | BridgeRelayersCall relayers_call
  | BridgeCommonCall bridge_call
  | BridgeCommon_acknowledge_proposal DepositNonce ChainId ResourceId "'x runtime_call"
  | BridgeSwapCall bridge_swap_call
  | RTokenRelayersCall rrelayers_call
  | RTokenVotes_acknowledge_proposal RSymbol Hash bool "'x runtime_call"
  | RTokenLedgerCall ledger_call
  | RTokenSeriesCall series_call
  | XClaimCall xclaim_call
  | RClaimCall rclaim_call
  | RDexnPayersCall payers_call
  | RDexnSignatures_submit_signatures RSymbol u64 bytes bytes
  | RDexnSwapCall rdexn_call
  | RDexSwapCall rdex_call
  | LpBalances_transfer bytes RSymbol u128
  | RDexMiningCall mining_call

definition in_substrate ::
    "('k \<times> 'c \<times> event list \<Rightarrow> (dispatch_error, 'a, 'k \<times> 'c \<times> event list) run) \<Rightarrow> ('c, 'call, 'k, 'z) rfis_state_scheme
     \<Rightarrow> (dispatch_error, 'a, ('c, 'call, 'k, 'z) rfis_state_scheme) run" where
  "in_substrate f s =
     (case f (staking s, native s, events s) of (r, k, n, es) \<Rightarrow> (r, s\<lparr>staking := k, native := n, events := es\<rparr>))"

fun run_carried :: "(origin \<Rightarrow> 's \<Rightarrow> (dispatch_error, unit, 's) run) list \<Rightarrow> origin \<Rightarrow> 's \<Rightarrow> (dispatch_error, unit, 's) run" where
  "run_carried [] o' s = (Ok (), s)"
| "run_carried (f # fs) o' s = and_then (f o' s) (\<lambda>_ t. run_carried fs o' t)"

definition carrier_dispatch ::
    "('c, 'k, 'x) runtime_env \<Rightarrow> 'x \<Rightarrow> (origin \<Rightarrow> ('c, 'call, 'k, 'z) rfis_state_scheme \<Rightarrow> ('c, 'call, 'k, 'z) rfis_run) list \<Rightarrow> origin
     \<Rightarrow> ('c, 'call, 'k, 'z) rfis_state_scheme \<Rightarrow> ('c, 'call, 'k, 'z) rfis_run" where
  "carrier_dispatch E x runs o' s =
     and_then (in_substrate (env_carrier_begin E x o') s) (\<lambda>o'' s1.
       case run_carried runs o'' s1 of
         (Ok _, s2) \<Rightarrow> in_substrate (env_carrier_end E x None) s2
       | (Err e, s2) \<Rightarrow> in_substrate (env_carrier_end E x (Some e)) s2
       | (Panic, s2) \<Rightarrow> (Panic, s2))"

text \<open>
  A proposal is dispatched as itself: the pallets call the dispatch they are given on the proposed call only, so the recursion is
  structural.
\<close>

primrec runtime_dispatch ::
    "('c, 'k, 'x) runtime_env \<Rightarrow> 'x runtime_call \<Rightarrow> origin \<Rightarrow> ('c, 'x runtime_call, 'k, 'z) rfis_state_scheme
     \<Rightarrow> ('c, 'x runtime_call, 'k, 'z) rfis_run" where
  "runtime_dispatch E (SubstrateCall x) o' s = in_substrate (env_substrate E x o') s"
| "runtime_dispatch E (SubstrateCarrier x calls) o' s = carrier_dispatch E x (map (runtime_dispatch E) calls) o' s"
| "runtime_dispatch E (XBalances_transfer dest y v) o' s = xbal_call_transfer (env_config E) o' dest y v s"
| "runtime_dispatch E (RBalances_transfer dest y v) o' s = rbal_call_transfer (env_config E) o' dest y v s"
| "runtime_dispatch E (RFisCall c) o' s = rfis_dispatch (env_config E) (env_staking E) o' c s"
| "runtime_dispatch E (BridgeRelayersCall c) o' s = relayers_dispatch E o' c s"
| "runtime_dispatch E (BridgeCommonCall c) o' s = bridge_dispatch E o' c s"
| "runtime_dispatch E (BridgeCommon_acknowledge_proposal nonce src_id r_id call) o' s =
     acknowledge_proposal (env_config E) (\<lambda>_. runtime_dispatch E call) o' nonce src_id r_id call s"
| "runtime_dispatch E (BridgeSwapCall c) o' s = bridge_swap_dispatch E o' c s"
| "runtime_dispatch E (RTokenRelayersCall c) o' s = rrelayers_dispatch E o' c s"
| "runtime_dispatch E (RTokenVotes_acknowledge_proposal symbol prop_id in_favour call) o' s =
     racknowledge_proposal (env_config E) (\<lambda>_. runtime_dispatch E call) o' symbol prop_id in_favour call s"
| "runtime_dispatch E (RTokenLedgerCall c) o' s = ledger_dispatch E o' c s"
| "runtime_dispatch E (RTokenSeriesCall c) o' s = series_dispatch E o' c s"
| "runtime_dispatch E (XClaimCall c) o' s = xclaim_dispatch E o' c s"
| "runtime_dispatch E (RClaimCall c) o' s = rclaim_dispatch E o' c s"
| "runtime_dispatch E (RDexnPayersCall c) o' s = payers_dispatch E o' c s"
| "runtime_dispatch E (RDexnSignatures_submit_signatures y block_number' proposal signature) o' s =
     rdexn_submit_signatures o' y block_number' proposal signature s"
| "runtime_dispatch E (RDexnSwapCall c) o' s = rdexn_dispatch E o' c s"
| "runtime_dispatch E (RDexSwapCall c) o' s = rdex_dispatch E o' c s"
| "runtime_dispatch E (LpBalances_transfer dest y v) o' s = lp_call_transfer (env_config E) o' dest y v s"
| "runtime_dispatch E (RDexMiningCall c) o' s = mining_dispatch E o' c s"

end
