(* ===== verification/Runtime_Invariants.thy ===== *)
theory Runtime_Invariants
  imports Runtime_Calls RFis_Types
begin

text \<open>
  What every call of the runtime leaves intact, whichever pallet it belongs to and whatever calls it dispatches in turn.
\<close>

section \<open>Histories of the token pallets\<close>

definition token_reach :: "'sym token_store \<Rightarrow> 'sym token_store \<Rightarrow> bool" where
  "token_reach st st' \<longleftrightarrow> (\<exists>cs. st' = token_history cs st)"

text \<open>
  A quiet step moves the tokens by their own operations and leaves the proposals alone, and if it is
  strict also the states of the transfers credited by \<open>rtoken/series\<close>.
\<close>

definition quiet :: "bool \<Rightarrow> ('c, 'call, 'z) series_state_scheme \<Rightarrow> ('c, 'call, 'z) series_state_scheme \<Rightarrow> bool" where
  "quiet strict s t \<longleftrightarrow> token_reach (rbalances s) (rbalances t) \<and> token_reach (xbalances s) (xbalances t)
     \<and> token_reach (lpbalances s) (lpbalances t)
     \<and> BridgeVotes (bridge t) = BridgeVotes (bridge s) \<and> votes t = votes s
     \<and> (strict \<longrightarrow> BondStates (series t) = BondStates (series s))"

lemma token_history_append: "token_history (xs @ ys) st = token_history ys (token_history xs st)"
  by (induction xs arbitrary: st) simp_all

lemma token_reach_refl [simp]: "token_reach st st"
  unfolding token_reach_def by (rule exI [of _ "[]"]) simp

lemma token_reach_trans: "token_reach a b \<Longrightarrow> token_reach b c \<Longrightarrow> token_reach a c"
  unfolding token_reach_def by (metis token_history_append)

lemma token_reach_exec: "token_reach a b \<Longrightarrow> token_reach a (snd (token_exec c b))"
  by (rule token_reach_trans) (auto simp: token_reach_def intro: exI [of _ "[c]"])

lemma quiet_refl [simp]: "quiet strict s s"
  by (simp add: quiet_def)

lemma quiet_trans: "quiet strict s t \<Longrightarrow> quiet strict t u \<Longrightarrow> quiet strict s u"
  unfolding quiet_def by (auto intro: token_reach_trans)

lemma token_lift_store: "rbalances (snd (rbal_lift m s)) = snd (m (rbalances s))"
  "xbalances (snd (xbal_lift m' s)) = snd (m' (xbalances s))" "lpbalances (snd (lp_lift m'' s)) = snd (m'' (lpbalances s))"
  by (auto simp: rbal_lift_def xbal_lift_def lp_lift_def token_lift_def split: prod.splits outcome.splits)

named_theorems quiet_op

lemma rbal_quiet [quiet_op]:
  assumes "quiet strict s0 s"
  shows "keeps (quiet strict s0) (rbal_transfer a b y v s)" "keeps (quiet strict s0) (rbal_mint a y v s)" "keeps (quiet strict s0) (rbal_burn a y v s)"
proof -
  have "keeps (quiet strict s0) (rbal_lift m s)" if "token_reach (rbalances s) (snd (m (rbalances s)))" for m
  proof -
    obtain st evs where e: "snd (rbal_lift m s) = s\<lparr>rbalances := st, events := evs\<rparr>" using rbal_lift_state by blast
    with token_lift_store(1) [of m s] have "st = snd (m (rbalances s))" by simp
    with e that assms show ?thesis by (auto simp: keeps_def quiet_def intro: token_reach_trans)
  qed
  from this [of "token_transfer a b y v"] this [of "token_mint a y v"] this [of "token_burn a y v"]
  show "keeps (quiet strict s0) (rbal_transfer a b y v s)" "keeps (quiet strict s0) (rbal_mint a y v s)" "keeps (quiet strict s0) (rbal_burn a y v s)"
    using token_reach_exec [OF token_reach_refl, of "rbalances s" "OpTransfer a b y v"] token_reach_exec [OF token_reach_refl, of "rbalances s" "OpMint a y v"]
      token_reach_exec [OF token_reach_refl, of "rbalances s" "OpBurn a y v"]
    by (simp_all add: rbal_ops)
qed

lemma xbal_quiet [quiet_op]:
  assumes "quiet strict s0 s"
  shows "keeps (quiet strict s0) (xbal_transfer a b y v s)" "keeps (quiet strict s0) (xbal_mint a y v s)" "keeps (quiet strict s0) (xbal_burn a y v s)"
proof -
  have "keeps (quiet strict s0) (xbal_lift m s)" if "token_reach (xbalances s) (snd (m (xbalances s)))" for m
  proof -
    obtain st evs where e: "snd (xbal_lift m s) = s\<lparr>xbalances := st, events := evs\<rparr>" using xbal_lift_state by blast
    with token_lift_store(2) [of m s] have "st = snd (m (xbalances s))" by simp
    with e that assms show ?thesis by (auto simp: keeps_def quiet_def intro: token_reach_trans)
  qed
  from this [of "token_transfer a b y v"] this [of "token_mint a y v"] this [of "token_burn a y v"]
  show "keeps (quiet strict s0) (xbal_transfer a b y v s)" "keeps (quiet strict s0) (xbal_mint a y v s)" "keeps (quiet strict s0) (xbal_burn a y v s)"
    using token_reach_exec [OF token_reach_refl, of "xbalances s" "OpTransfer a b y v"] token_reach_exec [OF token_reach_refl, of "xbalances s" "OpMint a y v"]
      token_reach_exec [OF token_reach_refl, of "xbalances s" "OpBurn a y v"]
    by (simp_all add: xbal_ops)
qed

lemma lp_quiet [quiet_op]:
  assumes "quiet strict s0 s"
  shows "keeps (quiet strict s0) (lp_transfer a b y v s)" "keeps (quiet strict s0) (lp_mint a y v s)" "keeps (quiet strict s0) (lp_burn a y v s)"
proof -
  have "keeps (quiet strict s0) (lp_lift m s)" if "token_reach (lpbalances s) (snd (m (lpbalances s)))" for m
  proof -
    obtain st evs where e: "snd (lp_lift m s) = s\<lparr>lpbalances := st, events := evs\<rparr>" using lp_lift_state by blast
    with token_lift_store(3) [of m s] have "st = snd (m (lpbalances s))" by simp
    with e that assms show ?thesis by (auto simp: keeps_def quiet_def intro: token_reach_trans)
  qed
  from this [of "token_transfer a b y v"] this [of "token_mint a y v"] this [of "token_burn a y v"]
  show "keeps (quiet strict s0) (lp_transfer a b y v s)" "keeps (quiet strict s0) (lp_mint a y v s)" "keeps (quiet strict s0) (lp_burn a y v s)"
    using token_reach_exec [OF token_reach_refl, of "lpbalances s" "OpTransfer a b y v"] token_reach_exec [OF token_reach_refl, of "lpbalances s" "OpMint a y v"]
      token_reach_exec [OF token_reach_refl, of "lpbalances s" "OpBurn a y v"]
    by (simp_all add: lp_ops)
qed

lemma native_quiet [quiet_op]: "quiet strict s0 s \<Longrightarrow> keeps (quiet strict s0) (native_transfer X a b v s)"
  by (auto simp: keeps_def quiet_def native_transfer_def split: prod.splits)

lemma quiet_deposit [simp]: "quiet strict s0 (deposit_event e s) \<longleftrightarrow> quiet strict s0 s"
  by (simp add: quiet_def deposit_event_def)

lemma registry_quiet [quiet_op]:
  assumes "quiet strict s0 s"
  shows "keeps (quiet strict s0) (brelayers_lift m s)" "keeps (quiet strict s0) (rrelayers_lift m' s)" "keeps (quiet strict s0) (payers_lift m' s)"
  using assms by (auto simp: keeps_def quiet_def reg_lift_def deposit_event_def split: prod.splits outcome.splits option.splits)

lemma fungible_quiet [quiet_op]: "quiet strict s0 s \<Longrightarrow> keeps (quiet strict s0) (transfer_fungible a d r b v s)"
  by (auto simp: keeps_def quiet_def transfer_fungible_def bump_nonce_def Let_def ensure_def deposit_event_def)

lemma quiet_update [simp]:
  "quiet strict v0 (block_number_update f1 t0) \<longleftrightarrow> quiet strict v0 t0" "quiet strict v1 (events_update f2 t1) \<longleftrightarrow> quiet strict v1 t1"
  "quiet strict v2 (native_update f3 t2) \<longleftrightarrow> quiet strict v2 t2" "quiet strict v3 (rates_update f4 t3) \<longleftrightarrow> quiet strict v3 t3"
  "quiet strict v4 (ledger_update f5 t4) \<longleftrightarrow> quiet strict v4 t4"
  by (simp_all add: quiet_def)

lemma quiet_update_bridge [simp]:
  "BridgeVotes (f (bridge s)) = BridgeVotes (bridge s) \<Longrightarrow> quiet strict s0 (bridge_update f s) \<longleftrightarrow> quiet strict s0 s"
  by (simp add: quiet_def)

lemma quiet_update_ext [simp]:
  "quiet strict v1 (rclaim_update f2 t1) \<longleftrightarrow> quiet strict v1 t1"
  "quiet strict v2 (rdex_update f3 t2) \<longleftrightarrow> quiet strict v2 t2" "quiet strict v3 (mining_update f4 t3) \<longleftrightarrow> quiet strict v3 t3"
  "quiet strict v4 (xclaim_update f5 t4) \<longleftrightarrow> quiet strict v4 t4" "quiet strict v5 (rdexn_update f6 t5) \<longleftrightarrow> quiet strict v5 t5"
  "quiet strict v6 (rdexn_sigs_update f7 t6) \<longleftrightarrow> quiet strict v6 t6" "quiet strict v7 (rfis_update f8 t7) \<longleftrightarrow> quiet strict v7 t7"
  "quiet strict v8 (staking_update f9 t8) \<longleftrightarrow> quiet strict v8 t8"
  by (simp_all add: quiet_def)

lemma quiet_update_series [simp]:
  "(strict \<longrightarrow> BondStates (f (series s)) = BondStates (series s)) \<Longrightarrow> quiet strict s0 (series_update f s) \<longleftrightarrow> quiet strict s0 s"
  by (simp add: quiet_def)

lemma quiet_put [simp]:
  "quiet strict v0 (put_snapshot y k snap t0) \<longleftrightarrow> quiet strict v0 t0" "quiet strict v1 (put_pipeline y pool pipe t1) \<longleftrightarrow> quiet strict v1 t1"
  "quiet strict v2 (put_pools yk v t2) \<longleftrightarrow> quiet strict v2 t2" "quiet strict v3 (put_stake yw u w t3) \<longleftrightarrow> quiet strict v3 t3"
  "quiet strict v4 (put_swap_pool y sp t4) \<longleftrightarrow> quiet strict v4 t4" "quiet False v5 (book_bond who b rec n1 n2 t5) \<longleftrightarrow> quiet False v5 t5"
  "quiet strict v6 (set_era_rate y e r t6) \<longleftrightarrow> quiet strict v6 t6"
  by (cases yw; simp add: put_snapshot_def put_pipeline_def put_pools_def put_stake_def put_swap_pool_def
      book_bond_def set_era_rate_def)+

lemma quiet_set_rate [simp]: "quiet strict s0 (snd (set_rate X y a b s)) \<longleftrightarrow> quiet strict s0 s"
  by (simp add: set_rate_def Let_def)

lemma quiet_set_rate_case [simp]:
  "quiet strict s0 (case set_rate X y a b s of (r, t) \<Rightarrow> set_era_rate y' e r t) \<longleftrightarrow> quiet strict s0 s"
  using quiet_set_rate [of strict s0 X y a b s] by (cases "set_rate X y a b s") (simp)

lemma quiet_if [simp]: "quiet strict s0 s \<Longrightarrow> quiet strict s0 t \<Longrightarrow> quiet strict s0 (if b then s else t)"
  by simp

lemma quiet_record_active [simp]: "quiet strict s0 s \<Longrightarrow> quiet strict s0 (record_active X y k snap pipe a es ce s)"
  by (simp add: record_active_def Let_def)

lemma quiet_snapshot_pools [simp]: "quiet strict s0 s \<Longrightarrow> quiet strict s0 (snd (snapshot_pools h y e w pools es s))"
  by (induction pools arbitrary: es s) (simp_all add: snapshot_pools.simps Let_def)

lemma quiet_act_cycle [simp]:
  "quiet strict s0 s \<Longrightarrow> quiet strict s0 (update_act_current_cycle now y s)" "quiet strict s0 s \<Longrightarrow> quiet strict s0 (update_reth_act_current_cycle now s)"
  by (simp_all add: update_act_current_cycle_def update_reth_act_current_cycle_def Let_def split: option.split)

lemma quiet_claim_info [simp]: "quiet strict s0 s \<Longrightarrow> quiet strict s0 (update_claim_info X w y m v s)"
  by (simp add: update_claim_info_def Let_def split: option.split)

lemma settle_active_quiet [quiet_op]: "quiet strict s0 s \<Longrightarrow> keeps (quiet strict s0) (settle_active X y k snap pipe a s)"
  unfolding settle_active_def Let_def
  by (intro run_keeps quiet_op; simp)

lemma whitelist_quiet [quiet_op]: "quiet strict s0 s \<Longrightarrow> keeps (quiet strict s0) (whitelist X i s)"
  unfolding whitelist_def by (intro run_keeps; simp)

lemma ensure_act_quiet [quiet_op]: "quiet strict s0 s \<Longrightarrow> keeps (quiet strict s0) k \<Longrightarrow> keeps (quiet strict s0) (ensure_act b e t l lk r s k)"
  unfolding ensure_act_def by (intro run_keeps; assumption)

lemma check_reth_mints_quiet [quiet_op]: "quiet strict s0 s \<Longrightarrow> keeps (quiet strict s0) (check_reth_mints ms s)"
  by (induction ms s rule: check_reth_mints.induct) (auto intro!: run_keeps)

lemma update_pool_quiet [quiet_op]: "quiet strict s0 s \<Longrightarrow> keeps (quiet strict s0) (update_pool y i g s)"
  unfolding update_pool_def by (intro run_keeps; assumption)

lemma prod_keeps [run_keeps]: "(\<And>a b. x = (a, b) \<Longrightarrow> keeps P (f a b)) \<Longrightarrow> keeps P (case x of (a, b) \<Rightarrow> f a b)"
  by (cases x) simp

lemma prod_keeps_app [run_keeps]:
  "(\<And>a b. x = (a, b) \<Longrightarrow> keeps P (f a b t)) \<Longrightarrow> keeps P ((case x of (a, b) \<Rightarrow> f a b) t)"
  by (cases x) simp

lemma remove_amounts_quiet [quiet_op]: "quiet strict s0 s \<Longrightarrow> keeps (quiet strict s0) (remove_amounts p r w fi s)"
  unfolding remove_amounts_def Let_def by (intro run_keeps; assumption)

section \<open>Quiet pallets\<close>

text \<open>The calls that write the state of a transfer of another chain.\<close>

fun is_bond_call :: "series_call \<Rightarrow> bool" where
  "is_bond_call (SE_liquidity_bond a1 a2 a3 a4 a5 a6 a7) = True"
| "is_bond_call (SE_liquidity_bond_and_swap a1 a2 a3 a4 a5 a6 a7 a8 a9) = True"
| "is_bond_call (SE_execute_bond_record a1 a2 a3) = True"
| "is_bond_call c = False"

text \<open>
  No dispatchable of these pallets touches the proposals, and the token stores move by their own operations only, whichever
  branch it takes and also when it fails.
\<close>

lemma relayers_dispatch_quiet: "quiet strict s0 s \<Longrightarrow> keeps (quiet strict s0) (relayers_dispatch E o' c s)"
  unfolding relayers_dispatch_def relayers_call.case brelayers_set_threshold_def brelayers_add_relayer_def
      brelayers_remove_relayer_def Let_def
  by (cases c; simp only: relayers_call.case; intro run_keeps quiet_op; simp)

lemma rrelayers_dispatch_quiet: "quiet strict s0 s \<Longrightarrow> keeps (quiet strict s0) (rrelayers_dispatch E o' c s)"
  unfolding rrelayers_dispatch_def rrelayers_call.case rrelayers_set_threshold_def rrelayers_add_relayer_def
      rrelayers_remove_relayer_def Let_def
  by (cases c; simp only: rrelayers_call.case; intro run_keeps quiet_op; simp)

lemma payers_dispatch_quiet: "quiet strict s0 s \<Longrightarrow> keeps (quiet strict s0) (payers_dispatch E o' c s)"
  unfolding payers_dispatch_def payers_call.case payers_set_threshold_def payers_add_payer_def payers_remove_payer_def
      Let_def
  by (cases c; simp only: payers_call.case; intro run_keeps quiet_op; simp)

lemma bridge_dispatch_quiet: "quiet strict s0 s \<Longrightarrow> keeps (quiet strict s0) (bridge_dispatch E o' c s)"
  unfolding bridge_dispatch_def bridge_call.case bridge_set_threshold_def add_resource_def remove_resource_def
      bridge_add_relayer_def bridge_remove_relayer_def map_resource_and_rsymbol_def unmap_resource_and_rsymbol_def
      map_resource_and_xsymbol_def unmap_resource_and_xsymbol_def whitelist_chain_def remove_whitelist_chain_def
      set_proxy_accounts_def remove_proxy_accounts_def set_chain_fees_def set_fees_recipient_account_def
      set_is_pasued_def Let_def
  by (cases c; simp only: bridge_call.case; intro run_keeps quiet_op; simp)

lemma bridge_swap_dispatch_quiet: "quiet strict s0 s \<Longrightarrow> keeps (quiet strict s0) (bridge_swap_dispatch E o' c s)"
  unfolding bridge_swap_dispatch_def bridge_swap_call.case transfer_native_def transfer_native_back_def
      transfer_rtoken_def transfer_rtoken_back_def transfer_xtoken_def transfer_xtoken_back_def Let_def
  by (cases c; simp only: bridge_swap_call.case; intro run_keeps quiet_op; simp)

lemma set_chain_era_quiet [quiet_op]: "quiet strict s0 s \<Longrightarrow> keeps (quiet strict s0) (set_chain_era X x1 o' x3 x4 s)"
  unfolding set_chain_era_def Let_def
  by (intro run_keeps; (assumption | (simp; metis quiet_snapshot_pools snd_conv)))

lemma ledger_dispatch_quiet: "quiet strict s0 s \<Longrightarrow> keeps (quiet strict s0) (ledger_dispatch E o' c s)"
  unfolding ledger_dispatch_def ledger_call.case set_commission_def add_new_pool_def remove_pool_def set_receiver_def
      set_era_unbond_limit_def set_init_bond_def set_chain_bonding_duration_def add_sub_accounts_and_threshold_def
      clear_current_era_snap_shots_def set_least_bond_def bond_report_def new_bond_report_def bond_and_report_active_def
      active_report_def new_active_report_def withdraw_report_def transfer_report_def Let_def
  by (cases c; simp only: ledger_call.case; intro run_keeps quiet_op; simp)

lemma series_dispatch_quiet: "quiet False s0 s \<Longrightarrow> keeps (quiet False s0) (series_dispatch E o' c s)"
  unfolding series_dispatch_def series_call.case toggle_bond_switch_def toggle_rtoken_bond_switch_def
      set_relay_fees_receiver_def series_set_proxy_accounts_def series_remove_proxy_accounts_def set_bond_fees_def
      set_unbond_fees_def set_balance_limit_def set_unbond_commission_def init_nominations_def update_nominations_def
      update_validator_def swap_refund_expire_def liquidity_bond_def liquidity_bond_and_swap_def execute_bond_record_def
      liquidity_unbond_def submit_signatures_def refund_swap_fee_def Let_def
  by (cases c; simp only: series_call.case; intro run_keeps quiet_op; simp)

lemma series_settings_quiet:
  assumes "quiet strict s0 s" "\<not> is_bond_call c"
  shows "keeps (quiet strict s0) (series_dispatch E o' c s)"
  using assms
  unfolding series_dispatch_def series_call.case toggle_bond_switch_def toggle_rtoken_bond_switch_def
      set_relay_fees_receiver_def series_set_proxy_accounts_def series_remove_proxy_accounts_def set_bond_fees_def
      set_unbond_fees_def set_balance_limit_def set_unbond_commission_def init_nominations_def update_nominations_def
      update_validator_def swap_refund_expire_def liquidity_unbond_def submit_signatures_def refund_swap_fee_def Let_def
  by (cases c; simp only: series_call.case is_bond_call.simps not_True_eq_False; intro run_keeps quiet_op; simp)

lemma xclaim_dispatch_quiet: "quiet strict s0 s \<Longrightarrow> keeps (quiet strict s0) (xclaim_dispatch E o' c s)"
  unfolding xclaim_dispatch_def xclaim_call.case xclaim_set_proxy_accounts_def xclaim_remove_proxy_accounts_def
      claim_def mint_claim_def Let_def
  by (cases c; simp only: xclaim_call.case; intro run_keeps quiet_op; simp)

lemma rclaim_dispatch_quiet: "quiet strict s0 s \<Longrightarrow> keeps (quiet strict s0) (rclaim_dispatch E o' c s)"
  unfolding rclaim_dispatch_def rclaim_call.case set_reth_rewarder_def set_fund_address_def add_rtoken_reward_act_def
      update_rtoken_reward_act_def add_reth_reward_act_def update_reth_reward_act_def update_reth_claim_info_def
      claim_rtoken_reward_def claim_reth_reward_def Let_def
  by (cases c; simp only: rclaim_call.case; intro run_keeps quiet_op; simp)

lemma rdexn_dispatch_quiet: "quiet strict s0 s \<Longrightarrow> keeps (quiet strict s0) (rdexn_dispatch E o' c s)"
  unfolding rdexn_dispatch_def rdexn_call.case swap_rtoken_for_native_token_def swap_rfis_for_fis_token_def
      report_transfer_result_with_block_def report_transfer_result_with_index_def toggle_swap_total_switch_def
      toggle_swap_rtoken_switch_def rdexn_set_fund_address_def set_native_pool_address_def set_native_token_reserve_def
      set_swap_fee_def set_swap_rate_def set_swap_limit_per_block_def set_latest_deal_block_def Let_def
  by (cases c; simp only: rdexn_call.case; intro run_keeps quiet_op; simp)

lemma remove_liquidity_quiet [quiet_op]: "quiet strict s0 s \<Longrightarrow> keeps (quiet strict s0) (remove_liquidity X o' x2 x3 x4 x5 x6 x7 s)"
  unfolding remove_liquidity_def Let_def
  by (intro run_keeps quiet_op; simp)

lemma rdex_dispatch_quiet: "quiet strict s0 s \<Longrightarrow> keeps (quiet strict s0) (rdex_dispatch E o' c s)"
  unfolding rdex_dispatch_def rdex_call.case swap_def add_liquidity_def create_pool_def add_lp_to_whitelist_def
      remove_lp_from_whitelist_def toggle_lp_switch_def Let_def
  by (cases c; simp only: rdex_call.case; intro run_keeps quiet_op; simp)

lemma mining_dispatch_quiet: "quiet strict s0 s \<Longrightarrow> keeps (quiet strict s0) (mining_dispatch E o' c s)"
  unfolding mining_dispatch_def mining_call.case deposit_def mining_withdraw_def claim_reward_def emergency_withdraw_def
      add_pool_def update_stake_pool_def rm_pool_def increase_pool_index_def emergency_switch_def
      withdraw_guard_fund_def set_guard_line_def set_guard_reserve_def mining_add_lp_to_whitelist_def
      mining_remove_lp_from_whitelist_def mining_toggle_lp_switch_def Let_def
  by (cases c; simp only: mining_call.case; intro run_keeps quiet_op; simp)

lemma quiet_staking [simp]:
  "quiet strict s0 (on_staking f s) \<longleftrightarrow> quiet strict s0 s" "quiet strict s0 (bond_extra X K p l v s) \<longleftrightarrow> quiet strict s0 s"
  "quiet strict s0 (rfis_update_nominations K e ts p s) \<longleftrightarrow> quiet strict s0 s"
  by (simp_all add: on_staking_def bond_extra_def rfis_update_nominations_def Let_def split: prod.split option.split)

lemma rfis_bondable_quiet [quiet_op]:
  "quiet strict s0 s \<Longrightarrow> (\<And>c l. keeps (quiet strict s0) (k c l)) \<Longrightarrow> keeps (quiet strict s0) (rfis_bondable X K pool v s k)"
  unfolding rfis_bondable_def by (intro run_keeps)

lemma rfis_dispatch_quiet: "quiet strict s0 s \<Longrightarrow> keeps (quiet strict s0) (rfis_dispatch X K o' c s)"
  by (cases c; simp only: rfis_dispatch.simps; unfold submit_unlocks_def submit_total_bonded_before_def submit_paidouts_def submit_total_bonded_after_def
      submit_nomination_def rfis_add_new_pool_def bond_for_pool_def toggle_nominate_switch_def
      set_min_nomination_num_def set_max_nomination_num_def rfis_set_commission_def set_max_validator_commission_def
      rfis_set_balance_limit_def rfis_set_receiver_def rfis_set_unbond_commission_def add_pool_unlock_def
      onboard_def offboard_def rfis_liquidity_bond_def rfis_liquidity_bond_and_swap_def rfis_liquidity_unbond_def
      rfis_liquidity_withdraw_unbond_def Let_def; intro run_keeps quiet_op; simp)

lemma token_calls_quiet:
  assumes "quiet strict s0 s"
  shows "keeps (quiet strict s0) (rbal_call_transfer X o' d y v s)" "keeps (quiet strict s0) (xbal_call_transfer X o' d z v s)"
    "keeps (quiet strict s0) (lp_call_transfer X o' d y v s)"
  using assms unfolding rbal_call_transfer_def xbal_call_transfer_def lp_call_transfer_def
  by (intro run_keeps quiet_op; assumption)+

lemma rdexn_signatures_quiet: "quiet strict s0 s \<Longrightarrow> keeps (quiet strict s0) (rdexn_submit_signatures o' y b p sig s)"
  unfolding rdexn_submit_signatures_def Let_def by (intro run_keeps; simp)

lemma substrate_quiet: "quiet strict s0 s \<Longrightarrow> keeps (quiet strict s0) (in_substrate f s)"
  by (simp add: in_substrate_def keeps_def split: prod.split)

lemma rfis_finalize_quiet: "quiet strict s0 s \<Longrightarrow> quiet strict s0 (rfis_on_finalize X K s)"
  using rbal_quiet(2) [of strict s0 s]
  by (auto simp: rfis_on_finalize_def keeps_def Let_def split: option.split)

lemmas dispatch_quiet = relayers_dispatch_quiet rrelayers_dispatch_quiet payers_dispatch_quiet bridge_dispatch_quiet
  bridge_swap_dispatch_quiet ledger_dispatch_quiet xclaim_dispatch_quiet rclaim_dispatch_quiet
  rdexn_dispatch_quiet rdex_dispatch_quiet mining_dispatch_quiet rfis_dispatch_quiet token_calls_quiet
  rdexn_signatures_quiet substrate_quiet

section \<open>The dispatch of a proposal\<close>

text \<open>
  An acknowledgement calls the dispatch it is given on the proposed call only, so in the runtime it is the dispatch of every
  call.
\<close>

lemma acknowledge_dispatch:
  "acknowledge_proposal X (\<lambda>_. run call) o' n c r call s = acknowledge_proposal X run o' n c r call s"
  "racknowledge_proposal X (\<lambda>_. run' call) o' y i f call t = racknowledge_proposal X run' o' y i f call t"
  by (simp_all add: acknowledge_proposal_def try_resolve_proposal_def racknowledge_proposal_def rtry_resolve_proposal_def)

lemma runtime_acknowledge:
  "runtime_dispatch E (BridgeCommon_acknowledge_proposal n c r call) o' s =
     acknowledge_proposal (env_config E) (runtime_dispatch E) o' n c r call s"
  "runtime_dispatch E (RTokenVotes_acknowledge_proposal y i f call) o' s =
     racknowledge_proposal (env_config E) (runtime_dispatch E) o' y i f call s"
  by (simp_all add: acknowledge_dispatch [of _ "runtime_dispatch E"])

section \<open>Histories of the runtime\<close>

text \<open>
  A history executes calls from any origin, successful or not, ends blocks, and lets the pallets of Substrate and the executive
  change what is theirs: the block number, the events, the native currency and the staking state.
\<close>

inductive runtime_run :: "('c, 'k, 'x) runtime_env \<Rightarrow> ('c, 'x runtime_call, 'k, 'z) rfis_state_scheme
    \<Rightarrow> ('c, 'x runtime_call, 'k, 'z) rfis_state_scheme \<Rightarrow> bool" for E where
  start: "runtime_run E s s"
| call: "runtime_run E s t \<Longrightarrow> runtime_run E s (snd (runtime_dispatch E c o' t))"
| finalize: "runtime_run E s t \<Longrightarrow> runtime_run E s (rfis_on_finalize (env_config E) (env_staking E) t)"
| outside: "runtime_run E s t \<Longrightarrow> runtime_run E s (t\<lparr>block_number := n, events := es, native := c, staking := k\<rparr>)"

text \<open>
  What relates the state before a call to the state after it, for all calls: a preorder that contains the quiet steps and that
  both acknowledgements respect as soon as the call they dispatch does.
\<close>

locale runtime_relation =
  fixes E :: "('c, 'k, 'x) runtime_env"
    and R :: "('c, 'x runtime_call, 'k, 'z) rfis_state_scheme \<Rightarrow> ('c, 'x runtime_call, 'k, 'z) rfis_state_scheme \<Rightarrow> bool"
  assumes trans: "R s t \<Longrightarrow> R t u \<Longrightarrow> R s u"
    and quiet: "quiet True s t \<Longrightarrow> R s t"
    and series: "R s (snd (series_dispatch E o'' sc s))"
    and acknowledge: "(\<And>o' u. R u (snd (run o' u))) \<Longrightarrow> R s (snd (acknowledge_proposal (env_config E) (\<lambda>_. run) o'' n c r call s))"
    and racknowledge: "(\<And>o' u. R u (snd (run o' u))) \<Longrightarrow> R s (snd (racknowledge_proposal (env_config E) (\<lambda>_. run) o'' y i f call s))"
begin

lemma quiet_keeps: "keeps (Runtime_Invariants.quiet True s) r \<Longrightarrow> R s (snd r)"
  unfolding keeps_def by (rule quiet)

lemma substrate: "R s t \<Longrightarrow> keeps (R s) (in_substrate f t)"
  using trans [OF _ quiet_keeps [OF substrate_quiet [OF quiet_refl]]] by (simp add: keeps_def)

lemma carried:
  assumes "\<And>f o' s. f \<in> set fs \<Longrightarrow> R s (snd (f o' s))" "R s t"
  shows "keeps (R s) (run_carried fs o' t)"
  using assms
proof (induction fs arbitrary: t)
  case (Cons f fs)
  have "R t (snd (f o' t))" by (rule Cons.prems(1)) simp
  from trans [OF Cons.prems(2) this] have head: "keeps (R s) (f o' t)" by (simp add: keeps_def)
  have tail: "keeps (R s) (run_carried fs o' u)" if "R s u" for u
    by (rule Cons.IH [OF _ that]) (rule Cons.prems(1), simp)
  show ?case unfolding run_carried.simps by (intro and_then_keeps head tail)
qed (simp add: return_keeps)

lemma carrier:
  assumes "\<And>f o' s. f \<in> set fs \<Longrightarrow> R s (snd (f o' s))"
  shows "R s (snd (carrier_dispatch E x fs o' s))"
proof -
  have refl: "R s s" by (rule quiet) simp
  have run: "keeps (R s) (run_carried fs o'' t)" if "R s t" for o'' t
    by (rule carried [OF _ that]) (rule assms)
  have "keeps (R s) (case run_carried fs o'' t of
         (Ok _, u) \<Rightarrow> in_substrate (env_carrier_end E x None) u
       | (Err e, u) \<Rightarrow> in_substrate (env_carrier_end E x (Some e)) u
       | (Panic, u) \<Rightarrow> (Panic, u))" if "R s t" for o'' t
    using run [OF that, of o''] by (cases "run_carried fs o'' t"; cases "fst (run_carried fs o'' t)")
      (auto simp: substrate keepsD return_keeps)
  then have "keeps (R s) (carrier_dispatch E x fs o' s)"
    unfolding carrier_dispatch_def by (intro and_then_keeps substrate refl)
  then show ?thesis by (simp add: keeps_def)
qed

lemma dispatch: "R s (snd (runtime_dispatch E call o' s))"
proof (induction call arbitrary: o' s)
  case (SubstrateCarrier x calls)
  show ?case unfolding runtime_dispatch.simps by (rule carrier) (use SubstrateCarrier in auto)
next
  case (BridgeCommon_acknowledge_proposal n c r call)
  then show ?case by (simp add: acknowledge)
next
  case (RTokenVotes_acknowledge_proposal y i f call)
  then show ?case by (simp add: racknowledge)
qed (simp_all add: quiet_keeps dispatch_quiet series)

lemma history: "runtime_run E s t \<Longrightarrow> R s t"
proof (induction rule: runtime_run.induct)
  case (call s t c o')
  with trans dispatch show ?case by blast
next
  case (finalize s t)
  with trans quiet rfis_finalize_quiet quiet_refl show ?case by blast
next
  case (outside s t k c es n)
  have "R t (t\<lparr>block_number := n, events := es, native := c, staking := k\<rparr>)" by (rule quiet) simp
  with outside.IH show ?case by (rule trans)
qed (simp add: quiet)

end

section \<open>Acknowledgements\<close>

lemma racknowledge_relation:
  assumes "\<And>s t u. R s t \<Longrightarrow> R t u \<Longrightarrow> R s u" "\<And>o' u. R u (snd (run o' u))"
    and "\<And>who s. R s (snd (rcommit_vote X who y i f call (ledger_update (\<lambda>l. l\<lparr>LastVoter := (LastVoter l)(y \<mapsto> who)\<rparr>) s)))"
    and "\<And>s. R s s"
  shows "R s (snd (racknowledge_proposal X (\<lambda>_. run) o'' y i f call s))"
proof -
  have "keeps (R s) (rtry_resolve_proposal X (\<lambda>_. run) y i call t)" if "R s t" for t
  proof -
    from assms(1) [OF that assms(2)] have "keeps (R s) (run o' t)" for o' by (simp add: keeps_def)
    with that show ?thesis unfolding rtry_resolve_proposal_def by (intro run_keeps)
  qed
  moreover have "keeps (R s) (rcommit_vote X who y i f call (ledger_update (\<lambda>l. l\<lparr>LastVoter := (LastVoter l)(y \<mapsto> who)\<rparr>) s))" for who
    using assms(3) by (simp add: keeps_def)
  ultimately have "keeps (R s) (racknowledge_proposal X (\<lambda>_. run) o'' y i f call s)"
    unfolding racknowledge_proposal_def Let_def using assms(4) by (intro run_keeps)
  then show ?thesis by (simp add: keeps_def)
qed

lemma rcommit_vote_frame [simp]:
  "bridge (snd (rcommit_vote X who y i f call s)) = bridge s"
  "rbalances (snd (rcommit_vote X who y i f call s)) = rbalances s"
  "xbalances (snd (rcommit_vote X who y i f call s)) = xbalances s"
  "lpbalances (snd (rcommit_vote X who y i f call s)) = lpbalances s"
  "series (snd (rcommit_vote X who y i f call t)) = series t"
  by (simp_all add: rcommit_vote_eq [OF refl] put_rvotes_def deposit_event_def)

lemma acknowledge_relation:
  assumes "\<And>s t u. R s t \<Longrightarrow> R t u \<Longrightarrow> R s u" "\<And>o' u. R u (snd (run o' u))"
    and "\<And>s. R s s" "\<And>s e. R s (deposit_event e s)" "\<And>s m p v. R s (put_votes m p v s)"
  shows "R s (snd (acknowledge_proposal X (\<lambda>_. run) o'' n c r call s))"
proof -
  note step = assms(1) [OF _ assms(2)] assms(1) [OF _ assms(4)] assms(1) [OF _ assms(5)] assms(3)
  have "keeps (R s) (commit_vote X who n c call s)" for who
    unfolding commit_vote_def Let_def by (auto intro!: run_keeps step)
  moreover have "keeps (R s) (try_resolve_proposal X (\<lambda>_. run) n c call t)" if "R s t" for t
  proof -
    have "keeps (R s) (run o' (deposit_event e t))" for o' e unfolding keeps_def by (intro step that)
    then have "keeps (R s) (case status v of
         Passed \<Rightarrow> and_then (run (Signed (bridge_account_id X)) (deposit_event (BridgeEv (ProposalPassed c n)) t))
           (\<lambda>_ s1. (Ok (), deposit_event (BridgeEv (ProposalExecuted c n)) (put_votes c (n, call) (to_be_executed v) s1)))
       | ProposalStatus.Expired \<Rightarrow> (Ok (), deposit_event (BridgeEv (ProposalCancelled c n)) t) | _ \<Rightarrow> (Ok (), t))" for v
      using that by (cases "status v") (auto intro!: run_keeps intro: step)
    then show ?thesis unfolding try_resolve_proposal_def using that by (intro run_keeps)
  qed
  ultimately have "keeps (R s) (acknowledge_proposal X (\<lambda>_. run) o'' n c r call s)"
    unfolding acknowledge_proposal_def by (intro run_keeps assms(3))
  then show ?thesis by (simp add: keeps_def)
qed

lemma series_steps:
  "quiet False s (snd (series_dispatch E o' c s))" "\<not> is_bond_call c \<Longrightarrow> quiet True s (snd (series_dispatch E o' c s))"
  using series_dispatch_quiet [of s s E o' c] series_settings_quiet [of True s s c E o'] by (simp_all add: keeps_def)

section \<open>Finished proposals of the bridge\<close>

definition completed_kept ::
    "('c, 'call, 'z) bridge_state_scheme \<Rightarrow> ('c, 'call, 'z) bridge_state_scheme \<Rightarrow> bool" where
  "completed_kept s t \<longleftrightarrow> (\<forall>p v. proposal_votes p s = Some v \<longrightarrow> is_completed v \<longrightarrow> proposal_votes p t = Some v)"

lemma completed_kept_votes: "BridgeVotes (bridge t) = BridgeVotes (bridge s) \<Longrightarrow> completed_kept s t"
  by (auto simp: completed_kept_def proposal_votes_def)

lemma completed_kept_trans: "completed_kept s t \<Longrightarrow> completed_kept t u \<Longrightarrow> completed_kept s u"
  by (simp add: completed_kept_def)

lemma keeps_completed_iff: "keeps_completed run \<longleftrightarrow> (\<forall>call o' s. completed_kept s (snd (run call o' s)))"
  unfolding keeps_completed_def completed_kept_def by blast

lemma acknowledge_completed_kept:
  assumes "\<And>o' u. completed_kept u (snd (run o' u))"
  shows "completed_kept s (snd (acknowledge_proposal X (\<lambda>_. run) o'' n c r call s))"
proof -
  have "keeps_completed (\<lambda>_. run)" using assms by (simp add: keeps_completed_iff)
  from acknowledge_keeps_completed [OF this] show ?thesis
    unfolding completed_kept_def keeps_def by blast
qed

interpretation bridge_rel: runtime_relation E completed_kept for E
proof (unfold_locales, goal_cases)
  case (2 s t)
  then show ?case unfolding quiet_def by (intro completed_kept_votes) simp
next
  case (3 s o'' c)
  from series_steps(1) [of s E o'' c] show ?case unfolding quiet_def by (intro completed_kept_votes) simp
next
  case (4 run s o'' n c r call)
  then show ?case by (rule acknowledge_completed_kept)
next
  case (5 run s o'' y i f call)
  show ?case by (rule racknowledge_relation [where R = completed_kept, OF completed_kept_trans 5]) (simp_all add: completed_kept_votes)
qed (rule completed_kept_trans)

section \<open>Voters of the rtoken relayers\<close>

definition voters_kept ::
    "('c, 'call, 'z) votes_state_scheme \<Rightarrow> ('c, 'call, 'z) votes_state_scheme \<Rightarrow> bool" where
  "voters_kept s t \<longleftrightarrow> (voters_ok (votes s) \<longrightarrow> voters_ok (votes t))"

lemma voters_kept_trans: "voters_kept s t \<Longrightarrow> voters_kept t u \<Longrightarrow> voters_kept s u"
  by (simp add: voters_kept_def)

interpretation voters_rel: runtime_relation E voters_kept for E
proof (unfold_locales, goal_cases)
  case (2 s t)
  then show ?case by (simp add: quiet_def voters_kept_def)
next
  case (3 s o'' c)
  from series_steps(1) [of s E o'' c] show ?case by (simp add: quiet_def voters_kept_def)
next
  case (4 run s o'' n c r call)
  show ?case by (rule acknowledge_relation [where R = voters_kept, OF voters_kept_trans 4]) (simp_all add: voters_kept_def put_votes_def)
next
  case (5 run s o'' y i f call)
  show ?case by (rule racknowledge_relation [where R = voters_kept, OF voters_kept_trans 5]) (simp_all add: voters_kept_def rcommit_vote_voters)
qed (rule voters_kept_trans)

section \<open>Credited transfers\<close>

definition credits_kept ::
    "('c, 'call, 'z) series_state_scheme \<Rightarrow> ('c, 'call, 'z) series_state_scheme \<Rightarrow> bool" where
  "credits_kept s t \<longleftrightarrow> (\<forall>y k. confirmed y k (series s) \<longrightarrow> confirmed y k (series t))"

lemma credits_kept_trans: "credits_kept s t \<Longrightarrow> credits_kept t u \<Longrightarrow> credits_kept s u"
  by (simp add: credits_kept_def)

lemma series_credits_kept: "credits_kept s (snd (series_dispatch E o' c s))"
proof (cases "is_bond_call c")
  case True
  then show ?thesis
    using liquidity_bond_confirmed [of s] liquidity_bond_and_swap_confirmed [of s] execute_confirmed [of s]
    by (cases c) (simp_all add: series_dispatch_def credits_kept_def keeps_def)
next
  case False
  from series_steps(2) [OF this, of s E o'] show ?thesis by (simp add: quiet_def credits_kept_def)
qed

interpretation series_rel: runtime_relation E credits_kept for E
proof (unfold_locales, goal_cases)
  case (2 s t)
  then show ?case by (simp add: quiet_def credits_kept_def)
next
  case (3 s o'' c)
  show ?case by (rule series_credits_kept)
next
  case (4 run s o'' n c r call)
  show ?case by (rule acknowledge_relation [where R = credits_kept, OF credits_kept_trans 4])
      (simp_all add: credits_kept_def put_votes_def deposit_event_def)
next
  case (5 run s o'' y i f call)
  show ?case by (rule racknowledge_relation [where R = credits_kept, OF credits_kept_trans 5]) (simp_all add: credits_kept_def)
qed (rule credits_kept_trans)

section \<open>Tokens\<close>

definition tokens_reach ::
    "('c, 'call, 'z) votes_state_scheme \<Rightarrow> ('c, 'call, 'z) votes_state_scheme \<Rightarrow> bool" where
  "tokens_reach s t \<longleftrightarrow> token_reach (rbalances s) (rbalances t) \<and> token_reach (xbalances s) (xbalances t)
     \<and> token_reach (lpbalances s) (lpbalances t)"

lemma tokens_reach_trans: "tokens_reach s t \<Longrightarrow> tokens_reach t u \<Longrightarrow> tokens_reach s u"
  unfolding tokens_reach_def by (auto elim: token_reach_trans)

interpretation tokens_rel: runtime_relation E tokens_reach for E
proof (unfold_locales, goal_cases)
  case (2 s t)
  then show ?case by (simp add: quiet_def tokens_reach_def)
next
  case (3 s o'' c)
  from series_steps(1) [of s E o'' c] show ?case by (simp add: quiet_def tokens_reach_def)
next
  case (4 run s o'' n c r call)
  show ?case by (rule acknowledge_relation [where R = tokens_reach, OF tokens_reach_trans 4]) (simp_all add: tokens_reach_def put_votes_def deposit_event_def)
next
  case (5 run s o'' y i f call)
  show ?case by (rule racknowledge_relation [where R = tokens_reach, OF tokens_reach_trans 5]) (simp_all add: tokens_reach_def)
qed (rule tokens_reach_trans)

definition books_sound :: "'sym token_store \<Rightarrow> bool" where
  "books_sound st \<longleftrightarrow> (\<forall>y. unat (TotalIssuance st y) \<le> holdings y st)
     \<and> (\<exists>cs. st = token_history cs empty_tokens \<and> (\<forall>y. minted y cs < 2 ^ 128 \<longrightarrow> unat (TotalIssuance st y) = holdings y st))"

lemma books_sound_reach: "token_reach empty_tokens st \<Longrightarrow> books_sound st"
  unfolding token_reach_def books_sound_def
  using issued_le_history [of empty_tokens] issued_eq_history [of empty_tokens] by fastforce

section \<open>Samples\<close>

text \<open>
  An environment and a state for evaluation: one relayer of chain 2 and one of rDOT, both deciding alone, and the resource of
  rETH. The proposal brings 50 rETH to account 9.
\<close>

definition plain_env :: "(AccountId \<Rightarrow> u128, plain_staking, unit) runtime_env" where
  "plain_env = \<lparr>env_config = plain_config, env_crypto = plain_crypto, env_staking = plain_staking_api,
     env_snapshot_hash = (\<lambda>_. 1), env_bond_hash = (\<lambda>_. 1), env_native_token = [0], env_substrate = (\<lambda>_ _ z. (Ok (), z)),
     env_carrier_begin = (\<lambda>_ o' z. (Ok o', z)), env_carrier_end = (\<lambda>_ _ z. (Ok (), z))\<rparr>"

definition runtime_sample :: "(AccountId \<Rightarrow> u128, unit runtime_call, plain_staking) rfis_state" where
  "runtime_sample = \<lparr>block_number = 10, events = [], native = (\<lambda>_. 1000), rbalances = empty_tokens,
     xbalances = empty_tokens, lpbalances = empty_tokens,
     brelayers = \<lparr>RelayerThreshold = (\<lambda>_. 0)(2 := 1), Relayers = (\<lambda>c a. c = 2 \<and> a = 7), RelayerCount = (\<lambda>_. 0)(2 := 1)\<rparr>,
     rrelayers = \<lparr>RelayerThreshold = (\<lambda>_. 0)(RDOT := 1), Relayers = (\<lambda>y a. y = RDOT \<and> a = 7), RelayerCount = (\<lambda>_. 0)(RDOT := 1)\<rparr>,
     payers = empty_relayers, rates = empty_rates,
     bridge = empty_bridge\<lparr>ChainNonces := [2 \<mapsto> 0], Resources := [[1] \<mapsto> []], ResourceRsymbol := [[1] \<mapsto> RETH]\<rparr>,
     ledger = empty_ledger, votes = empty_votes, rclaim = empty_rclaim, series = empty_series, rdex = empty_rdex,
     mining = empty_mining, xclaim = empty_xclaim, rdexn = empty_rdexn,
     rdexn_sigs = \<lparr>RSignatures = (\<lambda>_ _. None), RAccountSignature = (\<lambda>_. None)\<rparr>, rfis = empty_rfis, staking = sample_staking\<rparr>"

abbreviation sample_proposal :: "unit runtime_call" where
  "sample_proposal \<equiv> BridgeSwapCall (BS_transfer_rtoken_back 9 50 [1])"

abbreviation sample_ack :: "unit runtime_call" where
  "sample_ack \<equiv> BridgeCommon_acknowledge_proposal 1 2 [1] sample_proposal"

lemma plain_env_simps [simp]: "env_config plain_env = plain_config" "env_staking plain_env = plain_staking_api"
  by (simp_all add: plain_env_def)

lemma runtime_sample_open: "open_for plain_config 7 (2, 1, sample_proposal) [1] runtime_sample"
  by (simp add: sample_eval runtime_sample_def)

lemma runtime_sample_executed:
  "proposal_votes (2, 1, sample_proposal) (snd (runtime_dispatch plain_env sample_ack (Signed 7) runtime_sample))
     = Some \<lparr>voted = [7], status = Executed, expiry = 110\<rparr>
   \<and> rbal_free_balance 9 RETH (snd (runtime_dispatch plain_env sample_ack (Signed 7) runtime_sample)) = 50"
  unfolding runtime_dispatch.simps plain_env_simps acknowledge_open [OF runtime_sample_open]
  by (simp add: sample_eval runtime_sample_def put_votes_def deposit_event_def try_resolve_proposal_def bridge_swap_dispatch_def
      transfer_rtoken_back_def ensure_bridge_def rbal_mint_def rbal_lift_def token_lift_def token_mint_eq empty_tokens_def
      free_balance_def to_be_executed_def rbal_free_balance_def set_free_def)

section \<open>Properties\<close>

text \<open>
  C4. A proposal of the bridge that is executed or expired stays so in the whole runtime: whatever calls of whatever pallets
  follow, from whatever origin and nested in whatever proposals, its votes never change, and
  acknowledging it again fails without changing anything.
\<close>

theorem finished_proposal_is_final:
  assumes "runtime_run E s t" "proposal_votes (c, n, call) s = Some v" "is_completed v"
  shows "proposal_votes (c, n, call) t = Some v
    \<and> (\<exists>e. runtime_dispatch E (BridgeCommon_acknowledge_proposal n c r call) o' t = (Err e, t))"
proof -
  from bridge_rel.history [OF assms(1)] assms(2,3) have "proposal_votes (c, n, call) t = Some v"
    unfolding completed_kept_def by blast
  with acknowledge_completed [OF this assms(3)] show ?thesis by (simp add: runtime_acknowledge)
qed

theorem finished_proposal_is_final_witness:
  "\<exists>(s :: (AccountId \<Rightarrow> u128, unit runtime_call, plain_staking) rfis_state) t v. runtime_run plain_env s t \<and> proposal_votes (2, 1, sample_proposal) s = Some v \<and> is_completed v
     \<and> (\<exists>e. runtime_dispatch plain_env sample_ack (Signed 7) t = (Err e, t)) \<and> rbal_free_balance 9 RETH s = 50"
proof -
  define s where "s = snd (runtime_dispatch plain_env sample_ack (Signed 7) runtime_sample)"
  define t where "t = snd (runtime_dispatch plain_env (RBalances_transfer [8] RETH 20) (Signed 9) s)"
  have run: "runtime_run plain_env s t" unfolding t_def by (intro runtime_run.intros)
  obtain v where v: "proposal_votes (2, 1, sample_proposal) s = Some v" "is_completed v" "rbal_free_balance 9 RETH s = 50"
    using runtime_sample_executed unfolding s_def is_completed_def by force
  from finished_proposal_is_final [OF run v(1,2), of "[1]" "Signed 7"] run v show ?thesis by blast
qed

text \<open>
  C7. A transfer of another chain that has been credited stays credited in the whole runtime: whatever calls follow, its state
  never changes, nobody can bond it again, and no record of it can be executed again.
\<close>

theorem credited_transfer_is_final:
  assumes "runtime_run E s t" "BondStates (series s) y (bh, th) = Some Success"
  shows "BondStates (series t) y (bh, th) = Some Success
    \<and> (\<exists>e. runtime_dispatch E (RTokenSeriesCall (SE_liquidity_bond key sig pool bh th v y)) o' t = (Err e, t))
    \<and> (\<forall>i rec reason. BondRecords (series t) y i = Some rec \<longrightarrow> blockhash rec = bh \<longrightarrow> txhash rec = th \<longrightarrow>
         (\<exists>e. runtime_dispatch E (RTokenSeriesCall (SE_execute_bond_record y i reason)) o' t = (Err e, t)))"
proof -
  from series_rel.history [OF assms(1)] assms(2) have c: "BondStates (series t) y (bh, th) = Some Success"
    unfolding credits_kept_def by blast
  note closed = not_available [OF c] not_executable [OF c]
  have "\<exists>e. liquidity_bond X C h o' key sig pool bh th v y t = (Err e, t)" for X C h
    using closed(1) by (cases o') (auto simp: liquidity_bond_def bondable_def ensure_def)
  moreover have "\<exists>e. execute_bond_record X o' y i reason t = (Err e, t)"
    if "BondRecords (series t) y i = Some rec" "blockhash rec = bh" "txhash rec = th" for X i rec reason
    using that closed(2) by (auto simp: execute_bond_record_def ensure_voter_def ensure_def)
  ultimately show ?thesis using c by (simp add: series_dispatch_def)
qed

theorem credited_transfer_is_final_witness:
  "\<exists>(s :: (AccountId \<Rightarrow> u128, unit runtime_call, plain_staking) rfis_state) t. runtime_run plain_env s t
     \<and> BondStates (series s) RDOT ([2], [3]) = Some Success
     \<and> (\<exists>e. runtime_dispatch plain_env (RTokenSeriesCall (SE_execute_bond_record RDOT 5 BondReason.Pass)) Root t = (Err e, t))"
proof -
  define s where "s = runtime_sample\<lparr>series := empty_series\<lparr>BondStates := (\<lambda>_ _. Some Success),
      BondRecords := (\<lambda>_ _. Some (sample_record [3]))\<rparr>\<rparr>"
  define t where "t = snd (runtime_dispatch plain_env (RTokenSeriesCall SE_toggle_bond_switch) Root s)"
  have run: "runtime_run plain_env s t" unfolding t_def by (intro runtime_run.intros)
  have st: "BondStates (series s) RDOT ([2], [3]) = Some Success" by (simp add: s_def)
  have "BondRecords (series t) RDOT 5 = Some (sample_record [3])" "blockhash (sample_record [3]) = [2]" "txhash (sample_record [3]) = [3]"
    by (simp_all add: t_def s_def series_dispatch_def toggle_bond_switch_def deposit_event_def Let_def)
  with credited_transfer_is_final [OF run st] run st show ?thesis by blast
qed

text \<open>
  C23. In the whole runtime no relayer is counted twice for a proposal of an rtoken, neither on one side nor on both, whatever
  calls are made and whatever calls the proposals dispatch in turn.
\<close>

theorem runtime_counts_voters_once:
  assumes "runtime_run E s t" "RVotes (votes s) = (\<lambda>_ _. None)" "RVotes (votes t) y k = Some v"
  shows "distinct (votes_for v @ votes_against v)"
proof (rule voters_okD)
  show "voters_ok (votes t)"
    using voters_rel.history [OF assms(1)] assms(2) by (simp add: voters_kept_def voters_ok_def)
qed (rule assms(3))

theorem runtime_counts_voters_once_witness:
  "\<exists>t v. runtime_run plain_env runtime_sample t \<and> RVotes (votes runtime_sample) = (\<lambda>_ _. None)
     \<and> RVotes (votes t) RDOT (1, SubstrateCall ()) = Some v \<and> votes_for v = [7] \<and> distinct (votes_for v @ votes_against v)"
proof -
  let ?a = "RTokenVotes_acknowledge_proposal RDOT 1 True (SubstrateCall ())"
  let ?t = "snd (runtime_dispatch plain_env ?a (Signed 7) (snd (runtime_dispatch plain_env ?a (Signed 7) runtime_sample)))"
  have run: "runtime_run plain_env runtime_sample ?t" by (intro runtime_run.intros)
  have z: "RVotes (votes runtime_sample) = (\<lambda>_ _. None)" by (simp add: runtime_sample_def empty_votes_def)
  have "\<exists>v. RVotes (votes ?t) RDOT (1, SubstrateCall ()) = Some v \<and> votes_for v = [7]"
    by (simp add: racknowledge_proposal_def rtry_resolve_proposal_def rcommit_vote_eq [OF refl] sample_votes_eval runtime_sample_def
        in_substrate_def plain_env_def)
  with runtime_counts_voters_once [OF run z] run z show ?thesis by blast
qed



end
