(* ===== verification/Cosmos_Verify.thy ===== *)
theory Cosmos_Verify
  imports Signatures
begin

text \<open>
  \<open>rcrypto\<close>: verification of a signature of a Cosmos chain, \<open>cosmos/verify.rs\<close>. The text and the key must be UTF-8, the key is
  bech32 with a prefix of five bytes, and everything else that is malformed panics in an \<open>unwrap\<close> or a slice.
\<close>

section \<open>UTF-8\<close>

definition cont_byte :: "u8 \<Rightarrow> bool" where
  "cont_byte b \<longleftrightarrow> 0x80 \<le> b \<and> b \<le> 0xBF"

text \<open>The second byte of a sequence of three or four is restricted further: no overlong forms, no surrogates, nothing above U+10FFFF.\<close>

definition second_byte :: "u8 \<Rightarrow> u8 \<Rightarrow> bool" where
  "second_byte b c \<longleftrightarrow> cont_byte c \<and> (b = 0xE0 \<longrightarrow> 0xA0 \<le> c) \<and> (b = 0xED \<longrightarrow> c \<le> 0x9F)
     \<and> (b = 0xF0 \<longrightarrow> 0x90 \<le> c) \<and> (b = 0xF4 \<longrightarrow> c \<le> 0x8F)"

text \<open>\<open>str::from_utf8\<close> succeeds.\<close>

fun utf8_valid :: "bytes \<Rightarrow> bool" where
  "utf8_valid [] \<longleftrightarrow> True"
| "utf8_valid (b # bs) \<longleftrightarrow>
     (if b < 0x80 then utf8_valid bs
      else if b < 0xC2 then False
      else if b < 0xE0 then (case bs of c # r \<Rightarrow> cont_byte c \<and> utf8_valid r | _ \<Rightarrow> False)
      else if b < 0xF0 then (case bs of c # d # r \<Rightarrow> second_byte b c \<and> cont_byte d \<and> utf8_valid r | _ \<Rightarrow> False)
      else if b < 0xF5 then (case bs of c # d # e # r \<Rightarrow> second_byte b c \<and> cont_byte d \<and> cont_byte e \<and> utf8_valid r | _ \<Rightarrow> False)
      else False)"

text \<open>What it accepts: the encodings of sequences of Unicode scalar values.\<close>

definition scalar_value :: "nat \<Rightarrow> bool" where
  "scalar_value c \<longleftrightarrow> c < 0xD800 \<or> 0xE000 \<le> c \<and> c < 0x110000"

definition utf8_encode :: "nat \<Rightarrow> bytes" where
  "utf8_encode c = map word_of_nat
     (if c < 0x80 then [c]
      else if c < 0x800 then [0xC0 + c div 64, 0x80 + c mod 64]
      else if c < 0x10000 then [0xE0 + c div 4096, 0x80 + c div 64 mod 64, 0x80 + c mod 64]
      else [0xF0 + c div 262144, 0x80 + c div 4096 mod 64, 0x80 + c div 64 mod 64, 0x80 + c mod 64])"

section \<open>Verification\<close>

text \<open>
  The functions of the crates: \<open>Sha256\<close>, \<open>bech32::decode\<close> with the human-readable part first, \<open>Vec::from_base32\<close>,
  \<open>PublicKey::parse_compressed\<close> and \<open>secp256k1::verify\<close> of a message and a signature, which are parsed without failing.
\<close>

record 'key cosmos_crypto =
  sha256 :: "bytes \<Rightarrow> bytes"
  bech32_decode :: "bytes \<Rightarrow> (bytes \<times> bytes) option"
  from_base32 :: "bytes \<Rightarrow> bytes option"
  parse_compressed :: "bytes \<Rightarrow> 'key option"
  secp256k1_verify :: "bytes \<Rightarrow> bytes \<Rightarrow> 'key \<Rightarrow> bool"

text \<open>\<open>None\<close> is a panic: of \<open>try_into().unwrap()\<close> on a slice of another length, and of the other \<open>unwrap\<close>s.\<close>

definition cosmos_verify :: "'key cosmos_crypto \<Rightarrow> bytes \<Rightarrow> bytes \<Rightarrow> bytes \<Rightarrow> bool option" where
  "cosmos_verify C data sig pk =
     (if length sig \<noteq> 64 then None
      else if length pk \<noteq> 33 then None
      else case parse_compressed C pk of
             None \<Rightarrow> None
           | Some key \<Rightarrow> Some (secp256k1_verify C data sig key))"

definition verify_with_prefix :: "'key cosmos_crypto \<Rightarrow> bytes \<Rightarrow> bytes \<Rightarrow> bytes \<Rightarrow> bool option" where
  "verify_with_prefix C data sig_data pk =
     (if \<not> utf8_valid data then Some False
      else
        let data_out = sha256 C data
        in if \<not> utf8_valid pk then Some False
           else case bech32_decode C pk of
                  None \<Rightarrow> None
                | Some (hrp, pk_data) \<Rightarrow>
                    (case from_base32 C pk_data of
                       None \<Rightarrow> None
                     | Some prefixed_pubkey \<Rightarrow>
                         if length prefixed_pubkey < 5 then None
                         else cosmos_verify C data_out sig_data (drop 5 prefixed_pubkey)))"

text \<open>The signature and the key have the form the code expects.\<close>

definition key_wellformed :: "'key cosmos_crypto \<Rightarrow> bytes \<Rightarrow> bytes \<Rightarrow> 'key \<Rightarrow> bool" where
  "key_wellformed C sig pk key \<longleftrightarrow> length sig = 64 \<and> (\<exists>hrp d prefix raw. bech32_decode C pk = Some (hrp, d)
     \<and> from_base32 C d = Some (prefix @ raw) \<and> length prefix = 5 \<and> length raw = 33 \<and> parse_compressed C raw = Some key)"

section \<open>Lemmas\<close>

lemma word_of_nat_u8:
  "n < 256 \<Longrightarrow> unat (word_of_nat n :: u8) = n"
  by (simp add: unat_of_nat)

lemmas u8_nat = word_less_nat_alt word_le_nat_alt word_unat_eq_iff cont_byte_def second_byte_def

lemma div_bounds:
  "n < 2048 \<Longrightarrow> n div 64 < (32::nat)" "n < 65536 \<Longrightarrow> n div 4096 < (16::nat)" "n < 1114112 \<Longrightarrow> n div 262144 < (5::nat)"
  by (simp_all add: less_mult_imp_div_less)

lemma sextet: "k < 64 \<Longrightarrow> (m * 64 + k) div 64 = (m :: nat)" "k < 64 \<Longrightarrow> (m * 64 + k) mod 64 = (k :: nat)"
  by simp_all

lemma sextets: "n div 4096 = n div 64 div (64 :: nat)" "n div 262144 = n div 64 div 64 div (64 :: nat)"
  by (simp_all add: div_mult2_eq [symmetric])

lemma utf8_encode_valid:
  assumes "scalar_value c"
  shows "utf8_valid (utf8_encode c @ r) \<longleftrightarrow> utf8_valid r"
proof -
  have [simp]: "unat (word_of_nat (0x80 + n mod 64) :: u8) = 0x80 + n mod 64" for n
    by (rule word_of_nat_u8) linarith
  have [simp]: "n mod 64 \<le> 63" for n :: nat by linarith
  consider "c < 0x80" | "0x80 \<le> c" "c < 0x800" | "0x800 \<le> c" "c < 0x10000" "c < 0xD800 \<or> 0xE000 \<le> c" | "0x10000 \<le> c" "c < 0x110000"
    using assms by (cases "c < 0x80"; cases "c < 0x800"; cases "c < 0x10000") (auto simp: scalar_value_def)
  then show ?thesis
  proof cases
    case 1
    then have "unat (word_of_nat c :: u8) = c" by (intro word_of_nat_u8) simp
    with 1 show ?thesis by (simp add: utf8_encode_def u8_nat del: of_nat_add)
  next
    case 2
    then have "2 \<le> c div 64" "c div 64 < 32" by (simp_all add: div_bounds less_eq_div_iff_mult_less_eq)
    then have "unat (word_of_nat (0xC0 + c div 64) :: u8) = 0xC0 + c div 64" by (intro word_of_nat_u8) simp
    with 2 \<open>2 \<le> c div 64\<close> \<open>c div 64 < 32\<close> show ?thesis by (simp add: utf8_encode_def u8_nat del: of_nat_add)
  next
    case 3
    define i j k where "i = c div 4096" "j = c div 64 mod 64" "k = c mod 64"
    have bounds: "i < 16" "j < 64" "k < 64" using 3 by (simp_all add: i_j_k_def div_bounds)
    have m: "c div 64 = i * 64 + j" unfolding i_j_k_def sextets by simp
    have "i = 0 \<longrightarrow> 0x20 \<le> j" using m div_le_mono [OF 3(1), of 64] by simp
    moreover have "j < 0x20" if "i = 13"
    proof -
      have "c < 0xD800" using that 3(3) div_le_mono [of "0xE000" c 4096] by (auto simp: i_j_k_def)
      then have "c div 64 < 864" by (simp add: less_mult_imp_div_less)
      with that m show ?thesis by simp
    qed
    moreover have "utf8_encode c = map word_of_nat [0xE0 + i, 0x80 + j, 0x80 + k]"
      using 3 by (simp add: utf8_encode_def i_j_k_def)
    ultimately show ?thesis using bounds by (auto simp: u8_nat word_of_nat_u8 simp del: of_nat_add)
  next
    case 4
    define i j k l where "i = c div 262144" "j = c div 4096 mod 64" "k = c div 64 mod 64" "l = c mod 64"
    have bounds: "i < 5" "j < 64" "k < 64" "l < 64" using 4 by (simp_all add: i_j_k_l_def div_bounds)
    have m: "c div 4096 = i * 64 + j" unfolding i_j_k_l_def sextets by simp
    have "i = 0 \<longrightarrow> 0x10 \<le> j" using m div_le_mono [OF 4(1), of 4096] by simp
    moreover have "c div 4096 < 272" using 4(2) by (simp add: less_mult_imp_div_less)
    then have "i = 4 \<longrightarrow> j < 0x10" using m by simp
    moreover have "utf8_encode c = map word_of_nat [0xF0 + i, 0x80 + j, 0x80 + k, 0x80 + l]"
      using 4 by (simp add: utf8_encode_def i_j_k_l_def)
    ultimately show ?thesis using bounds by (auto simp: u8_nat word_of_nat_u8 simp del: of_nat_add)
  qed
qed

text \<open>Every accepted sequence of one to four bytes encodes a scalar value.\<close>

lemma u8_offset: "word_of_nat k \<le> (b :: u8) \<Longrightarrow> k < 256 \<Longrightarrow> \<exists>m. unat b = k + m \<and> b = word_of_nat (k + m)"
  by (rule exI [of _ "unat b - k"]) (simp add: word_le_nat_alt word_of_nat_u8)

lemma cont_offset: "cont_byte b \<Longrightarrow> \<exists>m < 64. unat b = 0x80 + m \<and> b = word_of_nat (0x80 + m)"
  using u8_offset [of "0x80" b] by (force simp: cont_byte_def word_le_nat_alt)

lemma decode1: "b < 0x80 \<Longrightarrow> scalar_value (unat b) \<and> utf8_encode (unat b) = [b]"
  by (simp add: scalar_value_def utf8_encode_def word_less_nat_alt)

lemma decode2:
  assumes "0xC2 \<le> b" "b < 0xE0" "cont_byte c"
  shows "\<exists>n. scalar_value n \<and> utf8_encode n = [b, c]"
proof -
  obtain i where i: "unat b = 0xC0 + i" "b = word_of_nat (0xC0 + i)" "2 \<le> i" "i < 32"
    using assms(1,2) u8_offset [of "0xC0" b] by (force simp: word_le_nat_alt word_less_nat_alt)
  obtain j where j: "j < 64" "c = word_of_nat (0x80 + j)" using cont_offset [OF assms(3)] by blast
  have "(i * 64 + j) div 64 = i" "(i * 64 + j) mod 64 = j" using j by simp_all
  with i j show ?thesis by (intro exI [of _ "i * 64 + j"]) (simp add: scalar_value_def utf8_encode_def)
qed

lemma decode3:
  assumes "0xE0 \<le> b" "b < 0xF0" "second_byte b c" "cont_byte d"
  shows "\<exists>n. scalar_value n \<and> utf8_encode n = [b, c, d]"
proof -
  obtain i where i: "unat b = 0xE0 + i" "b = word_of_nat (0xE0 + i)" "i < 16"
    using assms(1,2) u8_offset [of "0xE0" b] by (force simp: word_le_nat_alt word_less_nat_alt)
  obtain j where j: "j < 64" "unat c = 0x80 + j" "c = word_of_nat (0x80 + j)"
    using assms(3) cont_offset unfolding second_byte_def by blast
  obtain k where k: "k < 64" "d = word_of_nat (0x80 + k)" using cont_offset [OF assms(4)] by blast
  define n where "n = (i * 64 + j) * 64 + k"
  have "i = 0 \<longrightarrow> 0x20 \<le> j" "i = 13 \<longrightarrow> j < 0x20"
    using assms(3) i(1) j(2) by (auto simp: second_byte_def word_le_nat_alt word_unat_eq_iff)
  then have a: "32 \<le> i * 64 + j" "i * 64 + j < 1024" "i * 64 + j < 864 \<or> 896 \<le> i * 64 + j"
    using i(3) j(1) by (cases "i = 0"; cases "i < 13"; cases "i = 13"; simp)+
  then have "0x800 \<le> n" "n < 0x10000" "scalar_value n" using k(1) by (auto simp: n_def scalar_value_def)
  moreover have "n mod 64 = k" "n div 4096 = i" "n div 64 mod 64 = j" using j k by (simp_all only: n_def sextet sextets)
  ultimately show ?thesis using i j k by (intro exI [of _ n]) (simp add: utf8_encode_def)
qed

lemma decode4:
  assumes "0xF0 \<le> b" "b < 0xF5" "second_byte b c" "cont_byte d" "cont_byte e"
  shows "\<exists>n. scalar_value n \<and> utf8_encode n = [b, c, d, e]"
proof -
  obtain i where i: "unat b = 0xF0 + i" "b = word_of_nat (0xF0 + i)" "i < 5"
    using assms(1,2) u8_offset [of "0xF0" b] by (force simp: word_le_nat_alt word_less_nat_alt)
  obtain j where j: "j < 64" "unat c = 0x80 + j" "c = word_of_nat (0x80 + j)"
    using assms(3) cont_offset unfolding second_byte_def by blast
  obtain k where k: "k < 64" "d = word_of_nat (0x80 + k)" using cont_offset [OF assms(4)] by blast
  obtain l where l: "l < 64" "e = word_of_nat (0x80 + l)" using cont_offset [OF assms(5)] by blast
  define n where "n = ((i * 64 + j) * 64 + k) * 64 + l"
  have "i = 0 \<longrightarrow> 0x10 \<le> j" "i = 4 \<longrightarrow> j < 0x10"
    using assms(3) i(1) j(2) by (auto simp: second_byte_def word_le_nat_alt word_unat_eq_iff)
  then have a: "16 \<le> i * 64 + j" "i * 64 + j < 272" using i(3) j(1) by linarith+
  then have "0x10000 \<le> n" "scalar_value n" using k(1) l(1) by (auto simp: n_def scalar_value_def)
  moreover have "n mod 64 = l" "n div 64 mod 64 = k" "n div 4096 mod 64 = j" "n div 262144 = i"
    using j k l by (simp_all only: n_def sextet sextets)
  ultimately show ?thesis using i j k l by (intro exI [of _ n]) (simp add: utf8_encode_def)
qed

declare utf8_valid.simps [simp del]

lemma utf8_split:
  assumes "utf8_valid (b # bs)"
  shows "\<exists>p r n. b # bs = p @ r \<and> p \<noteq> [] \<and> scalar_value n \<and> utf8_encode n = p \<and> utf8_valid r"
proof -
  note head = assms [unfolded utf8_valid.simps]
  show ?thesis
  proof (cases "b < 0x80")
    case True
    with head decode1 show ?thesis by (intro exI [of _ "[b]"] exI [of _ bs]) auto
  next
    case False
    have lead: "0xC2 \<le> b" "b < 0xF5" using head False by (auto simp: not_less word_less_nat_alt word_le_nat_alt split: if_splits)
    consider c r where "bs = c # r" "0xC2 \<le> b" "b < 0xE0" "cont_byte c" "utf8_valid r"
      | c d r where "bs = c # d # r" "0xE0 \<le> b" "b < 0xF0" "second_byte b c" "cont_byte d" "utf8_valid r"
      | c d e r where "bs = c # d # e # r" "0xF0 \<le> b" "b < 0xF5" "second_byte b c" "cont_byte d" "cont_byte e" "utf8_valid r"
    proof (cases "b < 0xE0")
      case True
      with head False lead(1) obtain c r where "bs = c # r" "cont_byte c" "utf8_valid r" by (cases bs) (simp_all add: not_less [symmetric])
      with True lead(1) that(1) show ?thesis by blast
    next
      case e0: False
      show ?thesis
      proof (cases "b < 0xF0")
        case True
        with head False lead(1) e0 obtain c d r where "bs = c # d # r" "second_byte b c" "cont_byte d" "utf8_valid r"
          by (cases bs; cases "tl bs") (simp_all add: not_less [symmetric])
        with True e0 that(2) show ?thesis by (simp add: not_less)
      next
        case f0: False
        with head False lead e0 obtain c d e r where "bs = c # d # e # r" "second_byte b c" "cont_byte d" "cont_byte e" "utf8_valid r"
          by (cases bs; cases "tl bs"; cases "tl (tl bs)") (simp_all add: not_less [symmetric])
        with f0 lead(2) that(3) show ?thesis by (simp add: not_less)
      qed
    qed
    then show ?thesis
    proof cases
      case (1 c r)
      then obtain n where "scalar_value n" "utf8_encode n = [b, c]" using decode2 by blast
      with 1 show ?thesis by (intro exI [of _ "[b, c]"] exI [of _ r] exI [of _ n]) simp
    next
      case (2 c d r)
      then obtain n where "scalar_value n" "utf8_encode n = [b, c, d]" using decode3 by blast
      with 2 show ?thesis by (intro exI [of _ "[b, c, d]"] exI [of _ r] exI [of _ n]) simp
    next
      case (3 c d e r)
      then obtain n where "scalar_value n" "utf8_encode n = [b, c, d, e]" using decode4 by blast
      with 3 show ?thesis by (intro exI [of _ "[b, c, d, e]"] exI [of _ r] exI [of _ n]) simp
      qed
qed
qed

lemma utf8_decodes: "utf8_valid bs \<Longrightarrow> \<exists>cs. list_all scalar_value cs \<and> bs = concat (map utf8_encode cs)"
proof (induction bs rule: length_induct)
  case (1 bs)
  show ?case
  proof (cases bs)
    case Nil
    then show ?thesis by (intro exI [of _ "[]"]) simp
  next
    case (Cons b bs')
    with 1(2) utf8_split obtain p r n where p: "bs = p @ r" "p \<noteq> []" "scalar_value n" "utf8_encode n = p" "utf8_valid r"
      by blast
    then have "length r < length bs" by simp
    with 1(1) p(5) obtain cs where "list_all scalar_value cs" "r = concat (map utf8_encode cs)" by blast
    with p show ?thesis by (intro exI [of _ "n # cs"]) simp
  qed
qed

lemma utf8_valid_iff: "utf8_valid bs \<longleftrightarrow> (\<exists>cs. list_all scalar_value cs \<and> bs = concat (map utf8_encode cs))"
proof -
  have "list_all scalar_value cs \<Longrightarrow> utf8_valid (concat (map utf8_encode cs))" for cs
    by (induction cs) (simp_all add: utf8_encode_valid utf8_valid.simps)
  with utf8_decodes show ?thesis by blast
qed

lemma cosmos_verify_cases:
  "cosmos_verify C data sig pk = (if length sig = 64 \<and> length pk = 33
     then map_option (secp256k1_verify C data sig) (parse_compressed C pk) else None)"
  by (simp add: cosmos_verify_def split: option.split)

lemma verify_with_prefix_key:
  assumes "utf8_valid data" "utf8_valid pk"
  shows "verify_with_prefix C data sig pk = Some r \<longleftrightarrow> (\<exists>key. key_wellformed C sig pk key \<and> r = secp256k1_verify C (sha256 C data) sig key)"
proof
  assume "verify_with_prefix C data sig pk = Some r"
  with assms obtain hrp d p key where d: "bech32_decode C pk = Some (hrp, d)" "from_base32 C d = Some p" "\<not> length p < 5"
    "length sig = 64" "length (drop 5 p) = 33" "parse_compressed C (drop 5 p) = Some key" "r = secp256k1_verify C (sha256 C data) sig key"
    by (auto simp: verify_with_prefix_def cosmos_verify_cases split: option.splits if_splits)
  moreover from d(3) have "p = take 5 p @ drop 5 p" "length (take 5 p) = 5" by simp_all
  ultimately show "\<exists>key. key_wellformed C sig pk key \<and> r = secp256k1_verify C (sha256 C data) sig key"
    unfolding key_wellformed_def by metis
next
  assume "\<exists>key. key_wellformed C sig pk key \<and> r = secp256k1_verify C (sha256 C data) sig key"
  with assms show "verify_with_prefix C data sig pk = Some r"
    by (auto simp: verify_with_prefix_def cosmos_verify_cases key_wellformed_def)
qed

section \<open>Properties\<close>

text \<open>
  A text or a key that is not UTF-8 is refused. Of the others, those with a well-formed signature and key are decided by the
  curve, and all the rest panic: a malformed key is not refused.
\<close>

lemma cosmos_verify_outcome:
  "\<not> utf8_valid data \<or> \<not> utf8_valid pk \<Longrightarrow> verify_with_prefix C data sig pk = Some False"
  "utf8_valid data \<Longrightarrow> utf8_valid pk \<Longrightarrow> key_wellformed C sig pk key \<Longrightarrow>
     verify_with_prefix C data sig pk = Some (secp256k1_verify C (sha256 C data) sig key)"
  "utf8_valid data \<Longrightarrow> utf8_valid pk \<Longrightarrow> \<nexists>key. key_wellformed C sig pk key \<Longrightarrow> verify_with_prefix C data sig pk = None"
  using verify_with_prefix_key [of data pk C sig] by (auto simp: verify_with_prefix_def Let_def)

end
