(* ===== verification/Runtime.thy ===== *)
theory Runtime
  imports Signatures Bridge
begin

text \<open>
  The runtime crate (\<open>node/runtime\<close>): constants of money and time, the parameters of the pallets, what a proxy
  may call, how fees are shared, how balances become votes, and the transactions offchain workers sign.
\<close>

section \<open>Constants\<close>

definition FIS :: Balance where "FIS = 1000000000000"
definition DOLLARS :: Balance where "DOLLARS = FIS"
definition CENTS :: Balance where "CENTS = DOLLARS div 100"
definition MILLICENTS :: Balance where "MILLICENTS = CENTS div 1000"

text \<open>\<open>deposit\<close> for on-chain storage: so many items and bytes.\<close>

definition storage_deposit :: "u32 \<Rightarrow> u32 \<Rightarrow> Balance" where
  "storage_deposit items nbytes = ucast items * 15 * CENTS + ucast nbytes * 6 * CENTS"

type_synonym Moment = u64

definition MILLISECS_PER_BLOCK :: Moment where "MILLISECS_PER_BLOCK = 6000"
definition SECS_PER_BLOCK :: Moment where "SECS_PER_BLOCK = MILLISECS_PER_BLOCK div 1000"
definition SLOT_DURATION :: Moment where "SLOT_DURATION = MILLISECS_PER_BLOCK"
definition PRIMARY_PROBABILITY :: "u64 \<times> u64" where "PRIMARY_PROBABILITY = (1, 4)"
definition MINUTES :: BlockNumber where "MINUTES = 60 div ucast SECS_PER_BLOCK"
definition HOURS :: BlockNumber where "HOURS = MINUTES * 60"
definition DAYS :: BlockNumber where "DAYS = HOURS * 24"
definition EPOCH_DURATION_IN_BLOCKS :: BlockNumber where "EPOCH_DURATION_IN_BLOCKS = 1 * HOURS"

text \<open>The quotient of two durations is computed in floating point; both are the same, so it is 1.\<close>

definition EPOCH_DURATION_IN_SLOTS :: u64 where
  "EPOCH_DURATION_IN_SLOTS = word_of_nat (unat EPOCH_DURATION_IN_BLOCKS * unat MILLISECS_PER_BLOCK div unat SLOT_DURATION)"

section \<open>Parameters of the pallets\<close>

definition BlockHashCount :: BlockNumber where "BlockHashCount = 2400"
definition DepositBase :: Balance where "DepositBase = storage_deposit 1 88"
definition DepositFactor :: Balance where "DepositFactor = storage_deposit 0 32"
definition ProxyDepositBase :: Balance where "ProxyDepositBase = storage_deposit 1 8"
definition ProxyDepositFactor :: Balance where "ProxyDepositFactor = storage_deposit 0 33"
definition ExistentialDeposit :: Balance where "ExistentialDeposit = 10 * MILLICENTS"
definition SessionsPerEra :: u32 where "SessionsPerEra = 6"
definition RuntimeBondingDuration :: EraIndex where "RuntimeBondingDuration = 2 * 28"
definition SlashDeferDuration :: EraIndex where "SlashDeferDuration = 52"
definition LaunchPeriod :: BlockNumber where "LaunchPeriod = 7 * 24 * 60 * MINUTES"
definition VotingPeriod :: BlockNumber where "VotingPeriod = 7 * 24 * 60 * MINUTES"
definition EnactmentPeriod :: BlockNumber where "EnactmentPeriod = 8 * 24 * 60 * MINUTES"
definition CouncilMaxMembers :: u32 where "CouncilMaxMembers = 100"
definition DesiredMembers :: u32 where "DesiredMembers = 13"
definition ImOnlineUnsignedPriority :: u64 where "ImOnlineUnsignedPriority = - 1"
definition StakingUnsignedPriority :: u64 where "StakingUnsignedPriority = - 1 div 2"
definition RFisUnsignedPriority :: u64 where "RFisUnsignedPriority = - 1 div 3"

definition AnnouncementDepositBase :: Balance where "AnnouncementDepositBase = storage_deposit 1 8"
definition AnnouncementDepositFactor :: Balance where "AnnouncementDepositFactor = storage_deposit 0 66"
definition IndexDeposit :: Balance where "IndexDeposit = 1 * DOLLARS"
definition TransactionByteFee :: Balance where "TransactionByteFee = 2 * MILLICENTS"
definition MinimumPeriod :: Moment where "MinimumPeriod = SLOT_DURATION div 2"
definition ElectionLookahead :: BlockNumber where "ElectionLookahead = EPOCH_DURATION_IN_BLOCKS div 4"
definition FastTrackVotingPeriod :: BlockNumber where "FastTrackVotingPeriod = 3 * 24 * 60 * MINUTES"
definition MinimumDeposit :: Balance where "MinimumDeposit = 10000 * DOLLARS"
definition CooloffPeriod :: BlockNumber where "CooloffPeriod = 7 * 24 * 60 * MINUTES"
definition PreimageByteDeposit :: Balance where "PreimageByteDeposit = 1 * CENTS"
definition CouncilMotionDuration :: BlockNumber where "CouncilMotionDuration = 14 * DAYS"
definition CandidacyBond :: Balance where "CandidacyBond = 10000 * DOLLARS"
definition VotingBond :: Balance where "VotingBond = 10 * DOLLARS"
definition TermDuration :: BlockNumber where "TermDuration = 28 * DAYS"
definition DesiredRunnersUp :: u32 where "DesiredRunnersUp = 7"
definition TechnicalMotionDuration :: BlockNumber where "TechnicalMotionDuration = 5 * DAYS"
definition ProposalBondMinimum :: Balance where "ProposalBondMinimum = 10000 * DOLLARS"
definition SpendPeriod :: BlockNumber where "SpendPeriod = 24 * DAYS"
definition TipCountdown :: BlockNumber where "TipCountdown = 1 * DAYS"
definition BountyDepositPayoutDelay :: BlockNumber where "BountyDepositPayoutDelay = 1 * DAYS"
definition BountyUpdatePeriod :: BlockNumber where "BountyUpdatePeriod = 14 * DAYS"
definition SessionDuration :: BlockNumber where "SessionDuration = ucast EPOCH_DURATION_IN_SLOTS"
definition MinVestedTransfer :: Balance where "MinVestedTransfer = 100 * DOLLARS"
definition RuntimeChainIdentity :: ChainId where "RuntimeChainIdentity = 1"
definition RuntimeProposalLifetime :: BlockNumber where "RuntimeProposalLifetime = 201600"

text \<open>The resource of the native token on the bridge; \<open>blake2_128\<close> is outside the repository.\<close>

definition RuntimeNativeTokenId :: "(bytes \<Rightarrow> bytes) \<Rightarrow> ResourceId" where
  "RuntimeNativeTokenId blake2_128 = derive_resource_id 1 (blake2_128 (ascii ''FIS''))"

section \<open>Proxies\<close>

text \<open>The pallets that have calls, as \<open>construct_runtime!\<close> lists them.\<close>

datatype (plugins only: code) Pallet =
    PSystem | PUtility | PBabe | PTimestamp | PAuthorship | PIndices | PBalances | PStaking | PSession | PDemocracy
  | PCouncil | PTechnicalCommittee | PElections | PTechnicalMembership | PFinalityTracker | PGrandpa | PTreasury
  | PSudo | PImOnline | PAuthorityDiscovery | POffences | PRandomnessCollectiveFlip | PIdentity | PRecovery
  | PVesting | PScheduler | PProxy | PMultisig | PXBalances | PRBalances | PRTokenRate | PRFis | PBridgeRelayers
  | PBridgeCommon | PBridgeSwap | PRTokenRelayers | PRTokenVotes | PRTokenLedger | PRTokenSeries | PXClaim | PRClaim
  | PRDexnPayers | PRDexnSignatures | PRDexnSwap | PRDexSwap | PLpBalances | PRDexMining

text \<open>A call of the runtime, as far as the proxy filter looks at it: the pallet and the function.\<close>

record RuntimeCall =
  call_pallet :: Pallet
  call_function :: string

datatype (plugins only: code) ProxyType = AnyProxy | NonTransfer | Governance | StakingProxy

definition ProxyType_default :: ProxyType where
  "ProxyType_default = AnyProxy"

fun proxy_filter :: "ProxyType \<Rightarrow> RuntimeCall \<Rightarrow> bool" where
  "proxy_filter AnyProxy c = True"
| "proxy_filter NonTransfer c =
     (\<not> (call_pallet c = PBalances
         \<or> call_pallet c = PVesting \<and> call_function c = ''vested_transfer''
         \<or> call_pallet c = PIndices \<and> call_function c = ''transfer''))"
| "proxy_filter Governance c =
     (call_pallet c = PDemocracy \<or> call_pallet c = PCouncil \<or> call_pallet c = PTechnicalCommittee
      \<or> call_pallet c = PElections \<or> call_pallet c = PTreasury)"
| "proxy_filter StakingProxy c = (call_pallet c = PStaking)"

definition is_superset :: "ProxyType \<Rightarrow> ProxyType \<Rightarrow> bool" where
  "is_superset x y =
     (if x = y then True
      else if x = AnyProxy then True
      else if y = AnyProxy then False
      else if x = NonTransfer then True
      else False)"

section \<open>Fees\<close>

text \<open>
  \<open>DealWithFees\<close>: an imbalance is an amount of money in transit, two of them merge by saturating addition.
  \<open>ration\<close> splits one in the given proportion; it belongs to the support library, and is an argument. What the
  iterator holds beyond the fees and the tips is dropped. The result is what the treasury and the author get.
\<close>

definition merge_into :: "Balance \<times> Balance \<Rightarrow> Balance \<times> Balance \<Rightarrow> Balance \<times> Balance" where
  "merge_into x others = (saturating_add (fst others) (fst x), saturating_add (snd others) (snd x))"

definition on_unbalanceds ::
    "(Balance \<Rightarrow> u32 \<Rightarrow> u32 \<Rightarrow> Balance \<times> Balance) \<Rightarrow> Balance list \<Rightarrow> (Balance \<times> Balance) option" where
  "on_unbalanceds ration fees_then_tips =
     (case fees_then_tips of
        [] \<Rightarrow> None
      | fees # rest \<Rightarrow>
          let split = ration fees 80 20 in
          Some (case rest of
                  [] \<Rightarrow> split
                | tips # _ \<Rightarrow> merge_into (ration tips 80 20) split))"

text \<open>A split loses nothing, and its first part is the share, rounded down, unless the product overflows.\<close>

definition ration_ok :: "(Balance \<Rightarrow> u32 \<Rightarrow> u32 \<Rightarrow> Balance \<times> Balance) \<Rightarrow> bool" where
  "ration_ok ration \<longleftrightarrow>
     (\<forall>x a b. unat (fst (ration x a b)) + unat (snd (ration x a b)) = unat x \<and>
        (unat x * unat a < 2 ^ 128 \<and> 0 < unat a + unat b \<and> unat a + unat b < 2 ^ 32
           \<longrightarrow> unat (fst (ration x a b)) = unat x * unat a div (unat a + unat b)))"

definition plain_ration :: "Balance \<Rightarrow> u32 \<Rightarrow> u32 \<Rightarrow> Balance \<times> Balance" where
  "plain_ration x a b =
     (let amount1 = min x (saturating_mul x (ucast a) div ucast (saturating_add a b)) in (amount1, x - amount1))"

section \<open>Votes\<close>

text \<open>\<open>CurrencyToVoteHandler\<close>, with the total issuance of the native token as an argument.\<close>

definition vote_factor :: "Balance \<Rightarrow> Balance" where
  "vote_factor issuance = max (issuance div ucast (- 1 :: u64)) 1"

definition to_vote :: "Balance \<Rightarrow> Balance \<Rightarrow> u64" where
  "to_vote issuance x = ucast (x div vote_factor issuance)"

definition of_vote :: "Balance \<Rightarrow> u128 \<Rightarrow> Balance" where
  "of_vote issuance v = v * vote_factor issuance"

section \<open>Signed transactions of offchain workers\<close>

text \<open>\<open>u32::checked_next_power_of_two\<close>.\<close>

fun next_power_of_two :: "nat \<Rightarrow> nat" where
  "next_power_of_two n = (if n \<le> 1 then 1 else 2 * next_power_of_two (n - n div 2))"

declare next_power_of_two.simps [simp del]

definition checked_next_power_of_two :: "u32 \<Rightarrow> u32 option" where
  "checked_next_power_of_two n =
     (if next_power_of_two (unat n) < 2 ^ 32 then Some (word_of_nat (next_power_of_two (unat n))) else None)"

text \<open>
  \<open>Era::mortal\<close>, the construction of a payload, the signature of the key store and the lookup are outside the
  repository: the fields of a record. The checks of a transaction that carry no data are left out of \<open>extra\<close>.
\<close>

record 'era tx_extra =
  tx_era :: 'era
  tx_nonce :: u32
  tx_tip :: Balance

record ('era, 'call, 'payload, 'public, 'sig, 'addr) tx_api =
  era_mortal :: "u64 \<Rightarrow> u64 \<Rightarrow> 'era"
  signed_payload :: "'call \<Rightarrow> 'era tx_extra \<Rightarrow> 'payload option"
  sign_payload :: "'payload \<Rightarrow> 'public \<Rightarrow> 'sig option"
  unlookup :: "AccountId \<Rightarrow> 'addr"

definition mortal_period :: u64 where
  "mortal_period = ucast (unwrap_or (map_option (\<lambda>c. c div 2) (checked_next_power_of_two BlockHashCount)) 2)"

definition create_transaction ::
    "('era, 'call, 'payload, 'public, 'sig, 'addr) tx_api \<Rightarrow> 'call \<Rightarrow> 'public \<Rightarrow> AccountId \<Rightarrow> u32 \<Rightarrow> BlockNumber
     \<Rightarrow> ('call \<times> 'addr \<times> 'sig \<times> 'era tx_extra) option" where
  "create_transaction T call public account nonce now =
     (let current_block = saturating_sub (ucast now) 1;
          era = era_mortal T mortal_period current_block;
          extra = \<lparr>tx_era = era, tx_nonce = nonce, tx_tip = 0\<rparr>
      in case signed_payload T call extra of
           None \<Rightarrow> None
         | Some raw_payload \<Rightarrow>
             (case sign_payload T raw_payload public of
                None \<Rightarrow> None
              | Some signature \<Rightarrow> Some (call, unlookup T account, signature, extra)))"

section \<open>Lemmas\<close>

lemmas runtime_constants = RuntimeProposalLifetime_def DAYS_def HOURS_def MINUTES_def SECS_PER_BLOCK_def
  MILLISECS_PER_BLOCK_def SLOT_DURATION_def EPOCH_DURATION_IN_SLOTS_def EPOCH_DURATION_IN_BLOCKS_def
  SlashDeferDuration_def RuntimeBondingDuration_def BlockHashCount_def DesiredMembers_def CouncilMaxMembers_def
  SessionDuration_def ElectionLookahead_def FastTrackVotingPeriod_def VotingPeriod_def EnactmentPeriod_def
  CouncilMotionDuration_def TermDuration_def SessionsPerEra_def RFisUnsignedPriority_def StakingUnsignedPriority_def ImOnlineUnsignedPriority_def

lemma next_power_of_two_hashes: "next_power_of_two 2400 = 4096"
  by (simp add: next_power_of_two.simps)

lemma mortal_period_value: "mortal_period = 2048"
  by (simp add: mortal_period_def checked_next_power_of_two_def BlockHashCount_def next_power_of_two_hashes)

lemma ration_ok_parts:
  assumes "ration_ok ration"
  shows "unat (fst (ration x a b)) + unat (snd (ration x a b)) = unat x"
  using assms by (simp add: ration_ok_def)

lemma ration_ok_share:
  assumes "ration_ok ration" and "unat x * 80 < 2 ^ 128"
  shows "unat (fst (ration x 80 20)) = unat x * 80 div 100"
  using assms(1) [unfolded ration_ok_def, rule_format, THEN conjunct2, of x 80 20] assms(2) by simp

lemma plain_ration_ok: "ration_ok plain_ration"
proof -
  have "unat (fst (plain_ration x a b)) = unat x * unat a div (unat a + unat b)"
    if "unat x * unat a < 2 ^ 128" and "0 < unat a + unat b" and "unat a + unat b < 2 ^ 32"
    for x :: Balance and a b :: u32
  proof -
    have "unat x * unat a div (unat a + unat b) \<le> unat x"
      by (metis div_le_mono div_mult_self_is_m le_add1 mult.commute mult_le_mono2 that(2))
    moreover have "unat (saturating_mul x (ucast a)) = unat x * unat a"
      using that(1) by (simp add: unat_saturating_mul unat_widen min_def)
    moreover have "unat (ucast (saturating_add a b) :: Balance) = unat a + unat b"
      using that(3) by (simp add: unat_saturating_add unat_widen min_def)
    ultimately show ?thesis
      by (simp add: plain_ration_def Let_def min_def word_le_nat_alt unat_div)
  qed
  moreover have "unat (fst (plain_ration x a b)) + unat (snd (plain_ration x a b)) = unat x"
    for x :: Balance and a b :: u32
    using word_le_nat_alt [THEN iffD1, OF min.cobounded1 [of x]]
    by (simp add: plain_ration_def Let_def unat_minus_exact)
  ultimately show ?thesis by (simp add: ration_ok_def)
qed

lemma vote_factor_nat: "unat (vote_factor issuance) = max (unat issuance div (2 ^ 64 - 1)) 1"
proof -
  have "unat (ucast (- 1 :: u64) :: Balance) = 2 ^ 64 - 1"
    using unat_widen [where 'a = 64 and 'b = 128, of "- 1"] unat_max [where 'a = 64] by simp
  then show ?thesis by (simp add: vote_factor_def max_def word_le_nat_alt unat_div)
qed

lemma votes_fit:
  assumes "2 * x \<le> issuance" and "0 < m"
  shows "x div max (issuance div m) 1 < (m :: nat)"
proof (cases "issuance div m = 0")
  case True
  then show ?thesis using assms by (auto simp: div_eq_0_iff)
next
  case False
  let ?q = "issuance div m"
  have "issuance < m * (?q + 1)" using dividend_less_times_div [OF assms(2)] by simp
  also have "\<dots> \<le> m * (2 * ?q)" using False by (intro mult_le_mono2) simp
  finally have "x < m * ?q" using assms(1) by simp
  then show ?thesis using False by (simp add: div_less_iff_less_mult max_absorb1 Suc_le_eq)
qed

lemma unat_to_vote:
  assumes "2 * unat x \<le> unat issuance"
  shows "unat (to_vote issuance x) = unat x div unat (vote_factor issuance)"
proof -
  have "unat x div unat (vote_factor issuance) < 2 ^ 64 - 1"
    unfolding vote_factor_nat by (rule votes_fit [OF assms]) simp
  then show ?thesis
    by (simp add: to_vote_def unsigned_ucast_eq unat_div take_bit_eq_mod)
qed

section \<open>Properties\<close>

text \<open>
  C33. \<open>is_superset\<close> is exactly inclusion: a proxy type is a superset of another if and only if it admits every call the
  other admits. So an account that may only act for another through one type can never hand out more than that.
\<close>

theorem proxy_superset_iff: "is_superset x y \<longleftrightarrow> (\<forall>c. proxy_filter y c \<longrightarrow> proxy_filter x c)"
proof -
  let ?c = "\<lambda>p. \<lparr>call_pallet = p, call_function = []\<rparr>"
  show ?thesis
  proof
    assume "is_superset x y"
    then show "\<forall>c. proxy_filter y c \<longrightarrow> proxy_filter x c"
      by (cases x; cases y) (auto simp: is_superset_def)
  next
    assume a: "\<forall>c. proxy_filter y c \<longrightarrow> proxy_filter x c"
    show "is_superset x y"
      using a [rule_format, of "?c PBalances"] a [rule_format, of "?c PStaking"] a [rule_format, of "?c PDemocracy"]
        a [rule_format, of "?c PSystem"]
      by (cases x; cases y) (simp_all add: is_superset_def)
  qed
qed

theorem proxy_superset_iff_witness:
  "is_superset NonTransfer Governance \<and> \<not> is_superset Governance NonTransfer
   \<and> (proxy_filter Governance \<lparr>call_pallet = PCouncil, call_function = ''vote''\<rparr>
        \<and> proxy_filter NonTransfer \<lparr>call_pallet = PCouncil, call_function = ''vote''\<rparr>)"
  using proxy_superset_iff [of NonTransfer Governance] proxy_superset_iff [of Governance NonTransfer]
  by (auto simp: is_superset_def)

text \<open>
  A proxy of type \<open>NonTransfer\<close> may nevertheless move tokens: rtokens, xtokens and units of liquidity, and the native
  token over the bridge or in the exchange.
\<close>

theorem non_transfer_moves_tokens:
  "proxy_filter NonTransfer \<lparr>call_pallet = PRBalances, call_function = ''transfer''\<rparr>"
  "proxy_filter NonTransfer \<lparr>call_pallet = PXBalances, call_function = ''transfer''\<rparr>"
  "proxy_filter NonTransfer \<lparr>call_pallet = PLpBalances, call_function = ''transfer''\<rparr>"
  "proxy_filter NonTransfer \<lparr>call_pallet = PBridgeSwap, call_function = ''transfer_native''\<rparr>"
  "proxy_filter NonTransfer \<lparr>call_pallet = PRDexSwap, call_function = ''swap''\<rparr>"
  by simp_all


text \<open>
  C32. A transaction leaves nothing behind: what the treasury and the author of the block receive of its fee and its tip is
  exactly their sum, and of each the treasury gets four fifths, rounded down.
\<close>

theorem fees_are_shared_out:
  assumes "ration_ok ration" and "unat fees + unat tips < 2 ^ 121"
  shows "\<exists>treasury author. on_unbalanceds ration (fees # tips # rest) = Some (treasury, author)
           \<and> unat treasury + unat author = unat fees + unat tips
           \<and> unat treasury = unat fees * 80 div 100 + unat tips * 80 div 100"
proof -
  have fees: "unat (fst (ration fees 80 20)) = unat fees * 80 div 100"
    and tips: "unat (fst (ration tips 80 20)) = unat tips * 80 div 100"
    by (rule ration_ok_share [OF assms(1)], use assms(2) in simp)+
  have parts: "unat (fst (ration x 80 20)) + unat (snd (ration x 80 20)) = unat x" for x
    by (rule ration_ok_parts [OF assms(1)])
  have "unat (saturating_add (fst (ration fees 80 20)) (fst (ration tips 80 20)))
        = unat (fst (ration fees 80 20)) + unat (fst (ration tips 80 20))"
    and "unat (saturating_add (snd (ration fees 80 20)) (snd (ration tips 80 20)))
        = unat (snd (ration fees 80 20)) + unat (snd (ration tips 80 20))"
    using assms(2) parts [of fees] parts [of tips] by (simp_all add: unat_saturating_add)
  then show ?thesis
    using parts [of fees] parts [of tips] fees tips by (simp add: on_unbalanceds_def merge_into_def Let_def)
qed

theorem fees_are_shared_out_witness:
  "ration_ok plain_ration \<and> on_unbalanceds plain_ration [103, 7] = Some (87, 23)
   \<and> (\<exists>treasury author. on_unbalanceds plain_ration [103, 7] = Some (treasury, author)
        \<and> unat treasury + unat author = 110)"
proof -
  have "on_unbalanceds plain_ration [103, 7] = Some (87, 23)"
    by (simp add: on_unbalanceds_def merge_into_def plain_ration_def saturating_mul_def saturating_add_def)
  then show ?thesis
    using fees_are_shared_out [OF plain_ration_ok, of 103 7 "[]"] plain_ration_ok by auto
qed

text \<open>
  The conversion of a stake to votes and back loses less than one vote, as long as the stake is at most half of the
  total issuance: no vote is cut off by the narrower width, and the value of the votes does not exceed the stake.
\<close>

theorem votes_roundtrip:
  assumes "2 * unat x \<le> unat issuance"
  shows "unat (of_vote issuance (ucast (to_vote issuance x))) \<le> unat x
         \<and> unat x < unat (of_vote issuance (ucast (to_vote issuance x))) + unat (vote_factor issuance)"
proof -
  have pos: "0 < unat (vote_factor issuance)" by (simp add: vote_factor_nat)
  have le: "unat x div unat (vote_factor issuance) * unat (vote_factor issuance) \<le> unat x"
    by (rule div_times_less_eq_dividend)
  then have "unat (of_vote issuance (ucast (to_vote issuance x)))
             = unat x div unat (vote_factor issuance) * unat (vote_factor issuance)"
    using le_less_trans [OF le unat_less_pow] unat_times_exact [of "ucast (to_vote issuance x)" "vote_factor issuance"]
    by (simp add: of_vote_def unat_widen unat_to_vote [OF assms])
  then show ?thesis
    using le dividend_less_times_div [OF pos, of "unat x"] by (simp add: mult.commute)
qed

theorem votes_roundtrip_witness:
  "2 * unat (10 ^ 19 + 3 :: Balance) \<le> unat (10 ^ 20 :: Balance)
   \<and> unat (of_vote (10 ^ 20) (ucast (to_vote (10 ^ 20) (10 ^ 19 + 3)))) \<le> 10 ^ 19 + 3"
  using votes_roundtrip [of "10 ^ 19 + 3" "10 ^ 20"] by simp

text \<open>
  Beyond half of the issuance the cast to 64 bits can wrap: the holder of a whole issuance of \<open>2 ^ 64\<close> units has no vote.
\<close>

theorem votes_wrap: "vote_factor (2 ^ 64) = 1" "to_vote (2 ^ 64) (2 ^ 64) = 0"
proof -
  have "unat (vote_factor (2 ^ 64)) = unat (1 :: Balance)"
    by (simp add: vote_factor_nat)
  then show factor: "vote_factor (2 ^ 64) = 1" by (simp only: word_unat_eq_iff)
  show "to_vote (2 ^ 64) (2 ^ 64) = 0"
    unfolding to_vote_def factor by simp
qed

text \<open>The identifier of the native token ends with the byte of this chain, whatever the hash.\<close>

theorem native_token_of_this_chain:
  "length (RuntimeNativeTokenId blake2_128) = 32 \<and> last (RuntimeNativeTokenId blake2_128) = RuntimeChainIdentity"
  by (simp add: RuntimeNativeTokenId_def derive_resource_id_layout RuntimeChainIdentity_def)

text \<open>
  The constants fit together: a proposal lives as long as a motion of the council, slashes are applied before the stake
  they concern is free, an offchain transaction is valid no longer than block hashes are kept and for at
  least half of that, the priorities of unsigned transactions are strictly ordered, four eras make a day, and a
  referendum is decided before it is enacted, faster on the fast track.
\<close>

theorem constants_consistent:
  "RuntimeProposalLifetime = CouncilMotionDuration"
  "SlashDeferDuration < RuntimeBondingDuration"
  "mortal_period \<le> ucast BlockHashCount" "ucast BlockHashCount \<le> 2 * mortal_period"
  "RFisUnsignedPriority < StakingUnsignedPriority" "StakingUnsignedPriority < ImOnlineUnsignedPriority"
  "DesiredMembers \<le> CouncilMaxMembers"
  "SessionDuration = EPOCH_DURATION_IN_BLOCKS" "ElectionLookahead < SessionDuration"
  "FastTrackVotingPeriod < VotingPeriod" "VotingPeriod < EnactmentPeriod" "CouncilMotionDuration < TermDuration"
  "ucast (SessionsPerEra * SessionDuration) * MILLISECS_PER_BLOCK * 4 = ucast DAYS * MILLISECS_PER_BLOCK"
  by (simp_all add: runtime_constants mortal_period_value)

end
