(* ===== verification/Std_Parse.thy ===== *)
theory Std_Parse
  imports Runtime_Types
begin

text \<open>
  What the node's command line uses of the standard library on strings: \<open>from_str\<close> of the unsigned integers, the decimal
  form of a number, and \<open>str::split\<close> on a set of characters.
\<close>

section \<open>Integers\<close>

datatype (plugins only: code) ParseIntError = EmptyString | InvalidDigit | PosOverflow

definition int_error_text :: "ParseIntError \<Rightarrow> string" where
  "int_error_text e =
     (case e of
        EmptyString \<Rightarrow> ''cannot parse integer from empty string''
      | InvalidDigit \<Rightarrow> ''invalid digit found in string''
      | PosOverflow \<Rightarrow> ''number too large to fit in target type'')"

definition to_digit :: "char \<Rightarrow> nat option" where
  "to_digit c = (if 48 \<le> (of_char c :: nat) \<and> (of_char c :: nat) \<le> 57 then Some (of_char c - 48) else None)"

text \<open>The loop of \<open>from_str\<close> for a type with the given number of values.\<close>

fun parse_digits :: "nat \<Rightarrow> nat \<Rightarrow> string \<Rightarrow> ParseIntError + nat" where
  "parse_digits bound acc [] = Inr acc"
| "parse_digits bound acc (c # cs) =
     (case to_digit c of
        None \<Rightarrow> Inl InvalidDigit
      | Some d \<Rightarrow> if acc * 10 + d < bound then parse_digits bound (acc * 10 + d) cs else Inl PosOverflow)"

definition parse_unsigned :: "nat \<Rightarrow> string \<Rightarrow> ParseIntError + nat" where
  "parse_unsigned bound s =
     (case s of
        [] \<Rightarrow> Inl EmptyString
      | c # cs \<Rightarrow>
          if c = CHR ''+'' then (if cs = [] then Inl InvalidDigit else parse_digits bound 0 cs)
          else parse_digits bound 0 s)"

text \<open>The decimal form of a number (\<open>Display\<close>).\<close>

definition digit_char :: "nat \<Rightarrow> char" where
  "digit_char d = char_of (48 + d)"

fun dec :: "nat \<Rightarrow> string" where
  "dec n = (if n < 10 then [digit_char n] else dec (n div 10) @ [digit_char (n mod 10)])"

declare dec.simps [simp del]

section \<open>Splitting\<close>

fun split_on :: "(char \<Rightarrow> bool) \<Rightarrow> string \<Rightarrow> string list" where
  "split_on P [] = [[]]"
| "split_on P (c # cs) =
     (if P c then [] # split_on P cs else (c # hd (split_on P cs)) # tl (split_on P cs))"

section \<open>Lemmas\<close>

lemma to_digit_char [simp]: "d < 10 \<Longrightarrow> to_digit (digit_char d) = Some d"
  by (simp add: to_digit_def digit_char_def)

lemma to_digit_lt: "to_digit c = Some d \<Longrightarrow> d < 10"
  by (auto simp: to_digit_def split: if_splits)

lemma parse_digits_append:
  "parse_digits bound acc (xs @ ys) =
     (case parse_digits bound acc xs of Inl e \<Rightarrow> Inl e | Inr v \<Rightarrow> parse_digits bound v ys)"
  by (induction xs arbitrary: acc) (auto split: option.splits)

lemma parse_digits_bound: "parse_digits bound acc s = Inr v \<Longrightarrow> acc < bound \<Longrightarrow> v < bound"
  by (induction s arbitrary: acc) (auto split: option.splits if_splits)

lemma parse_digits_dec: "n < bound \<Longrightarrow> parse_digits bound 0 (dec n) = Inr n"
proof (induction n rule: dec.induct)
  case (1 n)
  show ?case
  proof (cases "n < 10")
    case True
    then show ?thesis using "1.prems" by (simp add: dec.simps [of n])
  next
    case False
    then have "parse_digits bound 0 (dec (n div 10)) = Inr (n div 10)" using 1 by simp
    then show ?thesis
      using False "1.prems" by (simp add: dec.simps [of n] parse_digits_append)
  qed
qed

lemma dec_not_Nil [simp]: "dec n \<noteq> []"
  by (subst dec.simps) simp

lemma dec_digits: "c \<in> set (dec n) \<Longrightarrow> \<exists>d<10. c = digit_char d"
proof (induction n rule: dec.induct)
  case (1 n)
  then show ?case by (cases "n < 10") (auto simp: dec.simps [of n] intro: exI [of _ "n mod 10"])
qed

lemma digit_char_simps [simp]:
  "d < 10 \<Longrightarrow> digit_char d \<noteq> CHR ''+''" "d < 10 \<Longrightarrow> digit_char d \<noteq> CHR ''x''"
  "d < 10 \<Longrightarrow> digit_char d \<noteq> CHR '':''" "d < 10 \<Longrightarrow> digit_char d \<noteq> CHR ''.''"
  "d < 10 \<Longrightarrow> digit_char d \<noteq> CHR '' ''"
  by (auto simp: digit_char_def dest!: arg_cong [where f = "of_char :: char \<Rightarrow> nat"])

lemma dec_chars [simp]:
  "CHR ''x'' \<notin> set (dec n)" "CHR '':'' \<notin> set (dec n)" "CHR ''.'' \<notin> set (dec n)" "CHR '' '' \<notin> set (dec n)"
  using digit_char_simps by (metis dec_digits)+

lemma dec_length: "n < 10 ^ k \<Longrightarrow> 0 < k \<Longrightarrow> length (dec n) \<le> k"
proof (induction k arbitrary: n)
  case (Suc k)
  show ?case
  proof (cases "n < 10")
    case False
    then have "0 < k" using Suc.prems by (cases k) auto
    then show ?thesis using Suc False by (simp add: dec.simps [of n] less_mult_imp_div_less mult.commute)
  qed (simp add: dec.simps [of n])
qed simp

lemma parse_unsigned_dec [simp]:
  assumes "n < bound"
  shows "parse_unsigned bound (dec n) = Inr n"
proof (cases "dec n")
  case (Cons c cs)
  then have "c \<noteq> CHR ''+''" using dec_digits [of c n] by auto
  then show ?thesis using parse_digits_dec [OF assms] Cons by (simp add: parse_unsigned_def)
qed simp

lemma parse_unsigned_bound: "parse_unsigned bound s = Inr v \<Longrightarrow> 0 < bound \<Longrightarrow> v < bound"
  by (auto simp: parse_unsigned_def simp del: parse_digits.simps dest: parse_digits_bound
      split: list.splits if_splits)

lemma split_on_nonempty [simp]: "split_on P s \<noteq> []"
  by (cases s) auto

lemma split_on_sep:
  assumes "\<forall>c\<in>set xs. \<not> P c" and "P sep"
  shows "split_on P (xs @ sep # ys) = xs # split_on P ys"
  using assms by (induction xs) auto

lemma split_on_none: "\<forall>c\<in>set xs. \<not> P c \<Longrightarrow> split_on P xs = [xs]"
  by (induction xs) auto

end
