(* ===== verification/Genesis.thy ===== *)
theory Genesis
  imports Runtime Std_Parse "HOL-Library.Monad_Syntax"
begin

text \<open>
  The genesis states of the networks (\<open>node/cli/src/chain_spec.rs\<close> and the fixtures of the test network and the main
  network): what each chain specification puts into the storage of the pallets. Parts a specification leaves at their
  defaults, boot nodes and telemetry are left out. The derivation of keys from seeds, the hexadecimal decoder and the
  files of allocations are parameters.
\<close>

section \<open>Configurations\<close>

type_synonym PublicKey = "256 word"
type_synonym Authority = "AccountId \<times> AccountId \<times> PublicKey \<times> PublicKey \<times> PublicKey \<times> PublicKey"

record SessionKeys =
  sk_grandpa :: PublicKey
  sk_babe :: PublicKey
  sk_im_online :: PublicKey
  sk_authority_discovery :: PublicKey

definition session_keys :: "PublicKey \<Rightarrow> PublicKey \<Rightarrow> PublicKey \<Rightarrow> PublicKey \<Rightarrow> SessionKeys" where
  "session_keys grandpa babe im_online authority_discovery =
     \<lparr>sk_grandpa = grandpa, sk_babe = babe, sk_im_online = im_online,
      sk_authority_discovery = authority_discovery\<rparr>"

text \<open>Every staker of a genesis state is a validator; the fraction is a percentage.\<close>

record StakingConfig =
  validator_count :: u32
  minimum_validator_count :: u32
  genesis_stakers :: "(AccountId \<times> AccountId \<times> Balance) list"
  genesis_invulnerables :: "AccountId list"
  slash_reward_percent :: nat

record GenesisConfig =
  genesis_code :: bytes
  genesis_balances :: "(AccountId \<times> Balance) list"
  genesis_indices :: "(u32 \<times> AccountId) list"
  genesis_session :: "(AccountId \<times> AccountId \<times> SessionKeys) list"
  genesis_staking :: StakingConfig
  sudo_key :: AccountId
  babe_authorities :: "PublicKey list"
  im_online_keys :: "PublicKey list"
  authority_discovery_keys :: "PublicKey list"
  grandpa_authorities :: "PublicKey list"
  genesis_vesting :: "(AccountId \<times> BlockNumber \<times> BlockNumber \<times> Balance) list"

definition genesis ::
    "bytes \<Rightarrow> Authority list \<Rightarrow> AccountId \<Rightarrow> (AccountId \<times> Balance) list
     \<Rightarrow> (AccountId \<times> BlockNumber \<times> BlockNumber \<times> Balance) list \<Rightarrow> Balance \<Rightarrow> GenesisConfig" where
  "genesis code initial_authorities root_key balances vesting initial_stash_staked =
     \<lparr>genesis_code = code,
      genesis_balances = balances,
      genesis_indices = [],
      genesis_session = map (\<lambda>(x0, x1, x2, x3, x4, x5). (x0, x0, session_keys x2 x3 x4 x5)) initial_authorities,
      genesis_staking =
        \<lparr>validator_count = 6,
         minimum_validator_count = 3,
         genesis_stakers = map (\<lambda>(x0, x1, _). (x0, x1, initial_stash_staked)) initial_authorities,
         genesis_invulnerables = map fst initial_authorities,
         slash_reward_percent = 10\<rparr>,
      sudo_key = root_key,
      babe_authorities = [], im_online_keys = [], authority_discovery_keys = [], grandpa_authorities = [],
      genesis_vesting = vesting\<rparr>"

section \<open>Networks with fixtures\<close>

definition testnet_initial_authorities :: "Authority list" where
  "testnet_initial_authorities = [
     (0x308a03fec4d787f08caf4fa7c569ad59e75c240a749a67704d35ed71c8298356,
      0xc4d8c141c908b043a875e40a4a3ec930d60dfadc5a167a1f65970eaf34cb6e51,
      0x59b59e23011dae7880d251bc66e12bb493e2590e4421d85729d53250ccebb9e1,
      0xe4fb8581b21beb477a422612dc20b53e0c8b986679b051d5cdacbcca3cabce1b,
      0x36df8ec05dfdedff6a5fdd2ca12d9f89cf21f3305df1a32bb5676cf74d21610a,
      0x5c21e6638d52e1665ec71ce6a3c8aec241fdbc4525d7bfa41d19d0b41e82e877),
     (0x924cc3a998e6b2293fc46281e78be2a6693437bf33fcec370a9167bc33fdf17b,
      0xd409e31b8d45397b0b23d6955bb084ceae0c3635fd8e7fea58c46ffb389a7523,
      0x084e0f8dce7115060375d5e6a4f12604d5c66f51b4389ed39a4d0c7f64e4b887,
      0xd67b58dcda361d416a7e1b3cd2982cbc5f3bc77cba0d09aebb969454515ae452,
      0x7aec06d72bc18a077f21cc7471c96b826713c23fc465baa04c310d10298a885b,
      0xc698b8a18dc57dd8c3879adf4e5655e632235704de4c507fbde9da6aa0160501),
     (0x841b98d00ff0f9548c5792d53c842e1d0e741bea470e22051ab98ae85b510833,
      0x425ef3c6c4ca93e6047569bd61ebc0df15c9b54b460ddc4f28553c6c0ff1d518,
      0x92a3bc876c9621ec908114b7304d49617221c1bedb3ac47c384030193f5900b7,
      0xd2043de5ae6d474be26ab248efde1fc7ce02af6f647170bc88dd100fd662f779,
      0x74388096ebc0c6a259b1e431d21afb1505ed205467f4c9bd19b519e875758764,
      0x6234d601a7a973b3cd5dac3f805e94c0d24d8b83c32381646b2404d64f733f3c)]"

definition testnet_root_key :: AccountId where
  "testnet_root_key = 0x12a8b88f69ed1960f6fb77ad7937787c34432e459e933957d6c12106e4881122"

definition testnet_balances :: "(AccountId \<times> Balance) list" where
  "testnet_balances = [
     (0x308a03fec4d787f08caf4fa7c569ad59e75c240a749a67704d35ed71c8298356, 10000000 * FIS),
     (0xc4d8c141c908b043a875e40a4a3ec930d60dfadc5a167a1f65970eaf34cb6e51, 100 * FIS),
     (0x924cc3a998e6b2293fc46281e78be2a6693437bf33fcec370a9167bc33fdf17b, 10000000 * FIS),
     (0xd409e31b8d45397b0b23d6955bb084ceae0c3635fd8e7fea58c46ffb389a7523, 100 * FIS),
     (0x841b98d00ff0f9548c5792d53c842e1d0e741bea470e22051ab98ae85b510833, 10000000 * FIS),
     (0x425ef3c6c4ca93e6047569bd61ebc0df15c9b54b460ddc4f28553c6c0ff1d518, 100 * FIS),
     (0x12a8b88f69ed1960f6fb77ad7937787c34432e459e933957d6c12106e4881122, 10 * FIS),
     (0x22aa4571470fafa5dc60cbfcde7b563929ddd271c9b06a40c09479a63edde430, 10000000 * FIS),
     (0xdfcf9666b6c1c4346507b77ce0a9da67717bb03b24602245b6157e48b1152981, 30000000 * FIS),
     (0x8cba31dbd353953c5e87c68fd30326c533de480c6c832e1c8d2828e3dd11215c, 30000000 * FIS)]"

definition testnet_vestings :: "(AccountId \<times> BlockNumber \<times> BlockNumber \<times> Balance) list" where
  "testnet_vestings = [(0x22aa4571470fafa5dc60cbfcde7b563929ddd271c9b06a40c09479a63edde430, 3000, 500000, 0)]"

definition mainnet_initial_authorities :: "Authority list" where
  "mainnet_initial_authorities = [
     (0x92c12f73962397512c4b054852dc45173499be614b7fa44fb472823a9ed4903f,
      0xd81ff7e1068a40ae52f0074bc940ab6fd68e2fa8335421f4cae289da64db3c5c,
      0x39e2d5867649a13c4223236e56c05ac4edac9e10cafc0090491c87959ed15bab,
      0x28069e7be58b718f24b1f931ce653f70c8c54eeb0d8be6816210c5643488c151,
      0x2a6b9741b7434a290cd5303c17909c15c2630196ad520f7ec557ec505475147a,
      0x1e7517d38f065634db0850681ea7f90dcbcc41265f57f642745a4f54c26d3633),
     (0xa0b5c97bfd3a04fe40af53be040a57bf8841697752ef3d88cc1c55d2568cf409,
      0xd2d73256226ce1e27bfc69a51d7883eb6caae35e44ccc62b567804af2fdaa010,
      0x9484c608f4c65aae0edd17689f25a4563c55adea125ee537e5138ffd0e4f5ffd,
      0xe4cbe36de8161f8aa4444215362d0887eac22d0eb49c7e76974954ccda080e34,
      0xd67cbad1478265b87f7283609158f49fd2001af14bb2b90354dd0249916c694c,
      0xac0105b90c860b3a69488aa0721f5a4779161dac9e0e7f35a24a64280747c27b),
     (0x28623de774f97fb2a23ab3f7795d200ed2e8305ab42e31576e2bc83c1f86cf03,
      0xd485e0e27fe70cf09ba41300c77f8e06a7cfa06b44287058247bc49ed2ba6268,
      0x2c57b510fcc18b1463c531fcbb159f7622ee1344e1d1d71c9bde9a1bf67d2d2b,
      0xac412e4417b2d59ed90012a35d164054f44152e294018008ed91c61f838a6255,
      0xcc3d3f07aba16412b1d6c36f83bd864631bc3c32c1d81ce384060e37e590405b,
      0x66b6d7057643d1d80a668ec48a14a7e0bae5654730348da3f62f1911e6bbe328),
     (0x3e52b7dc4c5f8054544687a585cd86711e0c6b4a9b8d2824676d7381a1caf07f,
      0x0825263a54046ae2cf33f417e68bc2428f4bf274c413cff4161ccb6635d84f43,
      0x4c7c64e687d8b7221c910c37acdacaa853f6e4654d5c057becdc52624bd526ae,
      0x16362c472e4d61655485de73beef5e3f1a1ed988d1d3dd3c201767676c618678,
      0xacd62aeeefb10a7d5ce6f04644edd277cfdaa9813f2b6c66eecfffd129516d6b,
      0x7e7b5506c9d507be3558f1eb6d49cd6ebbf4785f126d10fb0378246e08f4d335),
     (0xc634ad8cbac42362747a07091b118018242b29b1c1aa9f77b575f4477882f101,
      0xa6fe09530be30e608eee8ccdd23a0445d3b42271fc82b0b8ac6658404cde1b38,
      0x42ecd642f0fed514be241d9d8769023d114ea3b1401deba81cf82da7557ea0c0,
      0xe2bcbfd3342007f4b703f0dd0195ba801ce138b387e16325d88c73efb8215854,
      0xda0361d06795e8e4eb57f416eb7766edcdee9a201925c17e960b4fdabeef5c57,
      0xf48250f1458393d3b4bf51c74fbfabf9567fd1499cbe3e57438e8abed9cb047f),
     (0xfa89c82dddf8319f01883bfd2975efe9d9428cf905b93bfbcf9a1e037c5caf53,
      0x3627bee90e5fb5843a565b93b2ecdef77ba2f4046f16bd8d65b692d323f22b35,
      0x69b7da81638e477b1ab592a0038b187dae3919d2999ed0a95e3e88a97c202973,
      0x7cfbadf2aa8e6401d8f57a2aa851af90bf357c9971058eb407201b8f30e37406,
      0x88871a702c45d4130760d848dbc849640dc967bdef64c041ec5eea6670becc13,
      0x14a1e4e11fc0d985240cb8fd33de48357059086ef18283fe8ea47e247807eb44)]"

definition mainnet_root_key :: AccountId where
  "mainnet_root_key = 0xe8b9fdb324ba6c0388a9d7e0ca0450a6a41aa7795e7428785ea2a329c58fde32"

definition stafi_testnet_config_genesis :: "bytes \<Rightarrow> GenesisConfig" where
  "stafi_testnet_config_genesis code =
     genesis code testnet_initial_authorities testnet_root_key testnet_balances testnet_vestings (1000 * FIS)"

text \<open>
  An allocation file holds accounts in hexadecimal and amounts in decimal. An entry that does not parse panics: the
  result is then \<open>None\<close>.
\<close>

record Allocation =
  alloc_balances :: "(string \<times> string) list"
  alloc_vesting :: "(string \<times> BlockNumber \<times> BlockNumber \<times> string) list"

definition parse_balance :: "string \<Rightarrow> Balance option" where
  "parse_balance s = (case parse_unsigned (2 ^ 128) s of Inl _ \<Rightarrow> None | Inr n \<Rightarrow> Some (word_of_nat n))"

definition allocated_balances :: "(string \<Rightarrow> AccountId option) \<Rightarrow> Allocation \<Rightarrow> (AccountId \<times> Balance) list option" where
  "allocated_balances hex32 allocation =
     map_option (filter (\<lambda>b. snd b > 0))
       (those (map (\<lambda>b. do { balance \<leftarrow> parse_balance (snd b); who \<leftarrow> hex32 (fst b); Some (who, balance) })
          (alloc_balances allocation)))"

definition allocated_vesting ::
    "(string \<Rightarrow> AccountId option) \<Rightarrow> Allocation \<Rightarrow> (AccountId \<times> BlockNumber \<times> BlockNumber \<times> Balance) list option" where
  "allocated_vesting hex32 allocation =
     those (map (\<lambda>(v0, v1, v2, v3). do { vesting_balance \<leftarrow> parse_balance v3; who \<leftarrow> hex32 v0; Some (who, v1, v2, vesting_balance) })
       (alloc_vesting allocation))"

definition stafi_sitara_testnet_config_genesis ::
    "(string \<Rightarrow> AccountId option) \<Rightarrow> Allocation \<Rightarrow> bytes \<Rightarrow> GenesisConfig option" where
  "stafi_sitara_testnet_config_genesis hex32 allocation code =
     do { balances \<leftarrow> allocated_balances hex32 allocation;
          vesting \<leftarrow> allocated_vesting hex32 allocation;
          Some (genesis code testnet_initial_authorities testnet_root_key balances vesting (1000 * FIS)) }"

definition stafi_mainnet_config_genesis ::
    "(string \<Rightarrow> AccountId option) \<Rightarrow> Allocation \<Rightarrow> bytes \<Rightarrow> GenesisConfig option" where
  "stafi_mainnet_config_genesis hex32 allocation code =
     do { balances \<leftarrow> allocated_balances hex32 allocation;
          vesting \<leftarrow> allocated_vesting hex32 allocation;
          Some (genesis code mainnet_initial_authorities mainnet_root_key balances vesting (300000 * FIS)) }"

section \<open>Networks of developers\<close>

text \<open>Key pairs derived from a phrase, per scheme, and the account of a key of the first.\<close>

record key_pairs =
  sr25519_from_string :: "string \<Rightarrow> PublicKey option"
  grandpa_from_string :: "string \<Rightarrow> PublicKey option"
  babe_from_string :: "string \<Rightarrow> PublicKey option"
  im_online_from_string :: "string \<Rightarrow> PublicKey option"
  authority_discovery_from_string :: "string \<Rightarrow> PublicKey option"
  account_of_key :: "PublicKey \<Rightarrow> AccountId"

definition get_from_seed :: "(string \<Rightarrow> PublicKey option) \<Rightarrow> string \<Rightarrow> PublicKey option" where
  "get_from_seed from_string seed = from_string (''//'' @ seed)"

definition get_account_id_from_seed :: "key_pairs \<Rightarrow> string \<Rightarrow> AccountId option" where
  "get_account_id_from_seed K seed = map_option (account_of_key K) (get_from_seed (sr25519_from_string K) seed)"

definition authority_keys_from_seed :: "key_pairs \<Rightarrow> string \<Rightarrow> Authority option" where
  "authority_keys_from_seed K seed =
     do { stash \<leftarrow> get_account_id_from_seed K (seed @ ''//stash'');
          controller \<leftarrow> get_account_id_from_seed K seed;
          grandpa \<leftarrow> get_from_seed (grandpa_from_string K) seed;
          babe \<leftarrow> get_from_seed (babe_from_string K) seed;
          im_online \<leftarrow> get_from_seed (im_online_from_string K) seed;
          discovery \<leftarrow> get_from_seed (authority_discovery_from_string K) seed;
          Some (stash, controller, grandpa, babe, im_online, discovery) }"

definition default_endowed :: "string list" where
  "default_endowed =
     [''Alice'', ''Bob'', ''Charlie'', ''Dave'', ''Eve'', ''Ferdie'',
      ''Alice//stash'', ''Bob//stash'', ''Charlie//stash'', ''Dave//stash'', ''Eve//stash'', ''Ferdie//stash'']"

definition ENDOWMENT :: Balance where "ENDOWMENT = 1000000 * FIS"
definition STASH :: Balance where "STASH = 100 * FIS"

definition testnet_genesis ::
    "key_pairs \<Rightarrow> bytes \<Rightarrow> Authority list \<Rightarrow> AccountId \<Rightarrow> AccountId list option \<Rightarrow> GenesisConfig option" where
  "testnet_genesis K code initial_authorities root_key endowed =
     do { endowed_accounts \<leftarrow>
            (case endowed of Some xs \<Rightarrow> Some xs | None \<Rightarrow> those (map (get_account_id_from_seed K) default_endowed));
          Some
            \<lparr>genesis_code = code,
             genesis_balances =
               map (\<lambda>k. (k, ENDOWMENT)) endowed_accounts @ map (\<lambda>x. (fst x, STASH)) initial_authorities,
             genesis_indices = [],
             genesis_session = map (\<lambda>(x0, x1, x2, x3, x4, x5). (x0, x0, session_keys x2 x3 x4 x5)) initial_authorities,
             genesis_staking =
               \<lparr>validator_count = word_of_nat (length initial_authorities) * 2,
                minimum_validator_count = word_of_nat (length initial_authorities),
                genesis_stakers = map (\<lambda>(x0, x1, _). (x0, x1, STASH)) initial_authorities,
                genesis_invulnerables = map fst initial_authorities,
                slash_reward_percent = 10\<rparr>,
             sudo_key = root_key,
             babe_authorities = [], im_online_keys = [], authority_discovery_keys = [], grandpa_authorities = [],
             genesis_vesting = []\<rparr> }"

definition development_config_genesis :: "key_pairs \<Rightarrow> bytes \<Rightarrow> GenesisConfig option" where
  "development_config_genesis K code =
     do { alice \<leftarrow> authority_keys_from_seed K ''Alice'';
          root \<leftarrow> get_account_id_from_seed K ''Alice'';
          testnet_genesis K code [alice] root None }"

definition local_testnet_genesis :: "key_pairs \<Rightarrow> bytes \<Rightarrow> GenesisConfig option" where
  "local_testnet_genesis K code =
     do { alice \<leftarrow> authority_keys_from_seed K ''Alice'';
          bob \<leftarrow> authority_keys_from_seed K ''Bob'';
          root \<leftarrow> get_account_id_from_seed K ''Alice'';
          testnet_genesis K code [alice, bob] root None }"

section \<open>Choice of a specification\<close>

text \<open>
  The specifications a node is started with: built from a genesis state, read from a file that is part of the
  program, or from a file of the user.
\<close>

datatype (plugins only: code) ChainSpec = FromGenesis string string "GenesisConfig option" | FromJsonBytes string | FromJsonFile string

definition load_spec ::
    "key_pairs \<Rightarrow> (string \<Rightarrow> AccountId option) \<Rightarrow> Allocation \<Rightarrow> Allocation \<Rightarrow> bytes \<Rightarrow> string \<Rightarrow> ChainSpec" where
  "load_spec K hex32 drop_sitara drop_mainnet code id0 =
     (if id0 = ''dev'' then FromGenesis ''Development'' ''dev'' (development_config_genesis K code)
      else if id0 = ''local'' then FromGenesis ''Local Testnet'' ''local_testnet'' (local_testnet_genesis K code)
      else if id0 = ''public-test''
        then FromGenesis ''Stafi Testnet Seiya'' ''stafi_public_testnet'' (Some (stafi_testnet_config_genesis code))
      else if id0 = ''testnet'' then FromJsonBytes ''testnet.json''
      else if id0 = ''incentive-test''
        then FromGenesis ''Stafi Testnet Sitara2.0'' ''stafi_sitara2.0''
               (stafi_sitara_testnet_config_genesis hex32 drop_sitara code)
      else if id0 = ''sitara'' then FromJsonBytes ''sitara-testnet.json''
      else if id0 = ''stafi''
        then FromGenesis ''Stafi'' ''stafi_mainnet'' (stafi_mainnet_config_genesis hex32 drop_mainnet code)
      else if id0 = [] \<or> id0 = ''mainnet'' then FromJsonBytes ''mainnet.json''
      else FromJsonFile id0)"

section \<open>Sound genesis states\<close>

text \<open>
  What a network needs of its first block: no account is endowed twice, every validator can pay its stake, stashes
  and controllers are all different, the validators of the session are the stakers, and there are enough
  of them.
\<close>

definition sound_genesis :: "GenesisConfig \<Rightarrow> bool" where
  "sound_genesis g \<longleftrightarrow>
     distinct (map fst (genesis_balances g)) \<and>
     list_all (\<lambda>(stash, _, stake). list_ex (\<lambda>(who, b). who = stash \<and> stake \<le> b) (genesis_balances g))
       (genesis_stakers (genesis_staking g)) \<and>
     distinct (map fst (genesis_stakers (genesis_staking g)) @ map (fst \<circ> snd) (genesis_stakers (genesis_staking g))) \<and>
     map fst (genesis_session g) = map fst (genesis_stakers (genesis_staking g)) \<and>
     unat (minimum_validator_count (genesis_staking g)) \<le> length (genesis_session g)"

section \<open>Lemmas\<close>

lemma those_map_Some: "(\<And>x. x \<in> set xs \<Longrightarrow> f x = Some (g x)) \<Longrightarrow> those (map f xs) = Some (map g xs)"
  by (induction xs) auto

lemma those_Some_map: "those (map f xs) = Some ys \<Longrightarrow> map f xs = map Some ys"
  by (induction xs arbitrary: ys) (auto split: option.splits)

lemma parse_balance_dec [simp]: "parse_balance (dec (unat b)) = Some b"
  using unat_less_pow [of b] by (simp add: parse_balance_def)

lemma session_of_authorities:
  "map fst (map (\<lambda>(x0, x1, x2, x3, x4, x5). (x0, x0, session_keys x2 x3 x4 x5)) auths) = map fst auths"
  by (induction auths) auto

lemma stakers_of_authorities:
  "map fst (map (\<lambda>(x0, x1, _). (x0, x1, stake)) auths) = map fst auths"
  "map (fst \<circ> snd) (map (\<lambda>(x0, x1, _). (x0, x1, stake)) auths) = map (fst \<circ> snd) auths"
  by (induction auths) auto

text \<open>The soundness of a genesis state with fixtures is a matter of the fixtures.\<close>

lemma sound_genesis_iff:
  "sound_genesis (genesis code auths root balances vesting stake) \<longleftrightarrow>
     distinct (map fst balances) \<and> (\<forall>x\<in>set auths. \<exists>b. (fst x, b) \<in> set balances \<and> stake \<le> b) \<and>
     distinct (map fst auths @ map (fst \<circ> snd) auths) \<and> 3 \<le> length auths"
proof -
  have "list_all (\<lambda>(stash, _, stake). list_ex (\<lambda>(who, b). who = stash \<and> stake \<le> b) balances)
          (map (\<lambda>(x0, x1, _). (x0, x1, stake)) auths)
        \<longleftrightarrow> (\<forall>x\<in>set auths. \<exists>b. (fst x, b) \<in> set balances \<and> stake \<le> b)"
    by (fastforce simp: list_all_iff list_ex_iff)
  then show ?thesis
    by (simp only: sound_genesis_def genesis_def GenesisConfig.simps StakingConfig.simps session_of_authorities
        stakers_of_authorities length_map) (simp add: conj_ac)
qed

lemma distinct_unat: "distinct (map unat xs) \<Longrightarrow> distinct xs"
  by (simp add: distinct_map)

lemma testnet_accounts_distinct:
  "distinct (map fst testnet_initial_authorities @ map (fst \<circ> snd) testnet_initial_authorities)"
  by (rule distinct_unat) (simp add: testnet_initial_authorities_def)

lemma mainnet_accounts_distinct:
  "distinct (map fst mainnet_initial_authorities @ map (fst \<circ> snd) mainnet_initial_authorities)"
  by (rule distinct_unat) (simp add: mainnet_initial_authorities_def)

section \<open>Properties\<close>

text \<open>
  The genesis state of the public test network is sound, and its supply is 100,000,310 tokens.
\<close>

theorem public_testnet_sound:
  "sound_genesis (stafi_testnet_config_genesis code)"
  "sum_list (map (unat \<circ> snd) (genesis_balances (stafi_testnet_config_genesis code))) = 100000310 * 10 ^ 12"
proof -
  have "\<forall>x\<in>set testnet_initial_authorities. (fst x, 10000000 * FIS) \<in> set testnet_balances"
    by (simp add: testnet_initial_authorities_def testnet_balances_def)
  moreover have "1000 * FIS \<le> 10000000 * FIS" by (simp add: FIS_def)
  moreover have "distinct (map fst testnet_balances)" by (rule distinct_unat) (simp add: testnet_balances_def)
  moreover have "3 \<le> length testnet_initial_authorities" by (simp add: testnet_initial_authorities_def)
  ultimately show "sound_genesis (stafi_testnet_config_genesis code)"
    unfolding stafi_testnet_config_genesis_def sound_genesis_iff using testnet_accounts_distinct by blast
  show "sum_list (map (unat \<circ> snd) (genesis_balances (stafi_testnet_config_genesis code))) = 100000310 * 10 ^ 12"
    by (simp add: stafi_testnet_config_genesis_def genesis_def testnet_balances_def FIS_def)
qed


text \<open>
  The genesis state of the main network is built if and only if every entry of the allocation file parses, and then
  it is sound exactly if the file endows no account twice and gives each of the six validators its stake.
\<close>

theorem mainnet_sound_iff:
  "stafi_mainnet_config_genesis hex32 allocation code = None
     \<longleftrightarrow> allocated_balances hex32 allocation = None \<or> allocated_vesting hex32 allocation = None"
  "stafi_mainnet_config_genesis hex32 allocation code = Some g \<Longrightarrow>
     sound_genesis g \<longleftrightarrow>
       distinct (map fst (genesis_balances g)) \<and>
       (\<forall>x\<in>set mainnet_initial_authorities. \<exists>b. (fst x, b) \<in> set (genesis_balances g) \<and> 300000 * FIS \<le> b)"
proof -
  show "stafi_mainnet_config_genesis hex32 allocation code = None
     \<longleftrightarrow> allocated_balances hex32 allocation = None \<or> allocated_vesting hex32 allocation = None"
    by (auto simp: stafi_mainnet_config_genesis_def Option.bind_eq_None_conv)
  assume "stafi_mainnet_config_genesis hex32 allocation code = Some g"
  then obtain bs vs where
    g: "g = genesis code mainnet_initial_authorities mainnet_root_key bs vs (300000 * FIS)"
    by (auto simp: stafi_mainnet_config_genesis_def Option.bind_eq_Some_conv)
  have "genesis_balances g = bs" by (simp add: g genesis_def)
  moreover have "3 \<le> length mainnet_initial_authorities" by (simp add: mainnet_initial_authorities_def)
  ultimately show "sound_genesis g \<longleftrightarrow>
       distinct (map fst (genesis_balances g)) \<and>
       (\<forall>x\<in>set mainnet_initial_authorities. \<exists>b. (fst x, b) \<in> set (genesis_balances g) \<and> 300000 * FIS \<le> b)"
    unfolding g sound_genesis_iff using mainnet_accounts_distinct by (simp only: g simp_thms)
qed

text \<open>
  An allocation survives its file: when accounts are written in a form the decoder reads back, and amounts in decimal, the
  endowments of the genesis state are the allocated ones in their order, without those of nothing.
\<close>

theorem allocation_roundtrip:
  assumes "\<And>who. hex32 (hex who) = Some who"
    and "alloc_balances allocation = map (\<lambda>(who, b). (hex who, dec (unat b))) bs"
  shows "allocated_balances hex32 allocation = Some (filter (\<lambda>b. snd b > 0) bs)"
proof -
  have "those (map (\<lambda>b. do { balance \<leftarrow> parse_balance (snd b); who \<leftarrow> hex32 (fst b); Some (who, balance) })
          (map (\<lambda>(who, b). (hex who, dec (unat b))) bs)) = Some bs"
    using those_map_Some [of bs _ "\<lambda>x. x"] by (simp add: comp_def assms(1) split_beta)
  then show ?thesis by (simp add: allocated_balances_def assms(2) split_beta)
qed

text \<open>
  The states of the development network and of the local network are not sound: the stash of every authority is among
  the accounts endowed by default, and is endowed a second time, with a different amount.
\<close>

theorem development_genesis_endows_twice:
  assumes "development_config_genesis K code = Some g"
  shows "\<not> sound_genesis g"
    "\<exists>stash. (stash, ENDOWMENT) \<in> set (genesis_balances g) \<and> (stash, STASH) \<in> set (genesis_balances g) \<and> ENDOWMENT \<noteq> STASH"
proof -
  obtain stash rest xs where g: "genesis_balances g = map (\<lambda>k. (k, ENDOWMENT)) xs @ [(stash, STASH)]"
    and stash: "get_account_id_from_seed K ''Alice//stash'' = Some stash"
    and xs: "those (map (get_account_id_from_seed K) default_endowed) = Some xs"
    using assms
    by (auto simp: development_config_genesis_def testnet_genesis_def authority_keys_from_seed_def
        Option.bind_eq_Some_conv)
  have "Some stash \<in> set (map (get_account_id_from_seed K) default_endowed)"
    by (simp add: default_endowed_def stash)
  then have mem: "stash \<in> set xs" by (auto simp: those_Some_map [OF xs])
  then show "\<not> sound_genesis g" by (auto simp: sound_genesis_def g comp_def)
  have "ENDOWMENT \<noteq> STASH" by (simp add: ENDOWMENT_def STASH_def FIS_def)
  then show "\<exists>stash. (stash, ENDOWMENT) \<in> set (genesis_balances g) \<and> (stash, STASH) \<in> set (genesis_balances g) \<and> ENDOWMENT \<noteq> STASH"
    using mem by (auto simp: g)
qed

end
