(* ===== verification/Inspect.thy ===== *)
theory Inspect
  imports Std_Parse
begin

text \<open>
  The \<open>inspect\<close> subcommand (\<open>node/inspect\<close>): the addresses of blocks and extrinsics a user types, their lookup in the
  chain, and the text that is printed. The client's database, the codec and the debug formats are outside the
  repository: fields of a record of parameters.
\<close>

section \<open>Addresses\<close>

datatype (plugins only: code) ('h, 'n) BlockAddress = HashAddress 'h | NumberAddress 'n | BytesAddress bytes

datatype (plugins only: code) ('h, 'n) ExtrinsicAddress = BlockExtrinsic "('h, 'n) BlockAddress" nat | BytesExtrinsic bytes

text \<open>
  The parsers of a hash, of a block number and of hexadecimal bytes: none is part of the crate, which is generic in the
  first two.
\<close>

record ('h, 'n) address_parsers =
  parse_hash :: "string \<Rightarrow> 'h option"
  parse_number :: "string \<Rightarrow> 'n option"
  from_hex :: "string \<Rightarrow> string + bytes"

definition BlockAddress_from_str :: "('h, 'n) address_parsers \<Rightarrow> string \<Rightarrow> string + ('h, 'n) BlockAddress" where
  "BlockAddress_from_str A s =
     (case parse_hash A s of
        Some h \<Rightarrow> Inr (HashAddress h)
      | None \<Rightarrow>
          (case parse_number A s of
             Some n \<Rightarrow> Inr (NumberAddress n)
           | None \<Rightarrow>
               (case from_hex A s of
                  Inr bytes \<Rightarrow> Inr (BytesAddress bytes)
                | Inl e \<Rightarrow>
                    Inl (''Given string does not look like hash or number. It could not be parsed as bytes either: '' @ e))))"

definition address_separator :: "char \<Rightarrow> bool" where
  "address_separator c \<longleftrightarrow> c = CHR ''.'' \<or> c = CHR '':'' \<or> c = CHR '' ''"

text \<open>The index is a \<open>usize\<close> of 64 bits.\<close>

definition ExtrinsicAddress_from_str :: "('h, 'n) address_parsers \<Rightarrow> string \<Rightarrow> string + ('h, 'n) ExtrinsicAddress" where
  "ExtrinsicAddress_from_str A s =
     (case from_hex A s of
        Inr bytes \<Rightarrow> Inr (BytesExtrinsic bytes)
      | Inl _ \<Rightarrow>
          let it = split_on address_separator s in
          (case BlockAddress_from_str A (hd it) of
             Inl e \<Rightarrow> Inl e
           | Inr block \<Rightarrow>
               (case tl it of
                  [] \<Rightarrow> Inl ''Extrinsic index missing: example \"5:0\"''
                | i # _ \<Rightarrow>
                    (case parse_unsigned (2 ^ 64) i of
                       Inl e \<Rightarrow> Inl (''Invalid index format: '' @ int_error_text e)
                     | Inr index \<Rightarrow> Inr (BlockExtrinsic block index)))))"

section \<open>Inspector\<close>

datatype (plugins only: code) ('h, 'n) BlockId = BlockId_hash 'h | BlockId_number 'n

record ('hd, 'ext) block =
  block_header :: 'hd
  block_extrinsics :: "'ext list"

datatype (plugins only: code) ('ce, 'be) inspect_error = CodecError 'ce | BlockchainError 'be | NotFound string

record ('h, 'n, 'hd, 'ext, 'ce, 'be) chain_access =
  block_body :: "('h, 'n) BlockId \<Rightarrow> 'be + 'ext list option"
  chain_header :: "('h, 'n) BlockId \<Rightarrow> 'be + 'hd option"
  decode_block :: "bytes \<Rightarrow> 'ce + ('hd, 'ext) block"
  decode_extrinsic :: "bytes \<Rightarrow> 'ce + 'ext"
  encode_block :: "('hd, 'ext) block \<Rightarrow> bytes"
  encode_extrinsic :: "'ext \<Rightarrow> bytes"
  debug_header :: "'hd \<Rightarrow> string"
  debug_extrinsic :: "'ext \<Rightarrow> string"
  debug_block :: "('hd, 'ext) block \<Rightarrow> string"
  debug_id :: "('h, 'n) BlockId \<Rightarrow> string"
  hex_display :: "bytes \<Rightarrow> string"

definition newline :: string where
  "newline = [char_of (10 :: nat)]"

text \<open>\<open>DebugPrinter\<close>.\<close>

definition fmt_extrinsic :: "('h, 'n, 'hd, 'ext, 'ce, 'be) chain_access \<Rightarrow> 'ext \<Rightarrow> string" where
  "fmt_extrinsic C ex =
     '' '' @ debug_extrinsic C ex @ newline @ '' Bytes: '' @ hex_display C (encode_extrinsic C ex) @ newline"

definition fmt_block :: "('h, 'n, 'hd, 'ext, 'ce, 'be) chain_access \<Rightarrow> ('hd, 'ext) block \<Rightarrow> string" where
  "fmt_block C b =
     ''Header:'' @ newline @ debug_header C (block_header b) @ newline
     @ ''Block bytes: '' @ hex_display C (encode_block C b) @ newline
     @ ''Extrinsics ('' @ dec (length (block_extrinsics b)) @ '')'' @ newline
     @ concat (map (\<lambda>(idx, ex). ''- '' @ dec idx @ '':'' @ newline @ fmt_extrinsic C ex)
         (enumerate 0 (block_extrinsics b)))"

text \<open>The two branches of \<open>get_block\<close> that read the chain differ in the identifier only.\<close>

definition block_by_id ::
    "('h, 'n, 'hd, 'ext, 'ce, 'be) chain_access \<Rightarrow> ('h, 'n) BlockId \<Rightarrow> ('ce, 'be) inspect_error + ('hd, 'ext) block" where
  "block_by_id C bid =
     (let not_found = NotFound (''Could not find block '' @ debug_id C bid) in
      case block_body C bid of
        Inl e \<Rightarrow> Inl (BlockchainError e)
      | Inr None \<Rightarrow> Inl not_found
      | Inr (Some body) \<Rightarrow>
          (case chain_header C bid of
             Inl e \<Rightarrow> Inl (BlockchainError e)
           | Inr None \<Rightarrow> Inl not_found
           | Inr (Some header) \<Rightarrow> Inr \<lparr>block_header = header, block_extrinsics = body\<rparr>))"

definition get_block ::
    "('h, 'n, 'hd, 'ext, 'ce, 'be) chain_access \<Rightarrow> ('h, 'n) BlockAddress
     \<Rightarrow> ('ce, 'be) inspect_error + ('hd, 'ext) block" where
  "get_block C input =
     (case input of
        BytesAddress bytes \<Rightarrow> (case decode_block C bytes of Inl e \<Rightarrow> Inl (CodecError e) | Inr b \<Rightarrow> Inr b)
      | NumberAddress number \<Rightarrow> block_by_id C (BlockId_number number)
      | HashAddress hash \<Rightarrow> block_by_id C (BlockId_hash hash))"

definition inspect_block ::
    "('h, 'n, 'hd, 'ext, 'ce, 'be) chain_access \<Rightarrow> ('h, 'n) BlockAddress \<Rightarrow> ('ce, 'be) inspect_error + string" where
  "inspect_block C input = (case get_block C input of Inl e \<Rightarrow> Inl e | Inr b \<Rightarrow> Inr (fmt_block C b))"

definition inspect_extrinsic ::
    "('h, 'n, 'hd, 'ext, 'ce, 'be) chain_access \<Rightarrow> ('h, 'n) ExtrinsicAddress \<Rightarrow> ('ce, 'be) inspect_error + string" where
  "inspect_extrinsic C input =
     (case (case input of
              BlockExtrinsic block index \<Rightarrow>
                (case get_block C block of
                   Inl e \<Rightarrow> Inl e
                 | Inr b \<Rightarrow>
                     if index < length (block_extrinsics b) then Inr (block_extrinsics b ! index)
                     else Inl (NotFound (''Could not find extrinsic '' @ dec index @ '' in block '' @ debug_block C b)))
            | BytesExtrinsic bytes \<Rightarrow>
                (case decode_extrinsic C bytes of Inl e \<Rightarrow> Inl (CodecError e) | Inr ex \<Rightarrow> Inr ex)) of
        Inl e \<Rightarrow> Inl e
      | Inr ext \<Rightarrow> Inr (fmt_extrinsic C ext))"

section \<open>The command\<close>

datatype (plugins only: code) InspectSubCmd = BlockCmd string | ExtrinsicCmd string

text \<open>What the command prints; the client is given, and an error of the inspector is turned into text.\<close>

definition inspect_run ::
    "('h, 'n) address_parsers \<Rightarrow> ('h, 'n, 'hd, 'ext, 'ce, 'be) chain_access \<Rightarrow> (('ce, 'be) inspect_error \<Rightarrow> string)
     \<Rightarrow> InspectSubCmd \<Rightarrow> string + string" where
  "inspect_run A C error_text cmd =
     (case cmd of
        BlockCmd input \<Rightarrow>
          (case BlockAddress_from_str A input of
             Inl e \<Rightarrow> Inl e
           | Inr a \<Rightarrow> (case inspect_block C a of Inl e \<Rightarrow> Inl (error_text e) | Inr res \<Rightarrow> Inr (res @ newline)))
      | ExtrinsicCmd input \<Rightarrow>
          (case ExtrinsicAddress_from_str A input of
             Inl e \<Rightarrow> Inl e
           | Inr a \<Rightarrow> (case inspect_extrinsic C a of Inl e \<Rightarrow> Inl (error_text e) | Inr res \<Rightarrow> Inr (res @ newline))))"

section \<open>Properties\<close>

text \<open>
  What the command relies on: a hash of 32 bytes has at least 64 digits, block numbers are parsed by the standard
  library as numbers of 32 bits, and hexadecimal bytes carry the prefix \<open>0x\<close>.
\<close>

definition parsers_ok :: "('h, BlockNumber) address_parsers \<Rightarrow> bool" where
  "parsers_ok A \<longleftrightarrow>
     (\<forall>s h. parse_hash A s = Some h \<longrightarrow> 64 \<le> length s) \<and>
     (\<forall>s. parse_number A s = (case parse_unsigned (2 ^ 32) s of Inl _ \<Rightarrow> None | Inr n \<Rightarrow> Some (word_of_nat n))) \<and>
     (\<forall>s bytes. from_hex A s = Inr bytes \<longrightarrow> take 2 s = ''0x'')"

lemma dec_no_prefix:
  assumes "xs = dec n @ ys" and "ys = [] \<or> hd ys \<noteq> CHR ''x''"
  shows "take 2 xs \<noteq> ''0x''"
proof (cases "dec n")
  case (Cons c cs)
  then show ?thesis using assms dec_chars(1) [of n] by (cases cs; cases ys) auto
qed simp

lemma dec_unat_length: "length (dec (unat (n :: BlockNumber))) \<le> 10"
  using unat_less_pow [of n] by (intro dec_length) simp_all

lemma block_number_parses:
  assumes "parsers_ok A"
  shows "BlockAddress_from_str A (dec (unat n)) = Inr (NumberAddress n)"
proof -
  have "parse_hash A (dec (unat n)) = None"
    using assms dec_unat_length [of n] by (cases "parse_hash A (dec (unat n))") (force simp: parsers_ok_def)+
  then show ?thesis
    using assms unat_less_pow [of n] by (simp add: BlockAddress_from_str_def parsers_ok_def)
qed

lemma dec_no_separator: "\<forall>c\<in>set (dec n). \<not> address_separator c"
  by (auto simp: address_separator_def)

lemma extrinsic_address_parses:
  assumes "parsers_ok A" and "address_separator sep" and "i < 2 ^ 64"
  shows "ExtrinsicAddress_from_str A (dec (unat n) @ sep # dec i) = Inr (BlockExtrinsic (NumberAddress n) i)"
proof -
  have "take 2 (dec (unat n) @ sep # dec i) \<noteq> ''0x''"
    using assms(2) by (intro dec_no_prefix) (auto simp: address_separator_def)
  then have "\<exists>e. from_hex A (dec (unat n) @ sep # dec i) = Inl e"
    using assms(1) unfolding parsers_ok_def by (metis sum.exhaust)
  then show ?thesis
    using assms(2,3) dec_no_separator
    by (auto simp: ExtrinsicAddress_from_str_def split_on_sep split_on_none block_number_parses [OF assms(1)])
qed

text \<open>
  C34. \<open>inspect extrinsic <block>:<index>\<close>, with the number and the index in decimal and any of the three separators, prints
  exactly the extrinsic at that position of the block, when the chain has the block; with an index beyond the
  block it reports that, and never panics.
\<close>

theorem inspect_prints_extrinsic:
  assumes "parsers_ok A" and "address_separator sep" and "i < 2 ^ 64"
    and "block_body C (BlockId_number n) = Inr (Some body)" and "chain_header C (BlockId_number n) = Inr (Some header)"
  shows "inspect_run A C error_text (ExtrinsicCmd (dec (unat n) @ sep # dec i)) =
           (if i < length body then Inr (fmt_extrinsic C (body ! i) @ newline)
            else Inl (error_text (NotFound (''Could not find extrinsic '' @ dec i @ '' in block ''
                   @ debug_block C \<lparr>block_header = header, block_extrinsics = body\<rparr>))))"
  using assms(4,5)
  by (simp add: inspect_run_def extrinsic_address_parses [OF assms(1-3)] inspect_extrinsic_def get_block_def
      block_by_id_def)

text \<open>A concrete chain with two blocks, the second with two extrinsics.\<close>

definition plain_parsers :: "(Hash, BlockNumber) address_parsers" where
  "plain_parsers =
     \<lparr>parse_hash = (\<lambda>s. None),
      parse_number = (\<lambda>s. case parse_unsigned (2 ^ 32) s of Inl _ \<Rightarrow> None | Inr n \<Rightarrow> Some (word_of_nat n)),
      from_hex = (\<lambda>s. if take 2 s = ''0x'' then Inr [] else Inl ''missing prefix'')\<rparr>"

definition plain_chain :: "(Hash, BlockNumber, nat, string, unit, unit) chain_access" where
  "plain_chain =
     \<lparr>block_body = (\<lambda>i. Inr (if i = BlockId_number 0 then Some [] else if i = BlockId_number 1 then Some [''a'', ''b''] else None)),
      chain_header = (\<lambda>i. Inr (if i = BlockId_number 0 then Some 0 else if i = BlockId_number 1 then Some 1 else None)),
      decode_block = (\<lambda>_. Inl ()), decode_extrinsic = (\<lambda>_. Inl ()), encode_block = (\<lambda>_. []),
      encode_extrinsic = (\<lambda>_. []), debug_header = dec, debug_extrinsic = (\<lambda>e. e),
      debug_block = (\<lambda>b. dec (block_header b)), debug_id = (\<lambda>_. ''block''), hex_display = (\<lambda>_. ''0x'')\<rparr>"

lemma plain_parsers_ok: "parsers_ok plain_parsers"
  by (auto simp: parsers_ok_def plain_parsers_def split: if_splits)

theorem inspect_prints_extrinsic_witness:
  "inspect_run plain_parsers plain_chain (\<lambda>_. ''error'') (ExtrinsicCmd (dec (unat (1 :: BlockNumber)) @ CHR '':'' # dec 1))
     = Inr ('' b'' @ newline @ '' Bytes: 0x'' @ newline @ newline)"
proof -
  have "block_body plain_chain (BlockId_number 1) = Inr (Some [''a'', ''b''])"
    and "chain_header plain_chain (BlockId_number 1) = Inr (Some 1)"
    by (simp_all add: plain_chain_def)
  from inspect_prints_extrinsic [OF plain_parsers_ok _ _ this, of "CHR '':''" 1 "\<lambda>_. ''error''"]
  show ?thesis by (simp add: address_separator_def fmt_extrinsic_def plain_chain_def)
qed

text \<open>
  An address without an index is refused with the hint the tests expect, whatever block it names.
\<close>

theorem extrinsic_index_missing:
  assumes "parsers_ok A"
  shows "ExtrinsicAddress_from_str A (dec (unat (n :: BlockNumber))) = Inl ''Extrinsic index missing: example \"5:0\"''"
proof -
  have "take 2 (dec (unat n)) \<noteq> ''0x''" by (rule dec_no_prefix [where ys = "[]"]) simp_all
  then have "\<exists>e. from_hex A (dec (unat n)) = Inl e"
    using assms unfolding parsers_ok_def by (metis sum.exhaust)
  then show ?thesis
    using dec_no_separator
    by (auto simp: ExtrinsicAddress_from_str_def split_on_none block_number_parses [OF assms])
qed

end
