(* ===== verification/Spec2Isabelle.thy ===== *)
theory Spec2Isabelle
  imports Mining_Rewards RFis_Eras RFis_Backing Runtime_Invariants Cosmos_Verify Genesis Inspect
begin

text \<open>
  A verification of the Stafi node: its runtime pallets (the crates under \<open>src/node/pallets\<close>), the logic of the runtime
  crate (\<open>src/node/runtime\<close>), the genesis states (\<open>src/node/cli\<close>) and the inspection of blocks (\<open>src/node/inspect\<close>).

  \<^bold>\<open>The program.\<close> Stafi is a Substrate chain for liquid staking. A user of another proof-of-stake chain sends
  tokens to a pool there, and receives an rtoken on Stafi (\<open>rtoken/series\<close>) once the relayers of that token
  have voted that the transfer happened (\<open>rtoken/votes\<close>, \<open>rtoken/relayers\<close>). Era by era the relayers report
  what the pools have bonded, earned and paid (\<open>rtoken/ledger\<close>); the last report of an era fixes the exchange
  rate of the rtoken (\<open>rtoken/rate\<close>). The tokens themselves are three copies of one balances pallet. They leave
  and enter the chain over a bridge (\<open>bridge/common\<close>, \<open>bridge/relayers\<close>, \<open>bridge/swap\<close>), are traded against the
  native token in pools (\<open>rdex/swap\<close>), whose units can be staked for rewards (\<open>rdex/mining\<close>), or sold for the
  native token of their own chain (\<open>rdexn/swap\<close>, \<open>rdexn/payers\<close>, \<open>rdexn/signatures\<close>). \<open>claims/rclaim\<close> rewards
  the minting of rtokens, \<open>claims/xclaim\<close> hands out promised xtokens. The native token itself is staked liquidly by
  \<open>rtoken/rfis\<close>: its pools are accounts of the pallet that bond through the staking pallet of Substrate, and an offchain
  worker submits, era by era, the unlocked pools, the paid out validators, the totals that fix the rate, and the nominations.

  \<^bold>\<open>How it is modelled.\<close> A dispatchable is a function from its origin, its arguments and the state of the runtime to an
  outcome (a value, a dispatch error or a panic) paired with the state it leaves behind; the combinators of
  \<open>Prelude\<close> mirror \<open>ensure!\<close>, \<open>ok_or(..)?\<close>, \<open>unwrap()\<close> and the \<open>?\<close> operator. Storage is not rolled back on an error,
  since FRAME of this vintage runs a dispatchable without a storage layer unless it is \<open>#[transactional]\<close>
  and none here is: errors after a write are visible, and several properties are about them. Integers are words of their
  width, with checked, saturating and wrapping operations as in the source; a plain \<open>+\<close> wraps, as in the release
  build. The state is a record that grows with the pallets, in this order: \<open>system\<close>, \<open>tokens_state\<close>,
  \<open>registry_state\<close>, \<open>rate_state\<close>, \<open>bridge_state\<close>, \<open>ledger_state\<close>, \<open>votes_state\<close>, \<open>rclaim_state\<close>, \<open>series_state\<close>,
  \<open>rdex_state\<close>, \<open>mining_state\<close>, \<open>xclaim_state\<close>, \<open>rdexn_state\<close>, \<open>rfis_state\<close>; an operation of a pallet works on every extension.

  \<^bold>\<open>The theories.\<close>
  \<^item> \<open>Prelude\<close>: machine arithmetic, outcomes, invariants and totality through the combinators (\<open>run_ok\<close>,
    \<open>run_keeps\<close>, \<open>run_total\<close>), vectors, sums.
  \<^item> \<open>Runtime_Types\<close> (\<open>node/primitives\<close> and the errors and events of the pallets): token symbols and chain types,
    origins, the system state and the parameters below.
  \<^item> \<open>Token_Balances\<close> (\<open>rtoken/balances\<close>, \<open>xtoken/balances\<close>, \<open>rdex/balances\<close>): the pallet once over a type of symbols,
    its three instances, and the locale \<open>token_currency\<close> of the laws the other pallets rely on, interpreted by all.
    The ledger refines an abstract book of balances; the recorded issuance is the sum of the balances.
  \<^item> \<open>Relayers\<close> (\<open>bridge/relayers\<close>, \<open>rtoken/relayers\<close>, \<open>rdexn/payers\<close>): registries with thresholds and the locale
    \<open>registry\<close>.
  \<^item> \<open>Rate\<close> (\<open>rtoken/rate\<close>): conversion between a token and its rtoken; no gain in a round trip, truncation to 64 bits.
  \<^item> \<open>Bridge\<close> (\<open>bridge/common\<close>) and \<open>Bridge_Swap\<close> (\<open>bridge/swap\<close>): proposals and votes of the relayers, deposits, and the
    transfers that use them. A proposal is dispatched at most once, with a quorum, and then surely; what leaves the
    chain is locked or burnt.
  \<^item> \<open>Ledger\<close> (\<open>rtoken/ledger\<close>): pools, pipelines, snapshots and reports. The protocol of a snapshot, the list of
    current snapshots, the beginning of an era, the rate set by the last report; no operation panics.
  \<^item> \<open>Votes\<close> (\<open>rtoken/votes\<close>): votes on proposals of an rtoken, each relayer counted once; what is dispatched when.
  \<^item> \<open>Signatures\<close> (\<open>general/signature\<close>, \<open>rtoken/series/src/signature.rs\<close>): verification of signatures per chain.
  \<^item> \<open>RClaim\<close> (\<open>claims/rclaim\<close>): reward acts; payments and promises within the budget, and on schedule.
  \<^item> \<open>Series\<close> (\<open>rtoken/series\<close>): bonding, execution of bond records, unbonding. No transfer is credited twice, the supply
    stays covered by the stake, an unbonding accounts for its whole value.
  \<^item> \<open>RDex_Swap\<close> and \<open>RDex_Reserves\<close> (\<open>rdex/swap\<close>): the exchange, its 512-bit arithmetic against the formulas over the
    natural numbers, the value of a unit of liquidity, the reserves the account of the pallet can pay.
  \<^item> \<open>Mining\<close> and \<open>Mining_Rewards\<close> (\<open>rdex/mining\<close>): staking of units; rewards within the budget of a grade, stakes
    covered; what removing a grade does.
  \<^item> \<open>XClaim\<close> (\<open>claims/xclaim\<close>): every promise can be claimed once.
  \<^item> \<open>RDexn\<close> (\<open>rdexn/swap\<close>, \<open>rdexn/signatures\<close>): the queue of payments, the reports and signatures of the payers.
  \<^item> \<open>Binary_Search\<close> (the standard library's search, which \<open>rtoken/rfis\<close> uses on its vectors): the loop, and the locale
    \<open>sorted_vec\<close> of what searching and inserting promise on a sorted vector.
  \<^item> \<open>RFis\<close> and \<open>RFis_Worker\<close> (\<open>rtoken/rfis\<close>): the dispatchables, the end of a block, the offchain worker and the validation
    of unsigned transactions. \<open>RFis_Types\<close>: the storage is well-formed in every reachable state. \<open>RFis_Pools\<close>: the
    account of a pool covers its active stake and all that is being unbonded; a withdrawal pays what is due.
    \<open>RFis_Backing\<close>: bonding and unbonding keep the supply of rFIS covered. \<open>RFis_Eras\<close>: the worker brings every era
    to its rate in a bounded number of blocks; which nominations pass; what an unsigned call of a stranger can do.
  \<^item> \<open>Runtime\<close> (\<open>node/runtime\<close>: \<open>constants.rs\<close>, \<open>impls.rs\<close>, \<open>lib.rs\<close>): constants and parameters, proxy types and what they
    admit, the sharing of fees, stakes as votes, transactions signed by offchain workers.
  \<^item> \<open>Runtime_Calls\<close> (\<open>construct_runtime!\<close> and the \<open>decl_module!\<close> of each pallet): the calls of all pallets and their dispatch. A
    proposal of the bridge or of an rtoken is again a call of the runtime, so \<open>runtime_call\<close> is recursive and
    \<open>runtime_dispatch\<close> runs the proposed call inside the acknowledgement. \<open>Runtime_Invariants\<close>: histories of the whole runtime
    (\<open>runtime_run\<close>), the locale \<open>runtime_relation\<close> of what relates the states before and after any call, and its
    interpretations: finished proposals and credited transfers are final, voters are counted once, the books of the
    tokens are sound.
  \<^item> \<open>Cosmos_Verify\<close> (\<open>rcrypto\<close>): verification of signatures of Cosmos chains, with the validation of UTF-8 it uses.
  \<^item> \<open>Std_Parse\<close> (integers and splitting of strings in the standard library), \<open>Genesis\<close> (\<open>node/cli\<close>: \<open>chain_spec.rs\<close>, the
    fixtures and \<open>load_spec\<close>): the genesis states, which of them are sound, the allocation files. \<open>Inspect\<close>
    (\<open>node/inspect\<close>): addresses, lookup and printing of blocks and extrinsics.

  \<^bold>\<open>Parameters and hypotheses.\<close> Code outside the repository is a parameter. The record \<open>config\<close> holds the native currency,
  account lookup and derivation, \<open>multiply_by_rational\<close>, \<open>Perbill\<close> arithmetic and the constants of the runtime; \<open>crypto\<close>
  the hashes, keys and signature schemes. What a property needs of them is a named hypothesis: \<open>currency_ok\<close> (a transfer
  moves the amount or fails and changes nothing), \<open>mul_rational_ok\<close>, \<open>perbill_ok\<close>, \<open>crypto_ok\<close> (lengths of keys and
  signatures). \<open>plain_config\<close> and \<open>plain_crypto\<close> satisfy them, and the witnesses evaluate the model on them. The
  call type of the voting pallets and its dispatch are parameters of those pallets, which \<open>runtime_dispatch\<close> instantiates;
  \<open>runtime_env\<close> gathers all parameters of the runtime, with the dispatch of the calls of Substrate's own pallets, which
  touch the native currency, the staking state and the events only, or carry calls of the runtime, as batches, proxies and
  \<open>sudo\<close> do. Writing raw storage and replacing the code, which the system pallet allows the root, are excluded. \<open>staking_api\<close> holds what \<open>rtoken/rfis\<close> reads and
  writes of the staking and session pallets, with the hypotheses \<open>staking_ok\<close> (a ledger is stored as it is given, a payout
  only adds to balances), \<open>eras_ok\<close> (none of these moves the era) and, for the progress of an era, a transaction
  pool that takes what it is fairly offered; \<open>plain_staking_api\<close> satisfies them. \<open>ration_ok\<close> is about the splitting of an
  imbalance, \<open>parsers_ok\<close> about the parsers of hashes and hexadecimal bytes.

  \<^bold>\<open>Histories.\<close> Invariants are stated over the states reachable by the operations of a pallet, failing ones included; a last
  rule, or a condition on the rest of the state, stands for the steps of the other pallets. The histories of the whole
  runtime need no such rule: they consist of calls of any pallet from any origin, ends of blocks, and what Substrate and the
  executive do. The conditions
  that exclude something are in the rules: an account of a pallet does not call the pallet, a counter of 32 bits does
  not wrap, two balances fit their width together.

  \<^bold>\<open>Loops.\<close> The loops of the pallets run over vectors or ranges and are structural recursions or list functions. The
  others terminate by a measure: the decimal digits of a length by its size, the binary search by the
  size of the range, the filling of nomination targets by the validators left. No fuel is used. That the worker finishes an
  era is a theorem, with a bound on the number of blocks.

  \<^bold>\<open>Not modelled.\<close> The trait wiring and the API of the runtime forward to
  Substrate's pallets, and its weights are generated; the service, the executor, RPC, benchmarks, test support and the
  wasm builder do input and output around the runtime. The encoding of storage is left out.
\<close>

end
